(* ===== verification/Prelude.thy ===== *)
theory Prelude
  imports Main "HOL-Library.Char_ord" "HOL-Library.List_Lexorder" "HOL-Library.Multiset"
begin

text \<open>
  Shared vocabulary of the development: the exceptions the services throw, results as sums,
  the retry loop of the serializable transactions, the JavaScript string operations and regular
  expressions the code uses, decimal rendering of bigints, and the stable comparator sort of
  \<^verbatim>\<open>Array.prototype.sort\<close>.
  Strings are lists of ASCII characters (the ids, codes and hashes of the program).  A bigint is
  an \<^typ>\<open>int\<close>; a \<^verbatim>\<open>number\<close> that the code keeps integral is an \<^typ>\<open>int\<close> too.
\<close>

named_theorems result_simps \<open>inversion rules for results and their sequencing\<close>
named_theorems string_classes \<open>definitions of character classes and fixed-length patterns\<close>

section \<open>Exceptions and results\<close>

text \<open>The exception classes of NestJS, the wallet's own error class, a plain \<^verbatim>\<open>Error\<close>, an
  exception raised by a database trigger or check constraint, a Prisma error with its code, the failure of a raw
  query (its code, \<^verbatim>\<open>meta.code\<close>, and the original code and kind of the driver adapter's error), an
  error of the driver adapter with the kind of its cause, and the recovery
  error of payments (phase, reason code, whether the money is committed, whether to retry, settlement).\<close>

datatype raw_query_code = P2010 | P2039

datatype api_error =
    BadRequestException string
  | UnauthorizedException string
  | ForbiddenException string
  | NotFoundException string
  | ConflictException string
  | ServiceUnavailableException string
  | GdsWalletInvariantError string
  | PlainError string
  | DatabaseError string
  | PrismaError string
  | RawQueryError raw_query_code "string option" "string option" "string option"
  | DriverAdapterError "string option"
  | PaymentRecoveryError string string bool bool "string option"

type_synonym 'a result = "api_error + 'a"

fun and_then :: "'e + 'a \<Rightarrow> ('a \<Rightarrow> 'e + 'b) \<Rightarrow> 'e + 'b" where
  "and_then (Inl e) f = Inl e"
| "and_then (Inr x) f = f x"

lemma and_then_Inr_iff [result_simps]:
  "and_then m f = Inr y \<longleftrightarrow> (\<exists>x. m = Inr x \<and> f x = Inr y)"
  by (cases m) auto

lemma and_then_Inl_iff [result_simps]:
  "and_then m f = Inl e \<longleftrightarrow> m = Inl e \<or> (\<exists>x. m = Inr x \<and> f x = Inl e)"
  by (cases m) auto

lemma and_then_assoc: "and_then (and_then m f) g = and_then m (\<lambda>x. and_then (f x) g)"
  by (cases m) auto

lemma if_Inl_eq_Inr [result_simps]: "((if b then Inl e else m) = Inr y) \<longleftrightarrow> \<not> b \<and> m = Inr y"
  by simp

fun is_ok :: "'e + 'a \<Rightarrow> bool" where
  "is_ok (Inl e) = False"
| "is_ok (Inr x) = True"

lemma is_ok_iff: "is_ok m \<longleftrightarrow> (\<exists>x. m = Inr x)"
  by (cases m) auto

text \<open>A loop whose body may throw, and a list mapped with a function that may throw.\<close>

fun fold_result :: "('s \<Rightarrow> 'a \<Rightarrow> 'e + 's) \<Rightarrow> 's \<Rightarrow> 'a list \<Rightarrow> 'e + 's" where
  "fold_result f s [] = Inr s"
| "fold_result f s (x # xs) = and_then (f s x) (\<lambda>s'. fold_result f s' xs)"

lemma fold_result_append:
  "fold_result f s (xs @ ys) = and_then (fold_result f s xs) (\<lambda>s'. fold_result f s' ys)"
  by (induction xs arbitrary: s) (simp_all add: and_then_assoc)

lemma fold_result_invariant:
  assumes "fold_result f s xs = Inr s'" and "P s"
    and "\<And>u x u'. x \<in> set xs \<Longrightarrow> P u \<Longrightarrow> f u x = Inr u' \<Longrightarrow> P u'"
  shows "P s'"
  using assms by (induction xs arbitrary: s) (auto simp: result_simps)

fun map_result :: "('a \<Rightarrow> 'e + 'b) \<Rightarrow> 'a list \<Rightarrow> 'e + 'b list" where
  "map_result f [] = Inr []"
| "map_result f (x # xs) = and_then (f x) (\<lambda>y. and_then (map_result f xs) (\<lambda>ys. Inr (y # ys)))"

lemma map_result_Inr_iff: "map_result f xs = Inr ys \<longleftrightarrow> list_all2 (\<lambda>x y. f x = Inr y) xs ys"
  by (induction xs arbitrary: ys) (auto simp: result_simps list_all2_Cons1)

text \<open>\<^verbatim>\<open>if (b) throw e\<close> before the rest of a handler.\<close>

definition throw_if :: "bool \<Rightarrow> 'e \<Rightarrow> 'e + 'a \<Rightarrow> 'e + 'a" where
  "throw_if b e k = (if b then Inl e else k)"

lemma throw_if_Inr [result_simps]: "throw_if b e k = Inr y \<longleftrightarrow> \<not> b \<and> k = Inr y"
  by (simp add: throw_if_def)

lemma throw_if_Inl [result_simps]: "throw_if b e k = Inl e' \<longleftrightarrow> b \<and> e = e' \<or> \<not> b \<and> k = Inl e'"
  by (auto simp: throw_if_def)

lemma throw_if_simps [simp]: "throw_if True e k = Inl e" "throw_if False e k = k"
  by (simp_all add: throw_if_def)

text \<open>Every result a computation can return satisfies a predicate: its rules follow the program text,
  so that a property of a handler reduces to its branches.\<close>

named_theorems wp \<open>what the results of a computation satisfy, by its first construct\<close>
named_theorems wp_intro \<open>the same, for operations described by a frame\<close>

definition ok_all :: "('a \<Rightarrow> bool) \<Rightarrow> 'e + 'a \<Rightarrow> bool" where
  "ok_all P m = (\<forall>x. m = Inr x \<longrightarrow> P x)"

lemma ok_allD: "ok_all P m \<Longrightarrow> m = Inr x \<Longrightarrow> P x"
  by (simp add: ok_all_def)

lemma ok_all_weaken: "ok_all Q m \<Longrightarrow> (\<And>x. Q x \<Longrightarrow> P x) \<Longrightarrow> ok_all P m"
  by (simp add: ok_all_def)

lemma ok_all_wp [wp]:
  "ok_all P (Inl e)" "ok_all P (Inr x) = P x"
  "ok_all P (and_then n f) = ok_all (\<lambda>x. ok_all P (f x)) n"
  "ok_all P (throw_if b e k) = (\<not> b \<longrightarrow> ok_all P k)"
  "ok_all P (if b then k1 else k2) = ((b \<longrightarrow> ok_all P k1) \<and> (\<not> b \<longrightarrow> ok_all P k2))"
  by (cases n; simp add: ok_all_def throw_if_def)+

lemma ok_all_case_wp [wp]:
  "ok_all P (case y of None \<Rightarrow> k1 | Some z \<Rightarrow> f z) = ((y = None \<longrightarrow> ok_all P k1) \<and> (\<forall>z. y = Some z \<longrightarrow> ok_all P (f z)))"
  "ok_all P (case p of (u, v) \<Rightarrow> g u v) = (\<forall>u v. p = (u, v) \<longrightarrow> ok_all P (g u v))"
  by (cases y; cases p; simp)+

text \<open>\<^verbatim>\<open>findUniqueOrThrow\<close>: a missing row is Prisma's \<^verbatim>\<open>P2025\<close>.\<close>

definition or_throw :: "'a option \<Rightarrow> 'a result" where
  "or_throw m = (case m of None \<Rightarrow> Inl (PrismaError ''P2025'') | Some x \<Rightarrow> Inr x)"

lemma or_throw_Inr [result_simps]: "or_throw m = Inr x \<longleftrightarrow> m = Some x"
  by (simp add: or_throw_def split: option.splits)

text \<open>\<^verbatim>\<open>if (!row) throw e\<close>\<close>

definition some_or :: "api_error \<Rightarrow> 'a option \<Rightarrow> ('a \<Rightarrow> 'b result) \<Rightarrow> 'b result" where
  "some_or e m k = (case m of None \<Rightarrow> Inl e | Some x \<Rightarrow> k x)"

lemma some_or_Inr [result_simps]: "some_or e m k = Inr y \<longleftrightarrow> (\<exists>x. m = Some x \<and> k x = Inr y)"
  by (simp add: some_or_def split: option.splits)

lemma some_or_simps [simp]: "some_or e None k = Inl e" "some_or e (Some x) k = k x"
  by (simp_all add: some_or_def)

lemma lookup_wp [wp]:
  "ok_all Q (or_throw n) = (\<forall>x. n = Some x \<longrightarrow> Q x)"
  "ok_all R (some_or e m k) = (\<forall>x. m = Some x \<longrightarrow> ok_all R (k x))"
  by (auto simp: ok_all_def result_simps)

section \<open>Retrying a serializable transaction\<close>

text \<open>
  A transaction body maps the database to an error or to a result with the new database; an
  error leaves the database as it was (rollback).  The body gets the attempt number, so that an
  abort the database decides on (a serialization conflict) can be given per attempt.
  The loop is the one of the wallet services: try again while the error is retryable and this is
  not the last attempt, otherwise rethrow.
\<close>

type_synonym ('s, 'a) txn = "'s \<Rightarrow> api_error + 'a \<times> 's"

fun retry_loop ::
  "(api_error \<Rightarrow> bool) \<Rightarrow> api_error \<Rightarrow> nat \<Rightarrow> nat \<Rightarrow> (nat \<Rightarrow> ('s, 'a) txn) \<Rightarrow> ('s, 'a) txn" where
  "retry_loop retryable exhausted attempt 0 act s = Inl exhausted"
| "retry_loop retryable exhausted attempt (Suc left) act s =
     (case act attempt s of
        Inr r \<Rightarrow> Inr r
      | Inl e \<Rightarrow>
          if retryable e \<and> left > 0
          then retry_loop retryable exhausted (Suc attempt) left act s
          else Inl e)"

text \<open>The environment may abort an attempt with an error of the database instead of running its body.\<close>

definition aborting :: "(nat \<Rightarrow> api_error option) \<Rightarrow> ('s, 'a) txn \<Rightarrow> nat \<Rightarrow> ('s, 'a) txn" where
  "aborting aborts body attempt s =
     (case aborts attempt of Some e \<Rightarrow> Inl e | None \<Rightarrow> body s)"

lemma retry_loop_commits_once:
  "retry_loop p ex a n (aborting ab body) s = Inr r \<Longrightarrow> body s = Inr r"
  by (induction n arbitrary: a)
     (auto simp: aborting_def split: sum.splits if_splits option.splits)

lemma retry_loop_no_abort:
  assumes "0 < n" and "ab a = None"
    and "\<And>e. body s = Inl e \<Longrightarrow> \<not> p e"
  shows "retry_loop p ex a n (aborting ab body) s = body s"
  using assms by (cases n) (auto simp: aborting_def split: sum.splits)

lemma retry_loop_not_exhausted:
  assumes "0 < n" and "retry_loop p ex a n act s = Inl e"
  shows "\<exists>k<n. act (a + k) s = Inl e"
  using assms
proof (induction n arbitrary: a)
  case 0
  then show ?case by simp
next
  case (Suc n)
  show ?case
  proof (cases "\<exists>e'. act a s = Inl e' \<and> p e' \<and> 0 < n")
    case True
    with Suc.prems have "retry_loop p ex (Suc a) n act s = Inl e" and n: "0 < n" by auto
    from Suc.IH [OF n this(1)] obtain k where "k < n" "act (Suc a + k) s = Inl e" by blast
    then have "Suc k < Suc n" "act (a + Suc k) s = Inl e" by auto
    then show ?thesis by blast
  next
    case False
    with Suc.prems have "act a s = Inl e" by (auto split: sum.splits if_splits)
    then show ?thesis by (intro exI [of _ 0]) simp
  qed
qed

section \<open>Characters, patterns and strings\<close>

definition digit_char :: "char \<Rightarrow> bool" where
  [string_classes]: "digit_char c \<longleftrightarrow> c \<in> set ''0123456789''"

definition upper_char :: "char \<Rightarrow> bool" where
  [string_classes]: "upper_char c \<longleftrightarrow> c \<in> set ''ABCDEFGHIJKLMNOPQRSTUVWXYZ''"

definition lower_char :: "char \<Rightarrow> bool" where
  [string_classes]: "lower_char c \<longleftrightarrow> c \<in> set ''abcdefghijklmnopqrstuvwxyz''"

definition hex_char :: "char \<Rightarrow> bool" where
  [string_classes]: "hex_char c \<longleftrightarrow> c \<in> set ''0123456789abcdef''"

definition hex_char_i :: "char \<Rightarrow> bool" where
  [string_classes]: "hex_char_i c \<longleftrightarrow> c \<in> set ''0123456789abcdefABCDEF''"

text \<open>A pattern of fixed length, one character class per position.\<close>

fun matches :: "(char \<Rightarrow> bool) list \<Rightarrow> string \<Rightarrow> bool" where
  "matches [] [] = True"
| "matches (p # ps) (c # cs) = (p c \<and> matches ps cs)"
| "matches _ _ = False"

lemma matches_length: "matches ps s \<Longrightarrow> length s = length ps"
  by (induction ps s rule: matches.induct) auto

definition uuid_pattern :: "(char \<Rightarrow> bool) list" where
  "uuid_pattern =
     replicate 8 hex_char_i @ [\<lambda>c. c = CHR ''-''] @ replicate 4 hex_char_i @ [\<lambda>c. c = CHR ''-'']
     @ [\<lambda>c. c \<in> set ''12345678''] @ replicate 3 hex_char_i @ [\<lambda>c. c = CHR ''-'']
     @ [\<lambda>c. c \<in> set ''89abAB''] @ replicate 3 hex_char_i @ [\<lambda>c. c = CHR ''-'']
     @ replicate 12 hex_char_i"

text \<open>\<^verbatim>\<open>/^[0-9a-f]{8}-[0-9a-f]{4}-[1-8][0-9a-f]{3}-[89ab][0-9a-f]{3}-[0-9a-f]{12}$/i\<close>\<close>

definition is_uuid :: "string \<Rightarrow> bool" where
  "is_uuid s = matches uuid_pattern s"

text \<open>\<^verbatim>\<open>/^[a-f0-9]{64}$/\<close>\<close>

definition is_sha256_hex :: "string \<Rightarrow> bool" where
  "is_sha256_hex s = (length s = 64 \<and> list_all hex_char s)"

text \<open>\<^verbatim>\<open>/^[A-Za-z0-9._:-]{8,128}$/\<close>, the idempotency keys of several services.\<close>

definition key_char :: "char \<Rightarrow> bool" where
  "key_char c = (upper_char c \<or> lower_char c \<or> digit_char c \<or> c \<in> set ''._:-'')"

definition is_request_key :: "string \<Rightarrow> bool" where
  "is_request_key k = (8 \<le> length k \<and> length k \<le> 128 \<and> list_all key_char k)"

definition js_space :: "char \<Rightarrow> bool" where
  "js_space c \<longleftrightarrow> c \<in> {CHR 0x09, CHR 0x0A, CHR 0x0B, CHR 0x0C, CHR 0x0D, CHR '' ''}"

definition js_trim :: "string \<Rightarrow> string" where
  "js_trim s = rev (dropWhile js_space (rev (dropWhile js_space s)))"

definition upper_of :: "char \<Rightarrow> char" where
  "upper_of c =
     (case map_of (zip ''abcdefghijklmnopqrstuvwxyz'' ''ABCDEFGHIJKLMNOPQRSTUVWXYZ'') c of
        Some u \<Rightarrow> u | None \<Rightarrow> c)"

definition js_upper :: "string \<Rightarrow> string" where
  "js_upper s = map upper_of s"

lemma js_upper_length [simp]: "length (js_upper s) = length s"
  by (simp add: js_upper_def)

definition lower_of :: "char \<Rightarrow> char" where
  "lower_of c =
     (case map_of (zip ''ABCDEFGHIJKLMNOPQRSTUVWXYZ'' ''abcdefghijklmnopqrstuvwxyz'') c of
        Some l \<Rightarrow> l | None \<Rightarrow> c)"

definition js_lower :: "string \<Rightarrow> string" where
  "js_lower s = map lower_of s"

text \<open>\<^verbatim>\<open>[...new Set(xs)]\<close>: the first occurrence of every element, in order.\<close>

definition uniq :: "'a list \<Rightarrow> 'a list" where
  "uniq xs = rev (remdups (rev xs))"

lemma set_uniq [simp]: "set (uniq xs) = set xs"
  by (simp add: uniq_def)

lemma distinct_uniq [simp]: "distinct (uniq xs)"
  by (simp add: uniq_def)

text \<open>The falsy string is the empty one.\<close>

abbreviation truthy :: "string \<Rightarrow> bool" where
  "truthy s \<equiv> s \<noteq> []"

fun opt_truthy :: "string option \<Rightarrow> bool" where
  "opt_truthy None = False"
| "opt_truthy (Some s) = truthy s"

section \<open>Searching a list\<close>

lemma find_SomeD: "find P xs = Some x \<Longrightarrow> x \<in> set xs \<and> P x"
  by (induction xs) (auto split: if_splits)

lemma find_NoneD: "find P xs = None \<Longrightarrow> x \<in> set xs \<Longrightarrow> \<not> P x"
  by (induction xs) (auto split: if_splits)

lemma find_ex: "find P xs = None \<longleftrightarrow> \<not> (\<exists>x\<in>set xs. P x)"
  by (induction xs) auto

lemma find_append: "find P (xs @ ys) = (case find P xs of None \<Rightarrow> find P ys | Some x \<Rightarrow> Some x)"
  by (induction xs) auto

lemma find_key: "find (\<lambda>x. k x = i) xs = Some y \<Longrightarrow> k y = i"
  by (auto dest: find_SomeD)

lemma find_key_in: "find (\<lambda>x. k x = i) xs = Some y \<Longrightarrow> i \<in> k ` set xs"
  by (induction xs) (auto split: if_splits)

lemma same_row:
  assumes "distinct (map k xs)" and "x \<in> set xs" and "y \<in> set xs" and "k x = k y"
  shows "x = y"
  using assms by (induction xs) (auto simp: rev_image_eqI)

text \<open>The position of an element.\<close>

definition index_of :: "'a \<Rightarrow> 'a list \<Rightarrow> nat" where
  "index_of x xs = length (takeWhile (\<lambda>y. y \<noteq> x) xs)"

lemma index_of_nth: "distinct xs \<Longrightarrow> n < length xs \<Longrightarrow> index_of (xs ! n) xs = n"
  by (induction xs arbitrary: n) (auto simp: index_of_def nth_Cons split: nat.splits)

section \<open>Tables\<close>

text \<open>A table is a list of rows; \<^verbatim>\<open>updateMany\<close> rewrites the rows that match.\<close>

definition update_where :: "('a \<Rightarrow> bool) \<Rightarrow> ('a \<Rightarrow> 'a) \<Rightarrow> 'a list \<Rightarrow> 'a list" where
  "update_where P f xs = map (\<lambda>x. if P x then f x else x) xs"

definition count_where :: "('a \<Rightarrow> bool) \<Rightarrow> 'a list \<Rightarrow> int" where
  "count_where P xs = int (length (filter P xs))"

lemma count_where_nonneg [simp]: "0 \<le> count_where P xs"
  by (simp add: count_where_def)

lemma count_where_append [simp]: "count_where P (xs @ ys) = count_where P xs + count_where P ys"
  by (simp add: count_where_def)

lemma count_where_Nil [simp]: "count_where P [] = 0"
  by (simp add: count_where_def)

lemma count_where_Cons [simp]: "count_where P (x # xs) = (if P x then 1 else 0) + count_where P xs"
  by (simp add: count_where_def)

lemma count_where_mono: "(\<And>x. P x \<Longrightarrow> Q x) \<Longrightarrow> count_where P xs \<le> count_where Q xs"
  by (induction xs) auto

lemma count_where_zero: "count_where P xs = 0 \<longleftrightarrow> (\<forall>x\<in>set xs. \<not> P x)"
  by (induction xs) (auto simp: add_nonneg_eq_0_iff)

lemma count_update_where:
  "count_where Q (update_where P f xs) = count_where (\<lambda>x. if P x then Q (f x) else Q x) xs"
  by (induction xs) (auto simp: update_where_def)

lemma count_key_le_1: "distinct (map k xs) \<Longrightarrow> count_where (\<lambda>x. k x = i) xs \<le> 1"
proof (induction xs)
  case (Cons x xs)
  show ?case
  proof (cases "k x = i")
    case True
    with Cons.prems have "\<forall>y\<in>set xs. k y \<noteq> i" by (metis distinct.simps(2) image_eqI list.simps(9) list.set_map)
    then have "count_where (\<lambda>x. k x = i) xs = 0" by (simp add: count_where_zero)
    with True show ?thesis by simp
  qed (use Cons in simp)
qed simp

text \<open>Changing the one row with a given key.\<close>

lemma count_update_key:
  assumes "distinct (map k xs)" and "x \<in> set xs" and "k x = j"
  shows "count_where Q (update_where (\<lambda>y. k y = j) f xs)
    = count_where Q xs - (if Q x then 1 else 0) + (if Q (f x) then 1 else 0)"
  using assms
proof (induction xs)
  case (Cons y ys)
  show ?case
  proof (cases "k y = j")
    case True
    with Cons.prems have y: "y = x" by (auto simp: image_iff)
    have "\<forall>z\<in>set ys. k z \<noteq> j" using True Cons.prems(1) by (auto simp: image_iff)
    then have "update_where (\<lambda>y. k y = j) f ys = ys" by (auto simp: update_where_def map_idI)
    with y True show ?thesis by (simp add: update_where_def)
  next
    case False
    with Cons.prems have "x \<in> set ys" by auto
    with Cons False show ?thesis by (simp add: update_where_def)
  qed
qed simp

lemma map_update_where_same:
  "(\<And>x. P x \<Longrightarrow> g (f x) = g x) \<Longrightarrow> map g (update_where P f xs) = map g xs"
  by (simp add: update_where_def)

lemma image_update_where_same:
  "(\<And>x. P x \<Longrightarrow> g (f x) = g x) \<Longrightarrow> g ` set (update_where P f xs) = g ` set xs"
  using map_update_where_same [of P g f xs] by (metis set_map)

lemma set_update_where: "set (update_where P f xs) = (\<lambda>x. if P x then f x else x) ` set xs"
  by (simp add: update_where_def)

lemma find_row:
  assumes "distinct (map k xs)" and "x \<in> set xs"
  shows "find (\<lambda>y. k y = k x) xs = Some x"
  using assms by (induction xs) (auto simp: rev_image_eqI)

text \<open>Rewriting the rows that match keeps the keys, and changes a sum over the table by the row that matched.\<close>

lemma find_updated:
  assumes "\<And>x. k (h x) = k x"
  shows "find (\<lambda>x. k x = i) (update_where P h xs)
       = map_option (\<lambda>x. if P x then h x else x) (find (\<lambda>x. k x = i) xs)"
  using assms by (induction xs) (auto simp: update_where_def)

lemma find_update_where:
  assumes "\<And>x. k (h x) = k x"
  shows "find (\<lambda>x. k x = i) (update_where (\<lambda>x. k x = j) h xs)
       = map_option (\<lambda>x. if k x = j then h x else x) (find (\<lambda>x. k x = i) xs)"
  using assms by (rule find_updated)

lemma sum_update_one:
  fixes g :: "'a \<Rightarrow> int"
  assumes "distinct (map k xs)" and "x \<in> set xs" and "\<And>y. y \<in> set xs \<Longrightarrow> P y \<longleftrightarrow> k y = k x"
  shows "sum_list (map g (filter Q (update_where P h xs)))
       = sum_list (map g (filter Q xs)) - (if Q x then g x else 0) + (if Q (h x) then g (h x) else 0)"
  using assms
proof (induction xs)
  case (Cons y ys)
  show ?case
  proof (cases "x = y")
    case True
    then have "update_where P h ys = ys"
      using Cons.prems by (auto simp: update_where_def rev_image_eqI intro!: map_idI)
    with True Cons.prems show ?thesis by (simp add: update_where_def)
  next
    case False
    then have "x \<in> set ys" "\<not> P y" using Cons.prems by (auto simp: rev_image_eqI)
    with Cons.IH Cons.prems show ?thesis by (simp add: update_where_def)
  qed
qed simp

text \<open>\<^verbatim>\<open>value ?? fallback\<close> on a property that may be absent or null.\<close>

fun nullish :: "'a option option \<Rightarrow> 'a \<Rightarrow> 'a" where
  "nullish (Some (Some x)) d = x"
| "nullish _ d = d"

section \<open>Decimal rendering\<close>

definition digit_of :: "nat \<Rightarrow> char" where
  "digit_of n = char_of (48 + n)"

fun show_nat :: "nat \<Rightarrow> string" where
  "show_nat n = (if n < 10 then [digit_of n] else show_nat (n div 10) @ [digit_of (n mod 10)])"

declare show_nat.simps [simp del]

definition show_int :: "int \<Rightarrow> string" where
  "show_int i = (if i < 0 then CHR ''-'' # show_nat (nat (- i)) else show_nat (nat i))"

fun read_digits :: "string \<Rightarrow> nat \<Rightarrow> nat" where
  "read_digits [] acc = acc"
| "read_digits (c # cs) acc = read_digits cs (10 * acc + (of_char c - 48))"

definition read_nat :: "string \<Rightarrow> nat" where
  "read_nat s = read_digits s 0"

lemma of_char_digit_of: "n < 10 \<Longrightarrow> (of_char (digit_of n) :: nat) = 48 + n"
  by (simp add: digit_of_def)

lemma read_digits_append: "read_digits (xs @ ys) a = read_digits ys (read_digits xs a)"
  by (induction xs arbitrary: a) auto

lemma read_show_nat: "read_nat (show_nat n) = n"
proof (induction n rule: show_nat.induct)
  case (1 n)
  show ?case
  proof (cases "n < 10")
    case True
    then show ?thesis by (simp add: show_nat.simps [of n] read_nat_def of_char_digit_of)
  next
    case False
    with "1" have "read_digits (show_nat (n div 10)) 0 = n div 10" by (simp add: read_nat_def)
    with False show ?thesis
      by (simp add: show_nat.simps [of n] read_nat_def read_digits_append of_char_digit_of)
  qed
qed

lemma show_nat_inject [simp]: "show_nat m = show_nat n \<longleftrightarrow> m = n"
  using read_show_nat by metis

lemma show_nat_nonempty [simp]: "show_nat n \<noteq> []"
  by (simp add: show_nat.simps [of n])

text \<open>\<^verbatim>\<open>s.padStart(n, c)\<close>\<close>

definition pad_start :: "nat \<Rightarrow> char \<Rightarrow> string \<Rightarrow> string" where
  "pad_start n c s = replicate (n - length s) c @ s"

section \<open>Stable sort with a comparator\<close>

text \<open>\<^verbatim>\<open>xs.sort(cmp)\<close>: stable since ECMAScript 2019.  The insertion keeps an element before the
  later elements that compare equal to it.\<close>

fun insert_cmp :: "('a \<Rightarrow> 'a \<Rightarrow> int) \<Rightarrow> 'a \<Rightarrow> 'a list \<Rightarrow> 'a list" where
  "insert_cmp cmp x [] = [x]"
| "insert_cmp cmp x (y # ys) = (if cmp x y \<le> 0 then x # y # ys else y # insert_cmp cmp x ys)"

fun js_sort :: "('a \<Rightarrow> 'a \<Rightarrow> int) \<Rightarrow> 'a list \<Rightarrow> 'a list" where
  "js_sort cmp [] = []"
| "js_sort cmp (x # xs) = insert_cmp cmp x (js_sort cmp xs)"

lemma mset_insert_cmp [simp]: "mset (insert_cmp cmp x ys) = add_mset x (mset ys)"
  by (induction ys) auto

lemma mset_js_sort [simp]: "mset (js_sort cmp xs) = mset xs"
  by (induction xs) auto

lemma set_js_sort [simp]: "set (js_sort cmp xs) = set xs"
  by (metis mset_js_sort set_mset_mset)

lemma length_js_sort [simp]: "length (js_sort cmp xs) = length xs"
  by (metis mset_js_sort size_mset)

text \<open>What a comparator has to satisfy for its sort to be determined by the multiset of its
  input: it is total and transitive, and elements that compare equal agree on a key.\<close>

locale comparator =
  fixes cmp :: "'a \<Rightarrow> 'a \<Rightarrow> int"
  assumes total: "cmp a b \<le> 0 \<or> cmp b a \<le> 0"
    and trans: "cmp a b \<le> 0 \<Longrightarrow> cmp b c \<le> 0 \<Longrightarrow> cmp a c \<le> 0"
begin

lemma set_insert_cmp: "set (insert_cmp cmp x ys) = insert x (set ys)"
  by (metis mset_insert_cmp set_mset_add_mset_insert set_mset_mset)

lemma sorted_insert_cmp:
  assumes "sorted_wrt (\<lambda>a b. cmp a b \<le> 0) ys"
  shows "sorted_wrt (\<lambda>a b. cmp a b \<le> 0) (insert_cmp cmp x ys)"
  using assms
proof (induction ys)
  case Nil
  then show ?case by simp
next
  case (Cons y ys)
  show ?case
  proof (cases "cmp x y \<le> 0")
    case True
    with Cons.prems show ?thesis by (auto intro: trans [of x y])
  next
    case False
    with total [of x y] have yx: "cmp y x \<le> 0" by auto
    with False Cons show ?thesis by (auto simp: set_insert_cmp)
  qed
qed

lemma sorted_js_sort: "sorted_wrt (\<lambda>a b. cmp a b \<le> 0) (js_sort cmp xs)"
  by (induction xs) (auto intro: sorted_insert_cmp)

lemma find_js_sort_least:
  assumes "find P (js_sort cmp xs) = Some x" and "y \<in> set xs" and "P y"
  shows "x = y \<or> cmp x y \<le> 0"
proof -
  have "find P ys = Some x \<Longrightarrow> sorted_wrt (\<lambda>a b. cmp a b \<le> 0) ys \<Longrightarrow> y \<in> set ys
        \<Longrightarrow> x = y \<or> cmp x y \<le> 0" for ys
    using assms(3) by (induction ys) (auto split: if_splits)
  from this [OF assms(1) sorted_js_sort] assms(2) show ?thesis by simp
qed

end

locale keyed_comparator = comparator cmp for cmp :: "'a \<Rightarrow> 'a \<Rightarrow> int" +
  fixes key :: "'a \<Rightarrow> 'k"
  assumes key_antisym: "cmp a b \<le> 0 \<Longrightarrow> cmp b a \<le> 0 \<Longrightarrow> key a = key b"
begin

lemma sorted_unique:
  assumes "sorted_wrt (\<lambda>a b. cmp a b \<le> 0) xs" and "sorted_wrt (\<lambda>a b. cmp a b \<le> 0) ys"
    and "mset xs = mset ys" and "inj_on key (set xs)"
  shows "xs = ys"
  using assms
proof (induction xs arbitrary: ys)
  case Nil
  then show ?case by simp
next
  case (Cons x xs)
  then obtain y ys' where ys: "ys = y # ys'" by (cases ys) auto
  have sets: "set (x # xs) = set (y # ys')"
    using Cons.prems(3) ys by (metis set_mset_mset)
  have "x = y"
  proof (rule ccontr)
    assume ne: "x \<noteq> y"
    with sets have "x \<in> set ys'" and "y \<in> set xs" by auto
    with Cons.prems(1,2) ys have "cmp x y \<le> 0" and "cmp y x \<le> 0" by auto
    then have "key x = key y" by (rule key_antisym)
    with Cons.prems(4) \<open>y \<in> set xs\<close> have "x = y" by (auto simp: inj_on_def)
    with ne show False by simp
  qed
  with Cons.prems ys have "xs = ys'" by (intro Cons.IH) (auto simp: inj_on_def)
  with \<open>x = y\<close> ys show ?case by simp
qed

lemma js_sort_order_independent:
  "mset xs = mset ys \<Longrightarrow> inj_on key (set xs) \<Longrightarrow> js_sort cmp xs = js_sort cmp ys"
  by (rule sorted_unique) (simp_all add: sorted_js_sort)

end

section \<open>Ordered pages\<close>

text \<open>\<^verbatim>\<open>orderBy: [{ createdAt: 'desc' }, { id: 'desc' }]\<close> with \<^verbatim>\<open>skip\<close> and
  \<^verbatim>\<open>take\<close>, the page query most list endpoints use.\<close>

definition newest_first :: "('a \<Rightarrow> int) \<Rightarrow> ('a \<Rightarrow> string) \<Rightarrow> 'a \<Rightarrow> 'a \<Rightarrow> int" where
  "newest_first tm rid a b =
     (if tm a \<noteq> tm b then (if tm a > tm b then -1 else 1)
      else if rid a > rid b then -1 else if rid a < rid b then 1 else 0)"

definition page_of :: "nat \<Rightarrow> nat \<Rightarrow> 'a list \<Rightarrow> 'a list" where
  "page_of page psize xs = take psize (drop ((page - 1) * psize) xs)"

text \<open>\<^verbatim>\<open>Math.ceil(total / pageSize)\<close>\<close>

definition total_pages :: "nat \<Rightarrow> nat \<Rightarrow> nat" where
  "total_pages n psize = (n + psize - 1) div psize"

record 'a page =
  pg_items :: "'a list"
  pg_page :: nat
  pg_page_size :: nat
  pg_total :: nat
  pg_total_pages :: nat

definition make_page :: "('a \<Rightarrow> 'b) \<Rightarrow> nat \<Rightarrow> nat \<Rightarrow> 'a list \<Rightarrow> 'b page" where
  "make_page f page psize xs =
     \<lparr>pg_items = map f (page_of page psize xs), pg_page = page, pg_page_size = psize,
      pg_total = length xs, pg_total_pages = total_pages (length xs) psize\<rparr>"

interpretation newest: comparator "newest_first tm rid" for tm :: "'a \<Rightarrow> int" and rid :: "'a \<Rightarrow> string"
  by unfold_locales (auto simp: newest_first_def split: if_splits)

interpretation newest_keyed: keyed_comparator "newest_first tm rid" rid
  for tm :: "'a \<Rightarrow> int" and rid :: "'a \<Rightarrow> string"
  by unfold_locales (auto simp: newest_first_def split: if_splits)

lemma pages_concat_upto:
  assumes "0 < psize"
  shows "concat (map (\<lambda>p. page_of p psize xs) [1..<Suc n]) = take (n * psize) xs"
proof (induction n)
  case 0
  then show ?case by simp
next
  case (Suc n)
  have "concat (map (\<lambda>p. page_of p psize xs) [1..<Suc (Suc n)]) = take (n * psize) xs @ page_of (Suc n) psize xs"
    using Suc by simp
  also have "\<dots> = take (n * psize + psize) xs" by (simp add: page_of_def take_add)
  finally show ?case by (simp add: add.commute)
qed

lemma pages_cover:
  assumes "0 < psize"
  shows "concat (map (\<lambda>p. page_of p psize xs) [1..<Suc (total_pages (length xs) psize)]) = xs"
proof -
  have "length xs \<le> (length xs + psize - 1) div psize * psize"
    using assms dividend_less_times_div [of psize "length xs + psize - 1"]
    by (simp add: mult.commute)
  then show ?thesis
    unfolding pages_concat_upto [OF assms] total_pages_def by simp
qed

section \<open>JavaScript numbers\<close>

text \<open>
  A \<^verbatim>\<open>number\<close> that reaches a \<^verbatim>\<open>Number.isInteger\<close> check is an integer or
  something else (a fraction, \<^verbatim>\<open>NaN\<close>, an infinity); the code rejects the latter.
\<close>

datatype js_number = Integral int | NonIntegral

definition max_safe_integer :: int where
  "max_safe_integer = 9007199254740991"

fun is_safe_integer :: "js_number \<Rightarrow> bool" where
  "is_safe_integer (Integral i) = (\<bar>i\<bar> \<le> max_safe_integer)"
| "is_safe_integer NonIntegral = False"

end
