(* ===== verification/Calendar.thy ===== *)
theory Calendar
  imports Prelude
begin

text \<open>
  The UTC part of ECMAScript dates: a valid \<^verbatim>\<open>Date\<close> is its time value, the
  milliseconds since 1970-01-01T00:00Z; the functions are those of the language specification
  (\<^verbatim>\<open>Day\<close>, \<^verbatim>\<open>YearFromTime\<close>, \<^verbatim>\<open>MonthFromTime\<close>,
  \<^verbatim>\<open>DateFromTime\<close>, \<^verbatim>\<open>MakeDay\<close>, \<^verbatim>\<open>MakeDate\<close>).
  Months count from 0.  The range limit of 100,000,000 days around 1970 is not modelled.
\<close>

definition ms_per_day :: int where "ms_per_day = 86400000"

definition day_from_year :: "int \<Rightarrow> int" where
  "day_from_year y = 365 * (y - 1970) + (y - 1969) div 4 - (y - 1901) div 100 + (y - 1601) div 400"

definition leap_year :: "int \<Rightarrow> bool" where
  "leap_year y \<longleftrightarrow> y mod 4 = 0 \<and> (y mod 100 \<noteq> 0 \<or> y mod 400 = 0)"

text \<open>The greatest year that starts no later than the day, from an estimate that is off by at most
  one.\<close>

definition year_from_day :: "int \<Rightarrow> int" where
  "year_from_day d =
     (let y = 1970 + (400 * d) div 146097
      in if d < day_from_year y then y - 1 else if day_from_year (y + 1) \<le> d then y + 1 else y)"

definition days_before_month :: "int \<Rightarrow> int \<Rightarrow> int" where
  "days_before_month y m =
     [0, 31, 59, 90, 120, 151, 181, 212, 243, 273, 304, 334] ! nat m + (if 2 \<le> m \<and> leap_year y then 1 else 0)"

definition days_in_month :: "int \<Rightarrow> int \<Rightarrow> int" where
  "days_in_month y m =
     [31, 28, 31, 30, 31, 30, 31, 31, 30, 31, 30, 31] ! nat m + (if m = 1 \<and> leap_year y then 1 else 0)"

definition month_from_day :: "int \<Rightarrow> int" where
  "month_from_day d =
     (let y = year_from_day d; n = d - day_from_year y
      in if n < days_before_month y 1 then 0 else if n < days_before_month y 2 then 1
         else if n < days_before_month y 3 then 2 else if n < days_before_month y 4 then 3
         else if n < days_before_month y 5 then 4 else if n < days_before_month y 6 then 5
         else if n < days_before_month y 7 then 6 else if n < days_before_month y 8 then 7
         else if n < days_before_month y 9 then 8 else if n < days_before_month y 10 then 9
         else if n < days_before_month y 11 then 10 else 11)"

definition date_from_day :: "int \<Rightarrow> int" where
  "date_from_day d =
     (let y = year_from_day d in d - day_from_year y - days_before_month y (month_from_day d) + 1)"

definition make_day :: "int \<Rightarrow> int \<Rightarrow> int \<Rightarrow> int" where
  "make_day y m dt =
     (let ym = y + m div 12; mn = m mod 12 in day_from_year ym + days_before_month ym mn + dt - 1)"

section \<open>Time values\<close>

definition day_of :: "int \<Rightarrow> int" where "day_of t = t div ms_per_day"

definition time_in_day :: "int \<Rightarrow> int" where "time_in_day t = t mod ms_per_day"

definition make_date :: "int \<Rightarrow> int \<Rightarrow> int" where "make_date day time = day * ms_per_day + time"

definition utc_full_year :: "int \<Rightarrow> int" where "utc_full_year t = year_from_day (day_of t)"

definition utc_month :: "int \<Rightarrow> int" where "utc_month t = month_from_day (day_of t)"

definition utc_date :: "int \<Rightarrow> int" where "utc_date t = date_from_day (day_of t)"

definition set_utc_date :: "int \<Rightarrow> int \<Rightarrow> int" where
  "set_utc_date t dt = make_date (make_day (utc_full_year t) (utc_month t) dt) (time_in_day t)"

definition set_utc_month :: "int \<Rightarrow> int \<Rightarrow> int" where
  "set_utc_month t m = make_date (make_day (utc_full_year t) m (utc_date t)) (time_in_day t)"

text \<open>\<^verbatim>\<open>Date.UTC(y, m, d)\<close> at midnight; it reads the years 0 to 99 as 1900 to 1999.\<close>

definition date_utc :: "int \<Rightarrow> int \<Rightarrow> int \<Rightarrow> int" where
  "date_utc y m dt = make_date (make_day (if 0 \<le> y \<and> y \<le> 99 then 1900 + y else y) m dt) 0"

section \<open>Years and months partition the days\<close>

lemma div_bounds:
  assumes "0 < (k::int)"
  shows "k * (a div k) \<le> a \<and> a < k * (a div k) + k"
proof -
  have "a = k * (a div k) + a mod k" by simp
  with pos_mod_sign [OF assms, of a] pos_mod_bound [OF assms, of a] show ?thesis by linarith
qed

lemma div_step:
  assumes "0 < (k::int)"
  shows "(a + 1) div k - a div k = (if (a + 1) mod k = 0 then 1 else 0)"
proof (cases "a mod k = k - 1")
  case True
  have e: "a + 1 = k * (a div k + 1) + 0" using mult_div_mod_eq [of k a] True by (simp add: algebra_simps)
  have "(a + 1) div k = a div k + 1" by (rule int_div_pos_eq [OF e]) (use assms in simp_all)
  moreover have "(a + 1) mod k = 0" by (rule int_mod_pos_eq [OF e]) (use assms in simp_all)
  ultimately show ?thesis by simp
next
  case False
  have e: "a + 1 = k * (a div k) + (a mod k + 1)" by simp
  have r: "0 \<le> a mod k" "a mod k + 1 < k"
    using pos_mod_sign [OF assms, of a] pos_mod_bound [OF assms, of a] False by auto
  have "(a + 1) div k = a div k" by (rule int_div_pos_eq [OF e]) (use r in simp_all)
  moreover have "(a + 1) mod k = a mod k + 1" by (rule int_mod_pos_eq [OF e]) (use r in simp_all)
  ultimately show ?thesis using r by simp
qed

lemma year_length: "day_from_year (y + 1) - day_from_year y = (if leap_year y then 366 else 365)"
proof -
  have e: "y + 1 - 1969 = y - 1969 + 1" "y + 1 - 1901 = y - 1901 + 1" "y + 1 - 1601 = y - 1601 + 1"
    "y - 1969 + 1 = y + 4 * (-492)" "y - 1901 + 1 = y + 100 * (-19)" "y - 1601 + 1 = y + 400 * (-4)"
    by simp_all
  have m: "(y - 1969 + 1) mod 4 = y mod 4" "(y - 1901 + 1) mod 100 = y mod 100"
    "(y - 1601 + 1) mod 400 = y mod 400"
    unfolding e(4-6) by (rule mod_mult_self2)+
  have s: "(y + 1 - 1969) div 4 - (y - 1969) div 4 = (if y mod 4 = 0 then 1 else 0)"
    "(y + 1 - 1901) div 100 - (y - 1901) div 100 = (if y mod 100 = 0 then 1 else 0)"
    "(y + 1 - 1601) div 400 - (y - 1601) div 400 = (if y mod 400 = 0 then 1 else 0)"
    using div_step [of 4 "y - 1969", OF zero_less_numeral]
      div_step [of 100 "y - 1901", OF zero_less_numeral]
      div_step [of 400 "y - 1601", OF zero_less_numeral]
    by (simp_all only: e(1-3) m)
  have i: "y mod 400 = 0 \<Longrightarrow> y mod 100 = 0" "y mod 100 = 0 \<Longrightarrow> y mod 4 = 0"
    using dvd_trans [of 100 400 y] dvd_trans [of 4 100 y] by (simp_all add: mod_eq_0_iff_dvd)
  have "day_from_year (y + 1) - day_from_year y = 365
      + ((y + 1 - 1969) div 4 - (y - 1969) div 4) - ((y + 1 - 1901) div 100 - (y - 1901) div 100)
      + ((y + 1 - 1601) div 400 - (y - 1601) div 400)"
    unfolding day_from_year_def by (simp only: algebra_simps)
  also have "\<dots> = (if leap_year y then 366 else 365)"
    unfolding s leap_year_def
    by (cases "y mod 4 = 0"; cases "y mod 100 = 0"; cases "y mod 400 = 0") (use i in simp_all)
  finally show ?thesis .
qed

lemma day_from_year_step: "day_from_year y < day_from_year (y + 1)"
  using year_length [of y] by (auto split: if_splits)

lemma day_from_year_strict_mono: "x < y \<Longrightarrow> day_from_year x < day_from_year y"
proof (induction "nat (y - x)" arbitrary: y)
  case 0
  then show ?case by simp
next
  case (Suc n)
  show ?case
  proof (cases "x = y - 1")
    case True
    then show ?thesis using day_from_year_step [of x] by simp
  next
    case False
    with Suc have "day_from_year x < day_from_year (y - 1)" by simp
    also have "\<dots> < day_from_year y" using day_from_year_step [of "y - 1"] by simp
    finally show ?thesis .
  qed
qed

lemma day_from_year_bounds:
  "146097 * y - 287811690 \<le> 400 * day_from_year y"
  "400 * day_from_year y \<le> 146097 * y - 287810490"
proof -
  define a b c where "a = (y - 1969) div 4" and "b = (y - 1901) div 100" and "c = (y - 1601) div 400"
  have "4 * a \<le> y - 1969" "y - 1969 < 4 * a + 4" "100 * b \<le> y - 1901" "y - 1901 < 100 * b + 100"
    "400 * c \<le> y - 1601" "y - 1601 < 400 * c + 400"
    using div_bounds [of 4 "y - 1969"] div_bounds [of 100 "y - 1901"] div_bounds [of 400 "y - 1601"]
    by (simp_all add: a_def b_def c_def)
  then show "146097 * y - 287811690 \<le> 400 * day_from_year y"
    "400 * day_from_year y \<le> 146097 * y - 287810490"
    unfolding day_from_year_def a_def [symmetric] b_def [symmetric] c_def [symmetric] by simp_all
qed

lemma year_from_day_bounds:
  "day_from_year (year_from_day d) \<le> d" "d < day_from_year (year_from_day d + 1)"
proof -
  define y where "y = 1970 + (400 * d) div 146097"
  have b: "146097 * y - 287811090 \<le> 400 * d" "400 * d < 146097 * y - 287811090 + 146097"
    using div_bounds [of 146097 "400 * d"] by (auto simp: y_def)
  have lo: "day_from_year (y - 1) \<le> d"
    using b day_from_year_bounds(2) [of "y - 1"] by simp
  have hi: "d < day_from_year (y + 2)"
    using b day_from_year_bounds(1) [of "y + 2"] by simp
  have e: "y - 1 + 1 = y" "y + 1 + 1 = y + 2" by simp_all
  show "day_from_year (year_from_day d) \<le> d" "d < day_from_year (year_from_day d + 1)"
    using lo hi unfolding year_from_day_def Let_def y_def [symmetric] by (auto simp: e)
qed

lemma year_from_day_unique:
  assumes "day_from_year y \<le> d" and "d < day_from_year (y + 1)"
  shows "year_from_day d = y"
proof (rule linorder_cases [of "year_from_day d" y])
  assume "year_from_day d < y"
  then have "day_from_year (year_from_day d + 1) \<le> day_from_year y"
    using day_from_year_strict_mono [of "year_from_day d + 1" y] by (cases "year_from_day d + 1 = y") auto
  with year_from_day_bounds(2) [of d] assms(1) show ?thesis by simp
next
  assume "y < year_from_day d"
  then have "day_from_year (y + 1) \<le> day_from_year (year_from_day d)"
    using day_from_year_strict_mono [of "y + 1" "year_from_day d"] by (cases "y + 1 = year_from_day d") auto
  with year_from_day_bounds(1) [of d] assms(2) show ?thesis by simp
qed

lemma month_cases:
  assumes "0 \<le> (m::int)" and "m < 12"
  obtains "m = 0" | "m = 1" | "m = 2" | "m = 3" | "m = 4" | "m = 5" | "m = 6" | "m = 7" | "m = 8"
    | "m = 9" | "m = 10" | "m = 11"
proof -
  have "m = 0 \<or> m = 1 \<or> m = 2 \<or> m = 3 \<or> m = 4 \<or> m = 5 \<or> m = 6 \<or> m = 7 \<or> m = 8 \<or> m = 9
      \<or> m = 10 \<or> m = 11"
    using assms by presburger
  with that show thesis by blast
qed

lemma days_in_month_positive: "0 \<le> m \<Longrightarrow> m < 12 \<Longrightarrow> 28 \<le> days_in_month y m \<and> days_in_month y m \<le> 31"
  by (erule (1) month_cases) (simp_all add: days_in_month_def numeral_eq_Suc)

lemma month_table:
  fixes y :: int
  defines "l \<equiv> (if leap_year y then 1 else 0)"
  shows "days_before_month y 0 = 0" "days_before_month y 1 = 31" "days_before_month y 2 = 59 + l"
    "days_before_month y 3 = 90 + l" "days_before_month y 4 = 120 + l" "days_before_month y 5 = 151 + l"
    "days_before_month y 6 = 181 + l" "days_before_month y 7 = 212 + l" "days_before_month y 8 = 243 + l"
    "days_before_month y 9 = 273 + l" "days_before_month y 10 = 304 + l" "days_before_month y 11 = 334 + l"
    "days_in_month y 0 = 31" "days_in_month y 1 = 28 + l" "days_in_month y 2 = 31" "days_in_month y 3 = 30"
    "days_in_month y 4 = 31" "days_in_month y 5 = 30" "days_in_month y 6 = 31" "days_in_month y 7 = 31"
    "days_in_month y 8 = 30" "days_in_month y 9 = 31" "days_in_month y 10 = 30" "days_in_month y 11 = 31"
  by (simp_all add: l_def days_before_month_def days_in_month_def)

text \<open>A valid date of a valid month lies in its year, and reads back.\<close>

lemma month_within_year:
  assumes "0 \<le> m" and "m < 12"
  shows "0 \<le> days_before_month y m"
    and "days_before_month y m + days_in_month y m \<le> (if leap_year y then 366 else 365)"
  using assms by (rule month_cases; simp add: days_before_month_def days_in_month_def numeral_eq_Suc)+

lemma civil_day:
  assumes m: "0 \<le> m" "m < 12" and d: "1 \<le> dt" "dt \<le> days_in_month y m"
  defines "n \<equiv> day_from_year y + days_before_month y m + dt - 1"
  shows "year_from_day n = y" and "month_from_day n = m" and "date_from_day n = dt"
proof -
  have y: "year_from_day n = y"
    by (rule year_from_day_unique)
      (use month_within_year [OF m, of y] d year_length [of y] in \<open>auto simp: n_def split: if_splits\<close>)
  define l where "l = (if leap_year y then 1 else 0 :: int)"
  have l: "0 \<le> l" "l \<le> 1" by (simp_all add: l_def)
  note table = month_table [of y, folded l_def]
  have o: "n - day_from_year y = days_before_month y m + dt - 1" by (simp add: n_def)
  have mo: "month_from_day n = m"
    unfolding month_from_day_def Let_def y o table
    by (rule month_cases [OF m]) (use d l in \<open>simp_all add: table\<close>)
  show "year_from_day n = y" "month_from_day n = m" by (rule y, rule mo)
  show "date_from_day n = dt" by (simp add: date_from_day_def Let_def y mo) (simp add: n_def)
qed

text \<open>Every day is such a date: the civil reading is total.\<close>

lemma civil_reading:
  fixes d :: int
  defines "y \<equiv> year_from_day d" and "m \<equiv> month_from_day d"
  shows "0 \<le> m" and "m < 12" and "1 \<le> date_from_day d" and "date_from_day d \<le> days_in_month y m"
    and "d = day_from_year y + days_before_month y m + date_from_day d - 1"
proof -
  define l where "l = (if leap_year y then 1 else 0 :: int)"
  define n where "n = d - day_from_year y"
  have n: "0 \<le> n" "n < 365 + l"
    using year_from_day_bounds [of d] year_length [of y] by (auto simp: y_def l_def n_def)
  have l: "0 \<le> l" "l \<le> 1" by (simp_all add: l_def)
  note table = month_table [of y, folded l_def]
  show "0 \<le> m" "m < 12" by (simp_all add: m_def month_from_day_def Let_def)
  have "days_before_month y m \<le> n \<and> n < days_before_month y m + days_in_month y m"
    using n l unfolding m_def month_from_day_def Let_def y_def [symmetric] n_def [symmetric] table
    by (simp add: table)
  then show "1 \<le> date_from_day d" "date_from_day d \<le> days_in_month y m"
    "d = day_from_year y + days_before_month y m + date_from_day d - 1"
    by (simp_all add: date_from_day_def Let_def m_def n_def flip: y_def)
qed

lemma days_before_next_month:
  "0 \<le> m \<Longrightarrow> m < 11 \<Longrightarrow> days_before_month y (m + 1) = days_before_month y m + days_in_month y m"
  by (rule month_cases [of m]) (simp_all add: days_before_month_def days_in_month_def numeral_eq_Suc)

lemma time_value_split: "make_date (day_of t) (time_in_day t) = t"
  by (simp add: make_date_def day_of_def time_in_day_def)

lemma time_in_day_bounds: "0 \<le> time_in_day t" "time_in_day t < ms_per_day"
  by (simp_all add: time_in_day_def ms_per_day_def)

lemma day_of_make_date: "0 \<le> s \<Longrightarrow> s < ms_per_day \<Longrightarrow> day_of (make_date d s) = d"
  by (simp add: day_of_def make_date_def ms_per_day_def)

lemma time_of_make_date: "0 \<le> s \<Longrightarrow> s < ms_per_day \<Longrightarrow> time_in_day (make_date d s) = s"
  by (simp add: time_in_day_def make_date_def ms_per_day_def)

section \<open>Order of the months, last days\<close>

lemma days_before_month_mono:
  assumes "0 \<le> a" and "a < b" and "b < 12"
  shows "days_before_month y a + days_in_month y a \<le> days_before_month y b"
proof -
  define l where "l = (if leap_year y then 1 else 0 :: int)"
  have l: "0 \<le> l" "l \<le> 1" by (simp_all add: l_def)
  note table = month_table [of y, folded l_def]
  have a: "0 \<le> a" "a < 12" and b: "0 \<le> b" "b < 12" using assms by simp_all
  show ?thesis
    by (rule month_cases [OF a]; rule month_cases [OF b]) (use assms(2) l in \<open>simp_all add: table\<close>)
qed

lemma year_from_day_mono: "d \<le> d' \<Longrightarrow> year_from_day d \<le> year_from_day d'"
proof (rule ccontr)
  assume le: "d \<le> d'" and "\<not> year_from_day d \<le> year_from_day d'"
  then have "day_from_year (year_from_day d' + 1) \<le> day_from_year (year_from_day d)"
    using day_from_year_strict_mono [of "year_from_day d' + 1" "year_from_day d"]
    by (cases "year_from_day d' + 1 = year_from_day d") auto
  with year_from_day_bounds [of d] year_from_day_bounds [of d'] le show False by simp
qed

definition month_index :: "int \<Rightarrow> int" where
  "month_index d = 12 * year_from_day d + month_from_day d"

lemma month_index_mono: "d \<le> d' \<Longrightarrow> month_index d \<le> month_index d'"
proof -
  assume le: "d \<le> d'"
  note r = civil_reading [of d] and r' = civil_reading [of d']
  show ?thesis
  proof (cases "year_from_day d = year_from_day d'")
    case False
    with year_from_day_mono [OF le] r(1,2) r'(1,2) show ?thesis by (simp add: month_index_def)
  next
    case True
    have "\<not> month_from_day d' < month_from_day d"
    proof
      assume "month_from_day d' < month_from_day d"
      with r(2) r'(1) have
        "days_before_month (year_from_day d') (month_from_day d') + days_in_month (year_from_day d') (month_from_day d')
          \<le> days_before_month (year_from_day d') (month_from_day d)"
        by (intro days_before_month_mono)
      with True le r r' show False by simp
    qed
    with True show ?thesis by (simp add: month_index_def)
  qed
qed

lemma day_zero_of_next_month:
  assumes "0 \<le> m" and "m < 12"
  shows "make_day y (m + 1) 0 = day_from_year y + days_before_month y m + days_in_month y m - 1"
proof (cases "m = 11")
  case True
  then show ?thesis
    using year_length [of y] month_table(1) [of "y + 1"] month_table(12,24) [of y]
    by (simp add: make_day_def Let_def split: if_splits)
next
  case False
  with assms have "(m + 1) div 12 = 0" "(m + 1) mod 12 = m + 1" by simp_all
  with False assms show ?thesis using days_before_next_month [of m y] by (simp add: make_day_def)
qed

lemma make_day_valid:
  assumes "1 \<le> dt" and "dt \<le> days_in_month (y + m div 12) (m mod 12)"
  shows "year_from_day (make_day y m dt) = y + m div 12" and "month_from_day (make_day y m dt) = m mod 12"
    and "date_from_day (make_day y m dt) = dt"
  using civil_day [of "m mod 12" dt "y + m div 12"] assms by (simp_all add: make_day_def Let_def)

end
