(* ===== verification/Revenue_Rules.thy ===== *)
theory Revenue_Rules
  imports Prelude
begin

text \<open>
  Revenue sharing: the money arithmetic of
  \<^verbatim>\<open>src/modules/revenue-sharing/revenue-finance.rules.ts\<close> (largest-remainder allocation,
  platform fee, monthly spread of a membership term, cumulative refunds) and the course matching of
  \<^verbatim>\<open>revenue-membership.rules.ts\<close>.
\<close>

record weighted_amount =
  wa_id :: string
  weight :: int

record allocated_amount =
  aa_id :: string
  amount_minor :: int

text \<open>The working rows of the allocation; the ordered copy shares its objects with the rows.\<close>

record alloc_part =
  part_id :: string
  part_amount :: int
  part_remainder :: int

section \<open>Largest-remainder allocation\<close>

definition cmp_part :: "alloc_part \<Rightarrow> alloc_part \<Rightarrow> int" where
  "cmp_part a b =
     (if part_remainder a = part_remainder b
      then (if part_id a < part_id b then -1 else if part_id a > part_id b then 1 else 0)
      else if part_remainder a > part_remainder b then -1 else 1)"

definition bump_part :: "alloc_part \<Rightarrow> alloc_part list \<Rightarrow> alloc_part list" where
  "bump_part p parts =
     map (\<lambda>q. if part_id q = part_id p then q\<lparr>part_amount := part_amount q + 1\<rparr> else q) parts"

fun distribute_remaining :: "int \<Rightarrow> alloc_part list \<Rightarrow> alloc_part list \<Rightarrow> alloc_part list" where
  "distribute_remaining remaining [] parts = parts"
| "distribute_remaining remaining (p # ordered) parts =
     (if remaining = 0 then parts
      else distribute_remaining (remaining - 1) ordered (bump_part p parts))"

definition make_parts :: "int \<Rightarrow> weighted_amount list \<Rightarrow> alloc_part list" where
  "make_parts amount weights =
     (let total = sum_list (map weight weights)
      in map (\<lambda>x. \<lparr>part_id = wa_id x, part_amount = amount * weight x div total,
                   part_remainder = amount * weight x mod total\<rparr>) weights)"

definition allocate_minor :: "int \<Rightarrow> weighted_amount list \<Rightarrow> allocated_amount list result" where
  "allocate_minor amount weights =
     (if amount < 0 \<or> list_ex (\<lambda>x. weight x \<le> 0) weights \<or> \<not> distinct (map wa_id weights)
      then Inl (PlainError ''Invalid allocation.'')
      else if weights = [] then
        (if amount = 0 then Inr [] else Inl (PlainError ''Allocation recipients are required.''))
      else
        let parts = make_parts amount weights;
            remaining = amount - sum_list (map part_amount parts);
            ordered = js_sort cmp_part parts
        in Inr (map (\<lambda>p. \<lparr>aa_id = part_id p, amount_minor = part_amount p\<rparr>)
                 (distribute_remaining remaining ordered parts)))"

record revenue_split =
  platform_amount_minor :: int
  shares :: "allocated_amount list"

definition split_revenue ::
  "int \<Rightarrow> js_number \<Rightarrow> weighted_amount list \<Rightarrow> revenue_split result" where
  "split_revenue amount platform_fee_bps weights =
     (case platform_fee_bps of
        NonIntegral \<Rightarrow> Inl (PlainError ''Invalid revenue basis or fee.'')
      | Integral bps \<Rightarrow>
          if amount < 0 \<or> bps < 0 \<or> bps > 10000
          then Inl (PlainError ''Invalid revenue basis or fee.'')
          else
            let platform = amount * bps div 10000
            in and_then (allocate_minor (amount - platform) weights)
                 (\<lambda>ss. Inr \<lparr>platform_amount_minor = platform, shares = ss\<rparr>))"

definition monthly_amounts :: "int \<Rightarrow> js_number \<Rightarrow> int list result" where
  "monthly_amounts amount months =
     (case months of
        NonIntegral \<Rightarrow> Inl (PlainError ''Invalid membership term.'')
      | Integral m \<Rightarrow>
          if \<not> is_safe_integer months \<or> m < 1 \<or> m > 1200 \<or> amount < 0
          then Inl (PlainError ''Invalid membership term.'')
          else
            let base = amount div m; remainder = amount mod m
            in Inr (map (\<lambda>i. base + (if int i < remainder then 1 else 0)) [0..<nat m]))"

definition refund_targets ::
  "int \<Rightarrow> int \<Rightarrow> weighted_amount list \<Rightarrow> allocated_amount list result" where
  "refund_targets refunded basis originals =
     (if basis < 0 \<or> refunded < 0 \<or> refunded > basis \<or> sum_list (map weight originals) \<noteq> basis
      then Inl (PlainError ''Invalid cumulative refund.'')
      else allocate_minor refunded (filter (\<lambda>x. weight x > 0) originals))"

section \<open>Spreading a term over its months\<close>

fun subtract_first :: "string \<Rightarrow> int \<Rightarrow> weighted_amount list \<Rightarrow> weighted_amount list" where
  "subtract_first i a [] = []"
| "subtract_first i a (x # xs) =
     (if wa_id x = i then x\<lparr>weight := weight x - a\<rparr> # xs else x # subtract_first i a xs)"

definition drain :: "allocated_amount list \<Rightarrow> weighted_amount list \<Rightarrow> weighted_amount list" where
  "drain allocated remaining =
     fold (\<lambda>p r. subtract_first (aa_id p) (amount_minor p) r) allocated remaining"

definition month_row :: "weighted_amount list \<Rightarrow> allocated_amount list \<Rightarrow> allocated_amount list" where
  "month_row originals allocated =
     map (\<lambda>x. \<lparr>aa_id = wa_id x,
               amount_minor = (case find (\<lambda>p. aa_id p = wa_id x) allocated of
                                 None \<Rightarrow> 0 | Some p \<Rightarrow> amount_minor p)\<rparr>) originals"

fun monthly_rows ::
  "weighted_amount list \<Rightarrow> int list \<Rightarrow> weighted_amount list \<Rightarrow> allocated_amount list list result" where
  "monthly_rows originals [] remaining = Inr []"
| "monthly_rows originals (budget # budgets) remaining =
     and_then (allocate_minor budget (filter (\<lambda>x. weight x > 0) remaining))
       (\<lambda>allocated. and_then (monthly_rows originals budgets (drain allocated remaining))
         (\<lambda>rows. Inr (month_row originals allocated # rows)))"

definition monthly_revenue_shares ::
  "weighted_amount list \<Rightarrow> js_number \<Rightarrow> allocated_amount list list result" where
  "monthly_revenue_shares originals months =
     (if list_ex (\<lambda>x. weight x < 0) originals \<or> \<not> distinct (map wa_id originals)
      then Inl (PlainError ''Invalid original shares.'')
      else and_then (monthly_amounts (sum_list (map weight originals)) months)
             (\<lambda>budgets. monthly_rows originals budgets originals))"

section \<open>Correctness of the allocation\<close>

interpretation parts: keyed_comparator cmp_part part_id
  by unfold_locales (auto simp: cmp_part_def split: if_splits)

lemma distribute_remaining_eq:
  assumes "0 \<le> r" and "distinct (map part_id ordered)"
  shows "distribute_remaining r ordered parts =
    map (\<lambda>q. if part_id q \<in> part_id ` set (take (nat r) ordered)
             then q\<lparr>part_amount := part_amount q + 1\<rparr> else q) parts"
  using assms
proof (induction r ordered parts rule: distribute_remaining.induct)
  case (1 r parts)
  then show ?case by simp
next
  case (2 r p ordered parts)
  show ?case
  proof (cases "r = 0")
    case True
    then show ?thesis by simp
  next
    case False
    with 2 have take_r: "take (nat r) (p # ordered) = p # take (nat (r - 1)) ordered"
      by (simp add: take_Cons' nat_diff_distrib)
    from False 2 have
      "distribute_remaining (r - 1) ordered (bump_part p parts) =
        map (\<lambda>q. if part_id q \<in> part_id ` set (take (nat (r - 1)) ordered)
                 then q\<lparr>part_amount := part_amount q + 1\<rparr> else q) (bump_part p parts)"
      by simp
    moreover have "part_id p \<notin> part_id ` set (take (nat (r - 1)) ordered)"
      using "2.prems"(2) by (auto dest: in_set_takeD)
    ultimately show ?thesis
      using False by (auto simp: bump_part_def take_r)
  qed
qed

lemma sum_list_mult_const: "sum_list (map (\<lambda>x. (c::int) * f x) xs) = c * sum_list (map f xs)"
  by (induction xs) (auto simp: algebra_simps)

lemma sum_list_positive:
  "list_all (\<lambda>x. 0 < weight x) ws \<Longrightarrow> ws \<noteq> [] \<Longrightarrow> 0 < sum_list (map weight ws)"
proof (induction ws)
  case (Cons w ws)
  then show ?case by (cases ws) auto
qed simp

lemma parts_basic [simp]:
  "map part_id (make_parts a ws) = map wa_id ws"
  "length (make_parts a ws) = length ws"
  by (simp_all add: make_parts_def Let_def comp_def)

text \<open>The shortfall of the rounded-down parts is the number of units the remainders sum to.\<close>

lemma sum_remainders:
  assumes "0 < sum_list (map weight ws)"
  shows "sum_list (map part_remainder (make_parts a ws)) =
    sum_list (map weight ws) * (a - sum_list (map part_amount (make_parts a ws)))"
proof -
  let ?T = "sum_list (map weight ws)"
  have "sum_list (map (\<lambda>x. a * weight x) ws)
      = sum_list (map (\<lambda>x. ?T * (a * weight x div ?T) + a * weight x mod ?T) ws)"
    by (intro arg_cong [of _ _ sum_list] map_cong) (auto simp: algebra_simps)
  also have "\<dots> = ?T * sum_list (map (\<lambda>x. a * weight x div ?T) ws)
                + sum_list (map (\<lambda>x. a * weight x mod ?T) ws)"
    by (simp only: sum_list_addf sum_list_mult_const)
  finally have "a * ?T = ?T * sum_list (map (\<lambda>x. a * weight x div ?T) ws)
                + sum_list (map (\<lambda>x. a * weight x mod ?T) ws)"
    by (simp only: sum_list_mult_const)
  then show ?thesis
    by (simp add: make_parts_def Let_def comp_def right_diff_distrib mult.commute)
qed

lemma sum_list_lt_length_bound:
  fixes T :: int
  assumes "xs \<noteq> []" and "\<And>x. x \<in> set xs \<Longrightarrow> f x < T"
  shows "sum_list (map f xs) < int (length xs) * T"
  using assms
proof (induction xs)
  case (Cons x xs)
  show ?case
  proof (cases "xs = []")
    case True
    with Cons show ?thesis by simp
  next
    case False
    with Cons have "sum_list (map f xs) < int (length xs) * T" and "f x < T" by auto
    then show ?thesis by (simp add: algebra_simps)
  qed
qed simp

lemma remaining_bounds:
  assumes "0 \<le> a" and "list_all (\<lambda>x. 0 < weight x) ws" and "ws \<noteq> []"
  defines "r \<equiv> a - sum_list (map part_amount (make_parts a ws))"
  shows "0 \<le> r" and "r < int (length ws)"
proof -
  let ?T = "sum_list (map weight ws)"
  let ?R = "sum_list (map part_remainder (make_parts a ws))"
  have T: "0 < ?T" using assms by (intro sum_list_positive)
  have eq: "?R = ?T * r" unfolding r_def by (rule sum_remainders [OF T])
  have "0 \<le> ?R"
    using T by (intro sum_list_nonneg) (auto simp: make_parts_def Let_def)
  with eq T show "0 \<le> r" by (simp add: zero_le_mult_iff)
  have "?R < int (length (make_parts a ws)) * ?T"
    using T assms(3) by (intro sum_list_lt_length_bound) (auto simp: make_parts_def Let_def)
  with eq have "?T * r < ?T * int (length ws)" by (simp add: mult.commute)
  with T show "r < int (length ws)" by simp
qed

text \<open>The allocation in closed form: every share is its rounded-down part, plus one unit for the
  ids that come first in the remainder order.\<close>

definition bumped_ids :: "int \<Rightarrow> weighted_amount list \<Rightarrow> string set" where
  "bumped_ids a ws =
     part_id ` set (take (nat (a - sum_list (map part_amount (make_parts a ws))))
                      (js_sort cmp_part (make_parts a ws)))"

lemma allocate_minor_eq:
  assumes "0 \<le> a" and "list_all (\<lambda>x. 0 < weight x) ws" and "distinct (map wa_id ws)" and "ws \<noteq> []"
  shows "allocate_minor a ws = Inr (map (\<lambda>x. \<lparr>aa_id = wa_id x,
    amount_minor = a * weight x div sum_list (map weight ws)
                   + (if wa_id x \<in> bumped_ids a ws then 1 else 0)\<rparr>) ws)"
proof -
  let ?P = "make_parts a ws" and ?r = "a - sum_list (map part_amount (make_parts a ws))"
  have "distinct (map part_id (js_sort cmp_part ?P))"
    using assms(3) by (metis mset_js_sort mset_map parts_basic(1) mset_eq_imp_distinct_iff)
  moreover have "0 \<le> ?r" by (rule remaining_bounds) (use assms in auto)
  ultimately have d: "distribute_remaining ?r (js_sort cmp_part ?P) ?P =
      map (\<lambda>q. if part_id q \<in> bumped_ids a ws then q\<lparr>part_amount := part_amount q + 1\<rparr> else q) ?P"
    by (simp add: distribute_remaining_eq bumped_ids_def)
  have "\<not> list_ex (\<lambda>x. weight x \<le> 0) ws"
    using assms(2) by (auto simp: list_ex_iff list_all_iff)
  with assms d show ?thesis
    unfolding allocate_minor_def Let_def by (auto simp: make_parts_def Let_def)
qed

lemma allocate_minor_ok_iff:
  "allocate_minor a ws = Inr xs \<longleftrightarrow>
    (0 \<le> a \<and> list_all (\<lambda>x. 0 < weight x) ws \<and> distinct (map wa_id ws) \<and> (ws = [] \<longrightarrow> a = 0)) \<and>
    xs = map (\<lambda>x. \<lparr>aa_id = wa_id x,
      amount_minor = a * weight x div sum_list (map weight ws)
                     + (if wa_id x \<in> bumped_ids a ws then 1 else 0)\<rparr>) ws"
proof (cases "0 \<le> a \<and> list_all (\<lambda>x. 0 < weight x) ws \<and> distinct (map wa_id ws) \<and> ws \<noteq> []")
  case True
  then show ?thesis by (auto simp: allocate_minor_eq)
next
  case False
  then show ?thesis
    by (auto simp: allocate_minor_def list_all_iff list_ex_iff not_le)
qed

lemma bumped_card:
  assumes "0 \<le> a" and "list_all (\<lambda>x. 0 < weight x) ws" and "distinct (map wa_id ws)" and "ws \<noteq> []"
  shows "bumped_ids a ws \<subseteq> wa_id ` set ws"
    and "int (card (bumped_ids a ws)) = a - sum_list (map part_amount (make_parts a ws))"
proof -
  let ?P = "make_parts a ws"
  let ?S = "js_sort cmp_part ?P"
  define k where "k = nat (a - sum_list (map part_amount ?P))"
  have k: "int k = a - sum_list (map part_amount ?P)" and kl: "k < length ws"
    using remaining_bounds [OF assms(1,2,4)] by (simp_all add: k_def)
  have ids: "part_id ` set ?P = wa_id ` set ws"
    by (metis parts_basic(1) set_map)
  then show "bumped_ids a ws \<subseteq> wa_id ` set ws"
    by (auto simp: bumped_ids_def dest!: in_set_takeD)
  have dist: "distinct (map part_id ?S)"
    using assms(3) by (metis mset_js_sort mset_map parts_basic(1) mset_eq_imp_distinct_iff)
  then have "distinct (map part_id (take k ?S))" by (simp add: distinct_take flip: take_map)
  then have "card (part_id ` set (take k ?S)) = length (take k ?S)"
    by (metis distinct_card length_map set_map)
  with kl show "int (card (bumped_ids a ws)) = a - sum_list (map part_amount ?P)"
    by (simp add: bumped_ids_def k flip: k_def)
qed

lemma sum_list_indicator:
  assumes "distinct (map f xs)" and "S \<subseteq> f ` set xs"
  shows "sum_list (map (\<lambda>x. if f x \<in> S then (1::int) else 0) xs) = int (card S)"
proof -
  have "sum_list (map (\<lambda>x. if f x \<in> S then (1::int) else 0) xs)
      = sum_list (map (\<lambda>y. if y \<in> S then 1 else 0) (map f xs))" by (simp add: comp_def)
  also have "\<dots> = (\<Sum>y\<in>set (map f xs). if y \<in> S then 1 else 0)"
    by (rule sum_list_distinct_conv_sum_set [OF assms(1)])
  also have "\<dots> = int (card (S \<inter> f ` set xs))"
    by (simp add: sum.If_cases Int_commute)
  also have "S \<inter> f ` set xs = S" using assms(2) by auto
  finally show ?thesis .
qed

text \<open>The facts every user of the allocation needs.\<close>

lemma allocate_minor_ids: "allocate_minor a ws = Inr xs \<Longrightarrow> map aa_id xs = map wa_id ws"
  by (auto simp: allocate_minor_ok_iff)

lemma allocate_minor_nonneg:
  assumes "allocate_minor a ws = Inr xs" and "p \<in> set xs"
  shows "0 \<le> amount_minor p"
proof -
  have pre: "0 \<le> a" "list_all (\<lambda>x. 0 < weight x) ws"
    and xs: "xs = map (\<lambda>x. \<lparr>aa_id = wa_id x,
      amount_minor = a * weight x div sum_list (map weight ws) + (if wa_id x \<in> bumped_ids a ws then 1 else 0)\<rparr>) ws"
    using assms(1) by (auto simp: allocate_minor_ok_iff)
  obtain x where x: "x \<in> set ws"
    "amount_minor p = a * weight x div sum_list (map weight ws) + (if wa_id x \<in> bumped_ids a ws then 1 else 0)"
    using assms(2) unfolding xs by auto
  have "0 < sum_list (map weight ws)" using pre(2) x(1) by (intro sum_list_positive) auto
  moreover have "0 \<le> a * weight x" using pre x(1) by (auto simp: list_all_iff)
  ultimately have "0 \<le> a * weight x div sum_list (map weight ws)" by (simp add: pos_imp_zdiv_nonneg_iff)
  with x(2) show ?thesis by simp
qed

lemma allocate_minor_sum:
  assumes "allocate_minor a ws = Inr xs"
  shows "sum_list (map amount_minor xs) = a"
proof (cases "ws = []")
  case True
  with assms show ?thesis by (auto simp: allocate_minor_ok_iff)
next
  case False
  with assms have pre: "0 \<le> a" "list_all (\<lambda>x. 0 < weight x) ws" "distinct (map wa_id ws)" "ws \<noteq> []"
    by (auto simp: allocate_minor_ok_iff)
  have "sum_list (map amount_minor xs)
      = sum_list (map part_amount (make_parts a ws)) + int (card (bumped_ids a ws))"
    using assms sum_list_indicator [OF pre(3) bumped_card(1) [OF pre]]
    by (auto simp: allocate_minor_ok_iff comp_def sum_list_addf make_parts_def Let_def)
  with bumped_card(2) [OF pre] show ?thesis by simp
qed

lemma bumped_remainder_positive:
  assumes pre: "0 \<le> a" "list_all (\<lambda>x. 0 < weight x) ws" "distinct (map wa_id ws)" "ws \<noteq> []"
    and x: "x \<in> set ws" "wa_id x \<in> bumped_ids a ws"
  shows "0 < a * weight x mod sum_list (map weight ws)"
proof (rule ccontr)
  let ?T = "sum_list (map weight ws)" and ?P = "make_parts a ws"
  let ?S = "js_sort cmp_part ?P"
  assume "\<not> 0 < a * weight x mod ?T"
  moreover have T: "0 < ?T" using pre by (intro sum_list_positive)
  ultimately have zero: "a * weight x mod ?T = 0"
    by (metis order_antisym not_le pos_mod_sign)
  define k where "k = nat (a - sum_list (map part_amount ?P))"
  have k: "int k = a - sum_list (map part_amount ?P)"
    using remaining_bounds [OF pre(1,2,4)] by (simp add: k_def)
  obtain p where p: "p \<in> set (take k ?S)" "part_id p = wa_id x"
    using x(2) by (auto simp: bumped_ids_def k_def)
  have k0: "0 < k" using p(1) by (cases k) auto
  have "p \<in> set ?P" using p(1) by (metis in_set_takeD set_js_sort)
  then obtain y where y: "y \<in> set ws" "p = \<lparr>part_id = wa_id y,
      part_amount = a * weight y div ?T, part_remainder = a * weight y mod ?T\<rparr>"
    by (auto simp: make_parts_def Let_def)
  have "y = x" using p(2) y x(1) pre(3) by (auto simp: distinct_map inj_on_def)
  with y zero have p0: "part_remainder p = 0" by simp
  have rem_nonneg: "\<And>q. q \<in> set ?S \<Longrightarrow> 0 \<le> part_remainder q \<and> part_remainder q < ?T"
    using T by (auto simp: make_parts_def Let_def)
  have split: "?S = take k ?S @ drop k ?S" by simp
  have tail0: "part_remainder q = 0" if "q \<in> set (drop k ?S)" for q
  proof -
    have "sorted_wrt (\<lambda>a b. cmp_part a b \<le> 0) (take k ?S @ drop k ?S)"
      using parts.sorted_js_sort [of ?P] by simp
    with p(1) that have "cmp_part p q \<le> 0" by (simp only: sorted_wrt_append)
    with p0 have "part_remainder q \<le> 0" by (auto simp: cmp_part_def split: if_splits)
    with rem_nonneg [of q] that show ?thesis by (meson in_set_dropD order_antisym)
  qed
  have "sum_list (map part_remainder ?P) = sum_list (map part_remainder ?S)"
    by (metis mset_js_sort mset_map sum_mset_sum_list)
  also have "\<dots> = sum_list (map part_remainder (take k ?S)) + sum_list (map part_remainder (drop k ?S))"
    by (metis split map_append sum_list_append)
  also have "sum_list (map part_remainder (drop k ?S)) = 0"
    using tail0 by (simp add: sum_list_0 cong: map_cong)
  also have "sum_list (map part_remainder (take k ?S)) < int (length (take k ?S)) * ?T"
    by (rule sum_list_lt_length_bound) (use k0 p(1) rem_nonneg in \<open>auto dest: in_set_takeD\<close>)
  also have "\<dots> \<le> int k * ?T" using T by (intro mult_right_mono) auto
  finally have "sum_list (map part_remainder ?P) < int k * ?T" by simp
  with sum_remainders [OF T, of a] k show False by (simp add: mult.commute)
qed

text \<open>A share is never below its exact proportion rounded down, nor above it rounded up.\<close>

lemma allocate_minor_share:
  assumes ok: "allocate_minor a ws = Inr xs" and x: "x \<in> set ws"
  shows "\<exists>s. \<lparr>aa_id = wa_id x, amount_minor = s\<rparr> \<in> set xs
    \<and> a * weight x \<le> sum_list (map weight ws) * s + (sum_list (map weight ws) - 1)
    \<and> sum_list (map weight ws) * s \<le> a * weight x + (sum_list (map weight ws) - 1)"
proof -
  let ?T = "sum_list (map weight ws)"
  from x have ne: "ws \<noteq> []" by auto
  with ok have pre: "0 \<le> a" "list_all (\<lambda>x. 0 < weight x) ws" "distinct (map wa_id ws)"
    and xs: "xs = map (\<lambda>x. \<lparr>aa_id = wa_id x, amount_minor = a * weight x div ?T
                     + (if wa_id x \<in> bumped_ids a ws then 1 else 0)\<rparr>) ws"
    by (auto simp: allocate_minor_ok_iff)
  have T: "0 < ?T" using pre ne by (intro sum_list_positive)
  define q where "q = a * weight x div ?T"
  define m where "m = a * weight x mod ?T"
  have dm: "a * weight x = ?T * q + m" by (simp add: q_def m_def)
  have mb: "0 \<le> m" "m < ?T" using T by (simp_all add: m_def)
  have bump: "wa_id x \<in> bumped_ids a ws \<Longrightarrow> 0 < m"
    using bumped_remainder_positive [OF pre ne x] by (simp add: m_def)
  let ?s = "q + (if wa_id x \<in> bumped_ids a ws then 1 else 0)"
  have "a * weight x \<le> ?T * ?s + (?T - 1)" and "?T * ?s \<le> a * weight x + (?T - 1)"
    unfolding dm using mb T bump by (auto simp: distrib_left)
  then show ?thesis using x by (auto simp: xs q_def)
qed

lemma allocate_minor_le_weight:
  assumes ok: "allocate_minor a ws = Inr xs" and le: "a \<le> sum_list (map weight ws)"
    and x: "x \<in> set ws" and p: "p \<in> set xs" "aa_id p = wa_id x"
  shows "0 \<le> amount_minor p" and "amount_minor p \<le> weight x"
    and "a = sum_list (map weight ws) \<Longrightarrow> amount_minor p = weight x"
proof -
  let ?T = "sum_list (map weight ws)"
  from x have ne: "ws \<noteq> []" by auto
  with ok have pre: "0 \<le> a" "list_all (\<lambda>x. 0 < weight x) ws" "distinct (map wa_id ws)"
    and xs: "xs = map (\<lambda>x. \<lparr>aa_id = wa_id x, amount_minor = a * weight x div ?T
                     + (if wa_id x \<in> bumped_ids a ws then 1 else 0)\<rparr>) ws"
    by (auto simp: allocate_minor_ok_iff)
  have T: "0 < ?T" using pre ne by (intro sum_list_positive)
  have w: "0 < weight x" using pre(2) x by (auto simp: list_all_iff)
  from p x pre(3) have pv: "amount_minor p = a * weight x div ?T
      + (if wa_id x \<in> bumped_ids a ws then 1 else 0)"
    by (auto simp: xs distinct_map inj_on_def)
  show "0 \<le> amount_minor p" using pv pre(1) w T by (simp add: pos_imp_zdiv_nonneg_iff)
  have aw: "a * weight x \<le> ?T * weight x" using le w by simp
  then have fl: "a * weight x div ?T \<le> weight x"
    using T by (metis nonzero_mult_div_cancel_left less_irrefl zdiv_mono1)
  show "amount_minor p \<le> weight x"
  proof (cases "wa_id x \<in> bumped_ids a ws")
    case True
    then have "0 < a * weight x mod ?T" by (intro bumped_remainder_positive pre ne x)
    then have "a * weight x div ?T \<noteq> weight x"
      using aw by (metis div_mult_mod_eq add_le_same_cancel1 mult.commute not_less)
    with fl pv True show ?thesis by simp
  next
    case False
    with fl pv show ?thesis by simp
  qed
  show "amount_minor p = weight x" if a: "a = ?T"
  proof -
    have "a * weight x mod ?T = 0" by (simp add: a)
    then have "wa_id x \<notin> bumped_ids a ws"
      using bumped_remainder_positive [OF pre ne x] by auto
    with pv a T show ?thesis by simp
  qed
qed

section \<open>Independence of the database's return order\<close>

lemma make_parts_permuted:
  assumes "mset ws = mset vs"
  shows "mset (make_parts a ws) = mset (make_parts a vs)"
proof -
  have "sum_list (map weight ws) = sum_list (map weight vs)"
    using assms by (metis mset_map sum_mset_sum_list)
  with assms show ?thesis by (simp add: make_parts_def Let_def)
qed

lemma bumped_ids_permuted:
  assumes "mset ws = mset vs" and "distinct (map wa_id ws)"
  shows "bumped_ids a ws = bumped_ids a vs"
proof -
  have m: "mset (make_parts a ws) = mset (make_parts a vs)"
    using assms(1) by (rule make_parts_permuted)
  have "distinct (map part_id (make_parts a ws))" unfolding parts_basic by (rule assms(2))
  then have "inj_on part_id (set (make_parts a ws))" by (simp only: distinct_map)
  with m have "js_sort cmp_part (make_parts a ws) = js_sort cmp_part (make_parts a vs)"
    by (rule parts.js_sort_order_independent)
  moreover have "sum_list (map part_amount (make_parts a ws)) = sum_list (map part_amount (make_parts a vs))"
    by (metis m mset_map sum_mset_sum_list)
  ultimately show ?thesis by (simp add: bumped_ids_def)
qed

section \<open>The monthly spread\<close>

definition share_of :: "allocated_amount list \<Rightarrow> string \<Rightarrow> int" where
  "share_of allocated i =
     (case find (\<lambda>p. aa_id p = i) allocated of None \<Rightarrow> 0 | Some p \<Rightarrow> amount_minor p)"

lemma month_row_share: "month_row os al = map (\<lambda>x. \<lparr>aa_id = wa_id x, amount_minor = share_of al (wa_id x)\<rparr>) os"
  by (simp add: month_row_def share_of_def)

lemma subtract_first_eq:
  "distinct (map wa_id xs) \<Longrightarrow>
    subtract_first i a xs = map (\<lambda>x. if wa_id x = i then x\<lparr>weight := weight x - a\<rparr> else x) xs"
proof (induction xs)
  case Nil
  then show ?case by simp
next
  case (Cons x xs)
  have "wa_id y \<noteq> wa_id x" if "y \<in> set xs" for y
    using Cons.prems that by (metis distinct.simps(2) imageI list.simps(9) list.set_map)
  then have "map (\<lambda>y. if wa_id y = wa_id x then y\<lparr>weight := weight y - a\<rparr> else y) xs = xs"
    by (intro map_idI) simp
  with Cons show ?case by auto
qed

lemma share_of_Cons: "share_of (p # al) i = (if aa_id p = i then amount_minor p else share_of al i)"
  by (simp add: share_of_def)

lemma share_of_notin: "i \<notin> aa_id ` set al \<Longrightarrow> share_of al i = 0"
  by (induction al) (auto simp: share_of_def)

lemma drain_eq:
  assumes "distinct (map wa_id xs)" and "distinct (map aa_id al)"
  shows "drain al xs = map (\<lambda>x. x\<lparr>weight := weight x - share_of al (wa_id x)\<rparr>) xs"
  using assms
proof (induction al arbitrary: xs)
  case Nil
  then show ?case by (simp add: drain_def share_of_def)
next
  case (Cons p al)
  let ?xs = "subtract_first (aa_id p) (amount_minor p) xs"
  have ids: "map wa_id ?xs = map wa_id xs"
    using Cons.prems by (simp add: subtract_first_eq comp_def)
  have "drain (p # al) xs = drain al ?xs" by (simp add: drain_def)
  also have "\<dots> = map (\<lambda>x. x\<lparr>weight := weight x - share_of al (wa_id x)\<rparr>) ?xs"
    using Cons ids by simp
  also have "\<dots> = map (\<lambda>x. x\<lparr>weight := weight x - share_of (p # al) (wa_id x)\<rparr>) xs"
    using Cons.prems by (auto simp: subtract_first_eq share_of_Cons share_of_notin)
  finally show ?case .
qed

lemma share_of_map_filter:
  assumes "distinct (map wa_id xs)" and "x \<in> set xs" and "\<And>y. aa_id (g y) = wa_id y"
  shows "share_of (map g (filter P xs)) (wa_id x) = (if P x then amount_minor (g x) else 0)"
  using assms
proof (induction xs)
  case Nil
  then show ?case by simp
next
  case (Cons y ys)
  show ?case
  proof (cases "y = x")
    case True
    with Cons.prems show ?thesis
      by (auto simp: share_of_Cons intro!: share_of_notin)
  next
    case False
    with Cons.prems have "x \<in> set ys" and "wa_id y \<noteq> wa_id x" by auto
    with Cons show ?thesis by (auto simp: share_of_Cons)
  qed
qed

lemma allocate_positive:
  assumes nn: "list_all (\<lambda>x. 0 \<le> weight x) xs" and d: "distinct (map wa_id xs)"
    and b: "0 \<le> b" "b \<le> sum_list (map weight xs)"
  shows "\<exists>al. allocate_minor b (filter (\<lambda>x. 0 < weight x) xs) = Inr al \<and> distinct (map aa_id al)
    \<and> (\<forall>x\<in>set xs. 0 \<le> share_of al (wa_id x) \<and> share_of al (wa_id x) \<le> weight x)
    \<and> sum_list (map (\<lambda>x. share_of al (wa_id x)) xs) = b"
proof -
  let ?F = "filter (\<lambda>x. 0 < weight x) xs" and ?T = "sum_list (map weight xs)"
  have T: "sum_list (map weight ?F) = ?T" using nn by (induction xs) auto
  have pos: "list_all (\<lambda>x. 0 < weight x) ?F" by (auto simp: list_all_iff)
  have dF: "distinct (map wa_id ?F)" using d by (simp add: distinct_map_filter)
  define g where "g x = \<lparr>aa_id = wa_id x, amount_minor = b * weight x div ?T
      + (if wa_id x \<in> bumped_ids b ?F then 1 else 0)\<rparr>" for x :: weighted_amount
  let ?al = "map g ?F"
  have "?F = [] \<longrightarrow> b = 0" using b T by auto
  with b(1) pos dF have ok: "allocate_minor b ?F = Inr ?al"
    by (auto simp: allocate_minor_ok_iff T g_def)
  have sh: "share_of ?al (wa_id x) = (if 0 < weight x then amount_minor (g x) else 0)" if "x \<in> set xs" for x
    by (rule share_of_map_filter) (use d that in \<open>auto simp: g_def\<close>)
  have bounds: "0 \<le> amount_minor (g x) \<and> amount_minor (g x) \<le> weight x" if "x \<in> set xs" "0 < weight x" for x
    using allocate_minor_le_weight [OF ok, of x "g x"] b T that by (auto simp: g_def)
  have "sum_list (map (\<lambda>x. share_of ?al (wa_id x)) xs)
      = sum_list (map (\<lambda>x. if 0 < weight x then amount_minor (g x) else 0) xs)"
    using sh by (intro arg_cong [of _ _ sum_list] map_cong) auto
  also have "\<dots> = sum_list (map amount_minor ?al)" by (simp add: sum_list_map_filter' comp_def)
  also have "\<dots> = b" by (rule allocate_minor_sum [OF ok])
  finally have sum: "sum_list (map (\<lambda>x. share_of ?al (wa_id x)) xs) = b" .
  have "distinct (map aa_id ?al)" using dF by (simp add: g_def comp_def)
  with ok sum sh bounds nn show ?thesis by (intro exI [of _ ?al]) (auto simp: list_all_iff)
qed

lemma nonneg_sum_zero:
  "list_all (\<lambda>x. 0 \<le> weight x) xs \<Longrightarrow> sum_list (map weight xs) = 0 \<Longrightarrow> x \<in> set xs \<Longrightarrow> weight x = 0"
proof (induction xs)
  case (Cons y ys)
  then have "0 \<le> sum_list (map weight ys)" by (auto intro!: sum_list_nonneg simp: list_all_iff)
  with Cons show ?case by auto
qed simp

lemma monthly_rows_correct:
  assumes "map wa_id rem = map wa_id os" and "distinct (map wa_id os)"
    and "list_all (\<lambda>x. 0 \<le> weight x) rem" and "list_all (\<lambda>b. 0 \<le> b) bs"
    and "sum_list bs = sum_list (map weight rem)"
  shows "\<exists>rows. monthly_rows os bs rem = Inr rows
    \<and> map (\<lambda>row. sum_list (map amount_minor row)) rows = bs
    \<and> (\<forall>row\<in>set rows. map aa_id row = map wa_id os \<and> list_all (\<lambda>p. 0 \<le> amount_minor p) row)
    \<and> (\<forall>k<length os. sum_list (map (\<lambda>row. amount_minor (row ! k)) rows) = weight (rem ! k))"
  using assms
proof (induction bs arbitrary: rem)
  case Nil
  have "length rem = length os" using Nil.prems(1) by (metis length_map)
  with Nil.prems nonneg_sum_zero [of rem] show ?case by auto
next
  case (Cons b bs)
  have len: "length rem = length os" using Cons.prems(1) by (metis length_map)
  have drem: "distinct (map wa_id rem)" using Cons.prems by simp
  have "0 \<le> sum_list bs" using Cons.prems(4) by (auto intro!: sum_list_nonneg simp: list_all_iff)
  with Cons.prems(4,5) have "0 \<le> b" "b \<le> sum_list (map weight rem)" by auto
  from allocate_positive [OF Cons.prems(3) drem this] obtain al where
    al: "allocate_minor b (filter (\<lambda>x. 0 < weight x) rem) = Inr al" "distinct (map aa_id al)"
    and sh: "\<forall>x\<in>set rem. 0 \<le> share_of al (wa_id x) \<and> share_of al (wa_id x) \<le> weight x"
    and sum: "sum_list (map (\<lambda>x. share_of al (wa_id x)) rem) = b" by blast
  let ?rem = "drain al rem" and ?row = "month_row os al"
  have dr: "?rem = map (\<lambda>x. x\<lparr>weight := weight x - share_of al (wa_id x)\<rparr>) rem"
    by (rule drain_eq [OF drem al(2)])
  have "sum_list (map weight ?rem) = sum_list (map weight rem) - b"
    using sum by (simp add: dr comp_def sum_list_subtractf)
  moreover have "map wa_id ?rem = map wa_id os" using Cons.prems(1) by (simp add: dr comp_def)
  moreover have "list_all (\<lambda>x. 0 \<le> weight x) ?rem" using sh by (auto simp: dr list_all_iff)
  ultimately obtain rows where rows: "monthly_rows os bs ?rem = Inr rows"
      "map (\<lambda>row. sum_list (map amount_minor row)) rows = bs"
      "\<forall>row\<in>set rows. map aa_id row = map wa_id os \<and> list_all (\<lambda>p. 0 \<le> amount_minor p) row"
      "\<forall>k<length os. sum_list (map (\<lambda>row. amount_minor (row ! k)) rows) = weight (?rem ! k)"
    using Cons.IH [of ?rem] Cons.prems by auto
  have "map (\<lambda>x. share_of al (wa_id x)) os = map (\<lambda>x. share_of al (wa_id x)) rem"
    using Cons.prems(1) by (metis (mono_tags, lifting) comp_apply map_map map_eq_conv)
  then have row_sum: "sum_list (map amount_minor ?row) = b"
    using sum by (simp add: month_row_share comp_def)
  have nth_id: "wa_id (rem ! k) = wa_id (os ! k)" if "k < length os" for k
    using that len Cons.prems(1) by (metis nth_map)
  have "0 \<le> share_of al (wa_id x)" if "x \<in> set os" for x
    using sh that Cons.prems(1) by (metis (mono_tags, lifting) image_iff image_set)
  then have row_nonneg: "list_all (\<lambda>p. 0 \<le> amount_minor p) ?row"
    by (auto simp: month_row_share list_all_iff)
  show ?case
    using al(1) rows row_sum row_nonneg nth_id len
    by (auto simp: dr month_row_share comp_def)
qed

lemma monthly_amounts_ok:
  assumes "0 \<le> amount" and "1 \<le> m" and "m \<le> 1200"
  shows "\<exists>bs. monthly_amounts amount (Integral m) = Inr bs \<and> int (length bs) = m
    \<and> list_all (\<lambda>b. amount div m \<le> b \<and> b \<le> amount div m + 1) bs \<and> sum_list bs = amount"
proof -
  let ?bs = "map (\<lambda>i. amount div m + (if int i < amount mod m then 1 else 0)) [0..<nat m]"
  have r: "0 \<le> amount mod m" "amount mod m < m" using assms by simp_all
  have "sum_list (map (\<lambda>i. if int i < amount mod m then (1::int) else 0) [0..<n]) = min (int n) (amount mod m)" for n
    using r(1) by (induction n) auto
  from this [of "nat m"] have "sum_list ?bs = m * (amount div m) + amount mod m"
    using r assms(2) by (simp add: sum_list_addf sum_list_triv)
  then have "sum_list ?bs = amount" by simp
  with assms show ?thesis
    by (intro exI [of _ ?bs]) (auto simp: monthly_amounts_def Let_def list_all_iff max_safe_integer_def)
qed

section \<open>Matching courses to membership rules\<close>

text \<open>The price bounds of a rule are decimal strings in the code; here they are the bigints they
  denote.  \<^verbatim>\<open>localeCompare\<close> is the collation of the runtime, a parameter.\<close>

record revenue_matching_rule =
  priority :: int
  category_slugs :: "string list option"
  levels :: "string list option"
  min_price_amount_minor :: "int option"
  max_price_amount_minor :: "int option"
  rule_weight :: int

record revenue_weight_override =
  override_course_id :: string
  override_weight :: int

record revenue_matching_course =
  course_id :: string
  category_slug :: "string option"
  course_level :: string
  price_amount_minor :: "int option"
  course_status :: string
  moderation_status :: string
  deleted_at :: "int option"

fun nonempty_list :: "'a list option \<Rightarrow> 'a list" where
  "nonempty_list None = []"
| "nonempty_list (Some xs) = xs"

definition membership_effective_at :: "string \<Rightarrow> js_number option \<Rightarrow> int \<Rightarrow> int result" where
  "membership_effective_at mode days now =
     (if mode = ''immediate'' \<and> days = None then Inr now
      else case days of
        Some (Integral d) \<Rightarrow>
          if mode = ''delayed'' \<and> is_safe_integer (Integral d) \<and> d > 0 \<and> d \<le> 3650
          then Inr (now + d * 86400000)
          else Inl (BadRequestException ''Immediate changes must omit noticeDays; delayed changes require 1-3650 whole days.'')
      | _ \<Rightarrow> Inl (BadRequestException ''Immediate changes must omit noticeDays; delayed changes require 1-3650 whole days.''))"

definition rule_applies :: "revenue_matching_course \<Rightarrow> revenue_matching_rule \<Rightarrow> bool" where
  "rule_applies course rule =
     (if nonempty_list (category_slugs rule) \<noteq> [] \<and>
         (\<not> opt_truthy (category_slug course)
          \<or> the (category_slug course) \<notin> set (nonempty_list (category_slugs rule))) then False
      else if nonempty_list (levels rule) \<noteq> [] \<and> course_level course \<notin> set (nonempty_list (levels rule)) then False
      else if min_price_amount_minor rule \<noteq> None \<or> max_price_amount_minor rule \<noteq> None then
        (case price_amount_minor course of
           None \<Rightarrow> False
         | Some price \<Rightarrow>
             (case min_price_amount_minor rule of Some lo \<Rightarrow> lo \<le> price | None \<Rightarrow> True) \<and>
             (case max_price_amount_minor rule of Some hi \<Rightarrow> price \<le> hi | None \<Rightarrow> True))
      else True)"

definition cmp_priority :: "revenue_matching_rule \<Rightarrow> revenue_matching_rule \<Rightarrow> int" where
  "cmp_priority a b = priority a - priority b"

definition match_revenue_rule ::
  "revenue_matching_course \<Rightarrow> revenue_matching_rule list \<Rightarrow> revenue_matching_rule option" where
  "match_revenue_rule course rules =
     (if deleted_at course \<noteq> None \<or> course_status course \<noteq> ''published'' \<or> moderation_status course \<noteq> ''clear''
      then None
      else find (rule_applies course) (js_sort cmp_priority rules))"

definition membership_selections ::
  "(string \<Rightarrow> string \<Rightarrow> int) \<Rightarrow> revenue_matching_course list \<Rightarrow> revenue_matching_rule list
    \<Rightarrow> revenue_weight_override list \<Rightarrow> (string \<times> int) list" where
  "membership_selections locale_compare courses rules overrides =
     js_sort (\<lambda>a b. locale_compare (fst a) (fst b))
       (concat (map (\<lambda>course.
          case match_revenue_rule course rules of
            None \<Rightarrow> []
          | Some rule \<Rightarrow>
              [(course_id course,
                case find (\<lambda>item. override_course_id item = course_id course) overrides of
                  Some item \<Rightarrow> override_weight item
                | None \<Rightarrow> rule_weight rule)]) courses))"

interpretation priorities: comparator cmp_priority
  by unfold_locales (auto simp: cmp_priority_def)

section \<open>The properties\<close>

text \<open>C30: A successful largest-remainder allocation keeps the recipients in their order, hands out exactly
  the amount, and gives each recipient its exact proportional share up to less than one unit.\<close>

theorem allocate_minor_fair:
  assumes "allocate_minor a ws = Inr xs"
  shows "map aa_id xs = map wa_id ws \<and> sum_list (map amount_minor xs) = a \<and>
    (\<forall>k<length ws. \<bar>sum_list (map weight ws) * amount_minor (xs ! k) - a * weight (ws ! k)\<bar>
                     < sum_list (map weight ws))"
proof (intro conjI allI impI)
  show ids: "map aa_id xs = map wa_id ws" by (rule allocate_minor_ids [OF assms])
  show "sum_list (map amount_minor xs) = a" by (rule allocate_minor_sum [OF assms])
  fix k assume k: "k < length ws"
  let ?T = "sum_list (map weight ws)"
  from allocate_minor_share [OF assms, of "ws ! k"] k obtain s
    where s: "\<lparr>aa_id = wa_id (ws ! k), amount_minor = s\<rparr> \<in> set xs"
      "a * weight (ws ! k) \<le> ?T * s + (?T - 1)" "?T * s \<le> a * weight (ws ! k) + (?T - 1)"
    by auto
  have len: "length xs = length ws" using ids by (metis length_map)
  from s(1) obtain j where j: "j < length xs" "xs ! j = \<lparr>aa_id = wa_id (ws ! k), amount_minor = s\<rparr>"
    by (auto simp: in_set_conv_nth)
  have "map wa_id ws ! j = map wa_id ws ! k" using j k len ids by (metis allocated_amount.select_convs(1) nth_map)
  moreover have "distinct (map wa_id ws)" using assms by (auto simp: allocate_minor_ok_iff)
  ultimately have "j = k" using j k len nth_eq_iff_index_eq [of "map wa_id ws" j k] by simp
  with j s show "\<bar>?T * amount_minor (xs ! k) - a * weight (ws ! k)\<bar> < ?T" by simp
qed

text \<open>The allocation does not depend on the order in which the database returns the recipients:
  any reordering of the weights gives every recipient the same amount.\<close>

theorem allocate_minor_order_independent:
  assumes "mset ws = mset vs" and "allocate_minor a ws = Inr xs"
  shows "\<exists>ys. allocate_minor a vs = Inr ys \<and> mset ys = mset xs"
proof -
  have sum: "sum_list (map weight ws) = sum_list (map weight vs)"
    using assms(1) by (metis mset_map sum_mset_sum_list)
  have sets: "set ws = set vs" using assms(1) by (metis set_mset_mset)
  from assms(2) have d: "distinct (map wa_id ws)" by (simp add: allocate_minor_ok_iff)
  with assms(1) have "distinct (map wa_id vs)" by (metis mset_eq_imp_distinct_iff mset_map)
  with assms sum sets bumped_ids_permuted [OF assms(1) d, of a] show ?thesis
    by (auto simp: allocate_minor_ok_iff list_all_iff)
qed

text \<open>C31: Splitting a payment: on a valid basis and fee with distinct, positively weighted recipients
  the platform's part and the recipients' shares add up to the payment exactly, every recipient gets one share, neither
  the platform's part nor any share is negative, and the platform gets its basis points of the payment, rounded down.\<close>

theorem split_revenue_conserves:
  assumes "0 \<le> amount" and "0 \<le> bps" and "bps \<le> 10000"
    and "list_all (\<lambda>x. 0 < weight x) ws" and "distinct (map wa_id ws)" and "ws \<noteq> []"
  shows "\<exists>r. split_revenue amount (Integral bps) ws = Inr r
    \<and> platform_amount_minor r + sum_list (map amount_minor (shares r)) = amount
    \<and> 10000 * platform_amount_minor r \<le> amount * bps
    \<and> amount * bps < 10000 * platform_amount_minor r + 10000
    \<and> 0 \<le> platform_amount_minor r
    \<and> map aa_id (shares r) = map wa_id ws
    \<and> (\<forall>p\<in>set (shares r). 0 \<le> amount_minor p)"
proof -
  let ?p = "amount * bps div 10000"
  have "amount * bps \<le> amount * 10000" using assms by (intro mult_left_mono)
  then have "0 \<le> amount - ?p" by simp
  then obtain xs where xs: "allocate_minor (amount - ?p) ws = Inr xs"
    using assms allocate_minor_eq by blast
  have "0 \<le> ?p" using assms by (simp add: pos_imp_zdiv_nonneg_iff)
  with allocate_minor_sum [OF xs] allocate_minor_ids [OF xs] allocate_minor_nonneg [OF xs] assms xs show ?thesis
    by (auto simp: split_revenue_def Let_def)
qed

lemma monthly_shares_terms:
  assumes "list_all (\<lambda>x. 0 \<le> weight x) os" and "distinct (map wa_id os)"
    and "1 \<le> m" and "m \<le> 1200"
  shows "\<exists>rows. monthly_revenue_shares os (Integral m) = Inr rows \<and> int (length rows) = m
    \<and> monthly_amounts (sum_list (map weight os)) (Integral m)
        = Inr (map (\<lambda>row. sum_list (map amount_minor row)) rows)
    \<and> (\<forall>row\<in>set rows. map aa_id row = map wa_id os \<and> list_all (\<lambda>p. 0 \<le> amount_minor p) row)
    \<and> (\<forall>k<length os. sum_list (map (\<lambda>row. amount_minor (row ! k)) rows) = weight (os ! k))"
proof -
  have "0 \<le> sum_list (map weight os)" using assms(1) by (intro sum_list_nonneg) (auto simp: list_all_iff)
  from monthly_amounts_ok [OF this assms(3,4)] obtain bs where
    bs: "monthly_amounts (sum_list (map weight os)) (Integral m) = Inr bs" "int (length bs) = m"
    and b: "list_all (\<lambda>b. sum_list (map weight os) div m \<le> b \<and> b \<le> sum_list (map weight os) div m + 1) bs"
      "sum_list bs = sum_list (map weight os)" by blast
  have "0 \<le> sum_list (map weight os) div m"
    using \<open>0 \<le> sum_list (map weight os)\<close> assms(3) by (simp add: pos_imp_zdiv_nonneg_iff)
  with b(1) have "list_all (\<lambda>b. 0 \<le> b) bs" by (auto simp: list_all_iff)
  from monthly_rows_correct [OF refl assms(2,1) this b(2)] obtain rows where
    rows: "monthly_rows os bs os = Inr rows" "map (\<lambda>row. sum_list (map amount_minor row)) rows = bs"
      "\<forall>row\<in>set rows. map aa_id row = map wa_id os \<and> list_all (\<lambda>p. 0 \<le> amount_minor p) row"
      "\<forall>k<length os. sum_list (map (\<lambda>row. amount_minor (row ! k)) rows) = weight (os ! k)" by blast
  moreover have "\<not> list_ex (\<lambda>x. weight x < 0) os" using assms(1) by (auto simp: list_ex_iff list_all_iff)
  moreover have "length rows = length bs" using rows(2) by (metis length_map)
  ultimately show ?thesis using assms(2) bs by (auto simp: monthly_revenue_shares_def)
qed

text \<open>C32: Spreading a membership term over its months succeeds for every valid term, pays out each month
  the whole month's budget to the contracted participants, none of them negatively, and over the
  term gives every participant exactly the contracted total.\<close>

theorem monthly_revenue_shares_preserves_terms:
  assumes "list_all (\<lambda>x. 0 \<le> weight x) os" and "distinct (map wa_id os)"
    and "1 \<le> m" and "m \<le> 1200"
  shows "\<exists>rows. monthly_revenue_shares os (Integral m) = Inr rows \<and> int (length rows) = m
    \<and> monthly_amounts (sum_list (map weight os)) (Integral m)
        = Inr (map (\<lambda>row. sum_list (map amount_minor row)) rows)
    \<and> (\<forall>row\<in>set rows. map aa_id row = map wa_id os \<and> list_all (\<lambda>p. 0 \<le> amount_minor p) row)
    \<and> (\<forall>k<length os. sum_list (map (\<lambda>row. amount_minor (row ! k)) rows) = weight (os ! k))"
  using assms by (rule monthly_shares_terms)

text \<open>A cumulative refund target never exceeds what a recipient originally got, the targets add up
  to the refunded amount, and refunding the whole basis takes back exactly the originals.\<close>

theorem refund_targets_bounded:
  assumes "refund_targets refunded basis originals = Inr xs" and "p \<in> set xs"
  shows "sum_list (map amount_minor xs) = refunded \<and>
    (\<exists>x\<in>set originals. wa_id x = aa_id p \<and> 0 \<le> amount_minor p \<and> amount_minor p \<le> weight x
       \<and> (refunded = basis \<and> list_all (\<lambda>x. 0 \<le> weight x) originals \<longrightarrow> amount_minor p = weight x))"
proof -
  let ?F = "filter (\<lambda>x. 0 < weight x) originals"
  have ok: "allocate_minor refunded ?F = Inr xs" and le: "refunded \<le> basis"
    and basis: "sum_list (map weight originals) = basis"
    using assms(1) by (auto simp: refund_targets_def split: if_splits)
  have F: "sum_list (map weight originals) \<le> sum_list (map weight ?F)" by (induction originals) auto
  have eqF: "list_all (\<lambda>x. 0 \<le> weight x) originals \<Longrightarrow> sum_list (map weight ?F) = basis"
    unfolding basis [symmetric] by (induction originals) auto
  have "aa_id p \<in> wa_id ` set ?F" using assms(2) allocate_minor_ids [OF ok] by (metis image_eqI set_map)
  then obtain x where x: "x \<in> set ?F" "aa_id p = wa_id x" by auto
  have "refunded \<le> sum_list (map weight ?F)" using le basis F by simp
  note w = allocate_minor_le_weight [OF ok this x(1) assms(2) x(2)]
  show ?thesis
    using allocate_minor_sum [OF ok] x w eqF by (intro conjI bexI [of _ x]) auto
qed

text \<open>The rule chosen for a course is one of the rules, applies to it, and no rule that applies has a
  smaller priority number; nothing is chosen for a course that is deleted, unpublished or under
  moderation.\<close>

theorem match_revenue_rule_least:
  assumes "match_revenue_rule course rules = Some rule"
  shows "rule \<in> set rules \<and> rule_applies course rule \<and> deleted_at course = None
    \<and> course_status course = ''published'' \<and> moderation_status course = ''clear''
    \<and> (\<forall>r\<in>set rules. rule_applies course r \<longrightarrow> priority rule \<le> priority r)"
proof -
  have f: "find (rule_applies course) (js_sort cmp_priority rules) = Some rule"
    and c: "deleted_at course = None" "course_status course = ''published''" "moderation_status course = ''clear''"
    using assms by (auto simp: match_revenue_rule_def split: if_splits)
  from find_SomeD [OF f] have "rule \<in> set rules" "rule_applies course rule" by simp_all
  moreover have "priority rule \<le> priority r" if "r \<in> set rules" "rule_applies course r" for r
    using priorities.find_js_sort_least [OF f that] by (auto simp: cmp_priority_def)
  ultimately show ?thesis using c by blast
qed

section \<open>Witnesses\<close>

abbreviation example_weights :: "weighted_amount list" where
  "example_weights \<equiv> [\<lparr>wa_id = ''a'', weight = 1\<rparr>, \<lparr>wa_id = ''b'', weight = 1\<rparr>, \<lparr>wa_id = ''c'', weight = 1\<rparr>]"

abbreviation example_course :: revenue_matching_course where
  "example_course \<equiv> \<lparr>course_id = ''k'', category_slug = Some ''ai'', course_level = ''basic'',
     price_amount_minor = Some 500, course_status = ''published'', moderation_status = ''clear'', deleted_at = None\<rparr>"

abbreviation example_rule :: "int \<Rightarrow> revenue_matching_rule" where
  "example_rule n \<equiv> \<lparr>priority = n, category_slugs = Some [''ai''], levels = None,
     min_price_amount_minor = Some 100, max_price_amount_minor = None, rule_weight = n\<rparr>"

lemma example_allocation:
  "allocate_minor 100 example_weights = Inr
     [\<lparr>aa_id = ''a'', amount_minor = 34\<rparr>, \<lparr>aa_id = ''b'', amount_minor = 33\<rparr>, \<lparr>aa_id = ''c'', amount_minor = 33\<rparr>]"
  by code_simp

theorem allocate_minor_fair_witness:
  "allocate_minor 100 example_weights = Inr
     [\<lparr>aa_id = ''a'', amount_minor = 34\<rparr>, \<lparr>aa_id = ''b'', amount_minor = 33\<rparr>, \<lparr>aa_id = ''c'', amount_minor = 33\<rparr>]
   \<and> sum_list (map amount_minor [\<lparr>aa_id = ''a'', amount_minor = 34\<rparr>, \<lparr>aa_id = ''b'', amount_minor = 33\<rparr>,
        \<lparr>aa_id = ''c'', amount_minor = 33\<rparr>]) = 100"
  using allocate_minor_fair [OF example_allocation] example_allocation by blast

theorem allocate_minor_order_independent_witness:
  "\<exists>ys. allocate_minor 100 (rev example_weights) = Inr ys
     \<and> mset ys = {#\<lparr>aa_id = ''a'', amount_minor = 34\<rparr>, \<lparr>aa_id = ''b'', amount_minor = 33\<rparr>, \<lparr>aa_id = ''c'', amount_minor = 33\<rparr>#}"
  using allocate_minor_order_independent [OF _ example_allocation, of "rev example_weights"] by simp

theorem split_revenue_conserves_witness:
  "\<exists>r. split_revenue 1000 (Integral 1500) example_weights = Inr r
    \<and> platform_amount_minor r + sum_list (map amount_minor (shares r)) = 1000
    \<and> 10000 * platform_amount_minor r \<le> 1000 * 1500
    \<and> 1000 * 1500 < 10000 * platform_amount_minor r + 10000
    \<and> 0 \<le> platform_amount_minor r
    \<and> map aa_id (shares r) = map wa_id example_weights
    \<and> (\<forall>p\<in>set (shares r). 0 \<le> amount_minor p)"
  by (rule split_revenue_conserves) simp_all

theorem monthly_revenue_shares_preserves_terms_witness:
  "\<exists>rows. monthly_revenue_shares example_weights (Integral 2) = Inr rows \<and> int (length rows) = 2
    \<and> (\<forall>k<3. sum_list (map (\<lambda>row. amount_minor (row ! k)) rows) = weight (example_weights ! k))"
  using monthly_revenue_shares_preserves_terms [of example_weights 2]
  by (auto simp: numeral_3_eq_3)

lemma example_refund:
  "refund_targets 2 3 example_weights = Inr
     [\<lparr>aa_id = ''a'', amount_minor = 1\<rparr>, \<lparr>aa_id = ''b'', amount_minor = 1\<rparr>, \<lparr>aa_id = ''c'', amount_minor = 0\<rparr>]"
  by code_simp

theorem refund_targets_bounded_witness:
  "\<exists>x\<in>set example_weights. wa_id x = ''a'' \<and> 1 \<le> weight x"
  using refund_targets_bounded [OF example_refund, of "\<lparr>aa_id = ''a'', amount_minor = 1\<rparr>"] by simp

theorem match_revenue_rule_least_witness:
  "match_revenue_rule example_course [example_rule 2, example_rule 1] = Some (example_rule 1)
   \<and> rule_applies example_course (example_rule 1)"
proof -
  have m: "match_revenue_rule example_course [example_rule 2, example_rule 1] = Some (example_rule 1)"
    by code_simp
  from match_revenue_rule_least [OF m] m show ?thesis by blast
qed

end
