(* ===== verification/Membership_Rules.thy ===== *)
theory Membership_Rules
  imports Calendar
begin

text \<open>
  Membership pricing and periods (\<^verbatim>\<open>src/modules/memberships/membership.rules.ts\<close>) and
  the semantics of service entitlements (\<^verbatim>\<open>service-entitlement.rules.ts\<close>).
  A \<^verbatim>\<open>Date\<close> that may be invalid is an optional time value.
\<close>

section \<open>Prices\<close>

record membership_duration_pricing =
  base_monthly_price_amount_minor :: int
  pricing_months :: js_number
  fixed_price_amount_minor :: "int option"
  discount_percent :: "js_number option"

definition calculate_duration_price :: "membership_duration_pricing \<Rightarrow> int result" where
  "calculate_duration_price i =
     (if base_monthly_price_amount_minor i < 0 then Inl (PlainError ''Base monthly price must be non-negative.'')
      else case pricing_months i of
        NonIntegral \<Rightarrow> Inl (PlainError ''Membership duration months must be a positive whole number.'')
      | Integral m \<Rightarrow>
          if m \<le> 0 then Inl (PlainError ''Membership duration months must be a positive whole number.'')
          else if (fixed_price_amount_minor i \<noteq> None) = (discount_percent i \<noteq> None)
          then Inl (PlainError ''A duration requires exactly one fixed price or discount.'')
          else case fixed_price_amount_minor i of
            Some p \<Rightarrow> if p < 0 then Inl (PlainError ''Fixed price must be non-negative.'') else Inr p
          | None \<Rightarrow>
              (case discount_percent i of
                 Some (Integral d) \<Rightarrow>
                   if d < 0 \<or> d > 100 then Inl (PlainError ''Discount percent must be between zero and 100.'')
                   else Inr (base_monthly_price_amount_minor i * m * (100 - d) div 100)
               | _ \<Rightarrow> Inl (PlainError ''Discount percent must be between zero and 100.'')))"

section \<open>Calendar months\<close>

definition add_calendar_months :: "int option \<Rightarrow> js_number \<Rightarrow> int result" where
  "add_calendar_months start months =
     (case (months, start) of
        (Integral m, Some t) \<Rightarrow>
          if m \<le> 0 then Inl (PlainError ''A valid start and positive whole-month duration are required.'')
          else
            let original_day = utc_date t;
                first = set_utc_date t 1;
                moved = set_utc_month first (utc_month first + m);
                last_day = utc_date (date_utc (utc_full_year moved) (utc_month moved + 1) 0)
            in Inr (set_utc_date moved (min original_day last_day))
      | _ \<Rightarrow> Inl (PlainError ''A valid start and positive whole-month duration are required.''))"

datatype membership_change_action = PURCHASE | RENEW | UPGRADE | DOWNGRADE

record membership_change =
  change_starts_at :: int
  change_ends_at :: int
  activates_immediately :: bool

definition resolve_membership_change ::
  "membership_change_action \<Rightarrow> js_number \<Rightarrow> int \<Rightarrow> int option \<Rightarrow> membership_change result" where
  "resolve_membership_change action months payment_at active_expires_at =
     (let active_expiry = (case active_expires_at of
                             Some e \<Rightarrow> if e > payment_at then Some e else None
                           | None \<Rightarrow> None);
          starts_at = (case active_expiry of
                         Some e \<Rightarrow> if action = RENEW then e else if action = DOWNGRADE then e else payment_at
                       | None \<Rightarrow> payment_at)
      in and_then (add_calendar_months (Some starts_at) months)
           (\<lambda>e. Inr \<lparr>change_starts_at = starts_at, change_ends_at = e,
                     activates_immediately = (action \<noteq> DOWNGRADE)\<rparr>))"

section \<open>Service entitlements\<close>

datatype entitlement_value_type = BooleanValue | Metered | Unlimited

datatype entitlement_reset_period = NoReset | CalendarMonth | MembershipTerm

record normalized_entitlement =
  value_type :: entitlement_value_type
  reset_period :: entitlement_reset_period
  boolean_value :: "bool option"
  quota :: "int option"

definition normalize_entitlement_value ::
  "entitlement_value_type \<Rightarrow> entitlement_reset_period \<Rightarrow> bool option \<Rightarrow> int option \<Rightarrow> normalized_entitlement result" where
  "normalize_entitlement_value vt rp bv q =
     (let valid =
        (vt = BooleanValue \<and> rp = NoReset \<and> bv \<noteq> None \<and> q = None)
        \<or> (vt = Metered \<and> bv = None \<and> (case q of Some n \<Rightarrow> n > 0 | None \<Rightarrow> False))
        \<or> (vt = Unlimited \<and> rp = NoReset \<and> bv = None \<and> q = None)
      in if \<not> valid then Inl (PlainError ''Entitlement value does not match its declared semantics.'')
         else Inr \<lparr>value_type = vt, reset_period = rp, boolean_value = bv, quota = q\<rparr>)"

definition entitlement_usage_window ::
  "entitlement_reset_period \<Rightarrow> int \<Rightarrow> int option \<Rightarrow> int \<Rightarrow> int \<times> int option" where
  "entitlement_usage_window rp grant_starts_at grant_ends_at at_time =
     (if rp \<noteq> CalendarMonth then (grant_starts_at, grant_ends_at)
      else
        let month_start = date_utc (utc_full_year at_time) (utc_month at_time) 1;
            next_month = date_utc (utc_full_year at_time) (utc_month at_time + 1) 1
        in (if month_start < grant_starts_at then grant_starts_at else month_start,
            case grant_ends_at of
              Some e \<Rightarrow> if e < next_month then Some e else Some next_month
            | None \<Rightarrow> Some next_month))"

section \<open>Lemmas on calendar months\<close>

lemma utc_of_make_date:
  assumes "0 \<le> s" and "s < ms_per_day"
  shows "utc_full_year (make_date d s) = year_from_day d" "utc_month (make_date d s) = month_from_day d"
    "utc_date (make_date d s) = date_from_day d" "time_in_day (make_date d s) = s"
  using assms by (simp_all add: utc_full_year_def utc_month_def utc_date_def day_of_make_date time_of_make_date)

lemma last_day_of_month:
  assumes "100 \<le> y" and "0 \<le> m" and "m < 12"
  shows "utc_date (date_utc y (m + 1) 0) = days_in_month y m"
proof -
  have "1 \<le> days_in_month y m" using days_in_month_positive [OF assms(2,3), of y] by simp
  with assms civil_day(3) [OF assms(2,3) this order_refl] show ?thesis
    by (simp add: date_utc_def utc_of_make_date day_zero_of_next_month ms_per_day_def)
qed

lemma month_index_less: "month_index (day_of t) < month_index (day_of r) \<Longrightarrow> t < r"
proof (rule ccontr)
  assume lt: "month_index (day_of t) < month_index (day_of r)" and "\<not> t < r"
  then have "day_of r \<le> day_of t" by (simp add: day_of_def ms_per_day_def zdiv_mono1)
  from month_index_mono [OF this] lt show False by simp
qed

text \<open>Adding calendar months lands in the month counted, on the original day or on the last day when
  the month is shorter, at the same time of day.\<close>

lemma add_calendar_months_Inr:
  assumes "0 < m" and "100 \<le> utc_full_year t"
  shows "\<exists>r. add_calendar_months (Some t) (Integral m) = Inr r
    \<and> 12 * utc_full_year r + utc_month r = 12 * utc_full_year t + utc_month t + m
    \<and> utc_date r = min (utc_date t) (days_in_month (utc_full_year r) (utc_month r))
    \<and> time_in_day r = time_in_day t"
proof -
  let ?y = "utc_full_year t" and ?mo = "utc_month t" and ?s = "time_in_day t"
  note r0 = civil_reading [of "day_of t", folded utc_full_year_def utc_month_def utc_date_def]
  note s = time_in_day_bounds [of t]
  define y' mo' where "y' = ?y + (?mo + m) div 12" and "mo' = (?mo + m) mod 12"
  have mo': "0 \<le> mo'" "mo' < 12" by (simp_all add: mo'_def)
  have "0 \<le> (?mo + m) div 12" using r0(1) assms(1) by (simp add: pos_imp_zdiv_nonneg_iff)
  then have y': "100 \<le> y'" using assms(2) by (simp add: y'_def)
  have dim: "1 \<le> days_in_month y' mo'" "1 \<le> days_in_month ?y ?mo"
    using days_in_month_positive [OF mo', of y'] days_in_month_positive [OF r0(1,2), of ?y] by simp_all
  define first where "first = set_utc_date t 1"
  have first: "utc_full_year first = ?y" "utc_month first = ?mo" "utc_date first = 1" "time_in_day first = ?s"
    using make_day_valid [of 1 ?y ?mo] r0(1,2) dim s by (simp_all add: first_def set_utc_date_def utc_of_make_date)
  define moved where "moved = set_utc_month first (?mo + m)"
  have moved: "utc_full_year moved = y'" "utc_month moved = mo'" "time_in_day moved = ?s"
    using make_day_valid [of 1 ?y "?mo + m"] dim s first
    by (simp_all add: moved_def set_utc_month_def utc_of_make_date y'_def mo'_def)
  have last: "utc_date (date_utc y' (mo' + 1) 0) = days_in_month y' mo'"
    by (rule last_day_of_month [OF y' mo'])
  define dt where "dt = min (utc_date t) (days_in_month y' mo')"
  have dt: "1 \<le> dt" "dt \<le> days_in_month y' mo'" using dim r0(3) by (simp_all add: dt_def)
  let ?r = "set_utc_date moved dt"
  have r: "utc_full_year ?r = y'" "utc_month ?r = mo'" "utc_date ?r = dt" "time_in_day ?r = ?s"
    using make_day_valid [of dt y' mo'] dt mo' s moved by (simp_all add: set_utc_date_def utc_of_make_date)
  have "add_calendar_months (Some t) (Integral m) = Inr ?r"
    using assms(1) first moved last
    by (simp add: add_calendar_months_def Let_def dt_def flip: first_def moved_def)
  moreover have "12 * y' + mo' = 12 * ?y + ?mo + m"
    using mult_div_mod_eq [of 12 "?mo + m"] by (simp add: y'_def mo'_def)
  ultimately show ?thesis using r by (auto simp: dt_def)
qed

lemma later_month_later:
  "12 * utc_full_year t + utc_month t < 12 * utc_full_year r + utc_month r \<Longrightarrow> t < r"
  by (rule month_index_less) (simp add: month_index_def utc_full_year_def utc_month_def)

lemma month_bounds:
  assumes "100 \<le> utc_full_year t"
  shows "date_utc (utc_full_year t) (utc_month t) 1 \<le> t"
    and "t < date_utc (utc_full_year t) (utc_month t + 1) 1"
proof -
  let ?y = "utc_full_year t" and ?m = "utc_month t"
  note r = civil_reading [of "day_of t", folded utc_full_year_def utc_month_def utc_date_def]
  note s = time_in_day_bounds [of t]
  have t: "t = make_date (day_of t) (time_in_day t)" by (simp add: time_value_split)
  have "make_day ?y ?m 1 \<le> day_of t" using r by (simp add: make_day_def Let_def)
  then show "date_utc ?y ?m 1 \<le> t"
    using assms s by (subst t) (simp add: date_utc_def make_date_def ms_per_day_def)
  have "make_day ?y (?m + 1) 1 = make_day ?y (?m + 1) 0 + 1" by (simp add: make_day_def Let_def)
  also have "day_of t < \<dots>" using r by (simp add: day_zero_of_next_month)
  finally show "t < date_utc ?y (?m + 1) 1"
    using assms s by (subst t) (simp add: date_utc_def make_date_def ms_per_day_def)
qed

section \<open>The properties\<close>

text \<open>Adding a positive number of calendar months to a valid date from year 100 on yields a later
  date, exactly that many months on, at the same time of day, on the original day of the month or,
  when the target month is shorter, on its last day.\<close>

theorem add_calendar_months_correct:
  assumes "0 < m" and "100 \<le> utc_full_year t"
  shows "\<exists>r. add_calendar_months (Some t) (Integral m) = Inr r \<and> t < r
    \<and> 12 * utc_full_year r + utc_month r = 12 * utc_full_year t + utc_month t + m
    \<and> utc_date r = min (utc_date t) (days_in_month (utc_full_year r) (utc_month r))
    \<and> time_in_day r = time_in_day t"
proof -
  obtain r where "add_calendar_months (Some t) (Integral m) = Inr r"
    "12 * utc_full_year r + utc_month r = 12 * utc_full_year t + utc_month t + m"
    "utc_date r = min (utc_date t) (days_in_month (utc_full_year r) (utc_month r))"
    "time_in_day r = time_in_day t"
    using add_calendar_months_Inr [OF assms] by blast
  with assms(1) show ?thesis by (auto intro: later_month_later)
qed

text \<open>A paid membership change never starts before the payment and always ends after it starts; a
  renewal or a downgrade of a membership that is still active starts exactly where it ends, so no paid
  day is lost or counted twice, and only a downgrade is not activated at once.\<close>

theorem resolve_membership_change_period:
  assumes "0 < m" and "100 \<le> utc_full_year payment"
  shows "\<exists>r. resolve_membership_change action (Integral m) payment expires = Inr r
    \<and> payment \<le> change_starts_at r \<and> change_starts_at r < change_ends_at r
    \<and> (\<forall>e. expires = Some e \<and> payment < e \<and> action \<in> {RENEW, DOWNGRADE} \<longrightarrow>
            change_starts_at r = e \<and> e < change_ends_at r)
    \<and> (action \<notin> {RENEW, DOWNGRADE} \<longrightarrow> change_starts_at r = payment)
    \<and> (activates_immediately r \<longleftrightarrow> action \<noteq> DOWNGRADE)"
proof -
  define starts where "starts = (case (case expires of Some e \<Rightarrow> if e > payment then Some e else None | None \<Rightarrow> None) of
      Some e \<Rightarrow> if action = RENEW then e else if action = DOWNGRADE then e else payment | None \<Rightarrow> payment)"
  have le: "payment \<le> starts" by (auto simp: starts_def split: option.splits)
  then have "day_of payment \<le> day_of starts" by (simp add: day_of_def ms_per_day_def zdiv_mono1)
  then have "100 \<le> utc_full_year starts"
    using assms(2) year_from_day_mono by (fastforce simp: utc_full_year_def)
  from add_calendar_months_correct [OF assms(1) this] obtain e where
    e: "add_calendar_months (Some starts) (Integral m) = Inr e" "starts < e" by blast
  have "resolve_membership_change action (Integral m) payment expires = Inr
      \<lparr>change_starts_at = starts, change_ends_at = e, activates_immediately = (action \<noteq> DOWNGRADE)\<rparr>"
    using e by (simp add: resolve_membership_change_def Let_def flip: starts_def)
  with le e show ?thesis by (auto simp: starts_def split: option.splits if_splits)
qed

text \<open>A computed price is never negative and is either the fixed price or, for a whole discount between
  0 and 100 percent, the discounted price of the months rounded down; both inputs or neither is an
  error.\<close>

theorem calculate_duration_price_exact:
  assumes "calculate_duration_price i = Inr p"
  shows "0 \<le> p \<and> (\<exists>m>0. pricing_months i = Integral m \<and>
    (case (fixed_price_amount_minor i, discount_percent i) of
       (Some f, None) \<Rightarrow> p = f
     | (None, Some (Integral d)) \<Rightarrow> 0 \<le> d \<and> d \<le> 100 \<and> p \<le> base_monthly_price_amount_minor i * m
         \<and> 100 * p \<le> base_monthly_price_amount_minor i * m * (100 - d)
         \<and> base_monthly_price_amount_minor i * m * (100 - d) < 100 * p + 100
     | _ \<Rightarrow> False))"
proof -
  have base: "0 \<le> base_monthly_price_amount_minor i"
    using assms by (auto simp: calculate_duration_price_def split: if_splits)
  from assms obtain m where m: "pricing_months i = Integral m" "0 < m"
    by (auto simp: calculate_duration_price_def split: if_splits js_number.splits)
  show ?thesis
  proof (cases "fixed_price_amount_minor i")
    case (Some f)
    with assms m show ?thesis by (auto simp: calculate_duration_price_def split: if_splits)
  next
    case None
    with assms m obtain d where d: "discount_percent i = Some (Integral d)" "0 \<le> d" "d \<le> 100"
      and p: "p = base_monthly_price_amount_minor i * m * (100 - d) div 100"
      by (auto simp: calculate_duration_price_def split: if_splits option.splits js_number.splits)
    define x where "x = base_monthly_price_amount_minor i * m"
    have x: "0 \<le> x" using base m by (simp add: x_def)
    have p: "p = x * (100 - d) div 100" using p by (simp add: x_def)
    have "0 \<le> x * (100 - d)" using x d by simp
    moreover have "x * (100 - d) \<le> x * 100" using x d by (intro mult_left_mono) auto
    ultimately have "0 \<le> p" "100 * p \<le> x * (100 - d)" "x * (100 - d) < 100 * p + 100" "p \<le> x"
      using div_bounds [of 100 "x * (100 - d)"] p by auto
    with None d m show ?thesis by (auto simp: x_def)
  qed
qed

text \<open>While a grant is in force its usage window contains the moment asked about and lies within the
  grant, and for a quota that resets monthly every moment of the same UTC month gets the same
  window, so all of the month's usage is counted together.\<close>

theorem entitlement_usage_window_contains:
  assumes "gs \<le> t" and "\<forall>e. ge = Some e \<longrightarrow> t < e" and "100 \<le> utc_full_year t"
  shows "gs \<le> fst (entitlement_usage_window rp gs ge t) \<and> fst (entitlement_usage_window rp gs ge t) \<le> t
    \<and> (\<forall>e. snd (entitlement_usage_window rp gs ge t) = Some e \<longrightarrow> t < e \<and> (\<forall>g. ge = Some g \<longrightarrow> e \<le> g))
    \<and> (utc_full_year u = utc_full_year t \<and> utc_month u = utc_month t \<longrightarrow>
         entitlement_usage_window rp gs ge u = entitlement_usage_window rp gs ge t)"
  using assms month_bounds [OF assms(3)]
  by (auto simp: entitlement_usage_window_def Let_def split: option.splits)

text \<open>A normalized entitlement satisfies the declared semantics: a boolean carries its value and no
  quota, a metered one a positive quota, an unlimited one neither, and only a metered one resets.\<close>

theorem normalize_entitlement_value_semantics:
  assumes "normalize_entitlement_value vt rp bv q = Inr r"
  shows "r = \<lparr>value_type = vt, reset_period = rp, boolean_value = bv, quota = q\<rparr>
    \<and> (boolean_value r \<noteq> None \<longleftrightarrow> value_type r = BooleanValue)
    \<and> (quota r \<noteq> None \<longleftrightarrow> value_type r = Metered) \<and> (\<forall>n. quota r = Some n \<longrightarrow> 0 < n)
    \<and> (value_type r \<noteq> Metered \<longrightarrow> reset_period r = NoReset)"
  using assms by (auto simp: normalize_entitlement_value_def Let_def split: if_splits option.splits)

section \<open>Witnesses\<close>

text \<open>2024-01-31T12:00Z plus one month is 2024-02-29T12:00Z.\<close>

lemma example_january:
  "utc_full_year 1706702400000 = 2024" "utc_month 1706702400000 = 0" "utc_date 1706702400000 = 31"
  by code_simp+

lemma example_january_year: "100 \<le> utc_full_year 1706702400000"
  unfolding example_january by simp

theorem add_calendar_months_correct_witness:
  "\<exists>r. add_calendar_months (Some 1706702400000) (Integral 1) = Inr r \<and> 1706702400000 < r
     \<and> 12 * utc_full_year r + utc_month r = 12 * 2024 + 1"
proof -
  have "(0::int) < 1" by simp
  from add_calendar_months_correct [OF this example_january_year] obtain r where
    "add_calendar_months (Some 1706702400000) (Integral 1) = Inr r" "1706702400000 < r"
    "12 * utc_full_year r + utc_month r
      = 12 * utc_full_year 1706702400000 + utc_month 1706702400000 + 1" by blast
  then show ?thesis unfolding example_january by (intro exI [of _ r]) simp
qed

theorem resolve_membership_change_period_witness:
  "\<exists>r. resolve_membership_change RENEW (Integral 1) 1706702400000 (Some 1706702400001) = Inr r
    \<and> change_starts_at r = 1706702400001 \<and> 1706702400001 < change_ends_at r \<and> activates_immediately r"
proof -
  have "(0::int) < 1" by simp
  from resolve_membership_change_period [OF this example_january_year, of RENEW "Some 1706702400001"]
  obtain r where r: "resolve_membership_change RENEW (Integral 1) 1706702400000 (Some 1706702400001) = Inr r"
    "\<forall>e. Some 1706702400001 = Some e \<and> 1706702400000 < e \<and> RENEW \<in> {RENEW, DOWNGRADE} \<longrightarrow>
            change_starts_at r = e \<and> e < change_ends_at r"
    "activates_immediately r \<longleftrightarrow> RENEW \<noteq> DOWNGRADE" by blast
  from r(2) [rule_format, of 1706702400001] r(1,3) show ?thesis by (intro exI [of _ r]) simp
qed

abbreviation example_pricing :: membership_duration_pricing where
  "example_pricing \<equiv> \<lparr>base_monthly_price_amount_minor = 99999, pricing_months = Integral 12,
     fixed_price_amount_minor = None, discount_percent = Some (Integral 15)\<rparr>"

theorem calculate_duration_price_exact_witness:
  "calculate_duration_price example_pricing = Inr 1019989 \<and> (1019989::int) \<le> 99999 * 12"
proof -
  have c: "calculate_duration_price example_pricing = Inr 1019989" by code_simp
  from calculate_duration_price_exact [OF c] c show ?thesis by auto
qed

theorem entitlement_usage_window_contains_witness:
  "1706000000000 \<le> fst (entitlement_usage_window CalendarMonth 1706000000000 None 1706702400000)
   \<and> fst (entitlement_usage_window CalendarMonth 1706000000000 None 1706702400000) \<le> 1706702400000"
proof -
  have h: "(1706000000000::int) \<le> 1706702400000" "\<forall>e. None = Some e \<longrightarrow> (1706702400000::int) < e" by simp_all
  note w = entitlement_usage_window_contains [OF h example_january_year, of CalendarMonth]
  show ?thesis by (rule conjI [OF w [THEN conjunct1] w [THEN conjunct2, THEN conjunct1]])
qed

theorem normalize_entitlement_value_semantics_witness:
  "normalize_entitlement_value Metered CalendarMonth None (Some 5)
     = Inr \<lparr>value_type = Metered, reset_period = CalendarMonth, boolean_value = None, quota = Some 5\<rparr>
   \<and> (0::int) < 5"
proof -
  have c: "normalize_entitlement_value Metered CalendarMonth None (Some 5)
     = Inr \<lparr>value_type = Metered, reset_period = CalendarMonth, boolean_value = None, quota = Some 5\<rparr>"
    by code_simp
  from normalize_entitlement_value_semantics [OF c] c show ?thesis by simp
qed

end
