(* ===== verification/Voucher_Rules.thy ===== *)
theory Voucher_Rules
  imports Prelude
begin

text \<open>
  Voucher eligibility and discounts: \<^verbatim>\<open>src/modules/vouchers/voucher.rules.ts\<close>.
  A date string of the policy or context is represented by the value of
  \<^verbatim>\<open>Date.parse\<close> on it (\<^term>\<open>None\<close> for \<^verbatim>\<open>NaN\<close>).
  The discount is computed exactly; the code's double-precision product and quotient agree with it
  on the 32-bit amounts the database holds.
\<close>

datatype voucher_status = VoucherDraft | VoucherActive | VoucherDisabled

datatype voucher_kind = VoucherPercentage | VoucherFixed

record voucher_policy =
  vp_code :: string
  vp_status :: voucher_status
  vp_kind :: voucher_kind
  vp_value :: js_number
  vp_currency :: string
  vp_starts_at :: "int option"
  vp_ends_at :: "int option"
  vp_minimum_course_price_minor :: "js_number option"
  vp_maximum_discount_minor :: "js_number option"
  vp_usage_limit :: "js_number option"
  vp_redeemed_count :: js_number
  vp_per_user_limit :: "js_number option"
  vp_user_redemption_count :: js_number
  vp_course_ids :: "string list"
  vp_category_slugs :: "string list"
  vp_eligible_user_ids :: "string list"

record course_price =
  price_minor :: js_number
  price_currency :: string

record voucher_context =
  vc_now :: "int option"
  vc_submitted_code :: string
  vc_user_id :: string
  vc_course_id :: string
  vc_category_slug :: "string option"
  vc_course_price :: course_price

datatype voucher_reason =
    Eligible | CodeInvalid | VoucherDisabledReason | VoucherNotStarted | VoucherExpired
  | InvalidVoucherPolicy | InvalidCoursePrice | CurrencyMismatch | MinimumCoursePriceNotMet
  | UsageLimitReached | PerUserLimitReached | UserNotEligible | CourseScopeNotEligible

record voucher_decision =
  vd_eligible :: bool
  vd_reason :: voucher_reason
  vd_discount_amount_minor :: int
  vd_final_amount_minor :: js_number

section \<open>Validity of the inputs\<close>

definition normalize_code :: "string \<Rightarrow> string" where
  "normalize_code code = js_upper (js_trim code)"

definition letter_char :: "char \<Rightarrow> bool" where
  "letter_char c \<longleftrightarrow> upper_char c \<or> lower_char c"

definition currency_like :: "string \<Rightarrow> bool" where
  "currency_like s = (length s = 3 \<and> list_all letter_char s)"

definition code_like :: "string \<Rightarrow> bool" where
  "code_like s = (3 \<le> length s \<and> length s \<le> 64 \<and>
     list_all (\<lambda>c. letter_char c \<or> digit_char c \<or> c = CHR ''_'' \<or> c = CHR ''-'') s)"

fun is_nonneg_integer :: "js_number \<Rightarrow> bool" where
  "is_nonneg_integer (Integral i) = (0 \<le> i)"
| "is_nonneg_integer NonIntegral = False"

definition is_valid_course_price :: "course_price \<Rightarrow> bool" where
  "is_valid_course_price p = (is_nonneg_integer (price_minor p) \<and> currency_like (price_currency p))"

definition valid_voucher_value :: "voucher_kind \<Rightarrow> js_number \<Rightarrow> bool" where
  "valid_voucher_value k v =
     (case v of
        NonIntegral \<Rightarrow> False
      | Integral n \<Rightarrow> if k = VoucherPercentage then 1 \<le> n \<and> n \<le> 100 else 0 < n)"

definition is_valid_policy :: "voucher_policy \<Rightarrow> bool" where
  "is_valid_policy p =
     (let valid_dates = (vp_starts_at p \<noteq> None \<and> vp_ends_at p \<noteq> None);
          valid_value = valid_voucher_value (vp_kind p) (vp_value p);
          valid_limits = list_all (\<lambda>v. case v of None \<Rightarrow> True | Some n \<Rightarrow> is_nonneg_integer n)
            [vp_minimum_course_price_minor p, vp_maximum_discount_minor p, vp_usage_limit p, vp_per_user_limit p]
      in code_like (js_trim (vp_code p)) \<and> currency_like (vp_currency p) \<and> valid_dates
         \<and> the (vp_starts_at p) \<le> the (vp_ends_at p) \<and> valid_value \<and> valid_limits
         \<and> is_nonneg_integer (vp_redeemed_count p) \<and> is_nonneg_integer (vp_user_redemption_count p))"

section \<open>The decision\<close>

text \<open>Comparison of integral numbers (both sides have passed the validity checks) and of time values,
  where a comparison with \<^verbatim>\<open>NaN\<close> is false.\<close>

fun int_value :: "js_number \<Rightarrow> int" where
  "int_value (Integral i) = i"
| "int_value NonIntegral = 0"

fun time_less :: "int option \<Rightarrow> int option \<Rightarrow> bool" where
  "time_less (Some a) (Some b) = (a < b)"
| "time_less _ _ = False"

fun time_ge :: "int option \<Rightarrow> int option \<Rightarrow> bool" where
  "time_ge (Some a) (Some b) = (a \<ge> b)"
| "time_ge _ _ = False"

definition voucher_fail :: "js_number \<Rightarrow> voucher_reason \<Rightarrow> voucher_decision" where
  "voucher_fail base r = \<lparr>vd_eligible = False, vd_reason = r, vd_discount_amount_minor = 0, vd_final_amount_minor = base\<rparr>"

definition scope_excludes :: "voucher_policy \<Rightarrow> voucher_context \<Rightarrow> bool" where
  "scope_excludes p c =
     ((vp_course_ids p \<noteq> [] \<or> vp_category_slugs p \<noteq> []) \<and> vc_course_id c \<notin> set (vp_course_ids p)
      \<and> \<not> (opt_truthy (vc_category_slug c) \<and> the (vc_category_slug c) \<in> set (vp_category_slugs p)))"

definition capped_discount :: "voucher_policy \<Rightarrow> int \<Rightarrow> int" where
  "capped_discount p base =
     (let raw = (if vp_kind p = VoucherPercentage then base * int_value (vp_value p) div 100
                 else int_value (vp_value p))
      in min base (case vp_maximum_discount_minor p of None \<Rightarrow> raw | Some m \<Rightarrow> min raw (int_value m)))"

definition evaluate_voucher_eligibility :: "voucher_policy \<Rightarrow> voucher_context \<Rightarrow> voucher_decision" where
  "evaluate_voucher_eligibility p c =
     (let base = price_minor (vc_course_price c) in
      if normalize_code (vc_submitted_code c) \<noteq> normalize_code (vp_code p) then voucher_fail base CodeInvalid
      else if vp_status p = VoucherDisabled then voucher_fail base VoucherDisabledReason
      else if vp_status p \<noteq> VoucherActive then voucher_fail base InvalidVoucherPolicy
      else if \<not> is_valid_course_price (vc_course_price c) then voucher_fail base InvalidCoursePrice
      else if \<not> is_valid_policy p then voucher_fail base InvalidVoucherPolicy
      else if js_upper (vp_currency p) \<noteq> js_upper (price_currency (vc_course_price c)) then voucher_fail base CurrencyMismatch
      else if time_less (vc_now c) (vp_starts_at p) then voucher_fail base VoucherNotStarted
      else if time_ge (vc_now c) (vp_ends_at p) then voucher_fail base VoucherExpired
      else if (case vp_minimum_course_price_minor p of None \<Rightarrow> False | Some m \<Rightarrow> int_value base < int_value m)
        then voucher_fail base MinimumCoursePriceNotMet
      else if (case vp_usage_limit p of None \<Rightarrow> False | Some m \<Rightarrow> int_value (vp_redeemed_count p) \<ge> int_value m)
        then voucher_fail base UsageLimitReached
      else if (case vp_per_user_limit p of None \<Rightarrow> False | Some m \<Rightarrow> int_value (vp_user_redemption_count p) \<ge> int_value m)
        then voucher_fail base PerUserLimitReached
      else if vp_eligible_user_ids p \<noteq> [] \<and> vc_user_id c \<notin> set (vp_eligible_user_ids p)
        then voucher_fail base UserNotEligible
      else if scope_excludes p c then voucher_fail base CourseScopeNotEligible
      else let discount = capped_discount p (int_value base)
           in \<lparr>vd_eligible = True, vd_reason = Eligible, vd_discount_amount_minor = discount,
               vd_final_amount_minor = Integral (int_value base - discount)\<rparr>)"

section \<open>Lemmas\<close>

lemma voucher_fail_fields [simp]:
  "vd_eligible (voucher_fail b r) = False" "vd_reason (voucher_fail b r) = r"
  "vd_discount_amount_minor (voucher_fail b r) = 0" "vd_final_amount_minor (voucher_fail b r) = b"
  by (simp_all add: voucher_fail_def)

lemma is_nonneg_integer_iff: "is_nonneg_integer n \<longleftrightarrow> (\<exists>i. n = Integral i \<and> 0 \<le> i)"
  by (cases n) auto

text \<open>What an eligible decision has checked, and what it then decides.\<close>

lemma eligible_iff:
  "vd_eligible (evaluate_voucher_eligibility p c) \<longleftrightarrow>
     normalize_code (vc_submitted_code c) = normalize_code (vp_code p) \<and> vp_status p = VoucherActive
     \<and> is_valid_course_price (vc_course_price c) \<and> is_valid_policy p
     \<and> js_upper (vp_currency p) = js_upper (price_currency (vc_course_price c))
     \<and> \<not> time_less (vc_now c) (vp_starts_at p) \<and> \<not> time_ge (vc_now c) (vp_ends_at p)
     \<and> \<not> (case vp_minimum_course_price_minor p of None \<Rightarrow> False
           | Some m \<Rightarrow> int_value (price_minor (vc_course_price c)) < int_value m)
     \<and> \<not> (case vp_usage_limit p of None \<Rightarrow> False | Some m \<Rightarrow> int_value (vp_redeemed_count p) \<ge> int_value m)
     \<and> \<not> (case vp_per_user_limit p of None \<Rightarrow> False | Some m \<Rightarrow> int_value (vp_user_redemption_count p) \<ge> int_value m)
     \<and> (vp_eligible_user_ids p = [] \<or> vc_user_id c \<in> set (vp_eligible_user_ids p))
     \<and> \<not> scope_excludes p c"
  by (simp add: evaluate_voucher_eligibility_def Let_def if_distrib [of vd_eligible] cong: if_cong)

lemma eligible_value:
  "vd_eligible (evaluate_voucher_eligibility p c) \<Longrightarrow>
    evaluate_voucher_eligibility p c =
      \<lparr>vd_eligible = True, vd_reason = Eligible,
       vd_discount_amount_minor = capped_discount p (int_value (price_minor (vc_course_price c))),
       vd_final_amount_minor = Integral (int_value (price_minor (vc_course_price c))
         - capped_discount p (int_value (price_minor (vc_course_price c))))\<rparr>"
  unfolding eligible_iff by (elim conjE disjE) (simp_all add: evaluate_voucher_eligibility_def Let_def)

text \<open>Every decision is either eligible or a failure with some reason.\<close>

definition decided :: "js_number \<Rightarrow> voucher_decision \<Rightarrow> bool" where
  "decided b d \<longleftrightarrow> vd_eligible d \<or> (\<exists>r. r \<noteq> Eligible \<and> d = voucher_fail b r)"

lemma decided_if: "decided b x \<Longrightarrow> decided b y \<Longrightarrow> decided b (if q then x else y)"
  by simp

lemma decided_fail: "r \<noteq> Eligible \<Longrightarrow> decided b (voucher_fail b r)"
  by (auto simp: decided_def)

lemma decided_evaluate: "decided (price_minor (vc_course_price c)) (evaluate_voucher_eligibility p c)"
  unfolding evaluate_voucher_eligibility_def Let_def
  by (intro decided_if decided_fail) (simp_all add: decided_def)

lemma ineligible_value:
  "\<not> vd_eligible (evaluate_voucher_eligibility p c) \<Longrightarrow>
    \<exists>r. r \<noteq> Eligible \<and> evaluate_voucher_eligibility p c = voucher_fail (price_minor (vc_course_price c)) r"
  using decided_evaluate [of c p] by (simp add: decided_def)

lemma capped_discount_bounds:
  assumes "is_valid_policy p" and "0 \<le> base"
  shows "0 \<le> capped_discount p base" and "capped_discount p base \<le> base"
proof -
  have m: "is_nonneg_integer m" if "vp_maximum_discount_minor p = Some m" for m
    using assms(1) that by (simp add: is_valid_policy_def Let_def)
  have v: "valid_voucher_value (vp_kind p) (vp_value p)"
    using assms(1) by (simp add: is_valid_policy_def Let_def)
  have "0 \<le> (if vp_kind p = VoucherPercentage then base * int_value (vp_value p) div 100 else int_value (vp_value p))"
    using v assms(2)
    by (auto simp: valid_voucher_value_def pos_imp_zdiv_nonneg_iff split: js_number.splits if_splits)
  then show "0 \<le> capped_discount p base"
    using m assms(2)
    by (auto simp: capped_discount_def Let_def is_nonneg_integer_iff split: option.splits)
  show "capped_discount p base \<le> base" by (simp add: capped_discount_def Let_def)
qed

section \<open>The properties\<close>

text \<open>C33: Whatever the decision, no price is raised or made negative: an ineligible voucher leaves the price
  untouched, and an eligible one takes off between nothing and the whole price, at most the declared
  maximum and at most the stated percentage.\<close>

theorem voucher_discount_bounds:
  "let d = evaluate_voucher_eligibility p c in
     (\<not> vd_eligible d \<and> vd_discount_amount_minor d = 0
            \<and> vd_final_amount_minor d = price_minor (vc_course_price c) \<and> vd_reason d \<noteq> Eligible)
    \<or> (\<exists>base. price_minor (vc_course_price c) = Integral base \<and> vd_reason d = Eligible
        \<and> 0 \<le> vd_discount_amount_minor d \<and> vd_discount_amount_minor d \<le> base
        \<and> vd_final_amount_minor d = Integral (base - vd_discount_amount_minor d)
        \<and> (case vp_maximum_discount_minor p of None \<Rightarrow> True
             | Some m \<Rightarrow> vd_discount_amount_minor d \<le> int_value m)
        \<and> (if vp_kind p = VoucherPercentage
           then 100 * vd_discount_amount_minor d \<le> base * int_value (vp_value p)
           else vd_discount_amount_minor d \<le> int_value (vp_value p)))"
proof (cases "vd_eligible (evaluate_voucher_eligibility p c)")
  case True
  note e = True [unfolded eligible_iff]
  from e obtain base where b: "price_minor (vc_course_price c) = Integral base" "0 \<le> base"
    by (auto simp: is_valid_course_price_def is_nonneg_integer_iff)
  have d: "evaluate_voucher_eligibility p c = \<lparr>vd_eligible = True, vd_reason = Eligible,
      vd_discount_amount_minor = capped_discount p base,
      vd_final_amount_minor = Integral (base - capped_discount p base)\<rparr>"
    using eligible_value [OF True] b by simp
  have "100 * (base * int_value (vp_value p) div 100) \<le> base * int_value (vp_value p)"
    by (metis mult.commute pos_mod_sign zero_less_numeral le_add_same_cancel1 div_mult_mod_eq)
  then show ?thesis
    using b d capped_discount_bounds [of p base] e
    unfolding Let_def d
    by (intro disjI2 exI [of _ base]) (auto simp: capped_discount_def Let_def min_def split: option.splits)
next
  case False
  from ineligible_value [OF this] show ?thesis by (auto simp: Let_def)
qed

text \<open>C34: An eligible voucher is an active, valid policy in its validity window at a valid moment, below both
  its overall and its per-user limit, for a user and a course it is meant for, in the course's
  currency.\<close>

theorem voucher_eligible_admission:
  assumes "vd_eligible (evaluate_voucher_eligibility p c)" and "vc_now c = Some now"
  shows "vp_status p = VoucherActive \<and> is_valid_policy p
    \<and> (\<exists>s e. vp_starts_at p = Some s \<and> vp_ends_at p = Some e \<and> s \<le> now \<and> now < e)
    \<and> (\<forall>m. vp_usage_limit p = Some m \<longrightarrow> int_value (vp_redeemed_count p) < int_value m)
    \<and> (\<forall>m. vp_per_user_limit p = Some m \<longrightarrow> int_value (vp_user_redemption_count p) < int_value m)
    \<and> (vp_eligible_user_ids p = [] \<or> vc_user_id c \<in> set (vp_eligible_user_ids p))
    \<and> (vp_course_ids p = [] \<and> vp_category_slugs p = [] \<or> vc_course_id c \<in> set (vp_course_ids p)
       \<or> (\<exists>s. vc_category_slug c = Some s \<and> s \<in> set (vp_category_slugs p)))
    \<and> js_upper (vp_currency p) = js_upper (price_currency (vc_course_price c))"
proof -
  note e = assms(1) [unfolded eligible_iff]
  from e have "vp_starts_at p \<noteq> None" "vp_ends_at p \<noteq> None" by (auto simp: is_valid_policy_def Let_def)
  then obtain s t where st: "vp_starts_at p = Some s" "vp_ends_at p = Some t" by auto
  have "vp_course_ids p = [] \<and> vp_category_slugs p = [] \<or> vc_course_id c \<in> set (vp_course_ids p)
       \<or> (\<exists>s. vc_category_slug c = Some s \<and> s \<in> set (vp_category_slugs p))"
    using e by (cases "vc_category_slug c") (auto simp: scope_excludes_def)
  with e st assms(2) show ?thesis by (simp split: option.splits)
qed

section \<open>Witness\<close>

abbreviation example_policy :: voucher_policy where
  "example_policy \<equiv> \<lparr>vp_code = ''EDUAI20'', vp_status = VoucherActive, vp_kind = VoucherPercentage,
     vp_value = Integral 20, vp_currency = ''VND'', vp_starts_at = Some 10, vp_ends_at = Some 20,
     vp_minimum_course_price_minor = None, vp_maximum_discount_minor = Some (Integral 50),
     vp_usage_limit = Some (Integral 2), vp_redeemed_count = Integral 1, vp_per_user_limit = None,
     vp_user_redemption_count = Integral 0, vp_course_ids = [''k''], vp_category_slugs = [],
     vp_eligible_user_ids = []\<rparr>"

abbreviation example_context :: voucher_context where
  "example_context \<equiv> \<lparr>vc_now = Some 15, vc_submitted_code = '' eduai20'', vc_user_id = ''u'',
     vc_course_id = ''k'', vc_category_slug = None, vc_course_price = \<lparr>price_minor = Integral 1000, price_currency = ''VND''\<rparr>\<rparr>"

theorem voucher_eligible_admission_witness:
  "vd_eligible (evaluate_voucher_eligibility example_policy example_context)
   \<and> vd_discount_amount_minor (evaluate_voucher_eligibility example_policy example_context) = 50
   \<and> is_valid_policy example_policy"
proof -
  have e: "vd_eligible (evaluate_voucher_eligibility example_policy example_context)"
    and d: "vd_discount_amount_minor (evaluate_voucher_eligibility example_policy example_context) = 50"
    by code_simp+
  from voucher_eligible_admission [OF e, of 15] e d show ?thesis by simp
qed

end
