(* ===== verification/Audit_Log.thy ===== *)
theory Audit_Log
  imports Prelude
begin

text \<open>
  The audit log every service writes to: \<^verbatim>\<open>src/common/audit/audit.service.ts\<close>.
  Metadata is a JavaScript value; what cannot be stored is dropped and a property whose name looks
  like a secret never reaches the log.
\<close>

datatype meta =
    MString string
  | MBool bool
  | MNull
  | MNumber int
  | MNotFinite
  | MArray "meta list"
  | MObject "(string \<times> meta) list"
  | MUndefined

record audit_input =
  ai_actor_kind :: "string option"
  ai_actor_id :: "string option"
  ai_action :: string
  ai_target_type :: string
  ai_target_id :: string
  ai_metadata :: "(string \<times> meta) list"

record audit_row =
  ar_actor_kind :: string
  ar_actor_id :: "string option"
  ar_action :: string
  ar_target_type :: string
  ar_target_id :: string
  ar_metadata :: "(string \<times> meta) list"

section \<open>Sanitising\<close>

fun contains :: "string \<Rightarrow> string \<Rightarrow> bool" where
  "contains [] pat = (pat = [])"
| "contains (c # cs) pat = (take (length pat) (c # cs) = pat \<or> contains cs pat)"

definition sensitive_words :: "string list" where
  "sensitive_words = [''password'', ''token'', ''secret'', ''cookie'', ''authorization'', ''credential'',
     ''sessionid'', ''apikey'']"

definition sensitive_key :: "string \<Rightarrow> bool" where
  "sensitive_key k = list_ex (contains (js_lower k)) sensitive_words"

fun sanitize_value :: "meta \<Rightarrow> meta option"
  and sanitize_array :: "meta list \<Rightarrow> meta list"
  and sanitize_object :: "(string \<times> meta) list \<Rightarrow> (string \<times> meta) list" where
  "sanitize_value (MString s) = Some (MString s)"
| "sanitize_value (MBool b) = Some (MBool b)"
| "sanitize_value MNull = None"
| "sanitize_value (MNumber n) = Some (MNumber n)"
| "sanitize_value MNotFinite = None"
| "sanitize_value (MArray vs) = Some (MArray (sanitize_array vs))"
| "sanitize_value (MObject ps) = Some (MObject (sanitize_object ps))"
| "sanitize_value MUndefined = None"
| "sanitize_array [] = []"
| "sanitize_array (v # vs) =
     (case sanitize_value v of None \<Rightarrow> sanitize_array vs | Some w \<Rightarrow> w # sanitize_array vs)"
| "sanitize_object [] = []"
| "sanitize_object ((k, v) # ps) =
     (if sensitive_key k then sanitize_object ps
      else case sanitize_value v of None \<Rightarrow> sanitize_object ps | Some w \<Rightarrow> (k, w) # sanitize_object ps)"

section \<open>Writing\<close>

definition audit_record :: "audit_input \<Rightarrow> audit_row result" where
  "audit_record input =
     (let kind = (case ai_actor_kind input of None \<Rightarrow> ''USER'' | Some k \<Rightarrow> k) in
      throw_if (kind = ''USER'' \<and> \<not> opt_truthy (ai_actor_id input)
          \<or> kind \<noteq> ''USER'' \<and> opt_truthy (ai_actor_id input))
        (PlainError ''Audit actor kind and identity do not match.'') (
      Inr \<lparr>ar_actor_kind = kind, ar_actor_id = ai_actor_id input, ar_action = ai_action input,
           ar_target_type = ai_target_type input, ar_target_id = ai_target_id input,
           ar_metadata = sanitize_object (ai_metadata input)\<rparr>))"

section \<open>Reading\<close>

record audit_log =
  al_id :: string
  al_occurred_at :: int
  al_row :: audit_row

record audit_query =
  aq_page :: nat
  aq_page_size :: nat
  aq_search :: "string option"
  aq_action :: "string option"
  aq_target_type :: "string option"
  aq_occurred_after :: "int option"
  aq_occurred_before :: "int option"

text \<open>\<^verbatim>\<open>contains\<close> with mode insensitive; \<^verbatim>\<open>actor_text\<close> gives the email
  and the full name of an actor, when there is one.\<close>

definition icontains :: "string \<Rightarrow> string \<Rightarrow> bool" where
  "icontains s pat = contains (js_lower s) (js_lower pat)"

definition build_where ::
  "(string \<Rightarrow> (string \<times> string) option) \<Rightarrow> audit_query \<Rightarrow> audit_log \<Rightarrow> bool" where
  "build_where actor_text q l =
     (let r = al_row l in
      (opt_truthy (aq_action q) \<longrightarrow> aq_action q = Some (ar_action r))
      \<and> (opt_truthy (aq_target_type q) \<longrightarrow> aq_target_type q = Some (ar_target_type r))
      \<and> (case aq_occurred_after q of None \<Rightarrow> True | Some t \<Rightarrow> al_occurred_at l \<ge> t)
      \<and> (case aq_occurred_before q of None \<Rightarrow> True | Some t \<Rightarrow> al_occurred_at l \<le> t)
      \<and> (opt_truthy (aq_search q) \<longrightarrow>
          (let s = the (aq_search q) in
           icontains (ar_action r) s \<or> icontains (ar_target_type r) s \<or> icontains (ar_target_id r) s
           \<or> (case ar_actor_id r of None \<Rightarrow> False
               | Some a \<Rightarrow> (case actor_text a of None \<Rightarrow> False
                  | Some (email, full_name) \<Rightarrow> icontains email s \<or> icontains full_name s)))))"

definition audit_list ::
  "(string \<Rightarrow> (string \<times> string) option) \<Rightarrow> audit_query \<Rightarrow> audit_log list \<Rightarrow> audit_log page" where
  "audit_list actor_text q logs =
     make_page (\<lambda>l. l) (aq_page q) (aq_page_size q)
       (js_sort (newest_first al_occurred_at al_id) (filter (build_where actor_text q) logs))"

definition list_target_history :: "string \<Rightarrow> string \<Rightarrow> int \<Rightarrow> audit_log list \<Rightarrow> audit_log list" where
  "list_target_history target_type target_id tk logs =
     take (nat (min (max tk 1) 100))
       (js_sort (newest_first al_occurred_at al_id)
         (filter (\<lambda>l. ar_action (al_row l) = ''CONTENT_MODERATION_CHANGED''
            \<and> ar_target_type (al_row l) = target_type \<and> ar_target_id (al_row l) = target_id) logs))"

section \<open>The properties\<close>

text \<open>What may be stored: no secret-looking property name and no null at any depth.\<close>

fun storable :: "meta \<Rightarrow> bool"
  and storable_array :: "meta list \<Rightarrow> bool"
  and storable_object :: "(string \<times> meta) list \<Rightarrow> bool" where
  "storable (MString s) = True"
| "storable (MBool b) = True"
| "storable MNull = False"
| "storable (MNumber n) = True"
| "storable MNotFinite = False"
| "storable (MArray vs) = storable_array vs"
| "storable (MObject ps) = storable_object ps"
| "storable MUndefined = False"
| "storable_array [] = True"
| "storable_array (v # vs) = (storable v \<and> storable_array vs)"
| "storable_object [] = True"
| "storable_object ((k, v) # ps) = (\<not> sensitive_key k \<and> storable v \<and> storable_object ps)"

lemma sanitize_storable:
  "\<forall>w. sanitize_value v = Some w \<longrightarrow> storable w"
  "storable_array (sanitize_array vs)"
  "storable_object (sanitize_object ps)"
  by (induction v and vs and ps rule: sanitize_value_sanitize_array_sanitize_object.induct)
     (auto split: option.splits)

lemma sanitize_stable:
  "storable v \<longrightarrow> sanitize_value v = Some v"
  "storable_array vs \<longrightarrow> sanitize_array vs = vs"
  "storable_object ps \<longrightarrow> sanitize_object ps = ps"
  by (induction v and vs and ps rule: sanitize_value_sanitize_array_sanitize_object.induct) auto

text \<open>C35: No audit row ever contains a property whose name looks like a secret, at any depth, nor a value that
  cannot be stored; metadata that is already clean is recorded unchanged; and the actor kind always
  matches the presence of an actor.\<close>

theorem audit_never_stores_secrets:
  assumes "audit_record input = Inr row"
  shows "storable_object (ar_metadata row)
    \<and> (storable_object (ai_metadata input) \<longrightarrow> ar_metadata row = ai_metadata input)
    \<and> (ar_actor_kind row = ''USER'' \<longleftrightarrow> opt_truthy (ar_actor_id row))"
proof -
  have row: "ar_metadata row = sanitize_object (ai_metadata input)" "ar_actor_id row = ai_actor_id input"
    "ar_actor_kind row = (case ai_actor_kind input of None \<Rightarrow> ''USER'' | Some k \<Rightarrow> k)"
    "(case ai_actor_kind input of None \<Rightarrow> ''USER'' | Some k \<Rightarrow> k) = ''USER'' \<longleftrightarrow> opt_truthy (ai_actor_id input)"
    using assms unfolding audit_record_def Let_def by (auto simp: result_simps)
  then show ?thesis using sanitize_storable(3) sanitize_stable(3) by simp
qed

theorem audit_never_stores_secrets_witness:
  "\<exists>row. audit_record \<lparr>ai_actor_kind = None, ai_actor_id = Some ''u'', ai_action = ''a'', ai_target_type = ''t'',
      ai_target_id = ''i'', ai_metadata = [(''accessToken'', MString ''x''), (''n'', MNumber 1)]\<rparr> = Inr row
    \<and> ar_metadata row = [(''n'', MNumber 1)] \<and> storable_object (ar_metadata row)"
proof -
  let ?row = "\<lparr>ar_actor_kind = ''USER'', ar_actor_id = Some ''u'', ar_action = ''a'', ar_target_type = ''t'',
    ar_target_id = ''i'', ar_metadata = [(''n'', MNumber 1)]\<rparr>"
  have r: "audit_record \<lparr>ai_actor_kind = None, ai_actor_id = Some ''u'', ai_action = ''a'', ai_target_type = ''t'',
      ai_target_id = ''i'', ai_metadata = [(''accessToken'', MString ''x''), (''n'', MNumber 1)]\<rparr> = Inr ?row"
    by code_simp
  from audit_never_stores_secrets [OF r] r show ?thesis by simp
qed

text \<open>Paging loses and repeats nothing: the pages of an audit query, one after the other, are exactly the
  matching entries, newest first, and every page reports the same totals.\<close>

theorem audit_pages_partition:
  assumes "0 < aq_page_size q"
  shows "concat (map (\<lambda>p. pg_items (audit_list actor_text (q\<lparr>aq_page := p\<rparr>) logs))
           [1..<Suc (pg_total_pages (audit_list actor_text q logs))])
       = js_sort (newest_first al_occurred_at al_id) (filter (build_where actor_text q) logs)"
proof -
  have w: "build_where actor_text (q\<lparr>aq_page := p\<rparr>) = build_where actor_text q" for p
    by (rule ext) (simp add: build_where_def Let_def)
  show ?thesis
    using pages_cover [OF assms, of "js_sort (newest_first al_occurred_at al_id) (filter (build_where actor_text q) logs)"]
    by (simp add: audit_list_def make_page_def w del: upt_Suc)
qed

abbreviation example_query :: audit_query where
  "example_query \<equiv> \<lparr>aq_page = 1, aq_page_size = 1, aq_search = None, aq_action = None, aq_target_type = None,
     aq_occurred_after = None, aq_occurred_before = None\<rparr>"

abbreviation example_logs :: "audit_log list" where
  "example_logs \<equiv> map (\<lambda>(i, t). \<lparr>al_id = i, al_occurred_at = t, al_row = \<lparr>ar_actor_kind = ''USER'',
     ar_actor_id = Some ''u'', ar_action = ''a'', ar_target_type = ''t'', ar_target_id = ''i'', ar_metadata = []\<rparr>\<rparr>)
     [(''1'', 5), (''2'', 9)]"

theorem audit_pages_partition_witness:
  "map al_id (concat (map (\<lambda>p. pg_items (audit_list (\<lambda>_. None) (example_query\<lparr>aq_page := p\<rparr>) example_logs)) [1..<3]))
     = [''2'', ''1'']"
proof -
  have t: "pg_total_pages (audit_list (\<lambda>_. None) example_query example_logs) = 2"
    by (simp add: audit_list_def make_page_def total_pages_def build_where_def)
  have s: "map al_id (js_sort (newest_first al_occurred_at al_id)
      (filter (build_where (\<lambda>_. None) example_query) example_logs)) = [''2'', ''1'']"
    by (simp add: build_where_def newest_first_def)
  have z: "0 < aq_page_size example_query" by simp
  have three: "Suc 2 = (3::nat)" by simp
  show ?thesis
    using s audit_pages_partition [OF z, of "\<lambda>_. None" example_logs] unfolding t three by simp
qed

end
