(* ===== verification/Voucher_Service.thy ===== *)
theory Voucher_Service
  imports Voucher_Rules Audit_Log
begin

text \<open>
  The voucher service: \<^verbatim>\<open>src/modules/vouchers/vouchers.service.ts\<close>.
  The tables the service reads and writes are lists of rows; a transaction maps the tables to an
  error, which leaves them as they were, or to a result with the new tables.  The clock and the
  ids the database generates are arguments.  Foreign keys to the acting user are not modelled
  (the actor is the authenticated user).
\<close>

record voucher_row =
  v_id :: string
  v_code :: string
  v_status :: voucher_status
  v_kind :: voucher_kind
  v_value :: int
  v_currency :: string
  v_starts_at :: int
  v_ends_at :: int
  v_minimum_course_price :: "int option"
  v_maximum_discount :: "int option"
  v_usage_limit :: "int option"
  v_redeemed_count :: int
  v_per_user_limit :: "int option"
  v_created_by :: string
  v_created_at :: int
  v_updated_at :: int
  v_course_ids :: "string list"
  v_category_slugs :: "string list"
  v_eligible_user_ids :: "string list"

record redemption_row =
  rd_id :: string
  rd_voucher_id :: string
  rd_user_id :: string
  rd_course_id :: string
  rd_redemption_key :: string
  rd_original_amount :: int
  rd_discount_amount :: int
  rd_final_amount :: int
  rd_currency :: string
  rd_created_at :: int

text \<open>A reservation of a checkout, with the amounts of its order line and benefit snapshot.\<close>

record promotion_reservation =
  pv_id :: string
  pv_order_id :: string
  pv_voucher_id :: "string option"
  pv_buyer_id :: string
  pv_status :: string
  pv_expires_at :: int
  pv_course_id :: string
  pv_original_amount :: int
  pv_discount_amount :: int
  pv_final_amount :: int

record voucher_course =
  vk_id :: string
  vk_status :: string
  vk_visibility :: string
  vk_moderation_status :: string
  vk_deleted_at :: "int option"
  vk_category_slug :: "string option"
  vk_price_amount :: "int option"
  vk_price_currency :: "string option"

record voucher_user =
  vu_id :: string
  vu_deleted_at :: "int option"

record voucher_db =
  vouchers :: "voucher_row list"
  redemptions :: "redemption_row list"
  voucher_reservations :: "promotion_reservation list"
  voucher_courses :: "voucher_course list"
  voucher_users :: "voucher_user list"
  voucher_audits :: "audit_row list"

section \<open>Inputs\<close>

text \<open>Dates are the values of \<^verbatim>\<open>Date.parse\<close>; a property of the update that is absent is
  \<^term>\<open>None\<close>, one that is null is \<^term>\<open>Some None\<close>.\<close>

record create_voucher_input =
  cv_code :: string
  cv_kind :: voucher_kind
  cv_value :: int
  cv_currency :: string
  cv_starts_at :: "int option"
  cv_ends_at :: "int option"
  cv_minimum_course_price :: "int option"
  cv_maximum_discount :: "int option"
  cv_usage_limit :: "int option"
  cv_per_user_limit :: "int option"
  cv_course_ids :: "string list option"
  cv_category_slugs :: "string list option"
  cv_eligible_user_ids :: "string list option"

record update_voucher_input =
  uv_code :: "string option"
  uv_status :: "voucher_status option option"
  uv_kind :: "voucher_kind option option"
  uv_value :: "int option option"
  uv_currency :: "string option option"
  uv_starts_at :: "int option option option"
  uv_ends_at :: "int option option option"
  uv_minimum_course_price :: "int option option"
  uv_maximum_discount :: "int option option"
  uv_usage_limit :: "int option option"
  uv_per_user_limit :: "int option option"
  uv_course_ids :: "string list option option"
  uv_category_slugs :: "string list option option"
  uv_eligible_user_ids :: "string list option option"

record normalized_voucher =
  nv_code :: string
  nv_status :: voucher_status
  nv_kind :: voucher_kind
  nv_value :: int
  nv_currency :: string
  nv_starts_at :: "int option"
  nv_ends_at :: "int option"
  nv_minimum_course_price :: "int option"
  nv_maximum_discount :: "int option"
  nv_usage_limit :: "int option"
  nv_per_user_limit :: "int option"
  nv_course_ids :: "string list"
  nv_category_slugs :: "string list"
  nv_eligible_user_ids :: "string list"

definition normalize_create_input :: "create_voucher_input \<Rightarrow> normalized_voucher" where
  "normalize_create_input i =
     \<lparr>nv_code = normalize_code (cv_code i), nv_status = VoucherDraft, nv_kind = cv_kind i, nv_value = cv_value i,
      nv_currency = js_upper (cv_currency i), nv_starts_at = cv_starts_at i, nv_ends_at = cv_ends_at i,
      nv_minimum_course_price = cv_minimum_course_price i, nv_maximum_discount = cv_maximum_discount i,
      nv_usage_limit = cv_usage_limit i, nv_per_user_limit = cv_per_user_limit i,
      nv_course_ids = uniq (case cv_course_ids i of None \<Rightarrow> [] | Some xs \<Rightarrow> xs),
      nv_category_slugs = uniq (map js_lower (case cv_category_slugs i of None \<Rightarrow> [] | Some xs \<Rightarrow> xs)),
      nv_eligible_user_ids = uniq (case cv_eligible_user_ids i of None \<Rightarrow> [] | Some xs \<Rightarrow> xs)\<rparr>"

text \<open>\<^verbatim>\<open>input.limit ?? current.limit\<close>, where the current limit may itself be null.\<close>

definition nullish_limit :: "int option option \<Rightarrow> int option \<Rightarrow> int option" where
  "nullish_limit x current = (case x of Some (Some v) \<Rightarrow> Some v | _ \<Rightarrow> current)"

definition normalize_update_input :: "voucher_row \<Rightarrow> update_voucher_input \<Rightarrow> normalized_voucher" where
  "normalize_update_input v i =
     \<lparr>nv_code = (case uv_code i of None \<Rightarrow> v_code v | Some c \<Rightarrow> normalize_code c),
      nv_status = nullish (uv_status i) (v_status v), nv_kind = nullish (uv_kind i) (v_kind v),
      nv_value = nullish (uv_value i) (v_value v),
      nv_currency = nullish (map_option (map_option js_upper) (uv_currency i)) (v_currency v),
      nv_starts_at = nullish (uv_starts_at i) (Some (v_starts_at v)),
      nv_ends_at = nullish (uv_ends_at i) (Some (v_ends_at v)),
      nv_minimum_course_price = nullish_limit (uv_minimum_course_price i) (v_minimum_course_price v),
      nv_maximum_discount = nullish_limit (uv_maximum_discount i) (v_maximum_discount v),
      nv_usage_limit = nullish_limit (uv_usage_limit i) (v_usage_limit v),
      nv_per_user_limit = nullish_limit (uv_per_user_limit i) (v_per_user_limit v),
      nv_course_ids = nullish (uv_course_ids i) (v_course_ids v),
      nv_category_slugs = nullish (uv_category_slugs i) (v_category_slugs v),
      nv_eligible_user_ids = nullish (uv_eligible_user_ids i) (v_eligible_user_ids v)\<rparr>"

definition currency_code :: "string \<Rightarrow> bool" where
  "currency_code s = (length s = 3 \<and> list_all upper_char s)"

definition assert_policy :: "normalized_voucher \<Rightarrow> unit result" where
  "assert_policy n =
     throw_if (\<not> currency_code (nv_currency n)) (BadRequestException ''Voucher currency must be ISO 4217'') (
     throw_if (nv_starts_at n = None \<or> nv_ends_at n = None) (BadRequestException ''Voucher dates must be valid'') (
     throw_if (the (nv_starts_at n) > the (nv_ends_at n))
       (BadRequestException ''Voucher start must be before its end'') (
     throw_if (nv_kind n = VoucherPercentage \<and> (nv_value n < 1 \<or> nv_value n > 100)
         \<or> nv_kind n = VoucherFixed \<and> nv_value n < 1)
       (BadRequestException ''Voucher value is invalid for its kind'') (Inr ()))))"

definition assert_scope_targets :: "string list \<Rightarrow> string list \<Rightarrow> voucher_db \<Rightarrow> unit result" where
  "assert_scope_targets course_ids user_ids db =
     (let courses = count_where (\<lambda>c. vk_id c \<in> set course_ids) (voucher_courses db);
          users = count_where (\<lambda>u. vu_id u \<in> set user_ids \<and> vu_deleted_at u = None) (voucher_users db) in
      throw_if (courses \<noteq> int (length course_ids))
        (BadRequestException ''Voucher course scope contains an unknown course'') (
      throw_if (users \<noteq> int (length user_ids))
        (BadRequestException ''Voucher user eligibility contains an unknown user'') (Inr ())))"

definition changes_economic_policy :: "update_voucher_input \<Rightarrow> bool" where
  "changes_economic_policy i =
     (uv_code i \<noteq> None \<or> uv_kind i \<noteq> None \<or> uv_value i \<noteq> None \<or> uv_currency i \<noteq> None
      \<or> uv_starts_at i \<noteq> None \<or> uv_ends_at i \<noteq> None \<or> uv_minimum_course_price i \<noteq> None
      \<or> uv_maximum_discount i \<noteq> None \<or> uv_usage_limit i \<noteq> None \<or> uv_per_user_limit i \<noteq> None)"

section \<open>Responses\<close>

text \<open>A voucher response carries the columns of the row.\<close>

definition to_voucher_response :: "voucher_row \<Rightarrow> voucher_row" where
  "to_voucher_response v = v"

record redemption_response =
  rr_redemption :: redemption_row
  rr_idempotent :: bool

definition to_redemption_response :: "redemption_row \<Rightarrow> bool \<Rightarrow> redemption_response" where
  "to_redemption_response r idem = \<lparr>rr_redemption = r, rr_idempotent = idem\<rparr>"

record preview_response =
  pw_voucher_id :: string
  pw_code :: string
  pw_currency :: string
  pw_decision :: voucher_decision

definition to_preview_response :: "voucher_row \<Rightarrow> voucher_decision \<Rightarrow> preview_response" where
  "to_preview_response v d = \<lparr>pw_voucher_id = v_id v, pw_code = v_code v, pw_currency = v_currency v, pw_decision = d\<rparr>"

text \<open>The body of the exception carries the reason of the decision.\<close>

fun reason_text :: "voucher_reason \<Rightarrow> string" where
  "reason_text Eligible = ''eligible''"
| "reason_text CodeInvalid = ''code_invalid''"
| "reason_text VoucherDisabledReason = ''voucher_disabled''"
| "reason_text VoucherNotStarted = ''voucher_not_started''"
| "reason_text VoucherExpired = ''voucher_expired''"
| "reason_text InvalidVoucherPolicy = ''invalid_voucher_policy''"
| "reason_text InvalidCoursePrice = ''invalid_course_price''"
| "reason_text CurrencyMismatch = ''currency_mismatch''"
| "reason_text MinimumCoursePriceNotMet = ''minimum_course_price_not_met''"
| "reason_text UsageLimitReached = ''usage_limit_reached''"
| "reason_text PerUserLimitReached = ''per_user_limit_reached''"
| "reason_text UserNotEligible = ''user_not_eligible''"
| "reason_text CourseScopeNotEligible = ''course_scope_not_eligible''"

definition throw_decision :: "voucher_reason \<Rightarrow> api_error" where
  "throw_decision r = BadRequestException (reason_text r)"

section \<open>Administration\<close>

definition find_voucher :: "string \<Rightarrow> voucher_db \<Rightarrow> voucher_row option" where
  "find_voucher i db = find (\<lambda>v. v_id v = i) (vouchers db)"

fun status_text :: "voucher_status \<Rightarrow> string" where
  "status_text VoucherDraft = ''draft''"
| "status_text VoucherActive = ''active''"
| "status_text VoucherDisabled = ''disabled''"

definition voucher_audit :: "string \<Rightarrow> string \<Rightarrow> voucher_row \<Rightarrow> audit_row result" where
  "voucher_audit actor action v =
     audit_record \<lparr>ai_actor_kind = None, ai_actor_id = Some actor, ai_action = action,
       ai_target_type = ''voucher'', ai_target_id = v_id v,
       ai_metadata = [(''code'', MString (v_code v)), (''status'', MString (status_text (v_status v)))]\<rparr>"

text \<open>The checks are made before the transaction.\<close>

definition create_voucher_check :: "create_voucher_input \<Rightarrow> voucher_db \<Rightarrow> normalized_voucher result" where
  "create_voucher_check input db =
     (let n = normalize_create_input input in
      and_then (assert_policy n) (\<lambda>_.
      and_then (assert_scope_targets (nv_course_ids n) (nv_eligible_user_ids n) db) (\<lambda>_. Inr n)))"

definition create_voucher_write ::
  "string \<Rightarrow> normalized_voucher \<Rightarrow> string \<Rightarrow> int \<Rightarrow> (voucher_db, voucher_row) txn" where
  "create_voucher_write actor n new_id now db =
     throw_if (list_ex (\<lambda>v. v_code v = nv_code n) (vouchers db))
       (ConflictException ''Voucher code is already in use'') (
     let created = \<lparr>v_id = new_id, v_code = nv_code n, v_status = VoucherDraft, v_kind = nv_kind n,
           v_value = nv_value n, v_currency = nv_currency n, v_starts_at = the (nv_starts_at n),
           v_ends_at = the (nv_ends_at n), v_minimum_course_price = nv_minimum_course_price n,
           v_maximum_discount = nv_maximum_discount n, v_usage_limit = nv_usage_limit n,
           v_redeemed_count = 0, v_per_user_limit = nv_per_user_limit n, v_created_by = actor,
           v_created_at = now, v_updated_at = now, v_course_ids = nv_course_ids n,
           v_category_slugs = nv_category_slugs n, v_eligible_user_ids = nv_eligible_user_ids n\<rparr> in
     and_then (voucher_audit actor ''VOUCHER_CREATED'' created) (\<lambda>row.
     Inr (to_voucher_response created,
          db\<lparr>vouchers := vouchers db @ [created], voucher_audits := voucher_audits db @ [row]\<rparr>)))"

definition create_voucher ::
  "string \<Rightarrow> create_voucher_input \<Rightarrow> string \<Rightarrow> int \<Rightarrow> (voucher_db, voucher_row) txn" where
  "create_voucher actor input new_id now db =
     and_then (create_voucher_check input db) (\<lambda>n. create_voucher_write actor n new_id now db)"

definition get_voucher :: "string \<Rightarrow> voucher_db \<Rightarrow> voucher_row result" where
  "get_voucher i db =
     (case find_voucher i db of
        None \<Rightarrow> Inl (NotFoundException ''Voucher not found'')
      | Some v \<Rightarrow> Inr (to_voucher_response v))"

definition list_vouchers :: "nat \<Rightarrow> nat \<Rightarrow> voucher_db \<Rightarrow> voucher_row page" where
  "list_vouchers page psize db =
     make_page to_voucher_response page psize (js_sort (newest_first v_created_at v_id) (vouchers db))"

definition list_redemptions :: "string \<Rightarrow> nat \<Rightarrow> nat \<Rightarrow> voucher_db \<Rightarrow> redemption_response page result" where
  "list_redemptions voucher_id page psize db =
     (case find_voucher voucher_id db of
        None \<Rightarrow> Inl (NotFoundException ''Voucher not found'')
      | Some v \<Rightarrow> Inr (make_page (\<lambda>r. to_redemption_response r False) page psize
          (js_sort (newest_first rd_created_at rd_id)
            (filter (\<lambda>r. rd_voucher_id r = voucher_id) (redemptions db)))))"

text \<open>An update reads and checks the voucher outside of the transaction that writes it.\<close>

definition update_voucher_check ::
  "string \<Rightarrow> update_voucher_input \<Rightarrow> voucher_db \<Rightarrow> normalized_voucher result" where
  "update_voucher_check i input db =
     (case find_voucher i db of
        None \<Rightarrow> Inl (NotFoundException ''Voucher not found'')
      | Some current \<Rightarrow>
          let n = normalize_update_input current input in
          and_then (assert_policy n) (\<lambda>_.
          throw_if (v_redeemed_count current > 0 \<and> changes_economic_policy input)
            (ConflictException ''Economic voucher policy cannot change after redemption; disable it instead'') (
          and_then (assert_scope_targets (nv_course_ids n) (nv_eligible_user_ids n) db) (\<lambda>_. Inr n))))"

definition apply_normalized :: "normalized_voucher \<Rightarrow> int \<Rightarrow> voucher_row \<Rightarrow> voucher_row" where
  "apply_normalized n now v =
     v\<lparr>v_code := nv_code n, v_status := nv_status n, v_kind := nv_kind n, v_value := nv_value n,
       v_currency := nv_currency n, v_starts_at := the (nv_starts_at n), v_ends_at := the (nv_ends_at n),
       v_minimum_course_price := nv_minimum_course_price n, v_maximum_discount := nv_maximum_discount n,
       v_usage_limit := nv_usage_limit n, v_per_user_limit := nv_per_user_limit n, v_updated_at := now,
       v_course_ids := nv_course_ids n, v_category_slugs := nv_category_slugs n,
       v_eligible_user_ids := nv_eligible_user_ids n\<rparr>"

definition update_voucher_write ::
  "string \<Rightarrow> string \<Rightarrow> normalized_voucher \<Rightarrow> int \<Rightarrow> (voucher_db, voucher_row) txn" where
  "update_voucher_write actor i n now db =
     (case find_voucher i db of
        None \<Rightarrow> Inl (PrismaError ''P2025'')
      | Some current \<Rightarrow>
          throw_if (list_ex (\<lambda>v. v_id v \<noteq> i \<and> v_code v = nv_code n) (vouchers db)
              \<or> \<not> distinct (nv_course_ids n) \<or> \<not> distinct (nv_category_slugs n)
              \<or> \<not> distinct (nv_eligible_user_ids n))
            (ConflictException ''Voucher code is already in use'') (
          let updated = apply_normalized n now current in
          and_then (voucher_audit actor ''VOUCHER_UPDATED'' updated) (\<lambda>row.
          Inr (to_voucher_response updated,
               db\<lparr>vouchers := update_where (\<lambda>v. v_id v = i) (apply_normalized n now) (vouchers db),
                  voucher_audits := voucher_audits db @ [row]\<rparr>))))"

definition update_voucher ::
  "string \<Rightarrow> string \<Rightarrow> update_voucher_input \<Rightarrow> int \<Rightarrow> (voucher_db, voucher_row) txn" where
  "update_voucher actor i input now db =
     and_then (update_voucher_check i input db) (\<lambda>n. update_voucher_write actor i n now db)"

section \<open>Use\<close>

definition find_voucher_by_code :: "string \<Rightarrow> voucher_db \<Rightarrow> voucher_row option" where
  "find_voucher_by_code code db = find (\<lambda>v. v_code v = normalize_code code) (vouchers db)"

definition find_purchasable_course :: "string \<Rightarrow> voucher_db \<Rightarrow> voucher_course result" where
  "find_purchasable_course course_id db =
     (case find (\<lambda>c. vk_id c = course_id \<and> vk_status c = ''published'' \<and> vk_visibility c = ''public''
         \<and> vk_moderation_status c = ''clear'' \<and> vk_deleted_at c = None) (voucher_courses db) of
        None \<Rightarrow> Inl (NotFoundException ''Published course not found'')
      | Some c \<Rightarrow> Inr c)"

definition evaluate_voucher ::
  "voucher_row \<Rightarrow> string \<Rightarrow> string option \<Rightarrow> int option \<Rightarrow> string option \<Rightarrow> string \<Rightarrow> string \<Rightarrow> int \<Rightarrow> int
   \<Rightarrow> int \<Rightarrow> voucher_decision" where
  "evaluate_voucher v course_id category price currency user_id code redeemed user_redeemed now =
     evaluate_voucher_eligibility
       \<lparr>vp_code = v_code v, vp_status = v_status v, vp_kind = v_kind v, vp_value = Integral (v_value v),
        vp_currency = v_currency v, vp_starts_at = Some (v_starts_at v), vp_ends_at = Some (v_ends_at v),
        vp_minimum_course_price_minor = map_option Integral (v_minimum_course_price v),
        vp_maximum_discount_minor = map_option Integral (v_maximum_discount v),
        vp_usage_limit = map_option Integral (v_usage_limit v), vp_redeemed_count = Integral redeemed,
        vp_per_user_limit = map_option Integral (v_per_user_limit v),
        vp_user_redemption_count = Integral user_redeemed, vp_course_ids = v_course_ids v,
        vp_category_slugs = v_category_slugs v, vp_eligible_user_ids = v_eligible_user_ids v\<rparr>
       \<lparr>vc_now = Some now, vc_submitted_code = code, vc_user_id = user_id, vc_course_id = course_id,
        vc_category_slug = category,
        vc_course_price = \<lparr>price_minor = Integral (case price of None \<Rightarrow> -1 | Some p \<Rightarrow> p),
                           price_currency = (case currency of None \<Rightarrow> [] | Some c \<Rightarrow> c)\<rparr>\<rparr>"

definition active_reservation :: "string \<Rightarrow> int \<Rightarrow> promotion_reservation \<Rightarrow> bool" where
  "active_reservation voucher_id now r =
     (pv_voucher_id r = Some voucher_id \<and> pv_status r = ''reserved'' \<and> pv_expires_at r > now)"

definition uses_of :: "string \<Rightarrow> int \<Rightarrow> voucher_db \<Rightarrow> int" where
  "uses_of voucher_id now db =
     count_where (\<lambda>r. rd_voucher_id r = voucher_id) (redemptions db)
     + count_where (active_reservation voucher_id now) (voucher_reservations db)"

definition user_uses_of :: "string \<Rightarrow> string \<Rightarrow> int \<Rightarrow> voucher_db \<Rightarrow> int" where
  "user_uses_of voucher_id user_id now db =
     count_where (\<lambda>r. rd_voucher_id r = voucher_id \<and> rd_user_id r = user_id) (redemptions db)
     + count_where (\<lambda>r. active_reservation voucher_id now r \<and> pv_buyer_id r = user_id) (voucher_reservations db)"

definition preview_voucher :: "string \<Rightarrow> string \<Rightarrow> string \<Rightarrow> int \<Rightarrow> voucher_db \<Rightarrow> preview_response result" where
  "preview_voucher user_id course_id code now db =
     (case find_voucher_by_code code db of
        None \<Rightarrow> Inl (throw_decision CodeInvalid)
      | Some v \<Rightarrow>
          and_then (find_purchasable_course course_id db) (\<lambda>c.
          Inr (to_preview_response v
            (evaluate_voucher v (vk_id c) (vk_category_slug c) (vk_price_amount c) (vk_price_currency c)
               user_id code (uses_of (v_id v) now db) (user_uses_of (v_id v) user_id now db) now))))"

record commerce_voucher_input =
  vi_user_id :: string
  vi_course_id :: string
  vi_category_slug :: "string option"
  vi_code :: string
  vi_price_amount :: int
  vi_currency :: string

record commerce_voucher_decision =
  cvd_voucher_id :: string
  cvd_discount_amount :: int
  cvd_source_version :: int

definition evaluate_for_commerce :: "commerce_voucher_input \<Rightarrow> int \<Rightarrow> voucher_db \<Rightarrow> commerce_voucher_decision result" where
  "evaluate_for_commerce i now db =
     (case find_voucher_by_code (vi_code i) db of
        None \<Rightarrow> Inl (throw_decision CodeInvalid)
      | Some v \<Rightarrow>
          let d = evaluate_voucher v (vi_course_id i) (vi_category_slug i) (Some (vi_price_amount i))
                    (Some (vi_currency i)) (vi_user_id i) (vi_code i) (uses_of (v_id v) now db)
                    (user_uses_of (v_id v) (vi_user_id i) now db) now in
          throw_if (\<not> vd_eligible d) (throw_decision (vd_reason d)) (
          Inr \<lparr>cvd_voucher_id = v_id v, cvd_discount_amount = vd_discount_amount_minor d,
               cvd_source_version = v_updated_at v\<rparr>))"

definition redeem_audit :: "redemption_row \<Rightarrow> string \<Rightarrow> audit_row result" where
  "redeem_audit r operation_id =
     audit_record \<lparr>ai_actor_kind = None, ai_actor_id = Some (rd_user_id r), ai_action = ''VOUCHER_REDEEMED'',
       ai_target_type = ''voucher_redemption'', ai_target_id = rd_id r,
       ai_metadata = [(''voucherId'', MString (rd_voucher_id r)), (''courseId'', MString (rd_course_id r)),
         (''originalAmountMinor'', MNumber (rd_original_amount r)),
         (''discountAmountMinor'', MNumber (rd_discount_amount r)),
         (''finalAmountMinor'', MNumber (rd_final_amount r)), (''currency'', MString (rd_currency r)),
         (''operationId'', MString operation_id)]\<rparr>"

definition redeem ::
  "string \<Rightarrow> string \<Rightarrow> string \<Rightarrow> string \<Rightarrow> string \<Rightarrow> string \<Rightarrow> int \<Rightarrow> (voucher_db, redemption_response) txn" where
  "redeem user_id course_id code key new_id operation_id now db =
     (case find_voucher_by_code code db of
        None \<Rightarrow> Inl (throw_decision CodeInvalid)
      | Some v \<Rightarrow>
          case find (\<lambda>r. rd_voucher_id r = v_id v \<and> rd_user_id r = user_id \<and> rd_redemption_key r = key)
                 (redemptions db) of
            Some existing \<Rightarrow>
              throw_if (rd_course_id existing \<noteq> course_id)
                (ConflictException ''Redemption key was already used for another course'') (
              Inr (to_redemption_response existing True, db))
          | None \<Rightarrow>
              and_then (find_purchasable_course course_id db) (\<lambda>c.
              let d = evaluate_voucher v (vk_id c) (vk_category_slug c) (vk_price_amount c) (vk_price_currency c)
                        user_id code (uses_of (v_id v) now db) (user_uses_of (v_id v) user_id now db) now in
              throw_if (\<not> vd_eligible d) (throw_decision (vd_reason d)) (
              let r = \<lparr>rd_id = new_id, rd_voucher_id = v_id v, rd_user_id = user_id, rd_course_id = course_id,
                       rd_redemption_key = key, rd_original_amount = the (vk_price_amount c),
                       rd_discount_amount = vd_discount_amount_minor d,
                       rd_final_amount = int_value (vd_final_amount_minor d),
                       rd_currency = the (vk_price_currency c), rd_created_at = now\<rparr> in
              and_then (redeem_audit r operation_id) (\<lambda>row.
              Inr (to_redemption_response r False,
                   db\<lparr>redemptions := redemptions db @ [r],
                      vouchers := update_where (\<lambda>w. v_id w = v_id v)
                        (\<lambda>w. w\<lparr>v_redeemed_count := v_redeemed_count w + 1, v_updated_at := now\<rparr>) (vouchers db),
                      voucher_audits := voucher_audits db @ [row]\<rparr>)))))"

section \<open>The tables stay consistent\<close>

definition redemptions_of :: "string \<Rightarrow> voucher_db \<Rightarrow> int" where
  "redemptions_of i db = count_where (\<lambda>r. rd_voucher_id r = i) (redemptions db)"

definition user_redemptions_of :: "string \<Rightarrow> string \<Rightarrow> voucher_db \<Rightarrow> int" where
  "user_redemptions_of i u db = count_where (\<lambda>r. rd_voucher_id r = i \<and> rd_user_id r = u) (redemptions db)"

definition redemption_ok :: "redemption_row \<Rightarrow> bool" where
  "redemption_ok r \<longleftrightarrow> 0 \<le> rd_discount_amount r \<and> rd_discount_amount r \<le> rd_original_amount r
     \<and> rd_final_amount r = rd_original_amount r - rd_discount_amount r"

definition redemption_key_of :: "redemption_row \<Rightarrow> string \<times> string \<times> string" where
  "redemption_key_of r = (rd_voucher_id r, rd_user_id r, rd_redemption_key r)"

definition voucher_db_ok :: "voucher_db \<Rightarrow> bool" where
  "voucher_db_ok db \<longleftrightarrow>
     distinct (map v_id (vouchers db)) \<and> distinct (map v_code (vouchers db))
     \<and> (\<forall>v\<in>set (vouchers db). v_redeemed_count v = redemptions_of (v_id v) db)
     \<and> distinct (map redemption_key_of (redemptions db))
     \<and> (\<forall>r\<in>set (redemptions db). redemption_ok r \<and> rd_voucher_id r \<in> v_id ` set (vouchers db))"

lemma user_redemptions_le: "user_redemptions_of i u db \<le> redemptions_of i db"
  unfolding user_redemptions_of_def redemptions_of_def by (rule count_where_mono) simp

lemma redemptions_nonneg [simp]: "0 \<le> redemptions_of i db" "0 \<le> user_redemptions_of i u db"
  by (simp_all add: redemptions_of_def user_redemptions_of_def)

text \<open>Only vouchers and redemptions matter.\<close>

lemma voucher_db_ok_same:
  "vouchers db' = vouchers db \<Longrightarrow> redemptions db' = redemptions db \<Longrightarrow> voucher_db_ok db' = voucher_db_ok db"
  by (simp add: voucher_db_ok_def redemptions_of_def)

lemma create_voucher_Inr:
  assumes "create_voucher_write actor n new_id now db = Inr (v, db')"
  shows "v_id v = new_id \<and> v_redeemed_count v = 0 \<and> v_code v \<notin> v_code ` set (vouchers db)
    \<and> (\<exists>row. db' = db\<lparr>vouchers := vouchers db @ [v], voucher_audits := voucher_audits db @ [row]\<rparr>)"
  using assms unfolding create_voucher_write_def Let_def to_voucher_response_def
  by (simp add: result_simps list_ex_iff) (elim conjE exE, hypsubst, auto)

lemma create_keeps_ok:
  assumes "create_voucher_write actor n new_id now db = Inr (v, db')" and "new_id \<notin> v_id ` set (vouchers db)"
    and "voucher_db_ok db"
  shows "voucher_db_ok db'"
proof -
  from create_voucher_Inr [OF assms(1)] obtain row where
    v: "v_id v = new_id" "v_redeemed_count v = 0" "v_code v \<notin> v_code ` set (vouchers db)"
    and db': "db' = db\<lparr>vouchers := vouchers db @ [v], voucher_audits := voucher_audits db @ [row]\<rparr>" by blast
  have "redemptions_of new_id db = 0"
    using assms(2,3) unfolding redemptions_of_def count_where_zero voucher_db_ok_def by auto
  with assms(2,3) v show ?thesis
    unfolding voucher_db_ok_def by (auto simp: db' redemptions_of_def)
qed

lemma update_write_Inr:
  assumes "update_voucher_write actor i n now db = Inr (v, db')"
  obtains current row where "find_voucher i db = Some current"
    "\<forall>w\<in>set (vouchers db). v_id w \<noteq> i \<longrightarrow> v_code w \<noteq> nv_code n"
    "v = apply_normalized n now current"
    "db' = db\<lparr>vouchers := update_where (\<lambda>v. v_id v = i) (apply_normalized n now) (vouchers db),
              voucher_audits := voucher_audits db @ [row]\<rparr>"
proof (cases "find_voucher i db")
  case None
  with assms show ?thesis by (simp add: update_voucher_write_def)
next
  case (Some current)
  with assms that [OF Some] show ?thesis
    unfolding update_voucher_write_def Let_def to_voucher_response_def
    by (simp add: result_simps list_ex_iff) blast
qed

lemma apply_normalized_fields [simp]:
  "v_id (apply_normalized n now v) = v_id v" "v_code (apply_normalized n now v) = nv_code n"
  "v_redeemed_count (apply_normalized n now v) = v_redeemed_count v"
  "v_usage_limit (apply_normalized n now v) = nv_usage_limit n"
  "v_per_user_limit (apply_normalized n now v) = nv_per_user_limit n"
  by (simp_all add: apply_normalized_def)

lemma untouched_limits:
  "\<not> changes_economic_policy u \<Longrightarrow>
    nv_usage_limit (normalize_update_input v u) = v_usage_limit v
    \<and> nv_per_user_limit (normalize_update_input v u) = v_per_user_limit v"
  by (simp add: changes_economic_policy_def normalize_update_input_def nullish_limit_def)

lemma find_voucher_row: "find_voucher i db = Some v \<Longrightarrow> v \<in> set (vouchers db) \<and> v_id v = i"
  by (auto simp: find_voucher_def dest: find_SomeD)

lemma update_write_keeps_ok:
  assumes "update_voucher_write actor i n now db = Inr (v, db')" and ok: "voucher_db_ok db"
  shows "voucher_db_ok db'"
  using assms(1)
proof (rule update_write_Inr)
  fix current row
  let ?f = "apply_normalized n now"
  assume c: "find_voucher i db = Some current"
    and u: "\<forall>w\<in>set (vouchers db). v_id w \<noteq> i \<longrightarrow> v_code w \<noteq> nv_code n"
    and db': "db' = db\<lparr>vouchers := update_where (\<lambda>v. v_id v = i) ?f (vouchers db),
              voucher_audits := voucher_audits db @ [row]\<rparr>"
  have cur: "current \<in> set (vouchers db)" "v_id current = i" using find_voucher_row [OF c] by auto
  have ids: "distinct (map v_id (vouchers db))" and codes: "distinct (map v_code (vouchers db))"
    and rows: "\<forall>v\<in>set (vouchers db). v_redeemed_count v = redemptions_of (v_id v) db"
    using ok by (simp_all add: voucher_db_ok_def)
  have only: "w = current" if "w \<in> set (vouchers db)" "v_id w = i" for w
    using ids that cur by (auto simp: distinct_map inj_on_def)
  have idm: "map v_id (vouchers db') = map v_id (vouchers db)"
    by (simp add: db' map_update_where_same)
  have "inj_on v_code (set (vouchers db'))"
  proof (rule inj_onI)
    fix a b assume ab: "a \<in> set (vouchers db')" "b \<in> set (vouchers db')" "v_code a = v_code b"
    then obtain x y where xy: "x \<in> set (vouchers db)" "y \<in> set (vouchers db)"
      "a = (if v_id x = i then ?f x else x)" "b = (if v_id y = i then ?f y else y)"
      by (auto simp: db' set_update_where)
    with ab(3) u codes have "x = y"
      using only by (cases "v_id x = i"; cases "v_id y = i") (auto simp: distinct_map inj_on_def)
    with xy show "a = b" by simp
  qed
  moreover have "distinct (vouchers db')"
    using ids idm by (metis distinct_map)
  ultimately have codes': "distinct (map v_code (vouchers db'))" by (simp add: distinct_map)
  have r: "redemptions db' = redemptions db" by (simp add: db')
  then have same: "redemptions_of j db' = redemptions_of j db" for j by (simp add: redemptions_of_def)
  have rows': "v_redeemed_count a = redemptions_of (v_id a) db" if "a \<in> set (vouchers db')" for a
    using that rows by (auto simp: db' set_update_where)
  have "v_id ` set (vouchers db') = v_id ` set (vouchers db)"
    using idm by (metis list.set_map)
  then show ?thesis
    using ok ids idm codes' rows' r unfolding voucher_db_ok_def same by simp
qed

text \<open>A redemption that is stored and counted.\<close>

definition count_redemption :: "redemption_row \<Rightarrow> int \<Rightarrow> voucher_db \<Rightarrow> voucher_db" where
  "count_redemption r now db =
     db\<lparr>redemptions := redemptions db @ [r],
        vouchers := update_where (\<lambda>w. v_id w = rd_voucher_id r)
          (\<lambda>w. w\<lparr>v_redeemed_count := v_redeemed_count w + 1, v_updated_at := now\<rparr>) (vouchers db)\<rparr>"

lemma count_redemption_ok:
  assumes ok: "voucher_db_ok db" and "rd_voucher_id r \<in> v_id ` set (vouchers db)"
    and "redemption_key_of r \<notin> redemption_key_of ` set (redemptions db)" and "redemption_ok r"
  shows "voucher_db_ok (count_redemption r now db)"
proof -
  let ?db = "count_redemption r now db"
  have m: "map v_id (vouchers ?db) = map v_id (vouchers db)" "map v_code (vouchers ?db) = map v_code (vouchers db)"
    by (simp_all add: count_redemption_def map_update_where_same)
  then have st: "v_id ` set (vouchers ?db) = v_id ` set (vouchers db)" by (metis list.set_map)
  have "redemptions_of i ?db = redemptions_of i db + (if i = rd_voucher_id r then 1 else 0)" for i
    by (auto simp: redemptions_of_def count_redemption_def)
  then have "v_redeemed_count v = redemptions_of (v_id v) ?db" if "v \<in> set (vouchers ?db)" for v
    using that ok by (auto simp: count_redemption_def set_update_where voucher_db_ok_def)
  moreover have "distinct (map redemption_key_of (redemptions ?db))"
    using ok assms(3) by (simp add: count_redemption_def voucher_db_ok_def)
  moreover have "\<forall>q\<in>set (redemptions ?db). redemption_ok q \<and> rd_voucher_id q \<in> v_id ` set (vouchers db)"
    using ok assms(2,4) by (auto simp: count_redemption_def voucher_db_ok_def)
  ultimately show ?thesis using ok unfolding voucher_db_ok_def m st by simp
qed

text \<open>What an eligible evaluation of a stored voucher guarantees.\<close>

lemma evaluate_voucher_eligible:
  assumes "vd_eligible (evaluate_voucher v k cat price cur u code n m now)"
  shows "\<exists>p c. price = Some p \<and> cur = Some c
    \<and> (let d = evaluate_voucher v k cat price cur u code n m now in
        0 \<le> vd_discount_amount_minor d \<and> vd_discount_amount_minor d \<le> p
        \<and> vd_final_amount_minor d = Integral (p - vd_discount_amount_minor d))
    \<and> (\<forall>l. v_usage_limit v = Some l \<longrightarrow> n < l) \<and> (\<forall>l. v_per_user_limit v = Some l \<longrightarrow> m < l)
    \<and> v_status v = VoucherActive \<and> v_starts_at v \<le> now \<and> now < v_ends_at v"
proof -
  note e = assms [unfolded evaluate_voucher_def eligible_iff]
  from e obtain p where p: "price = Some p" "0 \<le> p"
    by (cases price) (auto simp: is_valid_course_price_def)
  from e obtain c where c: "cur = Some c"
    by (cases cur) (auto simp: is_valid_course_price_def currency_like_def)
  note val = eligible_value [OF assms [unfolded evaluate_voucher_def], folded evaluate_voucher_def]
  from e have pol: "is_valid_policy
    \<lparr>vp_code = v_code v, vp_status = v_status v, vp_kind = v_kind v, vp_value = Integral (v_value v),
        vp_currency = v_currency v, vp_starts_at = Some (v_starts_at v), vp_ends_at = Some (v_ends_at v),
        vp_minimum_course_price_minor = map_option Integral (v_minimum_course_price v),
        vp_maximum_discount_minor = map_option Integral (v_maximum_discount v),
        vp_usage_limit = map_option Integral (v_usage_limit v), vp_redeemed_count = Integral n,
        vp_per_user_limit = map_option Integral (v_per_user_limit v),
        vp_user_redemption_count = Integral m, vp_course_ids = v_course_ids v,
        vp_category_slugs = v_category_slugs v, vp_eligible_user_ids = v_eligible_user_ids v\<rparr>"
    by blast
  from val capped_discount_bounds [OF pol p(2)] have
    "let d = evaluate_voucher v k cat price cur u code n m now in
        0 \<le> vd_discount_amount_minor d \<and> vd_discount_amount_minor d \<le> p
        \<and> vd_final_amount_minor d = Integral (p - vd_discount_amount_minor d)"
    by (simp add: Let_def p(1))
  moreover have "(\<forall>l. v_usage_limit v = Some l \<longrightarrow> n < l) \<and> (\<forall>l. v_per_user_limit v = Some l \<longrightarrow> m < l)"
    using e by (auto split: option.splits)
  moreover have "v_status v = VoucherActive \<and> v_starts_at v \<le> now \<and> now < v_ends_at v"
    using e by simp
  ultimately show ?thesis using p(1) c by blast
qed

lemma redeem_Inr:
  assumes "redeem user_id course_id code key new_id operation_id now db = Inr (res, db')"
  obtains (replayed) v r where "find_voucher_by_code code db = Some v"
      "r \<in> set (redemptions db)" "redemption_key_of r = (v_id v, user_id, key)" "rd_course_id r = course_id"
      "res = \<lparr>rr_redemption = r, rr_idempotent = True\<rparr>" "db' = db"
    | (redeemed) v c r row where "find_voucher_by_code code db = Some v"
      "find_purchasable_course course_id db = Inr c"
      "(v_id v, user_id, key) \<notin> redemption_key_of ` set (redemptions db)"
      "vd_eligible (evaluate_voucher v (vk_id c) (vk_category_slug c) (vk_price_amount c) (vk_price_currency c)
          user_id code (uses_of (v_id v) now db) (user_uses_of (v_id v) user_id now db) now)"
      "redemption_key_of r = (v_id v, user_id, key)" "rd_course_id r = course_id" "redemption_ok r"
      "res = \<lparr>rr_redemption = r, rr_idempotent = False\<rparr>"
      "db' = (count_redemption r now db)\<lparr>voucher_audits := voucher_audits db @ [row]\<rparr>"
proof (cases "find_voucher_by_code code db")
  case None
  with assms show ?thesis by (simp add: redeem_def)
next
  case (Some v)
  show ?thesis
  proof (cases "find (\<lambda>r. rd_voucher_id r = v_id v \<and> rd_user_id r = user_id \<and> rd_redemption_key r = key) (redemptions db)")
    case (Some r)
    from find_SomeD [OF this] Some \<open>find_voucher_by_code code db = Some v\<close> assms show ?thesis
      by (intro replayed [of v r]) (simp_all add: redeem_def result_simps to_redemption_response_def redemption_key_of_def)
  next
    case None
    then have key: "(v_id v, user_id, key) \<notin> redemption_key_of ` set (redemptions db)"
      by (auto simp: redemption_key_of_def dest: find_NoneD)
    from assms Some None obtain c row where c: "find_purchasable_course course_id db = Inr c"
      and el: "vd_eligible (evaluate_voucher v (vk_id c) (vk_category_slug c) (vk_price_amount c) (vk_price_currency c)
          user_id code (uses_of (v_id v) now db) (user_uses_of (v_id v) user_id now db) now)"
      and res: "res = to_redemption_response \<lparr>rd_id = new_id, rd_voucher_id = v_id v, rd_user_id = user_id,
          rd_course_id = course_id, rd_redemption_key = key, rd_original_amount = the (vk_price_amount c),
          rd_discount_amount = vd_discount_amount_minor (evaluate_voucher v (vk_id c) (vk_category_slug c)
            (vk_price_amount c) (vk_price_currency c) user_id code (uses_of (v_id v) now db)
            (user_uses_of (v_id v) user_id now db) now),
          rd_final_amount = int_value (vd_final_amount_minor (evaluate_voucher v (vk_id c) (vk_category_slug c)
            (vk_price_amount c) (vk_price_currency c) user_id code (uses_of (v_id v) now db)
            (user_uses_of (v_id v) user_id now db) now)),
          rd_currency = the (vk_price_currency c), rd_created_at = now\<rparr> False"
      and db': "db' = db\<lparr>redemptions := redemptions db @ [rr_redemption res],
         vouchers := update_where (\<lambda>w. v_id w = v_id v)
           (\<lambda>w. w\<lparr>v_redeemed_count := v_redeemed_count w + 1, v_updated_at := now\<rparr>) (vouchers db),
         voucher_audits := voucher_audits db @ [row]\<rparr>"
      unfolding redeem_def by (auto simp: result_simps Let_def to_redemption_response_def)
    from evaluate_voucher_eligible [OF el] have "redemption_ok (rr_redemption res)"
      by (auto simp: Let_def res to_redemption_response_def redemption_ok_def)
    with res db' show ?thesis
      by (intro redeemed [OF Some c key el, of "rr_redemption res" row])
         (simp_all add: to_redemption_response_def redemption_key_of_def count_redemption_def)
  qed
qed

lemma redeem_keeps_ok:
  assumes "redeem user_id course_id code key new_id operation_id now db = Inr (res, db')"
    and ok: "voucher_db_ok db"
  shows "voucher_db_ok db'"
  using assms(1)
proof (cases rule: redeem_Inr)
  case replayed
  with ok show ?thesis by simp
next
  case (redeemed v c r row)
  have v: "v \<in> set (vouchers db)"
    using find_SomeD [OF redeemed(1) [unfolded find_voucher_by_code_def]] by blast
  have "rd_voucher_id r = v_id v" using redeemed(5) by (simp add: redemption_key_of_def)
  then have "voucher_db_ok (count_redemption r now db)"
    using ok v redeemed(3,5,7) by (intro count_redemption_ok) auto
  then show ?thesis unfolding redeemed(9) by (subst voucher_db_ok_same) simp_all
qed

section \<open>The service's properties\<close>

text \<open>C23: Redeeming is idempotent in its key: after a redemption, the same request again returns the same
  redemption, marked as a repetition, and changes nothing.\<close>

theorem redeem_idempotent:
  assumes "redeem user_id course_id code key new_id operation_id now db = Inr (res, db')"
    and "voucher_db_ok db"
  shows "redeem user_id course_id code key new_id' operation_id' now' db' =
    Inr (\<lparr>rr_redemption = rr_redemption res, rr_idempotent = True\<rparr>, db')"
proof -
  have ok': "voucher_db_ok db'" by (rule redeem_keeps_ok [OF assms])
  have "\<exists>w. find_voucher_by_code code db' = Some w \<and> rr_redemption res \<in> set (redemptions db')
     \<and> redemption_key_of (rr_redemption res) = (v_id w, user_id, key) \<and> rd_course_id (rr_redemption res) = course_id"
    using assms(1)
  proof (cases rule: redeem_Inr)
    case (replayed v r)
    then show ?thesis by auto
  next
    case (redeemed v c r row)
    let ?h = "\<lambda>w. if v_id w = v_id v then w\<lparr>v_redeemed_count := v_redeemed_count w + 1, v_updated_at := now\<rparr> else w"
    have "find (\<lambda>w. v_code w = normalize_code code) (map ?h vs) =
        map_option ?h (find (\<lambda>w. v_code w = normalize_code code) vs)" for vs
      by (induction vs) auto
    from this [of "vouchers db"] redeemed(1) have "find_voucher_by_code code db' = Some (?h v)"
      using redeemed(5) by (simp add: find_voucher_by_code_def redeemed(9) count_redemption_def update_where_def redemption_key_of_def)
    with redeemed show ?thesis by (intro exI [of _ "?h v"]) (simp add: count_redemption_def)
  qed
  then obtain w where w: "find_voucher_by_code code db' = Some w"
    "rr_redemption res \<in> set (redemptions db')" "redemption_key_of (rr_redemption res) = (v_id w, user_id, key)"
    "rd_course_id (rr_redemption res) = course_id" by blast
  have "distinct (map redemption_key_of (redemptions db'))" using ok' by (simp add: voucher_db_ok_def)
  from find_row [OF this w(2)] w(3)
  have "find (\<lambda>r. rd_voucher_id r = v_id w \<and> rd_user_id r = user_id \<and> rd_redemption_key r = key) (redemptions db')
      = Some (rr_redemption res)"
    by (simp add: redemption_key_of_def)
  with w show ?thesis by (simp add: redeem_def to_redemption_response_def)
qed

section \<open>Witnesses\<close>

abbreviation example_voucher :: voucher_row where
  "example_voucher \<equiv> \<lparr>v_id = ''v'', v_code = ''EDU'', v_status = VoucherActive, v_kind = VoucherFixed, v_value = 30,
     v_currency = ''VND'', v_starts_at = 0, v_ends_at = 100, v_minimum_course_price = None,
     v_maximum_discount = None, v_usage_limit = Some 1, v_redeemed_count = 0, v_per_user_limit = None,
     v_created_by = ''a'', v_created_at = 0, v_updated_at = 0, v_course_ids = [], v_category_slugs = [],
     v_eligible_user_ids = []\<rparr>"

abbreviation example_course :: voucher_course where
  "example_course \<equiv> \<lparr>vk_id = ''k'', vk_status = ''published'', vk_visibility = ''public'', vk_moderation_status = ''clear'',
     vk_deleted_at = None, vk_category_slug = None, vk_price_amount = Some 100, vk_price_currency = Some ''VND''\<rparr>"

abbreviation example_db :: voucher_db where
  "example_db \<equiv> \<lparr>vouchers = [example_voucher], redemptions = [], voucher_reservations = [],
     voucher_courses = [example_course], voucher_users = [], voucher_audits = []\<rparr>"

abbreviation example_redemption :: redemption_row where
  "example_redemption \<equiv> \<lparr>rd_id = ''r'', rd_voucher_id = ''v'', rd_user_id = ''u'', rd_course_id = ''k'',
     rd_redemption_key = ''key'', rd_original_amount = 100, rd_discount_amount = 30, rd_final_amount = 70,
     rd_currency = ''VND'', rd_created_at = 5\<rparr>"

lemma example_redeem:
  "\<exists>db'. redeem ''u'' ''k'' ''edu '' ''key'' ''r'' ''op'' 5 example_db =
     Inr (\<lparr>rr_redemption = example_redemption, rr_idempotent = False\<rparr>, db')
   \<and> vouchers db' = [example_voucher\<lparr>v_redeemed_count := 1, v_updated_at := 5\<rparr>]
   \<and> redemptions db' = [example_redemption]"
proof -
  have "(case redeem ''u'' ''k'' ''edu '' ''key'' ''r'' ''op'' 5 example_db of Inl e \<Rightarrow> False
     | Inr (res, db') \<Rightarrow> res = \<lparr>rr_redemption = example_redemption, rr_idempotent = False\<rparr>
        \<and> vouchers db' = [example_voucher\<lparr>v_redeemed_count := 1, v_updated_at := 5\<rparr>]
        \<and> redemptions db' = [example_redemption])"
    by code_simp
  then show ?thesis by (auto split: sum.splits prod.splits)
qed

lemma example_db_ok: "voucher_db_ok example_db"
  by (simp add: voucher_db_ok_def redemptions_of_def)

theorem redeem_idempotent_witness:
  "\<exists>db'. redeem ''u'' ''k'' ''edu '' ''key'' ''r2'' ''op2'' 500 db' =
     Inr (\<lparr>rr_redemption = example_redemption, rr_idempotent = True\<rparr>, db')"
proof -
  from example_redeem obtain db' where r: "redeem ''u'' ''k'' ''edu '' ''key'' ''r'' ''op'' 5 example_db =
      Inr (\<lparr>rr_redemption = example_redemption, rr_idempotent = False\<rparr>, db')" by blast
  from redeem_idempotent [OF r example_db_ok, of "''r2''" "''op2''" 500] show ?thesis by auto
qed

end
