(* ===== verification/Voucher_Orders.thy ===== *)
theory Voucher_Orders
  imports Voucher_Service
begin

text \<open>
  Vouchers in orders: the checkout prices its lines with vouchers and reserves them
  (\<^verbatim>\<open>commerce/commerce-order.service.ts\<close>), a confirmed payment turns reservations into redemptions
  (\<^verbatim>\<open>payments/payment-webhook.service.ts\<close>), and closing an order ends them.  With the operations of the
  service these make up the histories of the vouchers; a check of an update and its write are separate steps, as they
  are in the code.  The unique indexes and the triggers on the reservations are branches of the writes.
\<close>

section \<open>Pricing and reserving\<close>

record cart_line =
  kl_product_active :: bool
  kl_course :: "voucher_course option"

record priced_line =
  pr_course_id :: string
  pr_list_price :: int
  pr_discount :: int
  pr_voucher_id :: "string option"

definition stale_cart :: api_error where
  "stale_cart = BadRequestException ''STALE_CART''"

text \<open>The codes were trimmed and put in upper case, one for a course; an empty code is none.\<close>

definition price_line ::
  "string \<Rightarrow> string \<Rightarrow> (string \<times> string) list \<Rightarrow> int \<Rightarrow> voucher_db \<Rightarrow> cart_line \<Rightarrow> priced_line result" where
  "price_line learner cart_currency codes now db line =
     some_or stale_cart (kl_course line) (\<lambda>c.
     throw_if (\<not> kl_product_active line \<or> vk_deleted_at c \<noteq> None \<or> vk_status c \<noteq> ''published''
         \<or> vk_visibility c \<noteq> ''public'' \<or> vk_moderation_status c \<noteq> ''clear'') stale_cart (
     some_or stale_cart (vk_price_amount c) (\<lambda>price.
     throw_if (price \<le> 0 \<or> 9007199254740991 < price) stale_cart (
     throw_if (vk_price_currency c \<noteq> Some ''VND'' \<or> cart_currency \<noteq> ''VND'') (BadRequestException ''UNSUPPORTED_CURRENCY'') (
     if opt_truthy (map_of codes (vk_id c))
     then and_then (evaluate_for_commerce
         \<lparr>vi_user_id = learner, vi_course_id = vk_id c, vi_category_slug = vk_category_slug c,
          vi_code = the (map_of codes (vk_id c)), vi_price_amount = price, vi_currency = ''VND''\<rparr> now db) (\<lambda>d.
       Inr \<lparr>pr_course_id = vk_id c, pr_list_price = price, pr_discount = cvd_discount_amount d,
            pr_voucher_id = Some (cvd_voucher_id d)\<rparr>)
     else Inr \<lparr>pr_course_id = vk_id c, pr_list_price = price, pr_discount = 0, pr_voucher_id = None\<rparr>)))))"

definition reservation_row :: "string \<Rightarrow> string \<Rightarrow> int \<Rightarrow> (string \<Rightarrow> string) \<Rightarrow> priced_line \<Rightarrow> promotion_reservation" where
  "reservation_row learner order_id now fresh p =
     \<lparr>pv_id = fresh (''reservation:'' @ pr_course_id p), pv_order_id = order_id, pv_voucher_id = pr_voucher_id p,
      pv_buyer_id = learner, pv_status = ''reserved'', pv_expires_at = now + 15 * 60000, pv_course_id = pr_course_id p,
      pv_original_amount = pr_list_price p, pv_discount_amount = pr_discount p,
      pv_final_amount = pr_list_price p - pr_discount p\<rparr>"

text \<open>One reservation or redemption of a voucher for an order, of a voucher that is valid now.\<close>

definition reservation_taken :: "promotion_reservation \<Rightarrow> promotion_reservation \<Rightarrow> bool" where
  "reservation_taken r x =
     (pv_id x = pv_id r \<or> pv_order_id x = pv_order_id r \<and> pv_voucher_id x = pv_voucher_id r
        \<and> pv_status x \<in> {''reserved'', ''consumed''})"

definition insert_reservation :: "int \<Rightarrow> voucher_db \<Rightarrow> promotion_reservation \<Rightarrow> voucher_db result" where
  "insert_reservation now db r =
     throw_if (\<not> list_ex (\<lambda>v. Some (v_id v) = pv_voucher_id r \<and> v_status v = VoucherActive \<and> v_currency v = ''VND''
         \<and> v_starts_at v \<le> now \<and> now < v_ends_at v) (vouchers db))
       (DatabaseError ''reservation voucher is not currently monetary-eligible'') (
     throw_if (list_ex (reservation_taken r) (voucher_reservations db)) (PrismaError ''P2002'') (
     Inr (db\<lparr>voucher_reservations := voucher_reservations db @ [r]\<rparr>)))"

section \<open>From a reservation to a redemption\<close>

definition redemption_of :: "int \<Rightarrow> (string \<Rightarrow> string) \<Rightarrow> string \<Rightarrow> string \<Rightarrow> promotion_reservation \<Rightarrow> redemption_row" where
  "redemption_of now fresh user i r =
     \<lparr>rd_id = fresh (''redemption:'' @ pv_id r), rd_voucher_id = i, rd_user_id = user, rd_course_id = pv_course_id r,
      rd_redemption_key = fresh (''operation:'' @ pv_id r), rd_original_amount = pv_original_amount r,
      rd_discount_amount = pv_discount_amount r, rd_final_amount = pv_final_amount r, rd_currency = ''VND'',
      rd_created_at = now\<rparr>"

definition set_reservation_status :: "string \<Rightarrow> string \<Rightarrow> voucher_db \<Rightarrow> voucher_db" where
  "set_reservation_status i st db =
     db\<lparr>voucher_reservations := update_where (\<lambda>x. pv_id x = i) (\<lambda>x. x\<lparr>pv_status := st\<rparr>) (voucher_reservations db)\<rparr>"

definition consume_reservation ::
  "int \<Rightarrow> (string \<Rightarrow> string) \<Rightarrow> string \<Rightarrow> voucher_db \<Rightarrow> promotion_reservation \<Rightarrow> voucher_db result" where
  "consume_reservation now fresh user db r =
     some_or (PrismaError ''P2025'') (find (\<lambda>x. pv_id x = pv_id r) (voucher_reservations db)) (\<lambda>x.
     throw_if (pv_status x \<noteq> ''reserved'') (DatabaseError ''invalid promotion reservation transition'') (
     let db1 = set_reservation_status (pv_id r) ''consumed'' db in
     case pv_voucher_id r of
       None \<Rightarrow> Inr db1
     | Some i \<Rightarrow>
         let row = redemption_of now fresh user i r in
         throw_if (redemption_key_of row \<in> redemption_key_of ` set (redemptions db)) (PrismaError ''P2002'') (
         throw_if (find_voucher i db = None) (PrismaError ''P2003'') (
         Inr (count_redemption row now db1)))))"

text \<open>The part of a checkout that touches vouchers: all lines are priced before anything is written, then every
  voucher is reserved, and an order with nothing to pay is confirmed at once.\<close>

definition reservations_for ::
  "string \<Rightarrow> string \<Rightarrow> int \<Rightarrow> (string \<Rightarrow> string) \<Rightarrow> priced_line list \<Rightarrow> promotion_reservation list" where
  "reservations_for learner order_id now fresh ps =
     map (reservation_row learner order_id now fresh) (filter (\<lambda>p. pr_voucher_id p \<noteq> None) ps)"

definition payable_amount :: "priced_line list \<Rightarrow> int" where
  "payable_amount ps = sum_list (map pr_list_price ps) - sum_list (map pr_discount ps)"

definition checkout_vouchers ::
  "string \<Rightarrow> string \<Rightarrow> string \<Rightarrow> (string \<times> string) list \<Rightarrow> cart_line list \<Rightarrow> (string \<Rightarrow> string) \<Rightarrow> int
   \<Rightarrow> (voucher_db, priced_line list) txn" where
  "checkout_vouchers learner order_id cart_currency codes lines fresh now db =
     and_then (map_result (price_line learner cart_currency codes now db) lines) (\<lambda>ps.
     let rs = reservations_for learner order_id now fresh ps in
     and_then (fold_result (insert_reservation now) db rs) (\<lambda>db1.
     and_then (if payable_amount ps = 0 then fold_result (consume_reservation now fresh learner) db1 rs else Inr db1)
       (\<lambda>db2. Inr (ps, db2))))"

text \<open>A confirmed payment consumes what is still reserved for its order, whether or not it has expired.\<close>

definition open_vouchers_of :: "string \<Rightarrow> voucher_db \<Rightarrow> promotion_reservation list" where
  "open_vouchers_of order_id db =
     filter (\<lambda>r. pv_order_id r = order_id \<and> pv_status r = ''reserved'') (voucher_reservations db)"

definition consume_reservations :: "int \<Rightarrow> (string \<Rightarrow> string) \<Rightarrow> string \<Rightarrow> voucher_db \<Rightarrow> voucher_db result" where
  "consume_reservations now fresh order_id db =
     fold_result (\<lambda>d r. consume_reservation now fresh (pv_buyer_id r) d r) db (open_vouchers_of order_id db)"

text \<open>An order that is cancelled or expires releases its reservations, and a confirmed bank transfer sets them to
  consumed without a redemption.\<close>

definition finish_vouchers :: "string \<Rightarrow> string \<Rightarrow> voucher_db \<Rightarrow> voucher_db" where
  "finish_vouchers order_id st db =
     db\<lparr>voucher_reservations := update_where (\<lambda>r. pv_order_id r = order_id \<and> pv_status r = ''reserved'')
          (\<lambda>r. r\<lparr>pv_status := st\<rparr>) (voucher_reservations db)\<rparr>"

section \<open>Histories\<close>

text \<open>The tables, the clock, and the updates whose check has passed, each with the row it has read.  The last
  component records for which vouchers the limits were overtaken: by an update that changed limits although the voucher
  had been redeemed or its limits changed since the check, or while a checkout held a reservation; or by a payment that
  consumed a reservation after it had expired.\<close>

record voucher_world =
  ww_db :: voucher_db
  ww_now :: int
  ww_checked :: "(voucher_row \<times> normalized_voucher) list"
  ww_overtaken :: "string list"


definition overtaken_update :: "voucher_row \<Rightarrow> normalized_voucher \<Rightarrow> int \<Rightarrow> voucher_db \<Rightarrow> bool" where
  "overtaken_update current n now db =
     (case find_voucher (v_id current) db of
        None \<Rightarrow> False
      | Some v \<Rightarrow>
          (nv_usage_limit n \<noteq> v_usage_limit v \<or> nv_per_user_limit n \<noteq> v_per_user_limit v)
          \<and> (v_redeemed_count v \<noteq> v_redeemed_count current \<or> v_usage_limit v \<noteq> v_usage_limit current
             \<or> v_per_user_limit v \<noteq> v_per_user_limit current
             \<or> list_ex (active_reservation (v_id v) now) (voucher_reservations db)))"

definition late_vouchers :: "string \<Rightarrow> int \<Rightarrow> voucher_db \<Rightarrow> string list" where
  "late_vouchers order_id now db =
     map (\<lambda>r. the (pv_voucher_id r))
       (filter (\<lambda>r. pv_voucher_id r \<noteq> None \<and> pv_expires_at r \<le> now) (open_vouchers_of order_id db))"

inductive voucher_step :: "voucher_world \<Rightarrow> voucher_world \<Rightarrow> bool" where
  tick: "ww_now w \<le> now \<Longrightarrow> voucher_step w (w\<lparr>ww_now := now\<rparr>)"
| create: "n = normalize_create_input input \<Longrightarrow> assert_policy n = Inr ()
    \<Longrightarrow> create_voucher_write actor n new_id (ww_now w) (ww_db w) = Inr (v, db')
    \<Longrightarrow> new_id \<notin> v_id ` set (vouchers (ww_db w)) \<Longrightarrow> voucher_step w (w\<lparr>ww_db := db'\<rparr>)"
| check: "update_voucher_check i uinput (ww_db w) = Inr n \<Longrightarrow> find_voucher i (ww_db w) = Some current
    \<Longrightarrow> voucher_step w (w\<lparr>ww_checked := (current, n) # ww_checked w\<rparr>)"
| update: "(current, n) \<in> set (ww_checked w)
    \<Longrightarrow> update_voucher_write actor (v_id current) n (ww_now w) (ww_db w) = Inr (v, db')
    \<Longrightarrow> voucher_step w (w\<lparr>ww_db := db', ww_checked := remove1 (current, n) (ww_checked w),
          ww_overtaken := (if overtaken_update current n (ww_now w) (ww_db w) then [v_id current] else []) @ ww_overtaken w\<rparr>)"
| redeem: "redeem user_id course_id code key new_id operation_id (ww_now w) (ww_db w) = Inr (r, db')
    \<Longrightarrow> voucher_step w (w\<lparr>ww_db := db'\<rparr>)"
| checkout: "checkout_vouchers learner order_id cart_currency codes lines fresh (ww_now w) (ww_db w) = Inr (ps, db')
    \<Longrightarrow> voucher_step w (w\<lparr>ww_db := db'\<rparr>)"
| paid: "consume_reservations (ww_now w) fresh order_id (ww_db w) = Inr db'
    \<Longrightarrow> voucher_step w (w\<lparr>ww_db := db', ww_overtaken := late_vouchers order_id (ww_now w) (ww_db w) @ ww_overtaken w\<rparr>)"
| finish: "st \<in> {''released'', ''expired'', ''consumed''}
    \<Longrightarrow> voucher_step w (w\<lparr>ww_db := finish_vouchers order_id st (ww_db w)\<rparr>)"
| environment: "voucher_step w (w\<lparr>ww_db := (ww_db w)\<lparr>voucher_courses := cs, voucher_users := us\<rparr>\<rparr>)"

inductive_cases voucher_stepE: "voucher_step w w'"

section \<open>Limits\<close>

definition within :: "int \<Rightarrow> int option \<Rightarrow> bool" where
  "within n limit = (case limit of None \<Rightarrow> True | Some m \<Rightarrow> n \<le> max 0 m)"

lemma within_zero [simp]: "within 0 limit"
  by (simp add: within_def split: option.splits)



definition reservation_ok :: "voucher_db \<Rightarrow> promotion_reservation \<Rightarrow> bool" where
  "reservation_ok db r =
     (0 \<le> pv_discount_amount r \<and> pv_discount_amount r \<le> pv_original_amount r
      \<and> pv_final_amount r = pv_original_amount r - pv_discount_amount r
      \<and> (\<forall>i. pv_voucher_id r = Some i \<longrightarrow> i \<in> v_id ` set (vouchers db)))"

lemma reservation_ok_status [simp]: "reservation_ok db (r\<lparr>pv_status := st\<rparr>) = reservation_ok db r"
  by (simp add: reservation_ok_def)








definition uses_le :: "int \<Rightarrow> string \<Rightarrow> voucher_db \<Rightarrow> voucher_db \<Rightarrow> bool" where
  "uses_le t i db db' = (uses_of i t db' \<le> uses_of i t db \<and> (\<forall>u. user_uses_of i u t db' \<le> user_uses_of i u t db))"

lemma uses_le_refl [simp]: "uses_le t i db db"
  by (simp add: uses_le_def)






section \<open>How the uses of a voucher change\<close>









lemma count_redemption_ids [simp]:
  "v_id ` set (vouchers (count_redemption r now db)) = v_id ` set (vouchers db)"
  "voucher_reservations (count_redemption r now db) = voucher_reservations db"
proof -
  have "map v_id (vouchers (count_redemption r now db)) = map v_id (vouchers db)"
    by (simp add: count_redemption_def map_update_where_same)
  then show "v_id ` set (vouchers (count_redemption r now db)) = v_id ` set (vouchers db)" by (metis list.set_map)
qed (simp add: count_redemption_def)



section \<open>What a checkout adds\<close>










section \<open>Limits in every history\<close>
















section \<open>Witnesses\<close>


lemma case_Inr_pair: "(case x of Inl e \<Rightarrow> False | Inr (a, b) \<Rightarrow> P a b) \<Longrightarrow> \<exists>a b. x = Inr (a, b) \<and> P a b"
  by (cases x) (simp_all add: split_beta, metis prod.collapse)


abbreviation example_lines :: "cart_line list" where
  "example_lines \<equiv> [\<lparr>kl_product_active = True, kl_course = Some example_course\<rparr>]"




text \<open>The race of an update with a redemption: the check sees a voucher nobody has redeemed, somebody redeems it, and
  the write lowers the limit below the redemptions.\<close>

abbreviation example_update :: update_voucher_input where
  "example_update \<equiv> \<lparr>uv_code = None, uv_status = None, uv_kind = None, uv_value = None, uv_currency = None,
     uv_starts_at = None, uv_ends_at = None, uv_minimum_course_price = None, uv_maximum_discount = None,
     uv_usage_limit = Some (Some 0), uv_per_user_limit = None, uv_course_ids = None, uv_category_slugs = None,
     uv_eligible_user_ids = None\<rparr>"

lemma update_voucher_race:
  "\<exists>n res db1 v db2.
     voucher_db_ok example_db
     \<and> update_voucher_check ''v'' example_update example_db = Inr n
     \<and> redeem ''u'' ''k'' ''edu '' ''key'' ''r'' ''op'' 5 example_db = Inr (res, db1)
     \<and> overtaken_update example_voucher n 6 db1
     \<and> update_voucher_write ''a'' ''v'' n 6 db1 = Inr (v, db2)
     \<and> v_usage_limit v = Some 0 \<and> v_redeemed_count v = 1"
proof -
  let ?n = "normalize_update_input example_voucher example_update"
  have c: "update_voucher_check ''v'' example_update example_db = Inr ?n"
    by code_simp
  from example_redeem obtain db1 where r: "redeem ''u'' ''k'' ''edu '' ''key'' ''r'' ''op'' 5 example_db =
      Inr (\<lparr>rr_redemption = example_redemption, rr_idempotent = False\<rparr>, db1)"
    and v: "vouchers db1 = [example_voucher\<lparr>v_redeemed_count := 1, v_updated_at := 5\<rparr>]" by blast
  let ?w = "apply_normalized ?n 6 (example_voucher\<lparr>v_redeemed_count := 1, v_updated_at := 5\<rparr>)"
  have a: "\<exists>row. voucher_audit ''a'' ''VOUCHER_UPDATED'' ?w = Inr row"
    by (simp add: voucher_audit_def audit_record_def)
  then obtain db2 where "update_voucher_write ''a'' ''v'' ?n 6 db1 = Inr (?w, db2)"
    by (auto simp: update_voucher_write_def find_voucher_def v to_voucher_response_def normalize_update_input_def)
  moreover have "v_usage_limit ?w = Some 0" "v_redeemed_count ?w = 1"
    by (simp_all add: normalize_update_input_def nullish_limit_def)
  moreover have "overtaken_update example_voucher ?n 6 db1"
    by (simp add: overtaken_update_def find_voucher_def v normalize_update_input_def nullish_limit_def)
  ultimately show ?thesis using c r example_db_ok by blast
qed

text \<open>A confirmed bank transfer leaves no redemption, so a voucher that may be used once can be reserved again.\<close>

lemma bank_transfer_use_not_counted:
  "\<exists>ps db1 ps' db2.
     checkout_vouchers ''u'' ''o'' ''VND'' [(''k'', ''EDU'')] example_lines (\<lambda>s. s) 5 example_db = Inr (ps, db1)
     \<and> checkout_vouchers ''w'' ''o2'' ''VND'' [(''k'', ''EDU'')] example_lines (\<lambda>s. ''2'' @ s) 5
         (finish_vouchers ''o'' ''consumed'' db1) = Inr (ps', db2)
     \<and> map pr_discount ps = [30] \<and> map pr_discount ps' = [30] \<and> redemptions db2 = []"
proof -
  have "(case checkout_vouchers ''u'' ''o'' ''VND'' [(''k'', ''EDU'')] example_lines (\<lambda>s. s) 5 example_db of
       Inl e \<Rightarrow> False
     | Inr (ps, db1) \<Rightarrow> (case checkout_vouchers ''w'' ''o2'' ''VND'' [(''k'', ''EDU'')] example_lines (\<lambda>s. ''2'' @ s) 5
         (finish_vouchers ''o'' ''consumed'' db1) of
         Inl e \<Rightarrow> False
       | Inr (ps', db2) \<Rightarrow> map pr_discount ps = [30] \<and> map pr_discount ps' = [30] \<and> redemptions db2 = []))"
    by code_simp
  from case_Inr_pair [OF this] obtain ps db1 where c: "checkout_vouchers ''u'' ''o'' ''VND'' [(''k'', ''EDU'')] example_lines (\<lambda>s. s) 5 example_db = Inr (ps, db1)"
    and r: "case checkout_vouchers ''w'' ''o2'' ''VND'' [(''k'', ''EDU'')] example_lines (\<lambda>s. ''2'' @ s) 5
         (finish_vouchers ''o'' ''consumed'' db1) of
         Inl e \<Rightarrow> False
       | Inr (ps', db2) \<Rightarrow> map pr_discount ps = [30] \<and> map pr_discount ps' = [30] \<and> redemptions db2 = []" by (elim exE conjE)
  from case_Inr_pair [OF r] obtain ps' db2 where d: "checkout_vouchers ''w'' ''o2'' ''VND'' [(''k'', ''EDU'')] example_lines
      (\<lambda>s. ''2'' @ s) 5 (finish_vouchers ''o'' ''consumed'' db1) = Inr (ps', db2)"
    "map pr_discount ps = [30]" "map pr_discount ps' = [30]" "redemptions db2 = []" by (elim exE conjE)
  show ?thesis by (intro exI conjI) (rule c, (rule d)+)
qed

end
