(* ===== verification/Gds_Wallet.thy ===== *)
theory Gds_Wallet
  imports Prelude
begin

text \<open>
  The wallet projection: \<^verbatim>\<open>src/modules/wallet/gds-wallet.domain.ts\<close>.
  A verified event stream and the reservations are replayed into a balance, a new hold is checked
  against it and a hold is resolved.  Kinds, currencies and statuses are the strings the code
  compares at run time, so that its checks against values outside the declared unions are part
  of the model.
\<close>

record wallet_event =
  provider_event_id :: string
  ev_kind :: string
  ev_amount_minor :: int
  ev_currency :: string
  provider_transaction_id :: string
  ev_order_id :: "string option"

record wallet_reservation =
  rs_order_id :: string
  rs_amount_minor :: int
  provider_reservation_id :: string
  rs_status :: string

record wallet_balance =
  settled_minor :: int
  reserved_minor :: int
  available_minor :: int
  wb_currency :: string

definition credits :: "string list" where
  "credits = [''FUNDS_CREDITED'', ''REFUND_CREDITED'']"

abbreviation wallet_error :: "string \<Rightarrow> api_error" where
  "wallet_error \<equiv> GdsWalletInvariantError"

definition positive_vnd :: "int \<Rightarrow> unit result" where
  "positive_vnd amount = throw_if (amount \<le> 0) (wallet_error ''WALLET_INVALID_AMOUNT'') (Inr ())"

lemma positive_vnd_Inr [result_simps]: "positive_vnd a = Inr u \<longleftrightarrow> 0 < a"
  by (auto simp: positive_vnd_def result_simps)

section \<open>Replaying the events\<close>

text \<open>The mutable locals of the first loop.  The keys of \<^verbatim>\<open>capturedByOrder\<close> are kept in the
  order of insertion, the order in which a \<^verbatim>\<open>Map\<close> iterates.\<close>

record replay_state =
  rp_settled :: int
  seen_events :: "string \<Rightarrow> string option"
  seen_transactions :: "string \<Rightarrow> string option"
  captured_by_order :: "(string \<times> int) list"

definition replay_init :: replay_state where
  "replay_init = \<lparr>rp_settled = 0, seen_events = (\<lambda>_. None), seen_transactions = (\<lambda>_. None), captured_by_order = []\<rparr>"

definition event_fingerprint :: "wallet_event \<Rightarrow> string" where
  "event_fingerprint e =
     ev_kind e @ '':'' @ show_int (ev_amount_minor e) @ '':'' @ ev_currency e @ '':''
     @ provider_transaction_id e @ '':'' @ (case ev_order_id e of None \<Rightarrow> [] | Some ref \<Rightarrow> ref)"

definition signed_amount :: "wallet_event \<Rightarrow> int" where
  "signed_amount e = (if ev_kind e \<in> set credits then ev_amount_minor e else - ev_amount_minor e)"

definition known_kind :: "string \<Rightarrow> bool" where
  "known_kind k = (k \<in> set credits \<or> k = ''PAYMENT_CAPTURED'' \<or> k = ''FUNDS_REVERSED'')"

definition is_capture :: "wallet_event \<Rightarrow> bool" where
  "is_capture e = (ev_kind e = ''PAYMENT_CAPTURED'')"

definition apply_event :: "replay_state \<Rightarrow> wallet_event \<Rightarrow> replay_state result" where
  "apply_event st e =
     (let fp = event_fingerprint e; eid = provider_event_id e; tid = provider_transaction_id e;
          old_event = seen_events st eid; old_transaction = seen_transactions st tid in
      and_then (positive_vnd (ev_amount_minor e)) (\<lambda>_.
      throw_if (\<not> known_kind (ev_kind e)) (wallet_error ''WALLET_INVALID_PARTNER_FACT'') (
      throw_if (ev_currency e \<noteq> ''VND'' \<or> \<not> truthy eid \<or> \<not> truthy tid)
        (wallet_error ''WALLET_INVALID_PARTNER_FACT'') (
      if opt_truthy old_event then
        throw_if (old_event \<noteq> Some fp) (wallet_error ''WALLET_EVENT_COLLISION'') (Inr st)
      else
      throw_if (opt_truthy old_transaction \<and> old_transaction \<noteq> Some eid)
        (wallet_error ''WALLET_TRANSACTION_REPLAY'') (
      throw_if (is_capture e \<and>
          (\<not> opt_truthy (ev_order_id e) \<or> map_of (captured_by_order st) (the (ev_order_id e)) \<noteq> None))
        (wallet_error ''WALLET_CAPTURE_RECONCILIATION_REQUIRED'') (
      Inr (st\<lparr>seen_events := (seen_events st)(eid \<mapsto> fp),
              seen_transactions := (seen_transactions st)(tid \<mapsto> eid),
              captured_by_order :=
                (if is_capture e then captured_by_order st @ [(the (ev_order_id e), ev_amount_minor e)]
                 else captured_by_order st),
              rp_settled := rp_settled st + signed_amount e\<rparr>)))))))"

section \<open>Checking the reservations\<close>

record hold_state =
  hs_reserved :: int
  seen_orders :: "string list"
  seen_partner_holds :: "string list"

definition holds_init :: hold_state where
  "holds_init = \<lparr>hs_reserved = 0, seen_orders = [], seen_partner_holds = []\<rparr>"

definition holds_money :: "wallet_reservation \<Rightarrow> bool" where
  "holds_money r = (rs_status r = ''RESERVED'' \<or> rs_status r = ''UNKNOWN'')"

definition apply_reservation ::
  "(string \<times> int) list \<Rightarrow> hold_state \<Rightarrow> wallet_reservation \<Rightarrow> hold_state result" where
  "apply_reservation captured h r =
     and_then (positive_vnd (rs_amount_minor r)) (\<lambda>_.
     throw_if (\<not> truthy (rs_order_id r) \<or> \<not> truthy (provider_reservation_id r))
       (wallet_error ''WALLET_INVALID_RESERVATION'') (
     throw_if (rs_order_id r \<in> set (seen_orders h) \<or> provider_reservation_id r \<in> set (seen_partner_holds h))
       (wallet_error ''WALLET_DUPLICATE_RESERVATION'') (
     throw_if (rs_status r \<notin> set [''RESERVED'', ''UNKNOWN'', ''CAPTURED'', ''RELEASED''])
       (wallet_error ''WALLET_INVALID_RESERVATION'') (
     let h' = h\<lparr>seen_orders := rs_order_id r # seen_orders h,
                seen_partner_holds := provider_reservation_id r # seen_partner_holds h\<rparr> in
     if holds_money r then
       throw_if (map_of captured (rs_order_id r) \<noteq> None)
         (wallet_error ''WALLET_CAPTURE_RECONCILIATION_REQUIRED'')
         (Inr (h'\<lparr>hs_reserved := hs_reserved h + rs_amount_minor r\<rparr>))
     else
       throw_if (rs_status r = ''CAPTURED'' \<and> map_of captured (rs_order_id r) \<noteq> Some (rs_amount_minor r))
         (wallet_error ''WALLET_CAPTURE_RECONCILIATION_REQUIRED'') (Inr h')))))"

definition uncaptured_order :: "wallet_reservation list \<Rightarrow> string \<times> int \<Rightarrow> bool" where
  "uncaptured_order reservations c =
     (\<not> list_ex (\<lambda>r. rs_order_id r = fst c \<and> rs_status r = ''CAPTURED'') reservations)"

definition project_gds_wallet ::
  "wallet_event list \<Rightarrow> wallet_reservation list \<Rightarrow> wallet_balance result" where
  "project_gds_wallet events reservations =
     and_then (fold_result apply_event replay_init events) (\<lambda>st.
     and_then (fold_result (apply_reservation (captured_by_order st)) holds_init reservations) (\<lambda>h.
     throw_if (list_ex (uncaptured_order reservations) (captured_by_order st))
       (wallet_error ''WALLET_CAPTURE_RECONCILIATION_REQUIRED'') (
     let available = rp_settled st - hs_reserved h in
     throw_if (rp_settled st < 0 \<or> available < 0) (wallet_error ''WALLET_RECONCILIATION_REQUIRED'')
       (Inr \<lparr>settled_minor = rp_settled st, reserved_minor = hs_reserved h,
             available_minor = available, wb_currency = ''VND''\<rparr>))))"

section \<open>Holding and resolving\<close>

definition reserve_gds_wallet ::
  "wallet_reservation list \<Rightarrow> wallet_event list \<Rightarrow> wallet_reservation \<Rightarrow> wallet_reservation list result" where
  "reserve_gds_wallet current events nxt =
     and_then (positive_vnd (rs_amount_minor nxt)) (\<lambda>_.
     throw_if (rs_status nxt \<noteq> ''RESERVED'' \<or> \<not> truthy (rs_order_id nxt)
         \<or> \<not> truthy (provider_reservation_id nxt))
       (wallet_error ''WALLET_INVALID_RESERVATION'') (
     case find (\<lambda>r. rs_order_id r = rs_order_id nxt) current of
       Some existing \<Rightarrow>
         throw_if (rs_amount_minor existing \<noteq> rs_amount_minor nxt
             \<or> provider_reservation_id existing \<noteq> provider_reservation_id nxt)
           (wallet_error ''WALLET_IDEMPOTENCY_CONFLICT'') (Inr current)
     | None \<Rightarrow>
         and_then (project_gds_wallet events current) (\<lambda>b.
         throw_if (available_minor b < rs_amount_minor nxt) (wallet_error ''WALLET_INSUFFICIENT_FUNDS'') (
         and_then (project_gds_wallet events (current @ [nxt])) (\<lambda>_. Inr (current @ [nxt]))))))"

definition resolve_gds_reservation :: "wallet_reservation \<Rightarrow> string \<Rightarrow> wallet_reservation result" where
  "resolve_gds_reservation current res =
     (if rs_status current = res then Inr current
      else throw_if (rs_status current = ''CAPTURED'' \<or> rs_status current = ''RELEASED'')
        (wallet_error ''WALLET_TERMINAL_CONFLICT'') (
      if res = ''UNKNOWN'' then Inr (current\<lparr>rs_status := ''UNKNOWN''\<rparr>)
      else Inr (current\<lparr>rs_status := res\<rparr>)))"

section \<open>The replayed facts\<close>

text \<open>The events that count: the first delivery of every event id.\<close>

fun fresh_events :: "string list \<Rightarrow> wallet_event list \<Rightarrow> wallet_event list" where
  "fresh_events seen [] = []"
| "fresh_events seen (e # es) =
     (if provider_event_id e \<in> set seen then fresh_events seen es
      else e # fresh_events (provider_event_id e # seen) es)"

lemma fingerprint_nonempty [simp]: "event_fingerprint e \<noteq> []"
  by (simp add: event_fingerprint_def)

definition replay_ok :: "replay_state \<Rightarrow> bool" where
  "replay_ok st \<longleftrightarrow> (\<forall>i. seen_events st i \<noteq> Some [])"

lemma replay_ok_init [simp]: "replay_ok replay_init"
  by (simp add: replay_ok_def replay_init_def)

lemma replay_ok_truthy: "replay_ok st \<Longrightarrow> opt_truthy (seen_events st i) \<longleftrightarrow> i \<in> dom (seen_events st)"
  unfolding replay_ok_def dom_def by (metis (mono_tags, lifting) mem_Collect_eq not_Some_eq opt_truthy.simps)

text \<open>An event is either a known delivery and changes nothing, or it is recorded.\<close>

lemma apply_event_Inr:
  "apply_event st e = Inr st' \<longleftrightarrow>
     0 < ev_amount_minor e \<and> known_kind (ev_kind e) \<and> ev_currency e = ''VND''
     \<and> truthy (provider_event_id e) \<and> truthy (provider_transaction_id e)
     \<and> (if opt_truthy (seen_events st (provider_event_id e))
        then seen_events st (provider_event_id e) = Some (event_fingerprint e) \<and> st' = st
        else \<not> (opt_truthy (seen_transactions st (provider_transaction_id e))
                \<and> seen_transactions st (provider_transaction_id e) \<noteq> Some (provider_event_id e))
          \<and> \<not> (is_capture e \<and> (\<not> opt_truthy (ev_order_id e)
                \<or> map_of (captured_by_order st) (the (ev_order_id e)) \<noteq> None))
          \<and> st' = st\<lparr>seen_events := (seen_events st)(provider_event_id e \<mapsto> event_fingerprint e),
              seen_transactions := (seen_transactions st)(provider_transaction_id e \<mapsto> provider_event_id e),
              captured_by_order :=
                (if is_capture e then captured_by_order st @ [(the (ev_order_id e), ev_amount_minor e)]
                 else captured_by_order st),
              rp_settled := rp_settled st + signed_amount e\<rparr>)"
  unfolding apply_event_def Let_def
  by (cases "opt_truthy (seen_events st (provider_event_id e))") (simp_all add: result_simps, blast+)

lemma apply_event_cases [consumes 2, case_names known fresh]:
  assumes "apply_event st e = Inr st'" and "replay_ok st"
  obtains
    "seen_events st (provider_event_id e) = Some (event_fingerprint e)" "st' = st" "0 < ev_amount_minor e"
  | "seen_events st (provider_event_id e) = None" "0 < ev_amount_minor e"
    "seen_events st' = (seen_events st)(provider_event_id e \<mapsto> event_fingerprint e)"
    "rp_settled st' = rp_settled st + signed_amount e"
    "captured_by_order st' = captured_by_order st @
       (if is_capture e then [(the (ev_order_id e), ev_amount_minor e)] else [])"
    "is_capture e \<longrightarrow> the (ev_order_id e) \<notin> fst ` set (captured_by_order st)"
proof (cases "opt_truthy (seen_events st (provider_event_id e))")
  case True
  then show ?thesis
    using assms that(1) by (simp add: apply_event_Inr)
next
  case False
  then have n: "seen_events st (provider_event_id e) = None"
    using replay_ok_truthy [OF assms(2)] by auto
  with False have *: "0 < ev_amount_minor e"
    "\<not> (is_capture e \<and> (\<not> opt_truthy (ev_order_id e)
        \<or> map_of (captured_by_order st) (the (ev_order_id e)) \<noteq> None))"
    "st' = st\<lparr>seen_events := (seen_events st)(provider_event_id e \<mapsto> event_fingerprint e),
      seen_transactions := (seen_transactions st)(provider_transaction_id e \<mapsto> provider_event_id e),
      captured_by_order := (if is_capture e then captured_by_order st @ [(the (ev_order_id e), ev_amount_minor e)]
                            else captured_by_order st),
      rp_settled := rp_settled st + signed_amount e\<rparr>"
    using assms(1) by (simp_all add: apply_event_Inr)
  from * n show ?thesis by (intro that(2)) (simp_all add: map_of_eq_None_iff)
qed

lemma apply_event_ok: "apply_event st e = Inr st' \<Longrightarrow> replay_ok st \<Longrightarrow> replay_ok st'"
  by (erule (1) apply_event_cases) (auto simp: replay_ok_def)

lemma apply_event_seen_mono:
  "apply_event st e = Inr st' \<Longrightarrow> replay_ok st \<Longrightarrow> seen_events st i = Some f \<Longrightarrow> seen_events st' i = Some f"
  by (erule (1) apply_event_cases) auto

lemma apply_event_seen:
  "apply_event st e = Inr st' \<Longrightarrow> replay_ok st \<Longrightarrow>
    seen_events st' (provider_event_id e) = Some (event_fingerprint e)"
  by (erule (1) apply_event_cases) auto

lemma apply_event_again:
  assumes "apply_event st e = Inr st'" and "seen_events u (provider_event_id e) = Some (event_fingerprint e)"
  shows "apply_event u e = Inr u"
  using assms by (simp add: apply_event_Inr)

lemma replay_seen_mono:
  "fold_result apply_event st es = Inr st' \<Longrightarrow> replay_ok st \<Longrightarrow> seen_events st i = Some f \<Longrightarrow>
    seen_events st' i = Some f \<and> replay_ok st'"
  by (induction es arbitrary: st) (auto simp: result_simps dest: apply_event_seen_mono apply_event_ok)

lemma replayed_event_known:
  "fold_result apply_event st es = Inr st' \<Longrightarrow> replay_ok st \<Longrightarrow> e \<in> set es \<Longrightarrow>
    seen_events st' (provider_event_id e) = Some (event_fingerprint e)
    \<and> (\<exists>u u'. apply_event u e = Inr u')"
proof (induction es arbitrary: st)
  case (Cons x es)
  from Cons.prems(1) obtain u where u: "apply_event st x = Inr u" "fold_result apply_event u es = Inr st'"
    by (auto simp: result_simps)
  have ok: "replay_ok u" by (rule apply_event_ok [OF u(1) Cons.prems(2)])
  show ?case
  proof (cases "e = x")
    case True
    with replay_seen_mono [OF u(2) ok apply_event_seen [OF u(1) Cons.prems(2)]] u(1) show ?thesis by blast
  next
    case False
    with Cons.IH [OF u(2) ok] Cons.prems(3) show ?thesis by simp
  qed
qed simp

lemma replay_totals:
  assumes "fold_result apply_event st es = Inr st'" and "replay_ok st"
    and "dom (seen_events st) = set seen" and "distinct (map fst (captured_by_order st))"
  defines "new \<equiv> fresh_events seen es"
  shows "rp_settled st' = rp_settled st + sum_list (map signed_amount new)"
    and "captured_by_order st' = captured_by_order st @
      map (\<lambda>e. (the (ev_order_id e), ev_amount_minor e)) (filter is_capture new)"
    and "distinct (map fst (captured_by_order st'))"
  using assms(1-4) unfolding new_def
proof (induction es arbitrary: st seen)
  case Nil
  { case 1 then show ?case by simp next case 2 then show ?case by simp next case 3 then show ?case by simp }
next
  case (Cons e es)
  have main: "rp_settled st' = rp_settled st + sum_list (map signed_amount (fresh_events seen (e # es)))
    \<and> captured_by_order st' = captured_by_order st @
      map (\<lambda>e. (the (ev_order_id e), ev_amount_minor e))
        (filter is_capture (fresh_events seen (e # es)))
    \<and> distinct (map fst (captured_by_order st'))"
    if st: "fold_result apply_event st (e # es) = Inr st'" "replay_ok st"
      "dom (seen_events st) = set seen" "distinct (map fst (captured_by_order st))" for st seen
  proof -
    from st(1) obtain u where u: "apply_event st e = Inr u" "fold_result apply_event u es = Inr st'"
      by (auto simp: result_simps)
    have ok: "replay_ok u" by (rule apply_event_ok [OF u(1) st(2)])
    from u(1) st(2) show ?thesis
    proof (cases rule: apply_event_cases)
      case known
      with st(3) have "provider_event_id e \<in> set seen" by auto
      with Cons.IH [of u seen] u(2) known(2) st show ?thesis by simp
    next
      case fresh
      from fresh(1) st(3) have n: "provider_event_id e \<notin> set seen" by auto
      have d: "dom (seen_events u) = set (provider_event_id e # seen)" using fresh(3) st(3) by simp
      have c: "distinct (map fst (captured_by_order u))" using fresh(5,6) st(4) by auto
      from Cons.IH [OF u(2) ok d c] n fresh(4,5) show ?thesis by auto
    qed
  qed
  { case 1 with main show ?case by blast next case 2 with main show ?case by blast next case 3 with main show ?case by blast }
qed

section \<open>The checked reservations\<close>

lemma apply_reservation_Inr:
  "apply_reservation cap h r = Inr h' \<longleftrightarrow>
     0 < rs_amount_minor r \<and> truthy (rs_order_id r) \<and> truthy (provider_reservation_id r)
     \<and> rs_order_id r \<notin> set (seen_orders h) \<and> provider_reservation_id r \<notin> set (seen_partner_holds h)
     \<and> rs_status r \<in> {''RESERVED'', ''UNKNOWN'', ''CAPTURED'', ''RELEASED''}
     \<and> (holds_money r \<longrightarrow> map_of cap (rs_order_id r) = None)
     \<and> (rs_status r = ''CAPTURED'' \<longrightarrow> map_of cap (rs_order_id r) = Some (rs_amount_minor r))
     \<and> h' = h\<lparr>seen_orders := rs_order_id r # seen_orders h,
              seen_partner_holds := provider_reservation_id r # seen_partner_holds h,
              hs_reserved := hs_reserved h + (if holds_money r then rs_amount_minor r else 0)\<rparr>"
  unfolding apply_reservation_def Let_def
  by (cases "holds_money r") (simp_all add: result_simps, auto simp: holds_money_def)

definition held_total :: "wallet_reservation list \<Rightarrow> int" where
  "held_total rs = sum_list (map rs_amount_minor (filter holds_money rs))"

lemma reservations_checked:
  "fold_result (apply_reservation cap) h rs = Inr h' \<Longrightarrow>
    hs_reserved h' = hs_reserved h + held_total rs
    \<and> distinct (map rs_order_id rs) \<and> set (map rs_order_id rs) \<inter> set (seen_orders h) = {}
    \<and> distinct (map provider_reservation_id rs)
    \<and> set (map provider_reservation_id rs) \<inter> set (seen_partner_holds h) = {}
    \<and> (\<forall>r\<in>set rs. 0 < rs_amount_minor r
        \<and> (rs_status r = ''CAPTURED'' \<longrightarrow> map_of cap (rs_order_id r) = Some (rs_amount_minor r))
        \<and> (holds_money r \<longrightarrow> map_of cap (rs_order_id r) = None))"
proof (induction rs arbitrary: h)
  case Nil
  then show ?case by (simp add: held_total_def)
next
  case (Cons r rs)
  from Cons.prems obtain u where u: "apply_reservation cap h r = Inr u"
    "fold_result (apply_reservation cap) u rs = Inr h'"
    by (auto simp: result_simps)
  from Cons.IH [OF u(2)] u(1) show ?case
    unfolding apply_reservation_Inr by (auto simp: held_total_def)
qed

lemma project_Inr:
  "project_gds_wallet es rs = Inr b \<longleftrightarrow>
    (\<exists>st h. fold_result apply_event replay_init es = Inr st
      \<and> fold_result (apply_reservation (captured_by_order st)) holds_init rs = Inr h
      \<and> \<not> list_ex (uncaptured_order rs) (captured_by_order st)
      \<and> 0 \<le> rp_settled st \<and> 0 \<le> rp_settled st - hs_reserved h
      \<and> b = \<lparr>settled_minor = rp_settled st, reserved_minor = hs_reserved h,
             available_minor = rp_settled st - hs_reserved h, wb_currency = ''VND''\<rparr>)"
  unfolding project_gds_wallet_def Let_def
  by (simp only: result_simps) (auto simp: not_less)

text \<open>Conversely, these conditions are all the second loop asks for.\<close>

definition reservation_valid :: "(string \<times> int) list \<Rightarrow> wallet_reservation \<Rightarrow> bool" where
  "reservation_valid cap r \<longleftrightarrow>
     0 < rs_amount_minor r \<and> truthy (rs_order_id r) \<and> truthy (provider_reservation_id r)
     \<and> rs_status r \<in> {''RESERVED'', ''UNKNOWN'', ''CAPTURED'', ''RELEASED''}
     \<and> (holds_money r \<longrightarrow> map_of cap (rs_order_id r) = None)
     \<and> (rs_status r = ''CAPTURED'' \<longrightarrow> map_of cap (rs_order_id r) = Some (rs_amount_minor r))"

lemma reservations_accepted_iff:
  "(\<exists>h'. fold_result (apply_reservation cap) h rs = Inr h') \<longleftrightarrow>
    (\<forall>r\<in>set rs. reservation_valid cap r)
    \<and> distinct (map rs_order_id rs) \<and> set (map rs_order_id rs) \<inter> set (seen_orders h) = {}
    \<and> distinct (map provider_reservation_id rs)
    \<and> set (map provider_reservation_id rs) \<inter> set (seen_partner_holds h) = {}"
proof (induction rs arbitrary: h)
  case Nil
  then show ?case by simp
next
  case (Cons r rs)
  let ?u = "h\<lparr>seen_orders := rs_order_id r # seen_orders h,
      seen_partner_holds := provider_reservation_id r # seen_partner_holds h,
      hs_reserved := hs_reserved h + (if holds_money r then rs_amount_minor r else 0)\<rparr>"
  have "(\<exists>h'. fold_result (apply_reservation cap) h (r # rs) = Inr h') \<longleftrightarrow>
      (apply_reservation cap h r = Inr ?u \<and> (\<exists>h'. fold_result (apply_reservation cap) ?u rs = Inr h'))"
    by (auto simp: result_simps apply_reservation_Inr)
  also have "apply_reservation cap h r = Inr ?u \<longleftrightarrow> reservation_valid cap r
      \<and> rs_order_id r \<notin> set (seen_orders h) \<and> provider_reservation_id r \<notin> set (seen_partner_holds h)"
    unfolding apply_reservation_Inr reservation_valid_def by blast
  finally show ?case
    unfolding Cons.IH [of ?u] by (simp add: Int_insert_right Int_insert_left)
qed

definition capture_facts :: "wallet_event list \<Rightarrow> (string \<times> int) list" where
  "capture_facts es =
     map (\<lambda>e. (the (ev_order_id e), ev_amount_minor e)) (filter is_capture (fresh_events [] es))"

lemma replay_from_start:
  assumes "fold_result apply_event replay_init es = Inr st"
  shows "rp_settled st = sum_list (map signed_amount (fresh_events [] es))"
    and "captured_by_order st = capture_facts es" and "distinct (map fst (captured_by_order st))"
proof -
  have d: "dom (seen_events replay_init) = set []" and c: "distinct (map fst (captured_by_order replay_init))"
    by (simp_all add: replay_init_def)
  note * = replay_totals [OF assms replay_ok_init d c]
  from *(1,2) show "rp_settled st = sum_list (map signed_amount (fresh_events [] es))"
    and "captured_by_order st = capture_facts es"
    by (simp_all add: replay_init_def capture_facts_def)
  show "distinct (map fst (captured_by_order st))" by (rule *(3))
qed

lemma wallet_totals:
  assumes "project_gds_wallet es rs = Inr b"
  shows "settled_minor b = sum_list (map signed_amount (fresh_events [] es))
    \<and> reserved_minor b = held_total rs \<and> available_minor b = settled_minor b - reserved_minor b
    \<and> 0 \<le> available_minor b"
proof -
  from assms obtain st h where p: "fold_result apply_event replay_init es = Inr st"
    "fold_result (apply_reservation (captured_by_order st)) holds_init rs = Inr h"
    "0 \<le> rp_settled st - hs_reserved h"
    and b: "b = \<lparr>settled_minor = rp_settled st, reserved_minor = hs_reserved h,
       available_minor = rp_settled st - hs_reserved h, wb_currency = ''VND''\<rparr>"
    unfolding project_Inr by blast
  from replay_from_start(1) [OF p(1)] reservations_checked [OF p(2)] p(3) b show ?thesis
    by (simp add: holds_init_def)
qed

section \<open>The properties\<close>

text \<open>C9: A projected balance is backed by its facts: what is settled is the sum of the credits less the debits
  of the distinct verified events, what is reserved is the sum of the holds that are reserved or of
  unknown outcome, what is available is their difference and never negative, and the captured
  reservations are exactly the capture events, order by order and amount by amount.\<close>

theorem wallet_projection_sound:
  assumes "project_gds_wallet es rs = Inr b"
  shows "settled_minor b = sum_list (map signed_amount (fresh_events [] es))
    \<and> reserved_minor b = held_total rs
    \<and> available_minor b = settled_minor b - reserved_minor b \<and> 0 \<le> available_minor b
    \<and> distinct (map rs_order_id rs)
    \<and> (\<forall>order amount. (order, amount) \<in> set (capture_facts es) \<longleftrightarrow>
        (\<exists>r\<in>set rs. rs_order_id r = order \<and> rs_amount_minor r = amount \<and> rs_status r = ''CAPTURED''))"
proof -
  from assms obtain st h where p: "fold_result apply_event replay_init es = Inr st"
    "fold_result (apply_reservation (captured_by_order st)) holds_init rs = Inr h"
    "\<not> list_ex (uncaptured_order rs) (captured_by_order st)"
    "0 \<le> rp_settled st - hs_reserved h"
    and b: "b = \<lparr>settled_minor = rp_settled st, reserved_minor = hs_reserved h,
       available_minor = rp_settled st - hs_reserved h, wb_currency = ''VND''\<rparr>"
    unfolding project_Inr by blast
  note cap = replay_from_start [OF p(1)] and res = reservations_checked [OF p(2)]
  have lookup: "map_of (captured_by_order st) k = Some a \<longleftrightarrow> (k, a) \<in> set (captured_by_order st)" for k a
    using cap(3) by simp
  have "(order, amount) \<in> set (capture_facts es) \<longleftrightarrow>
      (\<exists>r\<in>set rs. rs_order_id r = order \<and> rs_amount_minor r = amount \<and> rs_status r = ''CAPTURED'')"
    (is "?l \<longleftrightarrow> ?r") for order amount
  proof
    assume l: ?l
    with p(3) cap(2) obtain r where r: "r \<in> set rs" "rs_order_id r = order" "rs_status r = ''CAPTURED''"
      by (auto simp: list_ex_iff uncaptured_order_def)
    with res have "map_of (captured_by_order st) order = Some (rs_amount_minor r)" by auto
    moreover have "map_of (captured_by_order st) order = Some amount" using l cap(2) lookup by simp
    ultimately show ?r using r by auto
  next
    assume ?r
    with res have "map_of (captured_by_order st) order = Some amount" by auto
    then show ?l using lookup cap(2) by simp
  qed
  moreover have "hs_reserved holds_init = 0" by (simp add: holds_init_def)
  ultimately show ?thesis using p(4) cap(1) res b by simp
qed

text \<open>C19: Redelivering an event that is already in the stream changes nothing, whatever the rest of the
  stream and the reservations are: same balance or same error.\<close>

theorem wallet_event_redelivery:
  assumes "e \<in> set delivered"
  shows "project_gds_wallet (delivered @ e # later) rs = project_gds_wallet (delivered @ later) rs"
proof (cases "fold_result apply_event replay_init delivered")
  case (Inl err)
  then show ?thesis by (simp add: project_gds_wallet_def fold_result_append)
next
  case (Inr st)
  from replayed_event_known [OF Inr replay_ok_init assms] obtain u u'
    where "seen_events st (provider_event_id e) = Some (event_fingerprint e)" "apply_event u e = Inr u'"
    by blast
  then have "apply_event st e = Inr st" using apply_event_again by blast
  with Inr show ?thesis by (simp add: project_gds_wallet_def fold_result_append)
qed

text \<open>C8: A new hold is only accepted when the available balance covers it: afterwards exactly its amount is
  reserved and nothing is overdrawn.  A repeated hold for the same order changes nothing.\<close>

theorem reserve_never_overdraws:
  assumes "reserve_gds_wallet current es nxt = Inr holds" and "project_gds_wallet es current = Inr b"
  shows "holds = current \<and> (\<exists>r\<in>set current. rs_order_id r = rs_order_id nxt
            \<and> rs_amount_minor r = rs_amount_minor nxt \<and> provider_reservation_id r = provider_reservation_id nxt)
    \<or> (\<exists>b'. holds = current @ [nxt] \<and> rs_amount_minor nxt \<le> available_minor b
         \<and> project_gds_wallet es holds = Inr b' \<and> settled_minor b' = settled_minor b
         \<and> reserved_minor b' = reserved_minor b + rs_amount_minor nxt
         \<and> available_minor b' = available_minor b - rs_amount_minor nxt \<and> 0 \<le> available_minor b')"
proof (cases "find (\<lambda>r. rs_order_id r = rs_order_id nxt) current")
  case (Some r)
  with assms(1) find_SomeD [OF Some] show ?thesis
    by (intro disjI1) (auto simp: reserve_gds_wallet_def result_simps)
next
  case None
  with assms obtain b' where b': "holds = current @ [nxt]" "rs_amount_minor nxt \<le> available_minor b"
    "project_gds_wallet es (current @ [nxt]) = Inr b'" and st: "holds_money nxt"
    by (auto simp: reserve_gds_wallet_def result_simps holds_money_def)
  from wallet_totals [OF b'(3)] wallet_totals [OF assms(2)] st b' show ?thesis
    by (intro disjI2 exI [of _ b']) (simp add: held_total_def)
qed

text \<open>C20: A timeout does not free money: resolving a hold as of unknown outcome keeps the balance as it is.
  Releasing it gives back exactly its amount.  A hold that is captured or released is terminal: asking for the state it
  has changes nothing, and asking for any other is refused.\<close>

theorem wallet_resolution_effect:
  assumes "project_gds_wallet es (before @ r # after) = Inr b" and "holds_money r"
  shows "(\<exists>r'. resolve_gds_reservation r ''UNKNOWN'' = Inr r' \<and> holds_money r'
        \<and> project_gds_wallet es (before @ r' # after) = Inr b)
    \<and> (\<exists>r' b'. resolve_gds_reservation r ''RELEASED'' = Inr r'
        \<and> project_gds_wallet es (before @ r' # after) = Inr b'
        \<and> available_minor b' = available_minor b + rs_amount_minor r
        \<and> (\<forall>res r''. resolve_gds_reservation r' res = Inr r'' \<longrightarrow> r'' = r'))
    \<and> resolve_gds_reservation r ''CAPTURED'' = Inr (r\<lparr>rs_status := ''CAPTURED''\<rparr>)
    \<and> (\<forall>st\<in>{''CAPTURED'', ''RELEASED''}. \<forall>res. resolve_gds_reservation (r\<lparr>rs_status := st\<rparr>) res =
        (if res = st then Inr (r\<lparr>rs_status := st\<rparr>) else Inl (wallet_error ''WALLET_TERMINAL_CONFLICT'')))"
proof -
  let ?set = "\<lambda>st. r\<lparr>rs_status := st\<rparr>"
  from assms(1) obtain st h where p: "fold_result apply_event replay_init es = Inr st"
    "fold_result (apply_reservation (captured_by_order st)) holds_init (before @ r # after) = Inr h"
    "\<not> list_ex (uncaptured_order (before @ r # after)) (captured_by_order st)" "0 \<le> rp_settled st"
    "0 \<le> rp_settled st - hs_reserved h"
    and b: "b = \<lparr>settled_minor = rp_settled st, reserved_minor = hs_reserved h,
       available_minor = rp_settled st - hs_reserved h, wb_currency = ''VND''\<rparr>"
    unfolding project_Inr by blast
  have nc: "rs_status r \<noteq> ''CAPTURED''" using assms(2) by (auto simp: holds_money_def)
  have re: "\<exists>b'. project_gds_wallet es (before @ ?set s # after) = Inr b' \<and> settled_minor b' = settled_minor b
      \<and> reserved_minor b' = reserved_minor b - (if holds_money (?set s) then 0 else rs_amount_minor r)
      \<and> available_minor b' = available_minor b + (if holds_money (?set s) then 0 else rs_amount_minor r)
      \<and> wb_currency b' = wb_currency b"
    if s: "s = ''UNKNOWN'' \<or> s = ''RELEASED''" for s
  proof -
    have v: "reservation_valid c r \<Longrightarrow> reservation_valid c (?set s)" for c
      using s assms(2) by (auto simp: reservation_valid_def holds_money_def)
    have "\<exists>h'. fold_result (apply_reservation (captured_by_order st)) holds_init (before @ r # after) = Inr h'"
      using p(2) by blast
    then have "\<exists>h'. fold_result (apply_reservation (captured_by_order st)) holds_init (before @ ?set s # after) = Inr h'"
      unfolding reservations_accepted_iff using v by auto
    then obtain h' where
      h': "fold_result (apply_reservation (captured_by_order st)) holds_init (before @ ?set s # after) = Inr h'"
      by blast
    have "rs_status (?set s) \<noteq> ''CAPTURED''" using s by auto
    with p(3) nc have u: "\<not> list_ex (uncaptured_order (before @ ?set s # after)) (captured_by_order st)"
      by (simp add: list_ex_iff uncaptured_order_def)
    have "0 < rs_amount_minor r" using reservations_checked [OF p(2)] by simp
    then have "hs_reserved h' = hs_reserved h - (if holds_money (?set s) then 0 else rs_amount_minor r)"
      "0 \<le> rp_settled st - hs_reserved h'"
      using reservations_checked [OF p(2)] reservations_checked [OF h'] assms(2) p(5)
      by (auto simp: held_total_def)
    with p(1,4) h' u b show ?thesis unfolding project_Inr by auto
  qed
  have h: "holds_money (?set ''UNKNOWN'')" "\<not> holds_money (?set ''RELEASED'')"
    by (simp_all add: holds_money_def)
  from re [of "''UNKNOWN''"] h(1) obtain b' where
    "project_gds_wallet es (before @ ?set ''UNKNOWN'' # after) = Inr b'" "b' = b"
    by auto
  moreover have "resolve_gds_reservation r ''UNKNOWN'' = Inr (?set ''UNKNOWN'')"
    using assms(2) by (cases "rs_status r = ''UNKNOWN''") (auto simp: resolve_gds_reservation_def holds_money_def)
  moreover have "resolve_gds_reservation r ''RELEASED'' = Inr (?set ''RELEASED'')"
    using assms(2) by (auto simp: resolve_gds_reservation_def holds_money_def)
  moreover have "resolve_gds_reservation (?set ''RELEASED'') res = Inr r'' \<Longrightarrow> r'' = ?set ''RELEASED''" for res r''
    by (auto simp: resolve_gds_reservation_def result_simps split: if_splits)
  moreover have "resolve_gds_reservation r ''CAPTURED'' = Inr (?set ''CAPTURED'')"
    using assms(2) by (auto simp: resolve_gds_reservation_def holds_money_def)
  moreover have "\<forall>st\<in>{''CAPTURED'', ''RELEASED''}. \<forall>res. resolve_gds_reservation (?set st) res =
      (if res = st then Inr (?set st) else Inl (wallet_error ''WALLET_TERMINAL_CONFLICT''))"
    by (auto simp: resolve_gds_reservation_def)
  ultimately show ?thesis using re [of "''RELEASED''"] h by auto
qed

section \<open>Witnesses\<close>

abbreviation example_events :: "wallet_event list" where
  "example_events \<equiv>
    [\<lparr>provider_event_id = ''e1'', ev_kind = ''FUNDS_CREDITED'', ev_amount_minor = 100, ev_currency = ''VND'',
      provider_transaction_id = ''t1'', ev_order_id = None\<rparr>,
     \<lparr>provider_event_id = ''e2'', ev_kind = ''PAYMENT_CAPTURED'', ev_amount_minor = 30, ev_currency = ''VND'',
      provider_transaction_id = ''t2'', ev_order_id = Some ''o1''\<rparr>]"

abbreviation example_hold :: wallet_reservation where
  "example_hold \<equiv> \<lparr>rs_order_id = ''o2'', rs_amount_minor = 50, provider_reservation_id = ''h2'', rs_status = ''RESERVED''\<rparr>"

abbreviation example_captured :: wallet_reservation where
  "example_captured \<equiv> \<lparr>rs_order_id = ''o1'', rs_amount_minor = 30, provider_reservation_id = ''h1'', rs_status = ''CAPTURED''\<rparr>"

lemma example_balance:
  "project_gds_wallet example_events [example_captured] =
     Inr \<lparr>settled_minor = 70, reserved_minor = 0, available_minor = 70, wb_currency = ''VND''\<rparr>"
  by code_simp

lemma example_balance_held:
  "project_gds_wallet example_events ([example_captured] @ example_hold # []) =
     Inr \<lparr>settled_minor = 70, reserved_minor = 50, available_minor = 20, wb_currency = ''VND''\<rparr>"
  by code_simp

theorem wallet_projection_sound_witness:
  "project_gds_wallet example_events [example_captured] =
     Inr \<lparr>settled_minor = 70, reserved_minor = 0, available_minor = 70, wb_currency = ''VND''\<rparr>
   \<and> (''o1'', 30) \<in> set (capture_facts example_events)"
  using example_balance wallet_projection_sound [OF example_balance] by simp

theorem wallet_event_redelivery_witness:
  "project_gds_wallet (example_events @ [example_events ! 1]) [example_captured] =
     project_gds_wallet example_events [example_captured]"
  using wallet_event_redelivery [of "example_events ! 1" example_events "[]"] by simp

theorem reserve_never_overdraws_witness:
  "reserve_gds_wallet [example_captured] example_events example_hold = Inr [example_captured, example_hold]
   \<and> (\<exists>b'. project_gds_wallet example_events [example_captured, example_hold] = Inr b' \<and> available_minor b' = 20)"
proof -
  have r: "reserve_gds_wallet [example_captured] example_events example_hold = Inr [example_captured, example_hold]"
    by code_simp
  from r reserve_never_overdraws [OF r example_balance] show ?thesis by auto
qed

theorem wallet_resolution_effect_witness:
  "holds_money example_hold \<and>
   (\<exists>r' b'. resolve_gds_reservation example_hold ''RELEASED'' = Inr r'
      \<and> project_gds_wallet example_events ([example_captured] @ r' # []) = Inr b' \<and> available_minor b' = 70)
   \<and> resolve_gds_reservation (example_hold\<lparr>rs_status := ''CAPTURED''\<rparr>) ''RELEASED'' =
       Inl (wallet_error ''WALLET_TERMINAL_CONFLICT'')"
proof -
  have h: "holds_money example_hold" by (simp add: holds_money_def)
  from h wallet_resolution_effect [OF example_balance_held h] show ?thesis by auto
qed

end
