(* ===== verification/Gds_Topup.thy ===== *)
theory Gds_Topup
  imports Gds_Wallet
begin

text \<open>
  PayOS top-ups and their credits: \<^verbatim>\<open>gds-payos-topup.domain.ts\<close>,
  \<^verbatim>\<open>gds-internal-topup.domain.ts\<close>, \<^verbatim>\<open>gds-commerce-capture.domain.ts\<close> and
  \<^verbatim>\<open>gds-sandbox-event.domain.ts\<close> under \<^verbatim>\<open>src/modules/wallet\<close>.
  A \<^verbatim>\<open>Date\<close> is its time value, \<^term>\<open>None\<close> for an invalid date; the platform's
  \<^verbatim>\<open>URL\<close> parser, the HMAC and the JSON parser are parameters.
\<close>

datatype topup_status =
    CREATED | PENDING_PAYOS | PAYOS_VERIFIED | PENDING_PARTNER | CREDITED | CANCELLED | REVIEW

record topup_intent =
  ti_id :: string
  ti_buyer_id :: string
  ti_amount_minor :: int
  ti_currency :: string
  payos_order_code :: int
  receiving_account_hash :: string
  settlement_receiving_account_hash :: "string option"
  expires_at :: "int option"
  ti_status :: topup_status
  payment_link_id :: "string option"
  collection_reference :: "string option"
  partner_credit_event_id :: "string option"

record payos_link =
  pl_order_code :: int
  pl_amount_minor :: int
  pl_currency :: string
  pl_payment_link_id :: string
  checkout_url :: string
  pl_receiving_account_hash :: string

record payos_collection =
  pc_order_code :: int
  pc_amount_minor :: int
  pc_currency :: string
  pc_payment_link_id :: string
  pc_collection_reference :: string
  pc_receiving_account_hash :: string
  occurred_at :: "int option"
  provider_code :: string

record partner_credit =
  pr_event_id :: string
  partner_transaction_id :: string
  pr_amount_minor :: int
  pr_currency :: string
  source_collection_reference :: string

record parsed_url =
  url_protocol :: string
  url_origin :: string
  url_hostname :: string
  url_username :: string
  url_password :: string
  url_hash :: string

section \<open>The PayOS request\<close>

definition require_topup :: "topup_intent \<Rightarrow> unit result" where
  "require_topup v =
     throw_if (\<not> truthy (ti_id v) \<or> \<not> truthy (ti_buyer_id v) \<or> ti_amount_minor v \<le> 0
         \<or> ti_amount_minor v > max_safe_integer \<or> ti_currency v \<noteq> ''VND''
         \<or> payos_order_code v \<le> 0 \<or> payos_order_code v > max_safe_integer
         \<or> \<not> is_sha256_hex (receiving_account_hash v) \<or> expires_at v = None)
       (wallet_error ''WALLET_TOPUP_INVALID_INTENT'') (Inr ())"

text \<open>\<^verbatim>\<open>n.toString(36).toUpperCase()\<close>\<close>

definition base36_digit :: "nat \<Rightarrow> char" where
  "base36_digit d = ''0123456789abcdefghijklmnopqrstuvwxyz'' ! d"

fun show_base36 :: "nat \<Rightarrow> string" where
  "show_base36 n = (if n < 36 then [base36_digit n] else show_base36 (n div 36) @ [base36_digit (n mod 36)])"

declare show_base36.simps [simp del]

definition redirects_trusted :: "(string \<Rightarrow> parsed_url option) \<Rightarrow> string \<Rightarrow> string \<Rightarrow> bool" where
  "redirects_trusted parse_url return_url cancel_url =
     (case (parse_url return_url, parse_url cancel_url) of
        (Some success, Some cancel) \<Rightarrow>
          \<not> (url_protocol success \<noteq> ''https:'' \<or> url_protocol cancel \<noteq> ''https:''
             \<or> url_origin success \<noteq> url_origin cancel
             \<or> truthy (url_username success) \<or> truthy (url_password success)
             \<or> truthy (url_username cancel) \<or> truthy (url_password cancel)
             \<or> truthy (url_hash success) \<or> truthy (url_hash cancel))
      | _ \<Rightarrow> False)"

record topup_request =
  tr_order_code :: int
  tr_amount :: int
  tr_description :: string
  tr_return_url :: string
  tr_cancel_url :: string
  tr_expired_at :: int

definition build_gds_payos_topup_request ::
  "(string \<Rightarrow> parsed_url option) \<Rightarrow> topup_intent \<Rightarrow> string \<Rightarrow> string \<Rightarrow> topup_request result" where
  "build_gds_payos_topup_request parse_url intent return_url cancel_url =
     and_then (require_topup intent) (\<lambda>_.
     throw_if (ti_status intent \<noteq> CREATED) (wallet_error ''WALLET_TOPUP_INVALID_TRANSITION'') (
     let order_suffix = js_upper (show_base36 (nat (payos_order_code intent))) in
     throw_if (length order_suffix > 8) (wallet_error ''WALLET_TOPUP_ORDER_CODE_TOO_LONG'') (
     let expired_at = the (expires_at intent) div 1000 in
     throw_if (\<not> is_safe_integer (Integral expired_at) \<or> expired_at \<le> 0 \<or> expired_at > 2147483647)
       (wallet_error ''WALLET_TOPUP_INVALID_EXPIRY'') (
     throw_if (\<not> redirects_trusted parse_url return_url cancel_url)
       (wallet_error ''WALLET_TOPUP_UNTRUSTED_REDIRECT'') (
     Inr \<lparr>tr_order_code = payos_order_code intent, tr_amount = ti_amount_minor intent,
          tr_description = CHR ''G'' # pad_start 8 CHR ''0'' order_suffix,
          tr_return_url = return_url, tr_cancel_url = cancel_url, tr_expired_at = expired_at\<rparr>)))))"

section \<open>The life of an intent\<close>

definition require_payos_checkout_url :: "(string \<Rightarrow> parsed_url option) \<Rightarrow> string \<Rightarrow> unit result" where
  "require_payos_checkout_url parse_url u =
     (case parse_url u of
        Some url \<Rightarrow>
          if url_protocol url = ''https:''
             \<and> (url_hostname url = ''pay.payos.vn'' \<or> url_hostname url = ''next.pay.payos.vn'')
             \<and> url_username url = [] \<and> url_password url = []
          then Inr () else Inl (wallet_error ''WALLET_TOPUP_UNTRUSTED_CHECKOUT'')
      | None \<Rightarrow> Inl (wallet_error ''WALLET_TOPUP_UNTRUSTED_CHECKOUT''))"

definition attach_gds_payos_link ::
  "(string \<Rightarrow> parsed_url option) \<Rightarrow> topup_intent \<Rightarrow> payos_link \<Rightarrow> topup_intent result" where
  "attach_gds_payos_link parse_url intent link =
     and_then (require_topup intent) (\<lambda>_.
     and_then (require_payos_checkout_url parse_url (checkout_url link)) (\<lambda>_.
     throw_if (\<not> truthy (pl_payment_link_id link) \<or> pl_order_code link \<noteq> payos_order_code intent
         \<or> pl_amount_minor link \<noteq> ti_amount_minor intent \<or> pl_currency link \<noteq> ''VND''
         \<or> pl_receiving_account_hash link \<noteq> receiving_account_hash intent)
       (wallet_error ''WALLET_TOPUP_PAYOS_MISMATCH'') (
     if ti_status intent = PENDING_PAYOS \<and> payment_link_id intent = Some (pl_payment_link_id link) then Inr intent
     else throw_if (ti_status intent \<noteq> CREATED) (wallet_error ''WALLET_TOPUP_TERMINAL_CONFLICT'') (
     Inr (intent\<lparr>ti_status := PENDING_PAYOS, payment_link_id := Some (pl_payment_link_id link)\<rparr>)))))"

definition accept_gds_payos_collection :: "topup_intent \<Rightarrow> payos_collection \<Rightarrow> topup_intent result" where
  "accept_gds_payos_collection intent evidence =
     and_then (require_topup intent) (\<lambda>_.
     throw_if (pc_order_code evidence \<noteq> payos_order_code intent \<or> pc_amount_minor evidence \<noteq> ti_amount_minor intent
         \<or> pc_currency evidence \<noteq> ''VND'' \<or> provider_code evidence \<noteq> ''00''
         \<or> \<not> truthy (pc_collection_reference evidence) \<or> \<not> truthy (pc_payment_link_id evidence)
         \<or> Some (pc_payment_link_id evidence) \<noteq> payment_link_id intent
         \<or> pc_receiving_account_hash evidence \<noteq> receiving_account_hash intent
         \<or> occurred_at evidence = None)
       (wallet_error ''WALLET_TOPUP_PAYOS_MISMATCH'') (
     if opt_truthy (collection_reference intent) then
       (if collection_reference intent = Some (pc_collection_reference evidence) then Inr intent
        else Inl (wallet_error ''WALLET_TOPUP_DUPLICATE_COLLECTION''))
     else if ti_status intent = CANCELLED \<or> the (occurred_at evidence) > the (expires_at intent) then
       Inr (intent\<lparr>ti_status := REVIEW, collection_reference := Some (pc_collection_reference evidence)\<rparr>)
     else throw_if (ti_status intent \<noteq> PENDING_PAYOS) (wallet_error ''WALLET_TOPUP_INVALID_TRANSITION'') (
     Inr (intent\<lparr>ti_status := PAYOS_VERIFIED, collection_reference := Some (pc_collection_reference evidence)\<rparr>))))"

definition accept_gds_partner_credit :: "topup_intent \<Rightarrow> partner_credit \<Rightarrow> topup_intent result" where
  "accept_gds_partner_credit intent evidence =
     and_then (require_topup intent) (\<lambda>_.
     throw_if (\<not> truthy (pr_event_id evidence) \<or> \<not> truthy (partner_transaction_id evidence)
         \<or> pr_amount_minor evidence \<noteq> ti_amount_minor intent \<or> pr_currency evidence \<noteq> ''VND''
         \<or> \<not> opt_truthy (collection_reference intent)
         \<or> Some (source_collection_reference evidence) \<noteq> collection_reference intent)
       (wallet_error ''WALLET_TOPUP_PARTNER_MISMATCH'') (
     if ti_status intent = CREDITED \<and> partner_credit_event_id intent = Some (pr_event_id evidence) then Inr intent
     else throw_if (ti_status intent \<noteq> PAYOS_VERIFIED \<and> ti_status intent \<noteq> PENDING_PARTNER)
       (wallet_error ''WALLET_TOPUP_INVALID_TRANSITION'') (
     Inr (intent\<lparr>ti_status := CREDITED, partner_credit_event_id := Some (pr_event_id evidence)\<rparr>))))"

definition to_gds_wallet_funding_event :: "topup_intent \<Rightarrow> partner_credit \<Rightarrow> wallet_event result" where
  "to_gds_wallet_funding_event intent evidence =
     throw_if (ti_status intent \<noteq> CREDITED \<or> partner_credit_event_id intent \<noteq> Some (pr_event_id evidence))
       (wallet_error ''WALLET_TOPUP_NOT_CREDITED'') (
     and_then (accept_gds_partner_credit intent evidence) (\<lambda>_.
     Inr \<lparr>provider_event_id = pr_event_id evidence, ev_kind = ''FUNDS_CREDITED'',
          ev_amount_minor = ti_amount_minor intent, ev_currency = ''VND'',
          provider_transaction_id = partner_transaction_id evidence, ev_order_id = None\<rparr>))"

definition mark_gds_topup_awaiting_partner :: "topup_intent \<Rightarrow> topup_intent result" where
  "mark_gds_topup_awaiting_partner intent =
     (if ti_status intent = PENDING_PARTNER then Inr intent
      else throw_if (ti_status intent \<noteq> PAYOS_VERIFIED) (wallet_error ''WALLET_TOPUP_INVALID_TRANSITION'')
        (Inr (intent\<lparr>ti_status := PENDING_PARTNER\<rparr>)))"

definition cancel_gds_topup :: "topup_intent \<Rightarrow> topup_intent result" where
  "cancel_gds_topup intent =
     (if ti_status intent = CANCELLED then Inr intent
      else throw_if (ti_status intent \<noteq> CREATED \<and> ti_status intent \<noteq> PENDING_PAYOS)
        (wallet_error ''WALLET_TOPUP_INVALID_TRANSITION'')
        (Inr (intent\<lparr>ti_status := CANCELLED\<rparr>)))"

section \<open>Internal credits\<close>

record payos_settlement =
  se_order_code :: int
  se_payment_link_id :: string
  se_amount_minor :: int
  se_amount_remaining_minor :: int
  se_currency :: string
  se_receiving_account_hash :: string
  se_settlement_receiving_account_hash :: "string option"
  se_collection_reference :: string
  se_status :: string
  signature_verified_at :: "int option"
  provider_reconciled_at :: "int option"

record internal_credit =
  ic_event_id :: string
  ic_buyer_id :: string
  ic_collection_reference :: string
  ic_amount_minor :: int
  ic_currency :: string
  ic_source :: string

definition prepare_gds_internal_topup_credit ::
  "topup_intent \<Rightarrow> payos_settlement \<Rightarrow> internal_credit result" where
  "prepare_gds_internal_topup_credit intent s =
     throw_if (ti_status intent \<noteq> PAYOS_VERIFIED \<or> \<not> opt_truthy (collection_reference intent)
         \<or> \<not> truthy (ti_buyer_id intent) \<or> ti_amount_minor intent \<le> 0)
       (wallet_error ''GDS_INTERNAL_TOPUP_NOT_ELIGIBLE'') (
     throw_if (se_status s \<noteq> ''PAID'' \<or> se_amount_remaining_minor s \<noteq> 0
         \<or> se_currency s \<noteq> ''VND'' \<or> se_amount_minor s \<noteq> ti_amount_minor intent
         \<or> se_order_code s \<noteq> payos_order_code intent
         \<or> \<not> opt_truthy (payment_link_id intent) \<or> Some (se_payment_link_id s) \<noteq> payment_link_id intent
         \<or> se_receiving_account_hash s \<noteq> receiving_account_hash intent
         \<or> Some (se_collection_reference s) \<noteq> collection_reference intent
         \<or> (settlement_receiving_account_hash intent \<noteq> None
            \<and> se_settlement_receiving_account_hash s \<noteq> settlement_receiving_account_hash intent))
       (wallet_error ''GDS_INTERNAL_TOPUP_PAYMENT_MISMATCH'') (
     throw_if (signature_verified_at s = None \<or> provider_reconciled_at s = None
         \<or> the (provider_reconciled_at s) < the (signature_verified_at s))
       (wallet_error ''GDS_INTERNAL_TOPUP_NOT_RECONCILED'') (
     Inr \<lparr>ic_event_id = ''payos-gds-topup:'' @ show_int (payos_order_code intent),
          ic_buyer_id = ti_buyer_id intent, ic_collection_reference = se_collection_reference s,
          ic_amount_minor = ti_amount_minor intent, ic_currency = ''VND'',
          ic_source = ''PAYOS_MERCHANT_COLLECTION''\<rparr>)))"

definition credit_fingerprint :: "internal_credit \<Rightarrow> string" where
  "credit_fingerprint c =
     ic_buyer_id c @ '':'' @ ic_collection_reference c @ '':'' @ show_int (ic_amount_minor c) @ '':''
     @ ic_currency c @ '':'' @ ic_source c"

record credit_state =
  cs_events :: "string \<Rightarrow> string option"
  cs_references :: "string \<Rightarrow> string option"
  cs_credited :: int

definition credits_init :: credit_state where
  "credits_init = \<lparr>cs_events = (\<lambda>_. None), cs_references = (\<lambda>_. None), cs_credited = 0\<rparr>"

definition apply_credit :: "credit_state \<Rightarrow> internal_credit \<Rightarrow> credit_state result" where
  "apply_credit st c =
     throw_if (\<not> truthy (ic_event_id c) \<or> \<not> truthy (ic_buyer_id c) \<or> \<not> truthy (ic_collection_reference c)
         \<or> ic_amount_minor c \<le> 0 \<or> ic_currency c \<noteq> ''VND'' \<or> ic_source c \<noteq> ''PAYOS_MERCHANT_COLLECTION'')
       (wallet_error ''GDS_INTERNAL_TOPUP_INVALID_CREDIT'') (
     let prior = cs_events st (ic_event_id c) in
     if opt_truthy prior then
       throw_if (prior \<noteq> Some (credit_fingerprint c)) (wallet_error ''GDS_INTERNAL_TOPUP_EVENT_COLLISION'') (Inr st)
     else throw_if (opt_truthy (cs_references st (ic_collection_reference c)))
       (wallet_error ''GDS_INTERNAL_TOPUP_COLLECTION_REPLAY'') (
     Inr \<lparr>cs_events = (cs_events st)(ic_event_id c \<mapsto> credit_fingerprint c),
          cs_references = (cs_references st)(ic_collection_reference c \<mapsto> ic_event_id c),
          cs_credited = cs_credited st + ic_amount_minor c\<rparr>))"

definition project_gds_internal_topup_credits :: "internal_credit list \<Rightarrow> int result" where
  "project_gds_internal_topup_credits entries =
     and_then (fold_result apply_credit credits_init entries) (\<lambda>st. Inr (cs_credited st))"

section \<open>Capturing a hold for an order\<close>

record capture_order =
  cp_id :: string
  cp_buyer_id :: string
  cp_status :: string
  cp_currency :: string
  payable_amount_minor :: int
  confirmed_settlement_id :: "string option"

record capture_wallet =
  cw_id :: string
  cw_buyer_id :: string
  cw_status :: string
  cw_held_minor :: int

record capture_hold =
  ch_wallet_id :: string
  ch_order_ref :: string
  ch_amount_minor :: int
  ch_status :: string

record commerce_capture_input =
  ci_buyer_id :: string
  ci_order :: capture_order
  ci_wallet :: capture_wallet
  ci_hold :: capture_hold
  existing_payment_attempt_count :: js_number
  existing_settlement_count :: js_number
  existing_capture_count :: js_number

record capture_journal =
  cj_wallet_id :: string
  cj_event_key :: string
  cj_kind :: string
  cj_amount_minor :: int
  cj_available_delta_minor :: int
  cj_held_delta_minor :: int
  cj_clearing_delta_minor :: int
  cj_order_ref :: string

record capture_settlement =
  ct_kind :: string
  ct_disposition :: string
  ct_provider :: string
  ct_reference :: string
  ct_amount_minor :: int
  ct_currency :: string

record prepared_capture =
  plan_journal :: capture_journal
  plan_settlement :: capture_settlement

definition prepare_gds_commerce_capture :: "commerce_capture_input \<Rightarrow> prepared_capture result" where
  "prepare_gds_commerce_capture input =
     (let order = ci_order input; wallet = ci_wallet input; hold = ci_hold input in
      throw_if (\<not> is_uuid (ci_buyer_id input) \<or> \<not> is_uuid (cp_id order) \<or> \<not> is_uuid (cw_id wallet)
          \<or> cp_buyer_id order \<noteq> ci_buyer_id input \<or> cw_buyer_id wallet \<noteq> ci_buyer_id input)
        (wallet_error ''GDS_CAPTURE_OWNER_MISMATCH'') (
      throw_if (cp_status order \<noteq> ''pending_payment'' \<or> confirmed_settlement_id order \<noteq> None
          \<or> cp_currency order \<noteq> ''VND'' \<or> payable_amount_minor order \<le> 0
          \<or> payable_amount_minor order > max_safe_integer)
        (wallet_error ''GDS_CAPTURE_ORDER_NOT_PAYABLE'') (
      throw_if (cw_status wallet \<noteq> ''ACTIVE'' \<or> cw_held_minor wallet < payable_amount_minor order
          \<or> ch_wallet_id hold \<noteq> cw_id wallet \<or> ch_order_ref hold \<noteq> cp_id order
          \<or> ch_amount_minor hold \<noteq> payable_amount_minor order \<or> ch_status hold \<noteq> ''RESERVED'')
        (wallet_error ''GDS_CAPTURE_HOLD_NOT_VERIFIED'') (
      throw_if (\<not> is_safe_integer (existing_payment_attempt_count input)
          \<or> \<not> is_safe_integer (existing_settlement_count input)
          \<or> \<not> is_safe_integer (existing_capture_count input)
          \<or> existing_payment_attempt_count input \<noteq> Integral 0
          \<or> existing_settlement_count input \<noteq> Integral 0 \<or> existing_capture_count input \<noteq> Integral 0)
        (wallet_error ''GDS_CAPTURE_INSTRUMENT_OR_REPLAY_CONFLICT'') (
      Inr \<lparr>plan_journal =
             \<lparr>cj_wallet_id = cw_id wallet, cj_event_key = ''gds:capture:'' @ cp_id order, cj_kind = ''CAPTURE'',
              cj_amount_minor = payable_amount_minor order, cj_available_delta_minor = 0,
              cj_held_delta_minor = - payable_amount_minor order,
              cj_clearing_delta_minor = payable_amount_minor order, cj_order_ref = cp_id order\<rparr>,
           plan_settlement =
             \<lparr>ct_kind = ''wallet_capture'', ct_disposition = ''internal'', ct_provider = ''gds'',
              ct_reference = ''gds:order:'' @ cp_id order, ct_amount_minor = payable_amount_minor order,
              ct_currency = ''VND''\<rparr>\<rparr>)))))"

section \<open>Synthetic collection events\<close>

text \<open>A decoded JSON value: a string, an object given by its properties, or anything else.\<close>

datatype json = JString string | JObject "(string \<times> json) list" | JOther

fun json_prop :: "json \<Rightarrow> string \<Rightarrow> json option" where
  "json_prop (JObject ps) k = map_of ps k"
| "json_prop _ k = None"

fun json_string :: "json option \<Rightarrow> string option" where
  "json_string (Some (JString s)) = Some s"
| "json_string _ = None"

record sandbox_auth =
  node_env :: string
  deployment_class :: string
  sandbox_enabled :: bool
  fixture_key :: string
  verified_at :: "int option"

record synthetic_event =
  sy_intent_id :: string
  sy_settlement :: payos_settlement

definition synthetic_invalid :: "'a result" where
  "synthetic_invalid = Inl (wallet_error ''GDS_SYNTHETIC_EVENT_REJECTED'')"

text \<open>\<^verbatim>\<open>/^[1-9][0-9]{0,15}$/\<close>, then a bound.\<close>

fun decimal_like :: "string \<Rightarrow> bool" where
  "decimal_like [] = False"
| "decimal_like (c # cs) = (digit_char c \<and> c \<noteq> CHR ''0'' \<and> list_all digit_char cs \<and> length cs \<le> 15)"

definition positive_integer :: "json option \<Rightarrow> int result" where
  "positive_integer v =
     (case json_string v of
        None \<Rightarrow> synthetic_invalid
      | Some s \<Rightarrow>
          if \<not> decimal_like s then synthetic_invalid
          else if int (read_nat s) > max_safe_integer then synthetic_invalid
          else Inr (int (read_nat s)))"

text \<open>\<^verbatim>\<open>Buffer.from(hex, 'hex')\<close> on an even number of hexadecimal digits.\<close>

definition hex_value :: "char \<Rightarrow> nat" where
  "hex_value c = (if digit_char c then of_char c - 48 else of_char (lower_of c) - 87)"

fun from_hex :: "string \<Rightarrow> nat list" where
  "from_hex (a # b # cs) = (16 * hex_value a + hex_value b) # from_hex cs"
| "from_hex _ = []"

definition iso_date_prefix :: "string \<Rightarrow> bool" where
  "iso_date_prefix s =
     matches (replicate 4 digit_char @ [\<lambda>c. c = CHR ''-''] @ replicate 2 digit_char @ [\<lambda>c. c = CHR ''-'']
              @ replicate 2 digit_char @ [\<lambda>c. c = CHR ''T'']) (take 11 s)"

definition synthetic_fields_ok :: "json \<Rightarrow> bool" where
  "synthetic_fields_ok event =
     (let str = (\<lambda>k. json_string (json_prop event k)) in
      str ''source'' = Some ''EDUAI_GDS_SYNTHETIC_V1'' \<and> str ''providerStatus'' = Some ''PAID''
      \<and> str ''currency'' = Some ''VND'' \<and> opt_truthy (str ''intentId'') \<and> opt_truthy (str ''paymentLinkId'')
      \<and> opt_truthy (str ''collectionReference'')
      \<and> (case str ''receivingAccountHash'' of None \<Rightarrow> False | Some h \<Rightarrow> is_sha256_hex h)
      \<and> (case str ''reconciledAt'' of None \<Rightarrow> False | Some d \<Rightarrow> iso_date_prefix d))"

definition verify_gds_synthetic_collection_event ::
  "(string \<Rightarrow> string \<Rightarrow> nat list) \<Rightarrow> (string \<Rightarrow> json option) \<Rightarrow> (string \<Rightarrow> int option) \<Rightarrow>
   string \<Rightarrow> string \<Rightarrow> sandbox_auth \<Rightarrow> synthetic_event result" where
  "verify_gds_synthetic_collection_event hmac_sha256 parse_json parse_date raw_body signature_hex auth =
     (if \<not> sandbox_enabled auth \<or> node_env auth = ''production'' \<or> deployment_class auth = ''production''
         \<or> length (fixture_key auth) < 32 \<or> verified_at auth = None
         \<or> length raw_body = 0 \<or> length raw_body > 4096
         \<or> \<not> (length signature_hex = 64 \<and> list_all hex_char_i signature_hex)
      then synthetic_invalid
      else if from_hex signature_hex \<noteq> hmac_sha256 (fixture_key auth) raw_body then synthetic_invalid
      else case parse_json raw_body of
        Some (JObject ps) \<Rightarrow>
          let event = JObject ps; str = (\<lambda>k. the (json_string (json_prop event k))) in
          if \<not> synthetic_fields_ok event then synthetic_invalid
          else and_then (positive_integer (json_prop event ''orderCode'')) (\<lambda>order_code.
               and_then (positive_integer (json_prop event ''amountMinor'')) (\<lambda>amount.
               if json_string (json_prop event ''amountRemainingMinor'') \<noteq> Some ''0'' then synthetic_invalid
               else case parse_date (str ''reconciledAt'') of
                 None \<Rightarrow> synthetic_invalid
               | Some reconciled \<Rightarrow>
                   if reconciled < the (verified_at auth) then synthetic_invalid
                   else Inr \<lparr>sy_intent_id = str ''intentId'', sy_settlement =
                     \<lparr>se_order_code = order_code, se_payment_link_id = str ''paymentLinkId'',
                      se_amount_minor = amount, se_amount_remaining_minor = 0, se_currency = ''VND'',
                      se_receiving_account_hash = str ''receivingAccountHash'',
                      se_settlement_receiving_account_hash = None,
                      se_collection_reference = str ''collectionReference'', se_status = ''PAID'',
                      signature_verified_at = verified_at auth, provider_reconciled_at = Some reconciled\<rparr>\<rparr>))
      | _ \<Rightarrow> synthetic_invalid)"

section \<open>Memos identify their order\<close>

abbreviation base36_upper :: string where
  "base36_upper \<equiv> ''0123456789ABCDEFGHIJKLMNOPQRSTUVWXYZ''"

fun read_base36 :: "string \<Rightarrow> nat \<Rightarrow> nat" where
  "read_base36 [] acc = acc"
| "read_base36 (c # cs) acc = read_base36 cs (36 * acc + index_of c base36_upper)"

lemma read_base36_append: "read_base36 (xs @ ys) a = read_base36 ys (read_base36 xs a)"
  by (induction xs arbitrary: a) auto

lemma read_base36_zeros: "read_base36 (replicate n CHR ''0'') 0 = 0"
  by (induction n) (auto simp: index_of_def)

lemma upper_digits: "map upper_of ''0123456789abcdefghijklmnopqrstuvwxyz'' = base36_upper"
  by code_simp

lemma distinct_digits: "distinct base36_upper"
  by code_simp

lemma read_base36_digit:
  assumes "n < 36"
  shows "read_base36 (js_upper [base36_digit n]) a = 36 * a + n"
proof -
  have l: "length ''0123456789abcdefghijklmnopqrstuvwxyz'' = 36" "length base36_upper = 36" by simp_all
  have "upper_of (base36_digit n) = base36_upper ! n"
    using assms l nth_map [of n "''0123456789abcdefghijklmnopqrstuvwxyz''" upper_of]
    unfolding base36_digit_def upper_digits by simp
  then show ?thesis
    using index_of_nth [OF distinct_digits] l(2) assms by (simp only: js_upper_def list.map read_base36.simps)
qed

lemma read_show_base36: "read_base36 (js_upper (show_base36 n)) 0 = n"
proof (induction n rule: show_base36.induct)
  case (1 n)
  show ?case
  proof (cases "n < 36")
    case True
    then show ?thesis by (simp only: show_base36.simps [of n] if_True read_base36_digit mult_0_right add_0)
  next
    case False
    then have "show_base36 n = show_base36 (n div 36) @ [base36_digit (n mod 36)]"
      by (simp add: show_base36.simps [of n])
    moreover have "js_upper (xs @ ys) = js_upper xs @ js_upper ys" for xs ys by (simp add: js_upper_def)
    moreover have "read_base36 (js_upper [base36_digit (n mod 36)]) (n div 36) = n"
      by (subst read_base36_digit) simp_all
    ultimately show ?thesis using "1" [OF False] by (simp add: read_base36_append)
  qed
qed

lemma read_memo: "read_base36 (pad_start 8 CHR ''0'' (js_upper (show_base36 n))) 0 = n"
  by (simp add: pad_start_def read_base36_append read_base36_zeros read_show_base36)

section \<open>The life of an intent, step by step\<close>

inductive topup_step :: "(string \<Rightarrow> parsed_url option) \<Rightarrow> topup_intent \<Rightarrow> topup_intent \<Rightarrow> bool" for parse_url where
  attach: "attach_gds_payos_link parse_url i link = Inr j \<Longrightarrow> topup_step parse_url i j"
| collect: "accept_gds_payos_collection i evidence = Inr j \<Longrightarrow> topup_step parse_url i j"
| await: "mark_gds_topup_awaiting_partner i = Inr j \<Longrightarrow> topup_step parse_url i j"
| credit: "accept_gds_partner_credit i evidence = Inr j \<Longrightarrow> topup_step parse_url i j"
| cancel: "cancel_gds_topup i = Inr j \<Longrightarrow> topup_step parse_url i j"

text \<open>What no step changes, and what a reachable intent satisfies.\<close>

definition same_topup :: "topup_intent \<Rightarrow> topup_intent \<Rightarrow> bool" where
  "same_topup i j \<longleftrightarrow> ti_id j = ti_id i \<and> ti_buyer_id j = ti_buyer_id i \<and> ti_amount_minor j = ti_amount_minor i
     \<and> ti_currency j = ti_currency i \<and> payos_order_code j = payos_order_code i
     \<and> receiving_account_hash j = receiving_account_hash i \<and> expires_at j = expires_at i"

definition topup_ok :: "topup_intent \<Rightarrow> bool" where
  "topup_ok i \<longleftrightarrow>
     (ti_status i = CREATED \<longrightarrow> payment_link_id i = None)
     \<and> (ti_status i \<in> {PAYOS_VERIFIED, PENDING_PARTNER, CREDITED, REVIEW} \<longleftrightarrow> opt_truthy (collection_reference i))
     \<and> (ti_status i = CREDITED \<longleftrightarrow> opt_truthy (partner_credit_event_id i))
     \<and> collection_reference i \<noteq> Some [] \<and> partner_credit_event_id i \<noteq> Some []"

lemmas topup_defs = attach_gds_payos_link_def accept_gds_payos_collection_def
  mark_gds_topup_awaiting_partner_def accept_gds_partner_credit_def cancel_gds_topup_def

lemma attach_cases:
  assumes "attach_gds_payos_link parse_url i link = Inr j"
  shows "j = i \<or> ti_status i = CREATED \<and> truthy (pl_payment_link_id link)
    \<and> j = i\<lparr>ti_status := PENDING_PAYOS, payment_link_id := Some (pl_payment_link_id link)\<rparr>"
  using assms unfolding attach_gds_payos_link_def
  by (cases "ti_status i = PENDING_PAYOS \<and> payment_link_id i = Some (pl_payment_link_id link)")
     (simp_all add: result_simps)

lemma collect_cases:
  assumes "accept_gds_payos_collection i c = Inr j"
  shows "(j = i \<and> opt_truthy (collection_reference i))
    \<or> (\<not> opt_truthy (collection_reference i) \<and> truthy (pc_collection_reference c)
       \<and> opt_truthy (payment_link_id i)
       \<and> (\<exists>s\<in>{REVIEW, PAYOS_VERIFIED}. (s = PAYOS_VERIFIED \<longrightarrow> ti_status i = PENDING_PAYOS)
           \<and> j = i\<lparr>ti_status := s, collection_reference := Some (pc_collection_reference c)\<rparr>))"
proof (cases "opt_truthy (collection_reference i)")
  case True
  with assms show ?thesis
    unfolding accept_gds_payos_collection_def by (simp add: result_simps split: if_split_asm)
next
  case False
  from assms have l: "opt_truthy (payment_link_id i)" "truthy (pc_collection_reference c)"
    unfolding accept_gds_payos_collection_def by (simp_all add: result_simps) (metis opt_truthy.simps(2))
  from assms False have "(\<exists>s\<in>{REVIEW, PAYOS_VERIFIED}. (s = PAYOS_VERIFIED \<longrightarrow> ti_status i = PENDING_PAYOS)
           \<and> j = i\<lparr>ti_status := s, collection_reference := Some (pc_collection_reference c)\<rparr>)"
    unfolding accept_gds_payos_collection_def by (simp add: result_simps split: if_split_asm)
  with False l show ?thesis by blast
qed

lemma await_cases:
  "mark_gds_topup_awaiting_partner i = Inr j \<Longrightarrow>
    j = i \<or> ti_status i = PAYOS_VERIFIED \<and> j = i\<lparr>ti_status := PENDING_PARTNER\<rparr>"
  unfolding mark_gds_topup_awaiting_partner_def by (simp add: result_simps split: if_split_asm)

lemma credit_cases:
  assumes "accept_gds_partner_credit i c = Inr j"
  shows "require_topup i = Inr () \<and> truthy (pr_event_id c) \<and> truthy (partner_transaction_id c)
    \<and> pr_amount_minor c = ti_amount_minor i \<and> opt_truthy (collection_reference i)
    \<and> collection_reference i = Some (source_collection_reference c)
    \<and> (j = i \<and> ti_status i = CREDITED \<and> partner_credit_event_id i = Some (pr_event_id c)
       \<or> (ti_status i = PAYOS_VERIFIED \<or> ti_status i = PENDING_PARTNER)
         \<and> j = i\<lparr>ti_status := CREDITED, partner_credit_event_id := Some (pr_event_id c)\<rparr>)"
  using assms unfolding accept_gds_partner_credit_def
  by (simp add: result_simps split: if_split_asm)

lemma cancel_cases:
  "cancel_gds_topup i = Inr j \<Longrightarrow>
    j = i \<or> (ti_status i = CREATED \<or> ti_status i = PENDING_PAYOS) \<and> j = i\<lparr>ti_status := CANCELLED\<rparr>"
  unfolding cancel_gds_topup_def by (auto simp add: result_simps split: if_split_asm)

lemma topup_step_facts:
  assumes "topup_step parse_url i j" and "topup_ok i"
  shows "same_topup i j \<and> topup_ok j \<and> (ti_status i \<in> {CREDITED, REVIEW} \<longrightarrow> j = i)
    \<and> (opt_truthy (collection_reference i) \<longrightarrow> collection_reference j = collection_reference i)"
  using assms
proof (cases rule: topup_step.cases)
  case (attach link)
  from attach_cases [OF this] show ?thesis
  proof (elim disjE conjE)
    assume "j = i"
    with assms(2) show ?thesis by (simp add: same_topup_def)
  qed (use assms(2) in \<open>simp_all add: same_topup_def topup_ok_def\<close>)
next
  case (collect c)
  from collect_cases [OF this] show ?thesis
  proof (elim disjE conjE bexE)
    assume "j = i"
    with assms(2) show ?thesis by (simp add: same_topup_def)
  qed (use assms(2) in \<open>auto simp: same_topup_def topup_ok_def\<close>)
next
  case await
  from await_cases [OF this] show ?thesis
  proof (elim disjE conjE)
    assume "j = i"
    with assms(2) show ?thesis by (simp add: same_topup_def)
  qed (use assms(2) in \<open>simp_all add: same_topup_def topup_ok_def\<close>)
next
  case (credit c)
  from credit_cases [OF this] have t: "truthy (pr_event_id c)"
    and j: "j = i \<or> (ti_status i = PAYOS_VERIFIED \<or> ti_status i = PENDING_PARTNER)
         \<and> j = i\<lparr>ti_status := CREDITED, partner_credit_event_id := Some (pr_event_id c)\<rparr>"
    by blast+
  from j show ?thesis
  proof (elim disjE conjE)
    assume "j = i"
    with assms(2) show ?thesis by (simp add: same_topup_def)
  qed (use t assms(2) in \<open>simp_all add: same_topup_def topup_ok_def\<close>)
next
  case cancel
  from cancel_cases [OF this] show ?thesis
  proof (elim disjE conjE)
    assume "j = i"
    with assms(2) show ?thesis by (simp add: same_topup_def)
  qed (use assms(2) in \<open>simp_all add: same_topup_def topup_ok_def\<close>)
qed

lemma topup_steps_facts:
  assumes "(topup_step parse_url)\<^sup>*\<^sup>* i j" and "topup_ok i"
  shows "same_topup i j \<and> topup_ok j \<and> (ti_status i \<in> {CREDITED, REVIEW} \<longrightarrow> j = i)
    \<and> (opt_truthy (collection_reference i) \<longrightarrow> collection_reference j = collection_reference i)"
  using assms
proof (induction rule: rtranclp_induct)
  case base
  then show ?case by (simp add: same_topup_def)
next
  case (step k j)
  from step.IH [OF step.prems] topup_step_facts [OF step.hyps(2)] show ?case
    by (auto simp: same_topup_def)
qed

section \<open>Credits projected once\<close>

fun fresh_credits :: "string list \<Rightarrow> internal_credit list \<Rightarrow> internal_credit list" where
  "fresh_credits seen [] = []"
| "fresh_credits seen (c # cs) =
     (if ic_event_id c \<in> set seen then fresh_credits seen cs
      else c # fresh_credits (ic_event_id c # seen) cs)"

definition credits_ok :: "credit_state \<Rightarrow> bool" where
  "credits_ok st \<longleftrightarrow> (\<forall>i. cs_events st i \<noteq> Some []) \<and> (\<forall>r. cs_references st r \<noteq> Some [])"

lemma opt_truthy_iff: "m \<noteq> Some [] \<Longrightarrow> opt_truthy m \<longleftrightarrow> m \<noteq> None"
  by (cases m) auto

lemma credit_fingerprint_nonempty [simp]: "credit_fingerprint c \<noteq> []"
  by (simp add: credit_fingerprint_def)

lemma apply_credit_Inr:
  assumes "apply_credit st c = Inr st'" and "credits_ok st"
  shows "0 < ic_amount_minor c \<and> credits_ok st'
    \<and> (cs_events st (ic_event_id c) \<noteq> None \<and> st' = st
       \<or> cs_events st (ic_event_id c) = None \<and> cs_references st (ic_collection_reference c) = None
         \<and> st' = \<lparr>cs_events = (cs_events st)(ic_event_id c \<mapsto> credit_fingerprint c),
              cs_references = (cs_references st)(ic_collection_reference c \<mapsto> ic_event_id c),
              cs_credited = cs_credited st + ic_amount_minor c\<rparr>)"
proof -
  have t: "opt_truthy (cs_events st i) \<longleftrightarrow> cs_events st i \<noteq> None"
    "opt_truthy (cs_references st r) \<longleftrightarrow> cs_references st r \<noteq> None" for i r
    using assms(2) by (simp_all add: credits_ok_def opt_truthy_iff)
  show ?thesis
  proof (cases "cs_events st (ic_event_id c) = None")
    case True
    with assms show ?thesis
      unfolding apply_credit_def Let_def t by (auto simp: result_simps credits_ok_def split: if_split_asm)
  next
    case False
    with assms show ?thesis
      unfolding apply_credit_def Let_def t by (auto simp: result_simps)
  qed
qed

lemma credits_projected:
  assumes "fold_result apply_credit st cs = Inr st'" and "credits_ok st"
    and "dom (cs_events st) = set seen"
  shows "cs_credited st' = cs_credited st + sum_list (map ic_amount_minor (fresh_credits seen cs))
    \<and> distinct (map ic_collection_reference (fresh_credits seen cs))
    \<and> set (map ic_collection_reference (fresh_credits seen cs)) \<inter> dom (cs_references st) = {}
    \<and> (\<forall>c\<in>set cs. 0 < ic_amount_minor c)"
  using assms
proof (induction cs arbitrary: st seen)
  case Nil
  then show ?case by simp
next
  case (Cons c cs)
  from Cons.prems(1) obtain u where u: "apply_credit st c = Inr u" "fold_result apply_credit u cs = Inr st'"
    by (auto simp: result_simps)
  note step = apply_credit_Inr [OF u(1) Cons.prems(2)]
  show ?case
  proof (cases "cs_events st (ic_event_id c) = None")
    case False
    with step have "u = st" by simp
    moreover have "ic_event_id c \<in> set seen" using False Cons.prems(3) by auto
    ultimately show ?thesis using Cons.IH [of st seen] u(2) Cons.prems step by simp
  next
    case True
    with step have r: "cs_references st (ic_collection_reference c) = None"
      and w: "u = \<lparr>cs_events = (cs_events st)(ic_event_id c \<mapsto> credit_fingerprint c),
        cs_references = (cs_references st)(ic_collection_reference c \<mapsto> ic_event_id c),
        cs_credited = cs_credited st + ic_amount_minor c\<rparr>" by auto
    have d: "dom (cs_events u) = set (ic_event_id c # seen)" using w Cons.prems(3) by simp
    have n: "ic_event_id c \<notin> set seen" using True Cons.prems(3) by auto
    from Cons.IH [OF u(2) _ d] step r w n show ?thesis by auto
  qed
qed

section \<open>The properties\<close>

text \<open>The nine-character memo of a PayOS request identifies its order: two accepted requests with the
  same memo have the same order code, whatever the redirect URLs are.\<close>

theorem topup_memo_identifies_order:
  assumes "build_gds_payos_topup_request parse_url i r c = Inr req"
    and "build_gds_payos_topup_request parse_url i' r' c' = Inr req'"
  shows "length (tr_description req) = 9
    \<and> (tr_description req = tr_description req' \<longrightarrow> tr_order_code req = tr_order_code req')"
proof -
  have *: "length (tr_description q) = 9 \<and> 0 < tr_order_code q
      \<and> read_base36 (tl (tr_description q)) 0 = nat (tr_order_code q)"
    if "build_gds_payos_topup_request parse_url i r c = Inr q" for i r c q
    using that unfolding build_gds_payos_topup_request_def require_topup_def Let_def
    by (simp add: result_simps) (elim conjE, hypsubst, simp add: pad_start_def read_base36_append read_base36_zeros read_show_base36)
  from *[OF assms(1)] *[OF assms(2)] show ?thesis by auto
qed

text \<open>C14: Through every sequence of operations a top-up keeps its owner, amount, order code and account;
  a collection reference is never replaced, a credited intent always has both a bank collection and a
  partner credit behind it, and an intent that is credited or under review never changes again.\<close>

theorem topup_life_cycle:
  assumes "(topup_step parse_url)\<^sup>*\<^sup>* i j" and "(topup_step parse_url)\<^sup>*\<^sup>* j k"
    and "ti_status i = CREATED" and "payment_link_id i = None" and "collection_reference i = None"
    and "partner_credit_event_id i = None"
  shows "same_topup i k
    \<and> (opt_truthy (collection_reference j) \<longrightarrow> collection_reference k = collection_reference j)
    \<and> (ti_status k = CREDITED \<longrightarrow> opt_truthy (collection_reference k) \<and> opt_truthy (partner_credit_event_id k))
    \<and> (ti_status j = CREDITED \<or> ti_status j = REVIEW \<longrightarrow> k = j)"
proof -
  have ok: "topup_ok i" using assms(3-6) by (simp add: topup_ok_def)
  from topup_steps_facts [OF assms(1) this] have j: "same_topup i j" "topup_ok j" by blast+
  note k = topup_steps_facts [OF assms(2) j(2)]
  from k have "ti_status k = CREDITED \<Longrightarrow> opt_truthy (collection_reference k) \<and> opt_truthy (partner_credit_event_id k)"
    by (simp add: topup_ok_def)
  moreover have "same_topup i k" using j(1) k by (simp add: same_topup_def)
  ultimately show ?thesis using k by blast
qed

text \<open>C15: One for one: the funding event of a credited top-up carries exactly the amount of the intent, and
  replayed once it raises the settled and the available balance by exactly that amount.\<close>

theorem topup_funds_one_for_one:
  assumes "accept_gds_partner_credit i evidence = Inr j"
    and "project_gds_wallet es rs = Inr b"
    and "fold_result apply_event replay_init es = Inr st"
    and "seen_events st (pr_event_id evidence) = None"
    and "seen_transactions st (partner_transaction_id evidence) = None"
  shows "\<exists>e b'. to_gds_wallet_funding_event j evidence = Inr e \<and> ev_amount_minor e = ti_amount_minor i
    \<and> project_gds_wallet (es @ [e]) rs = Inr b'
    \<and> settled_minor b' = settled_minor b + ti_amount_minor i
    \<and> available_minor b' = available_minor b + ti_amount_minor i \<and> reserved_minor b' = reserved_minor b"
proof -
  note c = credit_cases [OF assms(1)]
  let ?e = "\<lparr>provider_event_id = pr_event_id evidence, ev_kind = ''FUNDS_CREDITED'',
          ev_amount_minor = ti_amount_minor i, ev_currency = ''VND'',
          provider_transaction_id = partner_transaction_id evidence, ev_order_id = None\<rparr>"
  have pos: "0 < ti_amount_minor i"
    using c by (auto simp: require_topup_def result_simps)
  from c have j: "ti_status j = CREDITED" "partner_credit_event_id j = Some (pr_event_id evidence)"
    "ti_amount_minor j = ti_amount_minor i" by auto
  have again: "accept_gds_partner_credit j evidence = Inr j"
  proof -
    have "require_topup j = Inr ()"
      using c by (elim conjE disjE) (simp_all add: require_topup_def)
    moreover have "collection_reference j = collection_reference i"
      using c by (elim conjE disjE) simp_all
    moreover have "pr_currency evidence = ''VND''"
      using assms(1) by (simp add: accept_gds_partner_credit_def result_simps)
    moreover have "truthy (source_collection_reference evidence)"
      using c by (elim conjE) simp
    ultimately show ?thesis
      using c j by (simp add: accept_gds_partner_credit_def)
  qed
  have e: "to_gds_wallet_funding_event j evidence = Inr ?e"
    using j again by (simp add: to_gds_wallet_funding_event_def)
  have nc: "\<not> is_capture ?e" and kk: "known_kind (ev_kind ?e)" and sg: "signed_amount ?e = ti_amount_minor i"
    by (simp_all add: is_capture_def known_kind_def credits_def signed_amount_def)
  from assms(4,5) c pos nc kk obtain st' where st': "apply_event st ?e = Inr st'"
    "captured_by_order st' = captured_by_order st" "rp_settled st' = rp_settled st + ti_amount_minor i"
    by (simp add: apply_event_Inr sg)
  then have f: "fold_result apply_event replay_init (es @ [?e]) = Inr st'"
    using assms(3) by (simp add: fold_result_append)
  from assms(2,3) obtain h where
    h: "fold_result (apply_reservation (captured_by_order st)) holds_init rs = Inr h"
    "\<not> list_ex (uncaptured_order rs) (captured_by_order st)" "0 \<le> rp_settled st" "0 \<le> rp_settled st - hs_reserved h"
    and b: "b = \<lparr>settled_minor = rp_settled st, reserved_minor = hs_reserved h,
       available_minor = rp_settled st - hs_reserved h, wb_currency = ''VND''\<rparr>"
    unfolding project_Inr by auto
  let ?b = "\<lparr>settled_minor = rp_settled st', reserved_minor = hs_reserved h,
       available_minor = rp_settled st' - hs_reserved h, wb_currency = ''VND''\<rparr>"
  have "project_gds_wallet (es @ [?e]) rs = Inr ?b"
    unfolding project_Inr
    by (rule exI [of _ st'], rule exI [of _ h]) (use f h st' pos in simp)
  with e st'(3) b show ?thesis by (intro exI [of _ ?e] exI [of _ ?b]) simp
qed

text \<open>C22: Internal credits are counted once: the projected total is the sum over the distinct credit events,
  every one of them positive, and no bank collection is credited by two of them.\<close>

theorem internal_credits_counted_once:
  assumes "project_gds_internal_topup_credits entries = Inr credited"
  shows "credited = sum_list (map ic_amount_minor (fresh_credits [] entries))
    \<and> distinct (map ic_collection_reference (fresh_credits [] entries))
    \<and> (\<forall>c\<in>set entries. 0 < ic_amount_minor c)"
proof -
  from assms obtain st where f: "fold_result apply_credit credits_init entries = Inr st" "credited = cs_credited st"
    by (auto simp: project_gds_internal_topup_credits_def result_simps)
  have "credits_ok credits_init" "dom (cs_events credits_init) = set []"
    by (simp_all add: credits_ok_def credits_init_def)
  from credits_projected [OF f(1) this] f(2) show ?thesis by (simp add: credits_init_def)
qed

section \<open>Witnesses\<close>

abbreviation example_hash :: string where
  "example_hash \<equiv> replicate 64 CHR ''a''"

abbreviation example_intent :: topup_intent where
  "example_intent \<equiv> \<lparr>ti_id = ''i'', ti_buyer_id = ''b'', ti_amount_minor = 100, ti_currency = ''VND'',
     payos_order_code = 37, receiving_account_hash = example_hash, settlement_receiving_account_hash = None,
     expires_at = Some 5000, ti_status = CREATED, payment_link_id = None, collection_reference = None,
     partner_credit_event_id = None\<rparr>"

abbreviation example_url :: "string \<Rightarrow> parsed_url option" where
  "example_url u \<equiv> Some \<lparr>url_protocol = ''https:'', url_origin = ''o'', url_hostname = ''pay.payos.vn'',
     url_username = [], url_password = [], url_hash = []\<rparr>"

abbreviation example_verified :: topup_intent where
  "example_verified \<equiv> example_intent\<lparr>ti_status := PAYOS_VERIFIED, payment_link_id := Some ''l'',
     collection_reference := Some ''c''\<rparr>"

abbreviation example_credit :: partner_credit where
  "example_credit \<equiv> \<lparr>pr_event_id = ''e9'', partner_transaction_id = ''t9'', pr_amount_minor = 100,
     pr_currency = ''VND'', source_collection_reference = ''c''\<rparr>"

lemma example_request:
  "build_gds_payos_topup_request example_url example_intent ''r'' ''c'' =
    Inr \<lparr>tr_order_code = 37, tr_amount = 100, tr_description = ''G00000011'', tr_return_url = ''r'',
         tr_cancel_url = ''c'', tr_expired_at = 5\<rparr>"
  by code_simp

theorem topup_memo_identifies_order_witness:
  "\<exists>req. build_gds_payos_topup_request example_url example_intent ''r'' ''c'' = Inr req
    \<and> length (tr_description req) = 9"
  using example_request topup_memo_identifies_order [OF example_request example_request] by blast

theorem topup_life_cycle_witness:
  "\<exists>k. (topup_step example_url)\<^sup>*\<^sup>* example_intent k \<and> ti_status k = CANCELLED \<and> same_topup example_intent k"
proof -
  let ?k = "example_intent\<lparr>ti_status := CANCELLED\<rparr>"
  have "cancel_gds_topup example_intent = Inr ?k" by (simp add: cancel_gds_topup_def)
  then have "(topup_step example_url)\<^sup>*\<^sup>* example_intent ?k" by (blast intro: topup_step.cancel)
  moreover from topup_life_cycle [OF rtranclp.rtrancl_refl this] have "same_topup example_intent ?k" by simp
  ultimately show ?thesis by (intro exI [of _ ?k]) simp
qed

lemma example_funded:
  "accept_gds_partner_credit example_verified example_credit =
     Inr (example_verified\<lparr>ti_status := CREDITED, partner_credit_event_id := Some ''e9''\<rparr>)"
  by code_simp

theorem topup_funds_one_for_one_witness:
  "\<exists>e b'. project_gds_wallet ([] @ [e]) [] = Inr b' \<and> available_minor b' = 100"
proof -
  have p: "project_gds_wallet [] [] =
      Inr \<lparr>settled_minor = 0, reserved_minor = 0, available_minor = 0, wb_currency = ''VND''\<rparr>"
    by code_simp
  have f: "fold_result apply_event replay_init [] = Inr replay_init" by simp
  from topup_funds_one_for_one [OF example_funded p f] show ?thesis
    by (auto simp: replay_init_def)
qed

theorem internal_credits_counted_once_witness:
  "project_gds_internal_topup_credits
     (let c = \<lparr>ic_event_id = ''e'', ic_buyer_id = ''b'', ic_collection_reference = ''c'', ic_amount_minor = 7,
               ic_currency = ''VND'', ic_source = ''PAYOS_MERCHANT_COLLECTION''\<rparr> in [c, c]) = Inr 7
   \<and> distinct [''c'']"
proof -
  have p: "project_gds_internal_topup_credits
     (let c = \<lparr>ic_event_id = ''e'', ic_buyer_id = ''b'', ic_collection_reference = ''c'', ic_amount_minor = 7,
               ic_currency = ''VND'', ic_source = ''PAYOS_MERCHANT_COLLECTION''\<rparr> in [c, c]) = Inr 7"
    by code_simp
  from p internal_credits_counted_once [OF p] show ?thesis by simp
qed

end
