(* ===== verification/Viet_Qr.thy ===== *)
theory Viet_Qr
  imports Prelude "HOL-Library.Word"
begin

text \<open>
  The VietQR payload of \<^verbatim>\<open>src/modules/payments/bank-transfer-policy.ts\<close>: tag-length-value fields
  and a 16-bit checksum, with a reader of such payloads to state what they say.
\<close>

unbundle bit_operations_syntax

section \<open>Writing\<close>

definition tlv :: "string \<Rightarrow> string \<Rightarrow> string" where
  "tlv i v = i @ pad_start 2 CHR ''0'' (show_nat (length v)) @ v"

text \<open>The 16-bit checksum of the loop: \<^verbatim>\<open>& 0xffff\<close> after every shift keeps 16 bits.\<close>

definition crc_shift :: "16 word \<Rightarrow> 16 word" where
  "crc_shift crc = (if bit crc 15 then push_bit 1 crc XOR 0x1021 else push_bit 1 crc)"

definition crc_byte :: "8 word \<Rightarrow> 16 word \<Rightarrow> 16 word" where
  "crc_byte b crc = (crc_shift ^^ 8) (crc XOR push_bit 8 (ucast b))"

definition crc16 :: "8 word list \<Rightarrow> 16 word" where
  "crc16 bytes = fold crc_byte bytes 0xFFFF"

definition byte_of :: "char \<Rightarrow> 8 word" where
  "byte_of c = of_char c"

definition hex_digits :: string where
  "hex_digits = ''0123456789ABCDEF''"

fun show_hex :: "nat \<Rightarrow> string" where
  "show_hex n = (if n < 16 then [hex_digits ! n] else show_hex (n div 16) @ [hex_digits ! (n mod 16)])"

declare show_hex.simps [simp del]

definition alnum_upper :: "char \<Rightarrow> bool" where
  "alnum_upper c = (upper_char c \<or> digit_char c)"

definition qr_body :: "string \<Rightarrow> string \<Rightarrow> int \<Rightarrow> string \<Rightarrow> string" where
  "qr_body bank_bin account amount content =
     (let merchant = tlv ''00'' ''A000000727''
            @ tlv ''01'' (tlv ''00'' bank_bin @ tlv ''01'' account) @ tlv ''02'' ''QRIBFTTA''
      in tlv ''00'' ''01'' @ tlv ''01'' ''12'' @ tlv ''38'' merchant @ tlv ''53'' ''704''
         @ tlv ''54'' (show_int amount) @ tlv ''58'' ''VN'' @ tlv ''62'' (tlv ''08'' content) @ ''6304'')"

definition create_viet_qr_payload :: "string \<Rightarrow> string \<Rightarrow> int \<Rightarrow> string \<Rightarrow> string result" where
  "create_viet_qr_payload bank_bin account amount content =
     throw_if (\<not> (length bank_bin = 6 \<and> list_all digit_char bank_bin)
         \<or> \<not> (6 \<le> length account \<and> length account \<le> 19 \<and> list_all digit_char account)
         \<or> amount \<le> 0 \<or> amount > max_safe_integer
         \<or> \<not> (6 \<le> length content \<and> length content \<le> 25 \<and> list_all alnum_upper content))
       (BadRequestException ''Invalid VietQR facts.'') (
     let body = qr_body bank_bin account amount content
     in Inr (body @ pad_start 4 CHR ''0'' (show_hex (unat (crc16 (map byte_of body))))))"

section \<open>The checksum\<close>

lemma double_bit: "bit (push_bit 1 (c :: 16 word)) n \<longleftrightarrow> 1 \<le> n \<and> n < 16 \<and> bit c (n - 1)"
  by (simp only: bit_push_bit_iff possible_bit_word) simp

lemma crc_shift_bit0: "bit (crc_shift c) 0 \<longleftrightarrow> bit c 15"
proof -
  have "bit (0x1021 :: 16 word) 0" by simp
  moreover have "\<not> bit (push_bit 1 c) 0" unfolding double_bit by simp
  ultimately show ?thesis by (simp only: crc_shift_def bit_xor_iff split: if_split) simp
qed

lemma crc_shift_bit: "n < 15 \<Longrightarrow> bit (push_bit 1 c) (Suc n) \<longleftrightarrow> bit (c :: 16 word) n"
  unfolding double_bit by simp

lemma crc_shift_inj: "inj crc_shift"
proof (rule injI)
  fix x y assume e: "crc_shift x = crc_shift y"
  then have m: "bit x 15 \<longleftrightarrow> bit y 15" using crc_shift_bit0 by metis
  have p: "push_bit 1 x = push_bit 1 y"
  proof (cases "bit x 15")
    case True
    with e m have "push_bit 1 x XOR 0x1021 = push_bit 1 y XOR 0x1021" by (simp add: crc_shift_def)
    then have "(push_bit 1 x XOR 0x1021) XOR 0x1021 = (push_bit 1 y XOR 0x1021) XOR 0x1021" by (rule arg_cong)
    then show ?thesis by (simp only: xor.assoc xor_self_eq xor.right_neutral)
  next
    case False
    with e m show ?thesis by (simp add: crc_shift_def)
  qed
  show "x = y"
  proof (rule bit_word_eqI)
    fix n assume "n < LENGTH(16)"
    then consider "n = 15" | "n < 15" by fastforce
    then show "bit x n \<longleftrightarrow> bit y n"
    proof cases
      case 1 with m show ?thesis by simp
    next
      case 2
      from crc_shift_bit [OF this, of x] crc_shift_bit [OF this, of y] p show ?thesis by simp
    qed
  qed
qed

lemma crc_byte_inj_crc: "crc_byte b c = crc_byte b d \<Longrightarrow> c = d"
proof -
  assume "crc_byte b c = crc_byte b d"
  moreover have "inj (crc_shift ^^ 8)" by (rule inj_fn [OF crc_shift_inj])
  ultimately have "c XOR push_bit 8 (ucast b) = d XOR push_bit 8 (ucast b)"
    by (simp add: crc_byte_def inj_eq del: funpow.simps)
  then have "(c XOR push_bit 8 (ucast b)) XOR push_bit 8 (ucast b) = (d XOR push_bit 8 (ucast b)) XOR push_bit 8 (ucast b)"
    by (rule arg_cong)
  then show "c = d" by (simp only: xor.assoc xor_self_eq xor.right_neutral)
qed

lemma crc_byte_inj_byte: "crc_byte a c = crc_byte b c \<Longrightarrow> a = b"
proof -
  assume "crc_byte a c = crc_byte b c"
  moreover have "inj (crc_shift ^^ 8)" by (rule inj_fn [OF crc_shift_inj])
  ultimately have "c XOR push_bit 8 (ucast a) = c XOR push_bit 8 (ucast b)"
    by (simp add: crc_byte_def inj_eq del: funpow.simps)
  then have "c XOR (c XOR push_bit 8 (ucast a)) = c XOR (c XOR push_bit 8 (ucast b))" by (rule arg_cong)
  then have p: "push_bit 8 (ucast a :: 16 word) = push_bit 8 (ucast b)" by (simp only: xor.assoc [symmetric] xor_self_eq xor.left_neutral)
  show "a = b"
  proof (rule bit_word_eqI)
    fix n assume n: "n < LENGTH(8)"
    have "bit (push_bit 8 (ucast z :: 16 word)) (n + 8) \<longleftrightarrow> bit (z :: 8 word) n" for z
      using n by (simp add: bit_simps)
    with p show "bit a n \<longleftrightarrow> bit b n" by metis
  qed
qed

lemma crc16_single_byte:
  assumes "a \<noteq> b"
  shows "crc16 (xs @ a # ys) \<noteq> crc16 (xs @ b # ys)"
proof -
  have "fold crc_byte ys c = fold crc_byte ys d \<Longrightarrow> c = d" for c d
    by (induction ys arbitrary: c d) (auto dest: crc_byte_inj_crc)
  with assms show ?thesis by (auto simp: crc16_def dest: crc_byte_inj_byte)
qed
section \<open>Reading\<close>

text \<open>A reader of such payloads.\<close>

fun read_tlv :: "nat \<Rightarrow> string \<Rightarrow> (string \<times> string) list option" where
  "read_tlv 0 s = (if s = [] then Some [] else None)"
| "read_tlv (Suc fuel) s =
     (if s = [] then Some []
      else let n = read_nat (take 2 (drop 2 s)) in
        if length s < 4 + n then None
        else map_option (Cons (take 2 s, take n (drop 4 s))) (read_tlv fuel (drop (4 + n) s)))"

lemma show_nat_length: "n < 10 ^ Suc k \<Longrightarrow> length (show_nat n) \<le> Suc k"
proof (induction k arbitrary: n)
  case 0
  then show ?case by (simp add: show_nat.simps [of n])
next
  case (Suc k)
  show ?case
  proof (cases "n < 10")
    case True
    then show ?thesis by (simp add: show_nat.simps [of n])
  next
    case False
    have "n div 10 < 10 ^ Suc k" using Suc.prems by (simp add: less_mult_imp_div_less mult.commute)
    from Suc.IH [OF this] False show ?thesis by (simp add: show_nat.simps [of n])
  qed
qed
lemma show_nat_two: "n < 100 \<Longrightarrow> length (show_nat n) \<le> 2"
  using show_nat_length [of n 1] by simp

lemma read_digits_zeros: "read_digits (replicate k CHR ''0'' @ s) 0 = read_digits s 0"
  by (induction k) auto

lemma padded_length: "n < 100 \<Longrightarrow> length (pad_start 2 CHR ''0'' (show_nat n)) = 2"
  using show_nat_two [of n] by (simp add: pad_start_def)

lemma padded_value: "read_nat (pad_start 2 CHR ''0'' (show_nat n)) = n"
  using read_show_nat [of n] by (simp add: pad_start_def read_nat_def read_digits_zeros)

lemma tlv_length: "length i = 2 \<Longrightarrow> length v < 100 \<Longrightarrow> length (tlv i v) = 4 + length v"
  by (simp add: tlv_def padded_length)

lemma read_tlv_cons:
  assumes "length i = 2" and "length v < 100"
  shows "read_tlv (Suc fuel) (tlv i v @ rest) = map_option (Cons (i, v)) (read_tlv fuel rest)"
proof -
  let ?l = "pad_start 2 CHR ''0'' (show_nat (length v))"
  have l: "length ?l = 2" using assms(2) by (rule padded_length)
  define s where "s = tlv i v @ rest"
  have e: "s = i @ ?l @ v @ rest" by (simp add: s_def tlv_def)
  have "take 2 s = i" "take 2 (drop 2 s) = ?l" "drop 4 s = v @ rest" "drop (4 + length v) s = rest"
    "s \<noteq> []" "\<not> length s < 4 + length v"
    using assms(1) l unfolding e by auto
  then show ?thesis unfolding s_def [symmetric] by (simp add: Let_def padded_value)
qed

lemma read_tlv_Nil [simp]: "read_tlv fuel [] = Some []"
  by (cases fuel) simp_all

fun read_hex :: "string \<Rightarrow> nat \<Rightarrow> nat" where
  "read_hex [] acc = acc"
| "read_hex (c # cs) acc = read_hex cs (16 * acc + index_of c hex_digits)"

lemma read_hex_append: "read_hex (xs @ ys) a = read_hex ys (read_hex xs a)"
  by (induction xs arbitrary: a) auto

lemma hex_digit_value: "n < 16 \<Longrightarrow> index_of (hex_digits ! n) hex_digits = n"
  by (rule index_of_nth) (simp_all add: hex_digits_def)

lemma read_show_hex: "read_hex (show_hex n) 0 = n"
proof (induction n rule: show_hex.induct)
  case (1 n)
  show ?case
  proof (cases "n < 16")
    case True
    then show ?thesis by (simp add: show_hex.simps [of n] hex_digit_value)
  next
    case False
    with "1" [OF False] show ?thesis
      by (simp add: show_hex.simps [of n] read_hex_append hex_digit_value)
  qed
qed

lemma read_hex_zeros: "read_hex (replicate k CHR ''0'' @ s) 0 = read_hex s 0"
  by (induction k) (simp_all add: hex_digits_def index_of_def)

lemma show_hex_length: "n < 16 ^ Suc k \<Longrightarrow> length (show_hex n) \<le> Suc k"
proof (induction k arbitrary: n)
  case 0
  then show ?case by (simp add: show_hex.simps [of n])
next
  case (Suc k)
  show ?case
  proof (cases "n < 16")
    case True
    then show ?thesis by (simp add: show_hex.simps [of n])
  next
    case False
    have "n div 16 < 16 ^ Suc k" using Suc.prems by (simp add: less_mult_imp_div_less mult.commute)
    from Suc.IH [OF this] False show ?thesis by (simp add: show_hex.simps [of n])
  qed
qed

lemma crc_text: "length (pad_start 4 CHR ''0'' (show_hex (unat (c :: 16 word)))) = 4"
proof -
  have "unat c < 2 ^ LENGTH(16)" by (rule unsigned_less)
  then show ?thesis using show_hex_length [of "unat c" 3] by (simp add: pad_start_def)
qed

lemma crc_text_value: "read_hex (pad_start 4 CHR ''0'' (show_hex n)) 0 = n"
  by (simp add: pad_start_def read_hex_zeros read_show_hex)

section \<open>The properties\<close>

text \<open>C37: A payment QR says what was asked: read as tag, length and value, the payload of a request yields the
  receiving bank, the account, the exact amount and the transfer content, and its last field is the
  checksum of everything before it.\<close>

theorem viet_qr_roundtrip:
  assumes "create_viet_qr_payload bank_bin account amount content = Inr payload"
  shows "\<exists>merchant receiver crc.
    read_tlv 9 payload = Some [(''00'', ''01''), (''01'', ''12''), (''38'', merchant), (''53'', ''704''),
      (''54'', show_int amount), (''58'', ''VN''), (''62'', tlv ''08'' content), (''63'', crc)]
    \<and> read_tlv 4 merchant = Some [(''00'', ''A000000727''), (''01'', receiver), (''02'', ''QRIBFTTA'')]
    \<and> read_tlv 3 receiver = Some [(''00'', bank_bin), (''01'', account)]
    \<and> read_tlv 2 (tlv ''08'' content) = Some [(''08'', content)]
    \<and> read_nat (show_int amount) = nat amount
    \<and> read_hex crc 0 = unat (crc16 (map byte_of (take (length payload - 4) payload)))"
proof -
  let ?receiver = "tlv ''00'' bank_bin @ tlv ''01'' account"
  let ?merchant = "tlv ''00'' ''A000000727'' @ tlv ''01'' ?receiver @ tlv ''02'' ''QRIBFTTA''"
  let ?body = "qr_body bank_bin account amount content"
  define crc where "crc = pad_start 4 CHR ''0'' (show_hex (unat (crc16 (map byte_of ?body))))"
  from assms have l: "length bank_bin = 6" "length account \<le> 19" "length content \<le> 25" "0 < amount"
    "amount \<le> max_safe_integer" and p: "payload = ?body @ crc"
    unfolding create_viet_qr_payload_def Let_def crc_def by (auto simp: result_simps)
  have "nat amount < 10 ^ Suc 16" using l(5) by (simp add: max_safe_integer_def)
  from show_nat_length [OF this] have a: "length (show_int amount) < 100"
    using l(4) by (simp add: show_int_def)
  have r: "length ?receiver < 100" using l by (simp add: tlv_length)
  have m: "length ?merchant < 100" using l r by (simp add: tlv_length)
  have c: "length (tlv ''08'' content) < 100" using l by (simp add: tlv_length)
  have k: "length crc = 4" unfolding crc_def by (rule crc_text)
  have two: "pad_start 2 CHR ''0'' (show_nat 4) = ''04''"
    by code_simp
  have tl: "tlv ''63'' crc = ''6304'' @ crc"
    by (simp only: tlv_def k two) simp
  have e: "payload = tlv ''00'' ''01'' @ tlv ''01'' ''12'' @ tlv ''38'' ?merchant @ tlv ''53'' ''704''
      @ tlv ''54'' (show_int amount) @ tlv ''58'' ''VN'' @ tlv ''62'' (tlv ''08'' content) @ tlv ''63'' crc @ []"
    unfolding p tl qr_body_def Let_def by (simp only: append_assoc append_Nil2)
  have n: "read_tlv (Suc (Suc (Suc (Suc (Suc (Suc (Suc (Suc (Suc 0))))))))) payload =
      Some [(''00'', ''01''), (''01'', ''12''), (''38'', ?merchant), (''53'', ''704''),
      (''54'', show_int amount), (''58'', ''VN''), (''62'', tlv ''08'' content), (''63'', crc)]"
    unfolding e using m a c k by (simp add: read_tlv_cons del: append_Nil2 read_tlv.simps(2))
  have "read_tlv (Suc (Suc (Suc (Suc 0)))) (?merchant @ []) =
      Some [(''00'', ''A000000727''), (''01'', ?receiver), (''02'', ''QRIBFTTA'')]"
    using r by (simp add: read_tlv_cons del: append_Nil2 read_tlv.simps(2))
  moreover have "read_tlv (Suc (Suc (Suc 0))) (?receiver @ []) = Some [(''00'', bank_bin), (''01'', account)]"
    using l by (simp add: read_tlv_cons del: append_Nil2 read_tlv.simps(2))
  moreover have "read_tlv (Suc (Suc 0)) (tlv ''08'' content @ []) = Some [(''08'', content)]"
    using l by (simp add: read_tlv_cons del: append_Nil2 read_tlv.simps(2))
  moreover have "read_nat (show_int amount) = nat amount"
    using l(4) by (simp add: show_int_def read_show_nat)
  moreover have "take (length payload - 4) payload = ?body" using k by (simp add: p)
  moreover have "read_hex crc 0 = unat (crc16 (map byte_of ?body))"
    unfolding crc_def by (rule crc_text_value)
  ultimately show ?thesis
    using n by (intro exI [of _ ?merchant] exI [of _ ?receiver] exI [of _ crc]) (simp add: eval_nat_numeral)
qed

text \<open>C39: The checksum of a payment QR detects every corruption of a single character of its body.\<close>

theorem viet_qr_checksum_detects:
  assumes "byte_of a \<noteq> byte_of b"
  shows "crc16 (map byte_of (before @ a # after)) \<noteq> crc16 (map byte_of (before @ b # after))"
  using crc16_single_byte [OF assms] by simp

lemma example_payload:
  "\<exists>p. create_viet_qr_payload ''970422'' ''0000000000'' 1000 ''EDUAIPREVIEW'' = Inr p"
  by (simp add: create_viet_qr_payload_def Let_def max_safe_integer_def digit_char_def alnum_upper_def upper_char_def)

theorem viet_qr_roundtrip_witness:
  "\<exists>p. create_viet_qr_payload ''970422'' ''0000000000'' 1000 ''EDUAIPREVIEW'' = Inr p
    \<and> (\<exists>fs. read_tlv 9 p = Some fs \<and> (''53'', ''704'') \<in> set fs)"
proof -
  from example_payload obtain p where
    p: "create_viet_qr_payload ''970422'' ''0000000000'' 1000 ''EDUAIPREVIEW'' = Inr p" by blast
  from viet_qr_roundtrip [OF p] p show ?thesis by auto
qed

theorem viet_qr_checksum_detects_witness:
  "crc16 (map byte_of (''54041'' @ CHR ''0'' # ''00'')) \<noteq> crc16 (map byte_of (''54041'' @ CHR ''9'' # ''00''))"
  by (rule viet_qr_checksum_detects) (simp add: byte_of_def)

end
