(* ===== verification/Js_Double.thy ===== *)
theory Js_Double
  imports Complex_Main
begin

text \<open>
  The non-negative part of the \<^verbatim>\<open>number\<close> arithmetic that scores and percentages use: IEEE 754 doubles,
  rounded to the nearest with ties to even.  A double is a pair \<^verbatim>\<open>(m, k)\<close> for \<^verbatim>\<open>m / 2^k\<close>;
  every operation rounds the exact quotient of two integers to 53 significant bits.  Values stay
  far below \<^verbatim>\<open>2^53\<close> and above the subnormal range here, so the exponent needs no bounds.
\<close>

type_synonym js_double = "int \<times> nat"

section \<open>Operations\<close>

text \<open>Scale \<^verbatim>\<open>n\<close> until the quotient by \<^verbatim>\<open>d\<close> has 53 bits.\<close>

function scale_up :: "int \<Rightarrow> int \<Rightarrow> nat \<Rightarrow> int \<times> nat" where
  "scale_up n d k = (if n \<le> 0 \<or> 2 ^ 52 * d \<le> n then (n, k) else scale_up (2 * n) d (Suc k))"
  by auto
termination by (relation "measure (\<lambda>(n, d, k). nat (2 ^ 52 * d - n))") auto

declare scale_up.simps [simp del]

definition round_even :: "int \<Rightarrow> int \<Rightarrow> int" where
  "round_even n d =
     (let q = n div d; r = n mod d in if 2 * r > d \<or> 2 * r = d \<and> odd q then q + 1 else q)"

definition double :: "int \<Rightarrow> int \<Rightarrow> js_double" where
  "double n d = (case scale_up n d 0 of (n', k) \<Rightarrow> (round_even n' d, k))"

definition double_of_int :: "int \<Rightarrow> js_double" where
  "double_of_int i = (i, 0)"

fun double_add :: "js_double \<Rightarrow> js_double \<Rightarrow> js_double" where
  "double_add (m, k) (m', k') = double (m * 2 ^ k' + m' * 2 ^ k) (2 ^ (k + k'))"

fun double_mult :: "js_double \<Rightarrow> js_double \<Rightarrow> js_double" where
  "double_mult (m, k) (m', k') = double (m * m') (2 ^ (k + k'))"

fun double_div :: "js_double \<Rightarrow> js_double \<Rightarrow> js_double" where
  "double_div (m, k) (m', k') = double (m * 2 ^ k') (m' * 2 ^ k)"

fun double_le :: "js_double \<Rightarrow> js_double \<Rightarrow> bool" where
  "double_le (m, k) (m', k') = (m * 2 ^ k' \<le> m' * 2 ^ k)"

definition double_zero :: "js_double \<Rightarrow> bool" where
  "double_zero x = (fst x = 0)"

text \<open>\<^verbatim>\<open>Math.round\<close>: the nearest integer, a half goes up.\<close>

fun math_round :: "js_double \<Rightarrow> int" where
  "math_round (m, k) = (2 * m + 2 ^ k) div (2 * 2 ^ k)"

section \<open>Values and rounding errors\<close>

definition dval :: "js_double \<Rightarrow> real" where
  "dval x = of_int (fst x) / 2 ^ snd x"

lemma dval_of_int [simp]: "dval (double_of_int i) = of_int i"
  by (simp add: dval_def double_of_int_def)

lemma scale_up_spec:
  assumes "scale_up n d k = (n', k')" and "0 < n" and "0 < d"
  shows "k \<le> k' \<and> n' = n * 2 ^ (k' - k) \<and> 2 ^ 52 * d \<le> n'"
  using assms
proof (induction n d k rule: scale_up.induct)
  case (1 n d k)
  show ?case
  proof (cases "2 ^ 52 * d \<le> n")
    case True
    with "1.prems" show ?thesis by (simp add: scale_up.simps)
  next
    case False
    with "1.prems" have "scale_up (2 * n) d (Suc k) = (n', k')" by (simp add: scale_up.simps [of n])
    with "1.IH" False "1.prems" have "Suc k \<le> k'" "n' = 2 * n * 2 ^ (k' - Suc k)" "2 ^ 52 * d \<le> n'" by auto
    moreover from this(1) have "(2::int) * 2 ^ (k' - Suc k) = 2 ^ (k' - k)"
      by (metis Suc_diff_Suc Suc_le_eq power_Suc)
    ultimately show ?thesis by (simp add: mult.assoc mult.left_commute)
  qed
qed

lemma round_even_error:
  assumes "0 < d"
  shows "\<bar>2 * (round_even n d * d - n)\<bar> \<le> d"
proof -
  define q r where "q = n div d" and "r = n mod d"
  have n: "n = q * d + r" by (simp add: q_def r_def)
  have r: "0 \<le> r" "r < d" using assms by (simp_all add: r_def)
  have "round_even n d = q \<and> 2 * r \<le> d \<or> round_even n d = q + 1 \<and> d \<le> 2 * r"
    by (auto simp: round_even_def Let_def q_def r_def)
  moreover have "2 * (q * d - n) = - (2 * r)" "2 * ((q + 1) * d - n) = 2 * d - 2 * r"
    by (simp_all add: n algebra_simps)
  ultimately show ?thesis using r by auto
qed

lemma round_even_le: "0 < d \<Longrightarrow> n \<le> c * d \<Longrightarrow> round_even n d \<le> c"
proof -
  assume d: "0 < d" and n: "n \<le> c * d"
  have q: "n div d \<le> c" using d n by (metis div_le_mono2 nonzero_mult_div_cancel_right order_less_irrefl zdiv_mono1)
  show ?thesis
  proof (cases "n div d = c")
    case True
    then have "n mod d = n - c * d" by (metis minus_div_mult_eq_mod)
    moreover have "0 \<le> n mod d" using d by simp
    ultimately have "n mod d = 0" using n by simp
    with True d show ?thesis by (simp add: round_even_def)
  next
    case False
    with q have "n div d < c" by simp
    then show ?thesis by (simp add: round_even_def Let_def)
  qed
qed

lemma double_zero_iff: "0 < d \<Longrightarrow> double 0 d = (0, 0)"
  by (simp add: double_def scale_up.simps round_even_def)

text \<open>Rounding changes a quotient by at most one part in \<^verbatim>\<open>2^53\<close>.\<close>

lemma double_error:
  assumes "0 \<le> n" and "0 < d"
  shows "\<bar>dval (double n d) - n / d\<bar> \<le> (n / d) / 2 ^ 53"
proof (cases "n = 0")
  case True
  with assms show ?thesis by (simp add: double_zero_iff dval_def)
next
  case False
  obtain n' k where s: "scale_up n d 0 = (n', k)" by fastforce
  with False assms scale_up_spec [OF s] have n': "n' = n * 2 ^ k" and big: "2 ^ 52 * d \<le> n'" by auto
  let ?m = "round_even n' d"
  have "\<bar>2 * (?m * d - n')\<bar> \<le> d" by (rule round_even_error [OF assms(2)])
  then have "\<bar>2 * (real_of_int ?m * d - n')\<bar> \<le> d" by (metis (mono_tags) of_int_abs of_int_diff of_int_le_iff of_int_mult of_int_numeral)
  then have "2 * \<bar>real_of_int ?m * d - n'\<bar> \<le> d" by (simp only: abs_mult abs_numeral)
  moreover have d: "0 < real_of_int d" using assms(2) by simp
  moreover have "2 ^ 52 * real_of_int d \<le> n'" using big by (metis of_int_le_iff of_int_mult of_int_numeral of_int_power)
  ultimately have "\<bar>real_of_int ?m * d - n'\<bar> \<le> n' / 2 ^ 53" by simp
  moreover have "real_of_int ?m * d - n' = (dval (double n d) - n / d) * (d * 2 ^ k)"
    using d by (simp add: double_def s dval_def n' field_simps)
  moreover have "n' / 2 ^ 53 = (n / d) / 2 ^ 53 * (d * 2 ^ k)" using d by (simp add: n')
  moreover have "\<bar>(dval (double n d) - n / d) * (d * 2 ^ k)\<bar> = \<bar>dval (double n d) - n / d\<bar> * (d * 2 ^ k)"
    using d by (simp add: abs_mult)
  ultimately have "\<bar>dval (double n d) - n / d\<bar> * (d * 2 ^ k) \<le> (n / d) / 2 ^ 53 * (d * 2 ^ k)" by simp
  then show ?thesis using d by (simp add: pos_le_divide_eq)
qed

lemma double_nonneg: "0 \<le> n \<Longrightarrow> 0 < d \<Longrightarrow> 0 \<le> dval (double n d)"
  using double_error [of n d] by (simp add: abs_le_iff)

lemma double_le_int:
  assumes "0 \<le> n" and "0 < d" and "n \<le> c * d"
  shows "dval (double n d) \<le> c"
proof -
  obtain n' k where s: "scale_up n d 0 = (n', k)" by fastforce
  have n': "n' = n * 2 ^ k"
    using scale_up_spec [OF s] assms by (cases "n = 0") (use s in \<open>auto simp: scale_up.simps\<close>)
  have "n * 2 ^ k \<le> c * d * 2 ^ k" using assms(3) by (intro mult_right_mono) auto
  then have "round_even n' d \<le> c * 2 ^ k" using round_even_le [OF assms(2), of n' "c * 2 ^ k"] by (simp add: n' ac_simps)
  then have "real_of_int (round_even n' d) \<le> c * 2 ^ k" by (metis of_int_le_iff of_int_mult of_int_numeral of_int_power)
  then show ?thesis by (simp add: double_def s dval_def field_simps)
qed

lemma double_le_dval: "double_le x y \<longleftrightarrow> dval x \<le> dval y"
proof (cases x; cases y)
  fix m k m' k'
  assume "x = (m, k)" "y = (m', k')"
  moreover have "(real_of_int m / 2 ^ k \<le> m' / 2 ^ k') = (real_of_int (m * 2 ^ k') \<le> real_of_int (m' * 2 ^ k))"
    by (simp add: field_simps)
  ultimately show ?thesis by (simp add: dval_def del: of_int_mult)
qed

lemma math_round_dval: "math_round x = \<lfloor>dval x + 1 / 2\<rfloor>"
proof (cases x)
  case (Pair m k)
  have "dval x + 1 / 2 = of_int (2 * m + 2 ^ k) / of_int (2 * 2 ^ k)" by (simp add: Pair dval_def field_simps)
  then show ?thesis using floor_divide_of_int_eq [where 'a = real, of "2 * m + 2 ^ k" "2 * 2 ^ k"] Pair by simp
qed

text \<open>Products and quotients of whole numbers.\<close>

lemma dval_nonneg_iff: "0 \<le> dval x \<longleftrightarrow> 0 \<le> fst x"
  by (simp only: dval_def pos_le_divide_eq zero_less_power zero_less_numeral mult_zero_left of_int_0_le_iff)

lemma dval_le_int_iff: "dval x \<le> of_int c \<longleftrightarrow> fst x \<le> c * 2 ^ snd x"
proof -
  have "dval x \<le> of_int c \<longleftrightarrow> real_of_int (fst x) \<le> of_int (c * 2 ^ snd x)"
    by (simp add: dval_def pos_divide_le_eq)
  then show ?thesis by (simp only: of_int_le_iff)
qed

lemma double_div_of_int: "double_div (double_of_int a) (double_of_int b) = double a b"
  by (simp add: double_of_int_def)

lemma double_mult_of_int: "double_mult x (double_of_int c) = double (fst x * c) (2 ^ snd x)"
  by (cases x) (simp add: double_of_int_def)

lemma dval_mult_of_int: "real_of_int (fst x * c) / real_of_int (2 ^ snd x) = dval x * c"
  by (simp add: dval_def)

lemma double_mult_of_int_error:
  assumes "0 \<le> fst x" and "0 \<le> c"
  shows "\<bar>dval (double_mult x (double_of_int c)) - dval x * c\<bar> \<le> dval x * c / 2 ^ 53"
  unfolding double_mult_of_int dval_mult_of_int [symmetric]
  by (rule double_error) (use assms in simp_all)

lemma fst_double_nonneg: "0 \<le> n \<Longrightarrow> 0 < d \<Longrightarrow> 0 \<le> fst (double n d)"
  using double_nonneg [of n d] by (simp add: dval_nonneg_iff)

text \<open>The percentage \<^verbatim>\<open>(a / b) * 100\<close>.\<close>

definition js_percent :: "int \<Rightarrow> int \<Rightarrow> js_double" where
  "js_percent a b = double_mult (double_div (double_of_int a) (double_of_int b)) (double_of_int 100)"

lemma js_percent_nonneg: "0 \<le> a \<Longrightarrow> 0 < b \<Longrightarrow> 0 \<le> dval (js_percent a b)"
  by (simp add: js_percent_def double_div_of_int double_mult_of_int fst_double_nonneg double_nonneg)

lemma js_percent_le: "0 \<le> a \<Longrightarrow> 0 < b \<Longrightarrow> a \<le> b \<Longrightarrow> dval (js_percent a b) \<le> 100"
  using double_le_int [of a b 1] double_le_int [of "fst (double a b) * 100" "2 ^ snd (double a b)" 100]
  by (simp add: js_percent_def double_div_of_int double_mult_of_int fst_double_nonneg dval_le_int_iff [of _ 1, simplified])

lemma js_percent_error:
  assumes "0 \<le> a" and "0 < b"
  shows "\<bar>dval (js_percent a b) - 100 * (a / b)\<bar> \<le> (a / b) / 2 ^ 45"
proof -
  let ?q = "real_of_int a / b" and ?x = "double a b"
  have q: "0 \<le> ?q" using assms by simp
  have x: "\<bar>dval ?x - ?q\<bar> \<le> ?q / 2 ^ 53" by (rule double_error [OF assms])
  have y: "\<bar>dval (js_percent a b) - dval ?x * 100\<bar> \<le> dval ?x * 100 / 2 ^ 53"
    using double_mult_of_int_error [of ?x 100] fst_double_nonneg [OF assms]
    by (simp add: js_percent_def double_div_of_int)
  have "dval ?x \<le> ?q + ?q / 2 ^ 53" using x by linarith
  with x y q show ?thesis by (simp add: abs_le_iff) argo
qed

lemma math_round_nonneg: "0 \<le> fst x \<Longrightarrow> 0 \<le> math_round x"
  by (cases x) (simp add: pos_imp_zdiv_nonneg_iff)

end
