(* ===== verification/Learning_Db.thy ===== *)
theory Learning_Db
  imports Audit_Log Js_Double
begin

text \<open>
  The tables of the learning side of the platform (\<^verbatim>\<open>prisma/schema.prisma\<close>): courses, lessons,
  grants, enrollments, progress, assignments, quizzes and certificates, as lists of rows in one
  state.  Columns that no modelled operation reads are left out.  What the code takes from its
  environment (the clock, random ids, the process environment, \<^verbatim>\<open>localeCompare\<close>, the QR
  renderer) is a record of parameters.
\<close>

section \<open>Rows\<close>

text \<open>The caller, as the guards hand it to a service.\<close>

record auth_user =
  au_id :: string
  au_roles :: "string list"

record lms_user =
  us_id :: string
  us_full_name :: string
  us_status :: string
  us_deleted_at :: "int option"

record course =
  co_id :: string
  co_instructor_id :: string
  co_title :: string
  co_status :: string
  co_visibility :: string
  co_moderation :: string
  co_deleted_at :: "int option"

record lesson =
  ln_id :: string
  ln_course_id :: string
  ln_title :: string
  ln_type :: string
  ln_order_index :: int
  ln_duration_minutes :: "int option"
  ln_is_preview :: bool
  ln_is_required :: bool
  ln_deleted_at :: "int option"

record enrollment =
  en_user_id :: string
  en_course_id :: string
  en_status :: string
  en_completed_at :: "int option"

record learning_progress =
  lp_user_id :: string
  lp_course_id :: string
  lp_lesson_id :: string
  lp_status :: string
  lp_percent :: int
  lp_watched :: int
  lp_duration :: "int option"
  lp_last_position :: int
  lp_max_watched :: int
  lp_document :: int
  lp_completed_at :: "int option"
  lp_last_accessed_at :: "int option"

record access_grant =
  ag_id :: string
  ag_user_id :: string
  ag_course_id :: string
  ag_source_type :: string
  ag_source_id :: string
  ag_status :: string
  ag_starts_at :: int
  ag_ends_at :: "int option"
  ag_grace_ends_at :: "int option"
  ag_revoked_at :: "int option"
  ag_reason :: "string option"

text \<open>Early access that an order got from an unverified receipt, and what it created.\<close>

record receipt_generation =
  rg_id :: string
  rg_order_id :: string
  rg_claim_id :: string
  rg_buyer_id :: string
  rg_created_by :: string
  rg_number :: int
  rg_status :: string
  rg_access_starts_at :: int
  rg_closed_at :: "int option"
  rg_settlement_id :: "string option"

record receipt_effect =
  rx_id :: string
  rx_generation_id :: string
  rx_order_line_id :: string
  rx_effect_kind :: string
  rx_resource_type :: string
  rx_resource_id :: string

record assignment =
  as_id :: string
  as_course_id :: string
  as_lesson_id :: "string option"
  as_title :: string
  as_status :: string
  as_is_required :: bool
  as_deleted_at :: "int option"

record submission =
  su_id :: string
  su_assignment_id :: string
  su_user_id :: string

text \<open>JSON values as Prisma stores them; a number is given by the text \<^verbatim>\<open>JSON.stringify\<close>
  prints for it.\<close>

datatype json_value =
    JString string
  | JNumber string
  | JBool bool
  | JNull
  | JArray "json_value list"
  | JObject "(string \<times> json_value) list"

record quiz =
  qz_id :: string
  qz_course_id :: string
  qz_lesson_id :: "string option"
  qz_title :: string
  qz_description :: "string option"
  qz_passing_score :: js_double
  qz_time_limit :: "int option"
  qz_max_attempts :: "int option"
  qz_randomize_questions :: bool
  qz_randomize_options :: bool
  qz_show_correct :: bool
  qz_is_required :: bool
  qz_status :: string
  qz_updated_at :: int
  qz_deleted_at :: "int option"

record question =
  qu_id :: string
  qu_quiz_id :: string
  qu_type :: string
  qu_text :: string
  qu_options :: "json_value option"
  qu_correct :: json_value
  qu_explanation :: "string option"
  qu_points :: js_double
  qu_order_index :: int

record quiz_attempt =
  qa_id :: string
  qa_quiz_id :: string
  qa_user_id :: string
  qa_score :: "js_double option"
  qa_max_score :: "js_double option"
  qa_passed :: "bool option"
  qa_answers :: "(string \<times> json_value) list"
  qa_submitted_at :: "int option"
  qa_created_at :: int

record certificate_template =
  ct_id :: string
  ct_created_at :: int

record certificate =
  ce_id :: string
  ce_user_id :: string
  ce_course_id :: string
  ce_template_id :: string
  ce_code :: string
  ce_title :: string
  ce_status :: string
  ce_issued_at :: int
  ce_revoked_at :: "int option"
  ce_reason :: "string option"
  ce_verification_url :: string
  ce_qr_code_url :: string

section \<open>The state and its environment\<close>

record lms_db =
  users :: "lms_user list"
  courses :: "course list"
  lessons :: "lesson list"
  grants :: "access_grant list"
  generations :: "receipt_generation list"
  receipt_effects :: "receipt_effect list"
  enrollments :: "enrollment list"
  progress_rows :: "learning_progress list"
  assignments :: "assignment list"
  submissions :: "submission list"
  quizzes :: "quiz list"
  questions :: "question list"
  quiz_attempts :: "quiz_attempt list"
  templates :: "certificate_template list"
  certificates :: "certificate list"
  lms_audits :: "audit_row list"

record lms_env =
  lv_now :: int
  lv_fresh :: "string \<Rightarrow> string"
  lv_node_env :: "string option"
  lv_process_env :: "string \<Rightarrow> string option"
  lv_locale_compare :: "string \<Rightarrow> string \<Rightarrow> int"
  lv_encode_uri :: "string \<Rightarrow> string"
  lv_qr_code :: "string \<Rightarrow> string"

section \<open>Lookups\<close>

definition find_course :: "string \<Rightarrow> lms_db \<Rightarrow> course option" where
  "find_course i db = find (\<lambda>x. co_id x = i) (courses db)"

text \<open>\<^verbatim>\<open>findFirst({ where: { id, deletedAt: null } })\<close>\<close>

definition live_course :: "string \<Rightarrow> lms_db \<Rightarrow> course option" where
  "live_course i db = find (\<lambda>x. co_id x = i \<and> co_deleted_at x = None) (courses db)"

definition live_lesson :: "string \<Rightarrow> lms_db \<Rightarrow> lesson option" where
  "live_lesson i db = find (\<lambda>x. ln_id x = i \<and> ln_deleted_at x = None) (lessons db)"

definition find_enrollment :: "string \<Rightarrow> string \<Rightarrow> lms_db \<Rightarrow> enrollment option" where
  "find_enrollment u c db = find (\<lambda>x. en_user_id x = u \<and> en_course_id x = c) (enrollments db)"

definition find_progress :: "string \<Rightarrow> string \<Rightarrow> lms_db \<Rightarrow> learning_progress option" where
  "find_progress u l db = find (\<lambda>x. lp_user_id x = u \<and> lp_lesson_id x = l) (progress_rows db)"

definition add_lms_audit :: "audit_input \<Rightarrow> lms_db \<Rightarrow> lms_db result" where
  "add_lms_audit i db = and_then (audit_record i) (\<lambda>row. Inr (db\<lparr>lms_audits := lms_audits db @ [row]\<rparr>))"

lemma add_lms_audit_wp [wp]:
  "ok_all P (add_lms_audit i db) = (\<forall>row. audit_record i = Inr row \<longrightarrow> P (db\<lparr>lms_audits := lms_audits db @ [row]\<rparr>))"
  by (auto simp: ok_all_def add_lms_audit_def result_simps)

lemma add_lms_audit_Inr [result_simps]:
  "add_lms_audit i db = Inr db' \<longleftrightarrow> (\<exists>row. audit_record i = Inr row \<and> db' = db\<lparr>lms_audits := lms_audits db @ [row]\<rparr>)"
  by (auto simp: add_lms_audit_def result_simps)

text \<open>\<^verbatim>\<open>canManage\<close> of the quiz and assignment services: an administrator, or the instructor of
  the course.\<close>

definition can_manage :: "auth_user \<Rightarrow> string \<Rightarrow> bool" where
  "can_manage user instructor =
     (''platform_admin'' \<in> set (au_roles user) \<or> ''instructor'' \<in> set (au_roles user) \<and> au_id user = instructor)"

text \<open>The tables before anything happened, for examples.\<close>

definition empty_lms :: lms_db where
  "empty_lms = \<lparr>users = [], courses = [], lessons = [], grants = [], generations = [], receipt_effects = [], enrollments = [],
     progress_rows = [], assignments = [], submissions = [], quizzes = [], questions = [], quiz_attempts = [],
     templates = [], certificates = [], lms_audits = []\<rparr>"

definition plain_env :: lms_env where
  "plain_env = \<lparr>lv_now = 1000, lv_fresh = (\<lambda>s. s), lv_node_env = None, lv_process_env = (\<lambda>_. None),
     lv_locale_compare = (\<lambda>a b. if a < b then -1 else if b < a then 1 else 0), lv_encode_uri = (\<lambda>s. s),
     lv_qr_code = (\<lambda>s. s)\<rparr>"

end
