(* ===== verification/Commerce_Db.thy ===== *)
theory Commerce_Db
  imports Membership_Rules Learning_Db
begin

text \<open>
  The tables that orders, payments, the wallet and the revenue ledger share
  (\<^verbatim>\<open>prisma/schema.prisma\<close>), as lists of rows in one state, with the lookups the services
  use.  Columns that no modelled operation reads are left out.  An id the database or
  \<^verbatim>\<open>randomUUID\<close> generates is given by a function from its purpose, an argument of the
  operation.
\<close>

section \<open>Orders and payments\<close>

record commerce_order =
  or_id :: string
  or_buyer_id :: string
  or_status :: string
  or_fulfillment_status :: string
  or_currency :: string
  or_payable_amount :: int
  or_confirmed_settlement_id :: "string option"
  or_confirmed_at :: "int option"
  or_created_at :: int
  or_term_months :: "int option"

record payment_attempt =
  at_id :: string
  at_order_id :: string
  at_provider :: string
  at_payment_identity :: "string option"
  at_order_code :: "int option"
  at_status :: string
  at_amount :: int
  at_currency :: string
  at_expires_at :: "int option"
  at_closed_at :: "int option"
  at_paid_at :: "int option"

record payment_event =
  ev_id :: string
  ev_attempt_id :: string
  ev_provider :: string
  ev_identity :: string
  ev_payment_identity :: "string option"
  ev_settlement_reference :: "string option"
  ev_amount :: int
  ev_currency_code :: string
  ev_next_status :: string
  ev_occurred_at :: "int option"

record settlement =
  st_id :: string
  st_order_id :: string
  st_attempt_id :: "string option"
  st_event_id :: "string option"
  st_kind :: string
  st_disposition :: string
  st_provider :: "string option"
  st_reference :: "string option"
  st_amount :: int
  st_currency :: string
  st_settled_at :: int

record reservation =
  re_id :: string
  re_order_id :: string
  re_status :: string
  re_expires_at :: int

record lifecycle_event =
  lc_entity_type :: string
  lc_entity_id :: string
  lc_previous :: string
  lc_next :: string
  lc_actor_kind :: string
  lc_actor_id :: "string option"
  lc_operation_id :: string
  lc_reason :: string

record idempotency_record =
  ik_actor :: string
  ik_operation :: string
  ik_key_hash :: string
  ik_request_hash :: string

section \<open>Bank transfers\<close>

record bank_request =
  br_id :: string
  br_order_id :: string
  br_attempt_id :: string
  br_bank_bin :: string
  br_account_number :: string
  br_amount :: int
  br_content :: string
  br_status :: string
  br_created_at :: int
  br_expires_at :: int

record bank_evidence =
  be_id :: string
  be_request_id :: string
  be_bank_bin :: string
  be_account_number :: string
  be_transaction_id :: string
  be_amount :: int
  be_content :: string
  be_occurred_at :: "int option"
  be_statement_reference :: string
  be_statement_sha256 :: string
  be_recorded_by :: string
  be_exception :: "string option"

record bank_approval =
  ap_evidence_id :: string
  ap_actor_id :: string

record bank_support =
  bs_request_id :: string
  bs_actor_id :: string
  bs_reason :: string
  bs_key_hash :: string

section \<open>The internal wallet\<close>

record gds_wallet =
  gw_id :: string
  gw_buyer_id :: string
  gw_status :: string
  gw_available :: int
  gw_held :: int
  gw_debt :: int

record gds_hold =
  gh_wallet_id :: string
  gh_order_ref :: string
  gh_amount :: int
  gh_status :: string

record gds_topup =
  gt_id :: string
  gt_buyer_id :: string
  gt_wallet_id :: string
  gt_amount :: int
  gt_currency :: string
  gt_order_code :: int
  gt_account_hash :: string
  gt_settlement_hash :: "string option"
  gt_link_id :: "string option"
  gt_collection_ref :: "string option"
  gt_signature_at :: "int option"
  gt_reconciled_at :: "int option"
  gt_credited_at :: "int option"
  gt_status :: string

text \<open>The older top-ups, mirrored from a partner wallet.\<close>

record legacy_topup =
  lt_order_code :: int
  lt_link_id :: "string option"
  lt_collection_ref :: "string option"

record gds_journal =
  gj_wallet_id :: string
  gj_event_key :: string
  gj_kind :: string
  gj_amount :: int
  gj_available :: int
  gj_held :: int
  gj_clearing :: int
  gj_topup_id :: "string option"
  gj_collection_ref :: "string option"
  gj_order_ref :: "string option"

record withdrawal_settings =
  ws_minimum :: int
  ws_maximum :: int
  ws_version :: int
  ws_admission :: bool
  ws_processing :: bool
  ws_cutoff_at :: int
  ws_activated_at :: "int option"
  ws_verification_required :: bool

record gds_withdrawal =
  wd_id :: string
  wd_wallet_id :: string
  wd_owner_id :: string
  wd_key_hash :: string
  wd_amount :: int
  wd_bank_code :: string
  wd_account_number :: string
  wd_account_holder :: string
  wd_settings_version :: int
  wd_minimum :: int
  wd_maximum :: int
  wd_status :: string
  wd_admin_id :: "string option"
  wd_bank_ref :: "string option"
  wd_transferred_at :: "int option"
  wd_created_at :: int
  wd_verification_id :: "string option"
  wd_bank_bin :: "string option"
  wd_bank_name :: "string option"
  wd_bank_short_name :: "string option"
  wd_verified_at :: "int option"

record withdrawal_event =
  we_withdrawal_id :: string
  we_actor_id :: string
  we_from :: "string option"
  we_to :: string
  we_reason :: string
  we_bank_ref :: "string option"
  we_transferred_at :: "int option"

record account_verification =
  vf_id :: string
  vf_owner_id :: string
  vf_actor_id :: string
  vf_bank_code :: string
  vf_bank_bin :: string
  vf_bank_name :: string
  vf_bank_short_name :: string
  vf_account_number :: string
  vf_account_holder :: string
  vf_normalized_holder :: string
  vf_provider :: string
  vf_reference :: "string option"
  vf_purpose :: string
  vf_withdrawal_id :: "string option"
  vf_verified_at :: int
  vf_expires_at :: int

section \<open>Revenue\<close>

record participant =
  pp_course_id :: string
  pp_seller_id :: string
  pp_weight :: int
  pp_amount :: int

record revenue_snapshot =
  sn_id :: string
  sn_order_id :: string
  sn_product_type :: string
  sn_policy_id :: string
  sn_fee_bps :: int
  sn_basis :: int
  sn_platform :: int
  sn_seller :: int
  sn_participants :: "participant list"

record earning_period =
  ep_id :: string
  ep_snapshot_id :: string
  ep_seller_id :: string
  ep_course_id :: string
  ep_index :: nat
  ep_due_at :: int
  ep_amount :: int

record ledger_entry =
  le_period_id :: string
  le_source_key :: string
  le_refund_id :: "string option"
  le_kind :: string
  le_amount :: int
  le_created_at :: int

record refund_allocation =
  ra_id :: string
  ra_refund_id :: string
  ra_order_line_id :: string
  ra_amount :: int
  ra_refund_status :: string
  ra_settlement_id :: string
  ra_recorded_at :: int

record revenue_projection =
  rp_id :: string
  rp_period_id :: string
  rp_wallet_id :: string
  rp_applied :: int
  rp_historical :: int
  rp_review_required :: bool
  rp_reviewed_by :: "string option"
  rp_reviewed_at :: "int option"
  rp_review_reason :: "string option"
  rp_revision :: int

record revenue_effect =
  re_effect_id :: string
  re_projection_id :: string
  re_revision :: int
  re_delta :: int
  re_available :: int
  re_debt :: int

section \<open>Fulfilment, memberships and entitlements\<close>

record sale_line =
  sl_id :: string
  sl_order_id :: string
  sl_product_type :: string
  sl_reference_id :: string
  sl_seller_id :: string

record plan_course =
  pk_version_id :: string
  pk_course_id :: string

record plan_entitlement =
  pn_version_id :: string
  pn_definition_id :: string
  pn_value_type :: entitlement_value_type
  pn_reset :: entitlement_reset_period
  pn_boolean :: "bool option"
  pn_quota :: "int option"

record checkout_intent =
  ki_id :: string
  ki_order_id :: string
  ki_version_id :: string
  ki_starts_at :: int
  ki_ends_at :: int

record removed_course =
  rm_intent_id :: string
  rm_course_id :: string
  rm_grace_starts_at :: "int option"
  rm_grace_ends_at :: "int option"

record membership_subscription =
  ms_id :: string
  ms_user_id :: string
  ms_version_id :: string
  ms_order_line_id :: "string option"
  ms_status :: string
  ms_starts_at :: int
  ms_expires_at :: int

record entitlement_definition =
  df_id :: string
  df_code :: string
  df_display_name :: string
  df_description :: "string option"
  df_unit_label :: "string option"
  df_value_type :: entitlement_value_type
  df_reset :: entitlement_reset_period

record service_grant =
  sg_id :: string
  sg_user_id :: string
  sg_definition_id :: string
  sg_source_type :: string
  sg_source_id :: string
  sg_value_type :: entitlement_value_type
  sg_reset :: entitlement_reset_period
  sg_boolean :: "bool option"
  sg_quota :: "int option"
  sg_pool_id :: "string option"
  sg_status :: string
  sg_starts_at :: int
  sg_ends_at :: "int option"
  sg_revoked_at :: "int option"
  sg_created_at :: int

record quota_pool =
  qp_id :: string
  qp_line_id :: string
  qp_user_id :: string
  qp_definition_id :: string
  qp_value_type :: entitlement_value_type
  qp_reset :: entitlement_reset_period
  qp_boolean :: "bool option"
  qp_quota :: "int option"
  qp_starts_at :: int
  qp_ends_at :: "int option"

record entitlement_usage =
  eu_grant_id :: string
  eu_user_id :: string
  eu_key_hash :: string
  eu_request_hash :: string
  eu_quantity :: int
  eu_remaining :: "int option"
  eu_starts_at :: int
  eu_ends_at :: "int option"
  eu_created_at :: int

record fulfilment_effect =
  fe_order_id :: string
  fe_line_id :: string
  fe_effect_type :: string
  fe_source_id :: string
  fe_resource_type :: string
  fe_resource_id :: string

record outbox_event =
  ob_id :: string
  ob_event_key :: string
  ob_order_id :: string
  ob_user_id :: string
  ob_event_type :: string
  ob_status :: string
  ob_attempts :: int
  ob_last_at :: "int option"
  ob_dispatched_at :: "int option"
  ob_created_at :: int

record recovery_case =
  rk_id :: string
  rk_order_id :: string
  rk_settlement_id :: "string option"
  rk_attempt_id :: "string option"
  rk_kind :: string
  rk_reason :: string
  rk_source_key :: string
  rk_status :: string
  rk_checked_at :: "int option"
  rk_checks :: int

record receipt_claim =
  rl_id :: string
  rl_order_id :: string
  rl_buyer_id :: string
  rl_status :: string
  rl_expires_at :: int

record receipt_event =
  rv_generation_id :: string
  rv_actor_id :: string
  rv_action :: string
  rv_key_hash :: string
  rv_request_hash :: string
  rv_reason :: string
  rv_created_at :: int

section \<open>The state\<close>

text \<open>What the buyers are entitled to, and what it was given for.\<close>

record rights_db =
  sale_lines :: "sale_line list"
  plan_courses :: "plan_course list"
  plan_entitlements :: "plan_entitlement list"
  subscriptions :: "membership_subscription list"
  checkout_intents :: "checkout_intent list"
  removed_courses :: "removed_course list"
  definitions :: "entitlement_definition list"
  service_grants :: "service_grant list"
  quota_pools :: "quota_pool list"
  usages :: "entitlement_usage list"
  fulfilment_effects :: "fulfilment_effect list"
  outbox :: "outbox_event list"
  recovery_cases :: "recovery_case list"
  receipt_claims :: "receipt_claim list"
  receipt_events :: "receipt_event list"
  learning :: lms_db

record shop_db =
  orders :: "commerce_order list"
  attempts :: "payment_attempt list"
  payment_events :: "payment_event list"
  settlements :: "settlement list"
  reservations :: "reservation list"
  lifecycle :: "lifecycle_event list"
  audits :: "audit_row list"
  idempotency :: "idempotency_record list"
  bank_requests :: "bank_request list"
  evidence :: "bank_evidence list"
  approvals :: "bank_approval list"
  supports :: "bank_support list"
  active_admins :: "string list"
  wallets :: "gds_wallet list"
  holds :: "gds_hold list"
  topups :: "gds_topup list"
  legacy_topups :: "legacy_topup list"
  journal :: "gds_journal list"
  wd_settings :: withdrawal_settings
  withdrawals :: "gds_withdrawal list"
  withdrawal_events :: "withdrawal_event list"
  verifications :: "account_verification list"
  snapshots :: "revenue_snapshot list"
  periods :: "earning_period list"
  entries :: "ledger_entry list"
  refunds :: "refund_allocation list"
  projections :: "revenue_projection list"
  effects :: "revenue_effect list"
  rights :: rights_db

section \<open>Lookups\<close>

definition find_order :: "string \<Rightarrow> shop_db \<Rightarrow> commerce_order option" where
  "find_order i db = find (\<lambda>x. or_id x = i) (orders db)"

definition find_attempt :: "string \<Rightarrow> shop_db \<Rightarrow> payment_attempt option" where
  "find_attempt i db = find (\<lambda>x. at_id x = i) (attempts db)"

definition find_event :: "string \<Rightarrow> shop_db \<Rightarrow> payment_event option" where
  "find_event i db = find (\<lambda>x. ev_id x = i) (payment_events db)"

definition find_settlement :: "string \<Rightarrow> shop_db \<Rightarrow> settlement option" where
  "find_settlement i db = find (\<lambda>x. st_id x = i) (settlements db)"

definition find_wallet :: "string \<Rightarrow> shop_db \<Rightarrow> gds_wallet option" where
  "find_wallet i db = find (\<lambda>x. gw_id x = i) (wallets db)"

definition wallet_of_buyer :: "string \<Rightarrow> shop_db \<Rightarrow> gds_wallet option" where
  "wallet_of_buyer b db = find (\<lambda>x. gw_buyer_id x = b) (wallets db)"

definition hold_of_order :: "string \<Rightarrow> shop_db \<Rightarrow> gds_hold option" where
  "hold_of_order r db = find (\<lambda>x. gh_order_ref x = r) (holds db)"

definition journal_of_key :: "string \<Rightarrow> shop_db \<Rightarrow> gds_journal option" where
  "journal_of_key k db = find (\<lambda>x. gj_event_key x = k) (journal db)"

definition request_of_order :: "string \<Rightarrow> shop_db \<Rightarrow> bank_request option" where
  "request_of_order r db = find (\<lambda>x. br_order_id x = r) (bank_requests db)"

definition add_audit :: "audit_input \<Rightarrow> shop_db \<Rightarrow> shop_db result" where
  "add_audit i db = and_then (audit_record i) (\<lambda>row. Inr (db\<lparr>audits := audits db @ [row]\<rparr>))"

lemma add_audit_Inr [result_simps]:
  "add_audit i db = Inr db' \<longleftrightarrow> (\<exists>row. audit_record i = Inr row \<and> db' = db\<lparr>audits := audits db @ [row]\<rparr>)"
  by (auto simp: add_audit_def result_simps)

definition add_lifecycle :: "lifecycle_event \<Rightarrow> shop_db \<Rightarrow> shop_db" where
  "add_lifecycle e db = db\<lparr>lifecycle := lifecycle db @ [e]\<rparr>"

lemma commerce_wp [wp]:
  "ok_all P (add_audit i db) = (\<forall>row. audit_record i = Inr row \<longrightarrow> P (db\<lparr>audits := audits db @ [row]\<rparr>))"
  by (auto simp: ok_all_def result_simps)

text \<open>The tables before anything happened, for examples.\<close>

definition empty_rights :: rights_db where
  "empty_rights = \<lparr>sale_lines = [], plan_courses = [], plan_entitlements = [], subscriptions = [], checkout_intents = [],
     removed_courses = [], definitions = [], service_grants = [], quota_pools = [], usages = [], fulfilment_effects = [],
     outbox = [], recovery_cases = [], receipt_claims = [], receipt_events = [], learning = empty_lms\<rparr>"

definition empty_shop :: shop_db where
  "empty_shop = \<lparr>orders = [], attempts = [], payment_events = [], settlements = [], reservations = [], lifecycle = [],
     audits = [], idempotency = [], bank_requests = [], evidence = [], approvals = [], supports = [], active_admins = [],
     wallets = [], holds = [], topups = [], legacy_topups = [], journal = [],
     wd_settings = \<lparr>ws_minimum = 0, ws_maximum = 0, ws_version = 1, ws_admission = False, ws_processing = False,
       ws_cutoff_at = 0, ws_activated_at = None, ws_verification_required = False\<rparr>,
     withdrawals = [], withdrawal_events = [], verifications = [], snapshots = [], periods = [], entries = [], refunds = [],
     projections = [], effects = [], rights = empty_rights\<rparr>"

end
