(* ===== verification/Bank_Transfer.thy ===== *)
theory Bank_Transfer
  imports Commerce_Db Viet_Qr
begin

text \<open>
  Manual bank transfers: \<^verbatim>\<open>bank-transfer-policy.ts\<close> (the QR payload is in Viet-Qr), \<^verbatim>\<open>bank-transfer-proof.ts\<close> and
  \<^verbatim>\<open>bank-transfer.service.ts\<close> under \<^verbatim>\<open>src/modules/payments\<close>.
  The switches of the environment, the allow list of operators, the clock, SHA-256 and the random
  ids are arguments, and so is the fulfilment of a confirmed order, which runs after the
  transaction.  Rendering the QR image is left out: the payload stands for it.
\<close>

section \<open>The policy\<close>

definition bank_transfer_enabled :: "string \<Rightarrow> string option \<Rightarrow> bool" where
  "bank_transfer_enabled env flag =
     ((env = ''development'' \<or> env = ''test'') \<and> flag = Some ''true'')"

definition sandbox_bank_bin :: string where
  "sandbox_bank_bin = ''970422''"

definition sandbox_account :: string where
  "sandbox_account = ''0000000000''"

definition classify_bank_evidence :: "bank_request \<Rightarrow> bank_evidence \<Rightarrow> int \<Rightarrow> string option" where
  "classify_bank_evidence r e now =
     (if be_bank_bin e \<noteq> br_bank_bin r \<or> be_account_number e \<noteq> br_account_number r then Some ''ACCOUNT_MISMATCH''
      else if be_amount e < br_amount r then Some ''UNDERPAID''
      else if be_amount e > br_amount r then Some ''OVERPAID''
      else if be_content e \<noteq> br_content r then Some ''CONTENT_MISMATCH''
      else case be_occurred_at e of
        None \<Rightarrow> Some ''TIME_MISMATCH''
      | Some t \<Rightarrow>
          if t < br_created_at r \<or> t > now then Some ''TIME_MISMATCH''
          else if t \<ge> br_expires_at r then Some ''LATE_TRANSFER''
          else None)"

section \<open>The environment of the service\<close>

record bank_env =
  bk_enabled :: bool
  bk_operators :: "string list"
  bk_gds_exclusive :: bool
  bk_sha :: "string \<Rightarrow> string"

definition assert_enabled :: "bank_env \<Rightarrow> unit result" where
  "assert_enabled env = throw_if (\<not> bk_enabled env) (ServiceUnavailableException ''BANK_TRANSFER_DISABLED'') (Inr ())"

definition bank_operator :: "bank_env \<Rightarrow> string \<Rightarrow> shop_db \<Rightarrow> unit result" where
  "bank_operator env actor db =
     and_then (assert_enabled env) (\<lambda>_.
     throw_if (actor \<notin> set (bk_operators env) \<or> actor \<notin> set (active_admins db))
       (ForbiddenException ''Bank reconciliation operator authorization required.'') (Inr ()))"

definition owns_bank_order :: "bank_env \<Rightarrow> string \<Rightarrow> string \<Rightarrow> shop_db \<Rightarrow> bool" where
  "owns_bank_order env learner order_id db =
     (bk_enabled env \<and>
      (case find (\<lambda>x. or_id x = order_id \<and> or_buyer_id x = learner) (orders db) of
         None \<Rightarrow> False | Some _ \<Rightarrow> request_of_order order_id db \<noteq> None))"

definition bank_idempotency :: "bank_env \<Rightarrow> string \<Rightarrow> string \<Rightarrow> string option \<Rightarrow> string \<Rightarrow> shop_db \<Rightarrow> shop_db result" where
  "bank_idempotency env actor op key request db =
     (case key of
        None \<Rightarrow> Inl (ConflictException ''INVALID_IDEMPOTENCY_KEY'')
      | Some k \<Rightarrow>
          throw_if (\<not> is_request_key k)
            (ConflictException ''INVALID_IDEMPOTENCY_KEY'') (
          let kh = bk_sha env k; rh = bk_sha env request in
          case find (\<lambda>r. ik_actor r = actor \<and> ik_operation r = op \<and> ik_key_hash r = kh) (idempotency db) of
            Some existing \<Rightarrow>
              throw_if (ik_request_hash existing \<noteq> rh) (ConflictException ''IDEMPOTENCY_KEY_REUSED'') (Inr db)
          | None \<Rightarrow>
              Inr (db\<lparr>idempotency := idempotency db @
                [\<lparr>ik_actor = actor, ik_operation = op, ik_key_hash = kh, ik_request_hash = rh\<rparr>]\<rparr>)))"

definition bank_lifecycle ::
  "string \<Rightarrow> string \<Rightarrow> string \<Rightarrow> string \<Rightarrow> string option \<Rightarrow> string \<Rightarrow> string \<Rightarrow> shop_db \<Rightarrow> shop_db" where
  "bank_lifecycle ty i prev nxt actor op reason db =
     add_lifecycle \<lparr>lc_entity_type = ty, lc_entity_id = i, lc_previous = prev, lc_next = nxt,
       lc_actor_kind = (case actor of None \<Rightarrow> ''system'' | Some _ \<Rightarrow> ''user''), lc_actor_id = actor,
       lc_operation_id = op, lc_reason = reason\<rparr> db"

definition set_attempt :: "string \<Rightarrow> (payment_attempt \<Rightarrow> payment_attempt) \<Rightarrow> shop_db \<Rightarrow> shop_db" where
  "set_attempt i f db = db\<lparr>attempts := update_where (\<lambda>a. at_id a = i) f (attempts db)\<rparr>"

definition set_order :: "string \<Rightarrow> (commerce_order \<Rightarrow> commerce_order) \<Rightarrow> shop_db \<Rightarrow> shop_db" where
  "set_order i f db = db\<lparr>orders := update_where (\<lambda>x. or_id x = i) f (orders db)\<rparr>"

definition set_request_status :: "string \<Rightarrow> string \<Rightarrow> shop_db \<Rightarrow> shop_db" where
  "set_request_status i s db =
     db\<lparr>bank_requests := update_where (\<lambda>r. br_id r = i) (\<lambda>r. r\<lparr>br_status := s\<rparr>) (bank_requests db)\<rparr>"

text \<open>Every reservation of the order that is still reserved moves to a final status, with its event.\<close>

fun finish_reservations ::
  "(string \<Rightarrow> string) \<Rightarrow> string \<Rightarrow> string option \<Rightarrow> string \<Rightarrow> reservation list \<Rightarrow> shop_db \<Rightarrow> shop_db" where
  "finish_reservations fresh status actor reason [] db = db"
| "finish_reservations fresh status actor reason (r # rs) db =
     finish_reservations fresh status actor reason rs
       (bank_lifecycle ''reservation'' (re_id r) ''reserved'' status actor (fresh (''reservation:'' @ re_id r)) reason
         (db\<lparr>reservations := update_where (\<lambda>x. re_id x = re_id r) (\<lambda>x. x\<lparr>re_status := status\<rparr>) (reservations db)\<rparr>))"

definition open_reservations :: "string \<Rightarrow> shop_db \<Rightarrow> reservation list" where
  "open_reservations order_id db =
     filter (\<lambda>r. re_order_id r = order_id \<and> re_status r = ''reserved'') (reservations db)"

definition open_request :: "string \<Rightarrow> bool" where
  "open_request s = (s \<in> set [''PENDING'', ''UNDER_REVIEW'', ''NEEDS_SUPPORT''])"

definition closed_request :: "string \<Rightarrow> bool" where
  "closed_request s = (s \<in> set [''PAID'', ''CANCELLED'', ''EXPIRED''])"

section \<open>Creating and closing a request\<close>

definition order_of_buyer :: "string \<Rightarrow> string \<Rightarrow> shop_db \<Rightarrow> commerce_order option" where
  "order_of_buyer order_id learner db =
     find (\<lambda>x. or_id x = order_id \<and> or_buyer_id x = learner) (orders db)"

definition transfer_content_of :: "string \<Rightarrow> string" where
  "transfer_content_of i = ''EDUAI'' @ js_upper (take 20 (filter (\<lambda>c. c \<noteq> CHR ''-'') i))"

definition bank_create ::
  "bank_env \<Rightarrow> string \<Rightarrow> string \<Rightarrow> string option \<Rightarrow> (string \<Rightarrow> string) \<Rightarrow> int \<Rightarrow> (shop_db, unit) txn" where
  "bank_create env learner order_id key fresh now db =
     some_or (NotFoundException ''Payment request was not found.'') (order_of_buyer order_id learner db) (\<lambda>order.
     and_then (bank_idempotency env learner ''bank.create'' key order_id db) (\<lambda>db1.
     if request_of_order order_id db1 \<noteq> None then Inr ((), db1)
     else
     throw_if (or_status order \<noteq> ''pending_payment'' \<or> or_currency order \<noteq> ''VND''
         \<or> or_payable_amount order \<le> 0 \<or> or_payable_amount order > max_safe_integer)
       (ConflictException ''ORDER_NOT_PAYABLE'') (
     throw_if (bk_gds_exclusive env \<and> hold_of_order order_id db1 \<noteq> None)
       (ConflictException ''PAYMENT_METHOD_ALREADY_SELECTED'') (
     throw_if (list_ex (\<lambda>a. at_order_id a = order_id \<and> (at_status a = ''created'' \<or> at_status a = ''pending'')) (attempts db1))
       (ConflictException ''PAYMENT_METHOD_ALREADY_SELECTED'') (
     let expires = Min (insert (now + 900000) (re_expires_at ` set (open_reservations order_id db1))) in
     throw_if (expires \<le> now) (ConflictException ''ORDER_EXPIRED'') (
     let i = fresh ''request''; attempt = fresh ''attempt'' in
     throw_if (list_ex (\<lambda>r. br_content r = transfer_content_of i) (bank_requests db1)) (PrismaError ''P2002'') (
     and_then (add_audit \<lparr>ai_actor_kind = None, ai_actor_id = Some learner, ai_action = ''PAYMENT_REQUEST_CREATED'',
         ai_target_type = ''commerce_order'', ai_target_id = order_id,
         ai_metadata = [(''operationId'', MString (fresh ''operation'')), (''paymentAttemptId'', MString attempt),
           (''provider'', MString ''bank_transfer''), (''sandbox'', MBool True)]\<rparr>
       (bank_lifecycle ''payment'' attempt ''created'' ''pending'' (Some learner) (fresh ''operation'')
          ''BANK_SANDBOX_REQUEST_CREATED''
         (db1\<lparr>attempts := attempts db1 @ [\<lparr>at_id = attempt, at_order_id = order_id, at_provider = ''bank_transfer'',
               at_payment_identity = Some i, at_order_code = None, at_status = ''pending'',
               at_amount = or_payable_amount order, at_currency = ''VND'', at_expires_at = Some expires,
               at_closed_at = None, at_paid_at = None\<rparr>],
            bank_requests := bank_requests db1 @ [\<lparr>br_id = i, br_order_id = order_id, br_attempt_id = attempt,
               br_bank_bin = sandbox_bank_bin, br_account_number = sandbox_account,
               br_amount = or_payable_amount order, br_content = transfer_content_of i, br_status = ''PENDING'',
               br_created_at = now, br_expires_at = expires\<rparr>]\<rparr>)))
       (\<lambda>db2. Inr ((), db2)))))))))"

definition bank_close ::
  "bank_env \<Rightarrow> string \<Rightarrow> string \<Rightarrow> string \<Rightarrow> string option \<Rightarrow> (string \<Rightarrow> string) \<Rightarrow> int \<Rightarrow> (shop_db, unit) txn" where
  "bank_close env learner order_id status key fresh now db =
     some_or (NotFoundException ''Not Found'') (order_of_buyer order_id learner db) (\<lambda>order.
     and_then (if status = ''CANCELLED'' then bank_idempotency env learner ''bank.cancel'' key order_id db else Inr db) (\<lambda>db1.
     and_then (or_throw (request_of_order order_id db1)) (\<lambda>request.
     if closed_request (br_status request) then Inr ((), db1)
     else
     throw_if (or_status order \<noteq> ''pending_payment'') (ConflictException ''ORDER_STATE_CHANGED'') (
     let expired = (status = ''EXPIRED'');
         nxt = (if expired then ''expired'' else ''cancelled'');
         actor = (if expired then None else Some learner);
         db2 = bank_lifecycle ''payment'' (br_attempt_id request) ''pending'' nxt actor (fresh ''payment'')
                 ''BANK_WINDOW_CLOSED_TRANSFER_STILL_POSSIBLE''
                 (set_attempt (br_attempt_id request) (\<lambda>a. a\<lparr>at_status := nxt, at_closed_at := Some now\<rparr>) db1);
         db3 = set_request_status (br_id request) status db2;
         db4 = bank_lifecycle ''order'' order_id ''pending_payment'' nxt actor (fresh ''order'') ''BANK_WINDOW_CLOSED''
                 (set_order order_id (\<lambda>x. x\<lparr>or_status := nxt\<rparr>) db3);
         db5 = finish_reservations fresh (if expired then ''expired'' else ''released'') actor ''BANK_WINDOW_CLOSED''
                 (open_reservations order_id db4) db4 in
     and_then (add_audit \<lparr>ai_actor_kind = (if expired then Some ''SYSTEM'' else None), ai_actor_id = actor,
         ai_action = (if expired then ''PAYMENT_REQUEST_EXPIRED'' else ''PAYMENT_REQUEST_CANCELLED''),
         ai_target_type = ''commerce_order'', ai_target_id = order_id,
         ai_metadata = [(''operationId'', MString (fresh ''order'')), (''provider'', MString ''bank_transfer'')]\<rparr> db5)
       (\<lambda>db6. Inr ((), db6))))))"

record bank_response =
  bp_order_id :: string
  bp_order_status :: string
  bp_attempt_id :: string
  bp_status :: string
  bp_amount :: int
  bp_expires_at :: int
  bp_content :: string
  bp_qr_payload :: "string option"

definition bank_status_response :: "commerce_order \<Rightarrow> bank_request \<Rightarrow> bank_response result" where
  "bank_status_response order r =
     and_then (if open_request (br_status r)
               then and_then (create_viet_qr_payload (br_bank_bin r) (br_account_number r) (br_amount r) (br_content r))
                      (\<lambda>p. Inr (Some p))
               else Inr None)
       (\<lambda>qr. Inr \<lparr>bp_order_id = or_id order,
          bp_order_status = (if br_status r = ''EXPIRED'' then ''EXPIRED'' else js_upper (or_status order)),
          bp_attempt_id = br_attempt_id r, bp_status = br_status r, bp_amount = br_amount r,
          bp_expires_at = br_expires_at r, bp_content = br_content r, bp_qr_payload = qr\<rparr>)"

text \<open>Reading the status closes a request whose window has passed.\<close>

definition bank_status ::
  "bank_env \<Rightarrow> string \<Rightarrow> string \<Rightarrow> (string \<Rightarrow> string) \<Rightarrow> int \<Rightarrow> (shop_db, bank_response) txn" where
  "bank_status env learner order_id fresh now db =
     and_then (assert_enabled env) (\<lambda>_.
     some_or (NotFoundException ''Payment request was not found.'') (order_of_buyer order_id learner db) (\<lambda>order.
     some_or (NotFoundException ''Bank payment request was not found.'') (request_of_order order_id db) (\<lambda>request.
     and_then (if open_request (br_status request) \<and> br_expires_at request \<le> now
               then and_then (bank_close env learner order_id ''EXPIRED'' None fresh now db) (\<lambda>r. Inr (snd r))
               else Inr db) (\<lambda>db1.
     and_then (or_throw (request_of_order order_id db1)) (\<lambda>r.
     and_then (bank_status_response order r) (\<lambda>res. Inr (res, db1)))))))"

definition bank_support_request ::
  "bank_env \<Rightarrow> string \<Rightarrow> string \<Rightarrow> string option \<Rightarrow> string \<Rightarrow> (shop_db, unit) txn" where
  "bank_support_request env learner order_id key reason db =
     some_or (NotFoundException ''Not Found'') (order_of_buyer order_id learner db) (\<lambda>order.
     and_then (bank_idempotency env learner ''bank.support'' key (order_id @ '':'' @ reason) db) (\<lambda>db1.
     and_then (or_throw (request_of_order order_id db1)) (\<lambda>request.
     let kh = bk_sha env (the key) in
     if list_ex (\<lambda>s. bs_actor_id s = learner \<and> bs_key_hash s = kh) (supports db1) then Inr ((), db1)
     else
     let db2 = db1\<lparr>supports := supports db1 @ [\<lparr>bs_request_id = br_id request, bs_actor_id = learner,
                     bs_reason = reason, bs_key_hash = kh\<rparr>]\<rparr>;
         db3 = (if br_status request = ''PENDING'' \<or> br_status request = ''UNDER_REVIEW''
                then set_request_status (br_id request) ''NEEDS_SUPPORT'' db2 else db2) in
     and_then (add_audit \<lparr>ai_actor_kind = None, ai_actor_id = Some learner,
         ai_action = ''PAYMENT_WEBHOOK_RECONCILIATION_REQUIRED'', ai_target_type = ''commerce_bank_transfer_request'',
         ai_target_id = br_id request, ai_metadata = [(''reasonCode'', MString ''LEARNER_REQUESTED_TRACE''),
           (''reasonDigest'', MString (bk_sha env reason))]\<rparr> db3) (\<lambda>db4. Inr ((), db4)))))"

text \<open>The public operations: the transaction, then the status as a separate one.\<close>

definition bank_create_request ::
  "bank_env \<Rightarrow> string \<Rightarrow> string \<Rightarrow> string option \<Rightarrow> (string \<Rightarrow> string) \<Rightarrow> int \<Rightarrow> shop_db \<Rightarrow> bank_response result \<times> shop_db" where
  "bank_create_request env learner order_id key fresh now db =
     (case and_then (assert_enabled env) (\<lambda>_. bank_create env learner order_id key fresh now db) of
        Inl err \<Rightarrow> (Inl err, db)
      | Inr (_, db1) \<Rightarrow> (case bank_status env learner order_id fresh now db1 of
          Inl err \<Rightarrow> (Inl err, db1) | Inr (res, db2) \<Rightarrow> (Inr res, db2)))"

definition bank_cancel ::
  "bank_env \<Rightarrow> string \<Rightarrow> string \<Rightarrow> string option \<Rightarrow> (string \<Rightarrow> string) \<Rightarrow> int
   \<Rightarrow> shop_db \<Rightarrow> (string \<times> string \<times> string) result \<times> shop_db" where
  "bank_cancel env learner order_id key fresh now db =
     (case and_then (assert_enabled env) (\<lambda>_. bank_close env learner order_id ''CANCELLED'' key fresh now db) of
        Inl err \<Rightarrow> (Inl err, db)
      | Inr (_, db1) \<Rightarrow> (case bank_status env learner order_id fresh now db1 of
          Inl err \<Rightarrow> (Inl err, db1)
        | Inr (res, db2) \<Rightarrow> (Inr (order_id, bp_order_status res, bp_status res), db2)))"

definition bank_ask_support ::
  "bank_env \<Rightarrow> string \<Rightarrow> string \<Rightarrow> string option \<Rightarrow> string \<Rightarrow> (string \<Rightarrow> string) \<Rightarrow> int
   \<Rightarrow> shop_db \<Rightarrow> bank_response result \<times> shop_db" where
  "bank_ask_support env learner order_id key reason fresh now db =
     (case and_then (assert_enabled env) (\<lambda>_. bank_support_request env learner order_id key reason db) of
        Inl err \<Rightarrow> (Inl err, db)
      | Inr (_, db1) \<Rightarrow> (case bank_status env learner order_id fresh now db1 of
          Inl err \<Rightarrow> (Inl err, db1) | Inr (res, db2) \<Rightarrow> (Inr res, db2)))"

text \<open>The receiver an administrator may preview as a QR code; it is never a checkout receiver.\<close>

definition plain_name :: "nat \<Rightarrow> nat \<Rightarrow> string \<Rightarrow> bool" where
  "plain_name lo hi s =
     (lo \<le> length s \<and> length s \<le> hi \<and> list_all (\<lambda>c. c \<notin> {CHR 0x0A, CHR 0x0D, CHR ''<'', CHR ''>''}) s)"

definition bank_qr_preview_receiver ::
  "(string \<Rightarrow> string option) \<Rightarrow> (string \<times> string \<times> string \<times> string) option result" where
  "bank_qr_preview_receiver env =
     (if env ''BANK_TRANSFER_PREVIEW_ENABLED'' \<noteq> Some ''true'' then Inr None
      else
        let trimmed = (\<lambda>k. case env k of None \<Rightarrow> [] | Some v \<Rightarrow> js_trim v);
            name = trimmed ''BANK_TRANSFER_RECEIVER_BANK_NAME'';
            bin = trimmed ''BANK_TRANSFER_RECEIVER_BANK_BIN'';
            account = trimmed ''BANK_TRANSFER_RECEIVER_ACCOUNT_NUMBER'';
            holder = trimmed ''BANK_TRANSFER_RECEIVER_NAME'' in
        throw_if (\<not> plain_name 2 80 name \<or> \<not> (length bin = 6 \<and> list_all digit_char bin)
            \<or> \<not> (6 \<le> length account \<and> length account \<le> 19 \<and> list_all digit_char account)
            \<or> \<not> plain_name 5 160 holder \<or> account = sandbox_account)
          (BadRequestException ''Invalid bank QR preview receiver configuration.'')
          (Inr (Some (name, bin, account, holder))))"

definition preview_bank_qr :: "(string \<Rightarrow> string option) \<Rightarrow> (string \<times> string) result" where
  "preview_bank_qr env =
     and_then (bank_qr_preview_receiver env) (\<lambda>m.
     some_or (ServiceUnavailableException ''BANK_QR_PREVIEW_DISABLED'') m (\<lambda>(name, bin, account, holder).
     and_then (create_viet_qr_payload bin account 1000 ''EDUAIPREVIEW'') (\<lambda>payload.
     Inr (''EDUAIPREVIEW'', payload))))"

section \<open>Statements and approvals\<close>

record statement_input =
  si_source :: string
  si_bank_bin :: string
  si_account_number :: string
  si_transaction_id :: string
  si_amount :: int
  si_content :: string
  si_occurred_at :: "int option"
  si_statement_reference :: string
  si_statement_sha256 :: string
  si_suspicious :: bool

definition record_statement ::
  "bank_env \<Rightarrow> (string \<Rightarrow> statement_input \<Rightarrow> string) \<Rightarrow> string \<Rightarrow> string \<Rightarrow> string option \<Rightarrow> statement_input
   \<Rightarrow> (string \<Rightarrow> string) \<Rightarrow> int \<Rightarrow> (shop_db, string \<times> string option) txn" where
  "record_statement env to_json actor request_id key input fresh now db =
     and_then (assert_enabled env) (\<lambda>_.
     throw_if (si_source input \<noteq> ''BANK_STATEMENT_CHECKED'') (ConflictException ''BANK_STATEMENT_SOURCE_REQUIRED'') (
     and_then (bank_operator env actor db) (\<lambda>_.
     and_then (or_throw (find (\<lambda>r. br_id r = request_id) (bank_requests db))) (\<lambda>request.
     and_then (bank_idempotency env actor ''bank.statement'' key (to_json request_id input) db) (\<lambda>db1.
     case find (\<lambda>e. be_bank_bin e = si_bank_bin input \<and> be_account_number e = si_account_number input
         \<and> be_transaction_id e = si_transaction_id input) (evidence db1) of
       Some previous \<Rightarrow>
         throw_if (be_request_id previous \<noteq> request_id \<or> be_statement_sha256 previous \<noteq> si_statement_sha256 input
             \<or> be_amount previous \<noteq> si_amount input \<or> be_content previous \<noteq> si_content input
             \<or> be_occurred_at previous \<noteq> si_occurred_at input)
           (ConflictException ''BANK_TRANSACTION_ALREADY_RECORDED'')
           (Inr ((be_id previous, be_exception previous), db1))
     | None \<Rightarrow>
         let e0 = \<lparr>be_id = fresh ''evidence'', be_request_id = request_id, be_bank_bin = si_bank_bin input,
                   be_account_number = si_account_number input, be_transaction_id = si_transaction_id input,
                   be_amount = si_amount input, be_content = si_content input, be_occurred_at = si_occurred_at input,
                   be_statement_reference = si_statement_reference input,
                   be_statement_sha256 = si_statement_sha256 input, be_recorded_by = actor, be_exception = None\<rparr>;
             ex = (if si_suspicious input then Some ''SUSPECTED_TRANSFER''
                   else case classify_bank_evidence request e0 now of
                     Some c \<Rightarrow> Some c
                   | None \<Rightarrow> if closed_request (br_status request) then Some ''CLOSED_REQUEST'' else None);
             e = e0\<lparr>be_exception := ex\<rparr>;
             db2 = db1\<lparr>evidence := evidence db1 @ [e]\<rparr>;
             db3 = (if \<not> closed_request (br_status request)
                    then set_request_status request_id (if ex \<noteq> None then ''NEEDS_SUPPORT'' else ''UNDER_REVIEW'') db2
                    else db2) in
         and_then (add_audit \<lparr>ai_actor_kind = None, ai_actor_id = Some actor,
             ai_action = ''PAYMENT_RECONCILIATION_CHECKED'', ai_target_type = ''commerce_bank_statement_evidence'',
             ai_target_id = be_id e, ai_metadata = [(''requestId'', MString request_id),
               (''exceptionReason'', case ex of None \<Rightarrow> MNull | Some x \<Rightarrow> MString x),
               (''statementSha256'', MString (si_statement_sha256 input))]\<rparr> db3)
           (\<lambda>db4. Inr ((be_id e, ex), db4)))))))"

record approval_input =
  av_source :: string
  av_statement_sha256 :: string
  av_transaction_id :: string
  av_amount :: int
  av_content :: string
  av_account_number :: string
  av_reason :: "string option"

record approval_result =
  aq_order_id :: string
  aq_settlement_id :: "string option"
  aq_status :: string

fun all_operators :: "bank_env \<Rightarrow> bank_approval list \<Rightarrow> shop_db \<Rightarrow> unit result" where
  "all_operators env [] db = Inr ()"
| "all_operators env (a # rest) db = and_then (bank_operator env (ap_actor_id a) db) (\<lambda>_. all_operators env rest db)"

text \<open>The writes that turn an approved statement into a confirmed order.\<close>

definition confirm_bank_payment ::
  "string \<Rightarrow> bank_request \<Rightarrow> bank_evidence \<Rightarrow> (string \<Rightarrow> string) \<Rightarrow> int \<Rightarrow> shop_db \<Rightarrow> shop_db" where
  "confirm_bank_payment actor request e fresh now db =
     (let occurred = the (be_occurred_at e);
          db1 = db\<lparr>payment_events := payment_events db @ [\<lparr>ev_id = fresh ''event'',
                  ev_attempt_id = br_attempt_id request, ev_provider = ''bank_transfer'', ev_identity = be_id e,
                  ev_payment_identity = Some (br_id request), ev_settlement_reference = Some (be_id e),
                  ev_amount = br_amount request, ev_currency_code = ''VND'', ev_next_status = ''paid'',
                  ev_occurred_at = be_occurred_at e\<rparr>],
                settlements := settlements db @ [\<lparr>st_id = fresh ''settlement'', st_order_id = br_order_id request,
                  st_attempt_id = Some (br_attempt_id request), st_event_id = Some (fresh ''event''),
                  st_kind = ''provider_collection'', st_disposition = ''matched'', st_provider = Some ''bank_transfer'',
                  st_reference = Some (be_id e), st_amount = br_amount request, st_currency = ''VND'',
                  st_settled_at = occurred\<rparr>]\<rparr>;
          db2 = bank_lifecycle ''payment'' (br_attempt_id request) ''pending'' ''paid'' (Some actor) (fresh ''payment'')
                  ''BANK_DUAL_STATEMENT_CONFIRMED''
                  (set_attempt (br_attempt_id request) (\<lambda>a. a\<lparr>at_status := ''paid'', at_paid_at := Some occurred\<rparr>) db1);
          db3 = set_request_status (br_id request) ''PAID'' db2;
          db4 = bank_lifecycle ''order'' (br_order_id request) ''pending_payment'' ''confirmed'' (Some actor) (fresh ''order'')
                  ''BANK_DUAL_STATEMENT_CONFIRMED''
                  (set_order (br_order_id request) (\<lambda>x. x\<lparr>or_status := ''confirmed'', or_confirmed_at := Some now,
                     or_confirmed_settlement_id := Some (fresh ''settlement'')\<rparr>) db3)
      in finish_reservations fresh ''consumed'' (Some actor) ''BANK_DUAL_STATEMENT_CONFIRMED''
           (open_reservations (br_order_id request) db) db4)"

definition approve_txn ::
  "bank_env \<Rightarrow> (string \<Rightarrow> approval_input \<Rightarrow> string) \<Rightarrow> string \<Rightarrow> string \<Rightarrow> string option \<Rightarrow> approval_input
   \<Rightarrow> (string \<Rightarrow> string) \<Rightarrow> int \<Rightarrow> (shop_db, approval_result) txn" where
  "approve_txn env to_json actor evidence_id key input fresh now db =
     and_then (bank_operator env actor db) (\<lambda>_.
     and_then (or_throw (find (\<lambda>e. be_id e = evidence_id) (evidence db))) (\<lambda>e.
     throw_if (av_source input \<noteq> ''BANK_STATEMENT_CHECKED'' \<or> av_statement_sha256 input \<noteq> be_statement_sha256 e
         \<or> av_transaction_id input \<noteq> be_transaction_id e \<or> av_amount input \<noteq> be_amount e
         \<or> av_content input \<noteq> be_content e \<or> av_account_number input \<noteq> be_account_number e)
       (ConflictException ''BANK_INDEPENDENT_REVIEW_MISMATCH'') (
     and_then (or_throw (find (\<lambda>r. br_id r = be_request_id e) (bank_requests db))) (\<lambda>request.
     and_then (bank_idempotency env actor ''bank.approve'' key (to_json evidence_id input) db) (\<lambda>db1.
     if br_status request = ''PAID'' then
       some_or (ConflictException ''BANK_TRANSACTION_NOT_CANONICAL'')
         (find (\<lambda>s. st_provider s = Some ''bank_transfer'' \<and> st_reference s = Some (be_id e)) (settlements db1)) (\<lambda>s.
         Inr (\<lparr>aq_order_id = br_order_id request, aq_settlement_id = Some (st_id s), aq_status = ''PAID''\<rparr>, db1))
     else
     throw_if (opt_truthy (be_exception e) \<or> classify_bank_evidence request e now \<noteq> None
         \<or> br_expires_at request \<le> now \<or> br_status request \<noteq> ''UNDER_REVIEW'')
       (ConflictException ''BANK_EVIDENCE_REQUIRES_SUPPORT'') (
     let db2 = (if list_ex (\<lambda>a. ap_evidence_id a = evidence_id \<and> ap_actor_id a = actor) (approvals db1) then db1
                else db1\<lparr>approvals := approvals db1 @ [\<lparr>ap_evidence_id = evidence_id, ap_actor_id = actor\<rparr>]\<rparr>);
         found = filter (\<lambda>a. ap_evidence_id a = evidence_id) (approvals db2) in
     and_then (all_operators env found db2) (\<lambda>_.
     and_then (add_audit \<lparr>ai_actor_kind = None, ai_actor_id = Some actor,
         ai_action = ''PAYMENT_RECONCILIATION_CHECKED'', ai_target_type = ''commerce_bank_statement_evidence'',
         ai_target_id = evidence_id, ai_metadata = (''distinctApprovalCount'', MNumber (int (length found))) #
           (case av_reason input of None \<Rightarrow> [] | Some x \<Rightarrow> if truthy x then [(''reason'', MString (js_trim x))] else [])\<rparr> db2) (\<lambda>db3.
     if length found < 2
     then Inr (\<lparr>aq_order_id = br_order_id request, aq_settlement_id = None, aq_status = ''UNDER_REVIEW''\<rparr>, db3)
     else
     and_then (or_throw (find_order (br_order_id request) db3)) (\<lambda>order.
     throw_if (or_status order \<noteq> ''pending_payment'' \<or> or_payable_amount order \<noteq> br_amount request
         \<or> or_confirmed_settlement_id order \<noteq> None) (ConflictException ''ORDER_NOT_PAYABLE'') (
     throw_if (list_ex (\<lambda>r. re_expires_at r \<le> now) (open_reservations (or_id order) db3))
       (ConflictException ''ORDER_BENEFITS_EXPIRED'') (
     and_then (add_audit \<lparr>ai_actor_kind = None, ai_actor_id = Some actor, ai_action = ''PAYMENT_RECONCILIATION_RESOLVED'',
         ai_target_type = ''commerce_order'', ai_target_id = or_id order,
         ai_metadata = [(''settlementId'', MString (fresh ''settlement'')), (''evidenceId'', MString evidence_id),
           (''sandbox'', MBool True)]\<rparr> (confirm_bank_payment actor request e fresh now db3)) (\<lambda>db4.
     Inr (\<lparr>aq_order_id = or_id order, aq_settlement_id = Some (fresh ''settlement''), aq_status = ''PAID''\<rparr>, db4)))))))))))))"

text \<open>The evidence stays committed when the fulfilment afterwards fails; a fulfilment may store its failure.\<close>

definition bank_approve ::
  "(string \<Rightarrow> string \<Rightarrow> shop_db \<Rightarrow> unit result \<times> shop_db) \<Rightarrow> bank_env \<Rightarrow> (string \<Rightarrow> approval_input \<Rightarrow> string) \<Rightarrow> string \<Rightarrow> string
   \<Rightarrow> string option \<Rightarrow> approval_input \<Rightarrow> (string \<Rightarrow> string) \<Rightarrow> int \<Rightarrow> shop_db \<Rightarrow> approval_result result \<times> shop_db" where
  "bank_approve fulfill env to_json actor evidence_id key input fresh now db =
     (case and_then (assert_enabled env) (\<lambda>_. approve_txn env to_json actor evidence_id key input fresh now db) of
        Inl err \<Rightarrow> (Inl err, db)
      | Inr (res, db1) \<Rightarrow>
          (case aq_settlement_id res of
             None \<Rightarrow> (Inr res, db1)
           | Some s \<Rightarrow> (case fulfill (aq_order_id res) s db1 of
               (Inl err, db2) \<Rightarrow> (Inl err, db2) | (Inr _, db2) \<Rightarrow> (Inr res, db2))))"

text \<open>\<^verbatim>\<open>serializable\<close>: at most three attempts, again after a serialization or unique conflict.\<close>

definition bank_retryable :: "api_error \<Rightarrow> bool" where
  "bank_retryable e = (e = PrismaError ''P2034'' \<or> e = PrismaError ''P2002'')"

definition bank_serializable :: "(nat \<Rightarrow> api_error option) \<Rightarrow> (shop_db, 'a) txn \<Rightarrow> (shop_db, 'a) txn" where
  "bank_serializable aborts body =
     retry_loop bank_retryable (ConflictException ''BANK_CONCURRENT_OPERATION'') 0 3 (aborting aborts body)"

section \<open>Listing and expiry\<close>

definition bank_list :: "bank_env \<Rightarrow> string \<Rightarrow> nat \<Rightarrow> nat \<Rightarrow> shop_db \<Rightarrow> bank_request page result" where
  "bank_list env actor page psize db =
     and_then (bank_operator env actor db) (\<lambda>_.
     Inr (make_page (\<lambda>r. r) page psize (js_sort (newest_first br_created_at br_id) (bank_requests db))))"

record bank_detail_view =
  dv_request :: bank_request
  dv_statements :: "bank_evidence list"
  dv_approvals :: "bank_approval list"
  dv_support :: "bank_support list"

definition bank_detail :: "bank_env \<Rightarrow> string \<Rightarrow> string \<Rightarrow> shop_db \<Rightarrow> bank_detail_view result" where
  "bank_detail env actor request_id db =
     and_then (bank_operator env actor db) (\<lambda>_.
     and_then (or_throw (find (\<lambda>r. br_id r = request_id) (bank_requests db))) (\<lambda>r.
     let st = take 100 (rev (filter (\<lambda>e. be_request_id e = request_id) (evidence db))) in
     Inr \<lparr>dv_request = r, dv_statements = st,
          dv_approvals = take 200 (filter (\<lambda>a. ap_evidence_id a \<in> set (map be_id st)) (approvals db)),
          dv_support = take 100 (rev (filter (\<lambda>x. bs_request_id x = request_id) (supports db)))\<rparr>))"

definition soonest_first :: "bank_request \<Rightarrow> bank_request \<Rightarrow> int" where
  "soonest_first a b =
     (if br_expires_at a \<noteq> br_expires_at b then (if br_expires_at a < br_expires_at b then -1 else 1)
      else if br_id a < br_id b then -1 else if br_id a > br_id b then 1 else 0)"

record expiry_counts =
  ec_expired :: int
  ec_fulfilled :: int
  ec_failed :: int

text \<open>One due request: a failed close is counted and leaves the tables as they were.\<close>

fun expire_requests ::
  "bank_env \<Rightarrow> (string \<Rightarrow> string \<Rightarrow> string) \<Rightarrow> int \<Rightarrow> bank_request list \<Rightarrow> expiry_counts \<times> shop_db \<Rightarrow> expiry_counts \<times> shop_db" where
  "expire_requests env fresh now [] st = st"
| "expire_requests env fresh now (r # rs) (c, db) =
     expire_requests env fresh now rs
       (case and_then (or_throw (find_order (br_order_id r) db)) (\<lambda>x.
               bank_close env (or_buyer_id x) (or_id x) ''EXPIRED'' None (fresh (br_id r)) now db) of
          Inl _ \<Rightarrow> (c\<lparr>ec_failed := ec_failed c + 1\<rparr>, db)
        | Inr (_, db') \<Rightarrow> (c\<lparr>ec_expired := ec_expired c + 1\<rparr>, db'))"

fun fulfill_confirmed ::
  "(string \<Rightarrow> string \<Rightarrow> shop_db \<Rightarrow> unit result \<times> shop_db) \<Rightarrow> commerce_order list \<Rightarrow> expiry_counts \<times> shop_db \<Rightarrow> expiry_counts \<times> shop_db" where
  "fulfill_confirmed fulfill [] st = st"
| "fulfill_confirmed fulfill (x # xs) (c, db) =
     fulfill_confirmed fulfill xs
       (case or_confirmed_settlement_id x of
          None \<Rightarrow> (c, db)
        | Some s \<Rightarrow> (case fulfill (or_id x) s db of
            (Inl _, db') \<Rightarrow> (c\<lparr>ec_failed := ec_failed c + 1\<rparr>, db')
          | (Inr _, db') \<Rightarrow> (c\<lparr>ec_fulfilled := ec_fulfilled c + 1\<rparr>, db')))"

definition unfulfilled_bank_order :: "shop_db \<Rightarrow> commerce_order \<Rightarrow> bool" where
  "unfulfilled_bank_order db x =
     (or_status x = ''confirmed'' \<and> (or_fulfillment_status x = ''not_started'' \<or> or_fulfillment_status x = ''failed'')
      \<and> (case or_confirmed_settlement_id x of None \<Rightarrow> False
          | Some s \<Rightarrow> (case find_settlement s db of None \<Rightarrow> False
              | Some st \<Rightarrow> st_provider st = Some ''bank_transfer'')))"

definition expire_due ::
  "(string \<Rightarrow> string \<Rightarrow> shop_db \<Rightarrow> unit result \<times> shop_db) \<Rightarrow> bank_env \<Rightarrow> (string \<Rightarrow> string \<Rightarrow> string) \<Rightarrow> int
   \<Rightarrow> shop_db \<Rightarrow> expiry_counts \<times> shop_db" where
  "expire_due fulfill env fresh now db =
     (let zero = \<lparr>ec_expired = 0, ec_fulfilled = 0, ec_failed = 0\<rparr> in
      if \<not> bk_enabled env then (zero, db)
      else
        let due = take 20 (js_sort soonest_first
              (filter (\<lambda>r. open_request (br_status r) \<and> br_expires_at r \<le> now) (bank_requests db)));
            (c, db1) = expire_requests env fresh now due (zero, db)
        in fulfill_confirmed fulfill (take 20 (filter (unfulfilled_bank_order db1) (orders db1))) (c, db1))"

section \<open>The proof other services ask for\<close>

definition bank_proof_holds ::
  "int \<Rightarrow> string \<Rightarrow> string \<Rightarrow> shop_db \<Rightarrow> settlement \<Rightarrow> commerce_order \<Rightarrow> bank_request \<Rightarrow> bank_evidence
   \<Rightarrow> payment_attempt \<Rightarrow> payment_event \<Rightarrow> bool" where
  "bank_proof_holds now order_id settlement_id db s x r e a v =
     (or_status x = ''confirmed'' \<and> or_confirmed_settlement_id x = Some settlement_id
      \<and> br_status r = ''PAID'' \<and> or_payable_amount x = br_amount r \<and> or_currency x = ''VND''
      \<and> be_request_id e = br_id r \<and> \<not> opt_truthy (be_exception e) \<and> classify_bank_evidence r e now = None
      \<and> 2 \<le> length (uniq (map ap_actor_id (filter (\<lambda>p. ap_evidence_id p = be_id e) (approvals db))))
      \<and> st_order_id s = order_id \<and> st_provider s = Some ''bank_transfer'' \<and> st_kind s = ''provider_collection''
      \<and> st_disposition s = ''matched'' \<and> st_attempt_id s = Some (at_id a) \<and> at_provider a = ''bank_transfer''
      \<and> at_status a = ''paid'' \<and> ev_provider v = ''bank_transfer'' \<and> ev_attempt_id v = at_id a
      \<and> ev_next_status v = ''paid'' \<and> ev_settlement_reference v = Some (be_id e) \<and> ev_amount v = be_amount e
      \<and> ev_occurred_at v = be_occurred_at e \<and> Some (st_settled_at s) = be_occurred_at e
      \<and> st_amount s = br_amount r \<and> at_amount a = br_amount r \<and> st_currency s = ''VND''
      \<and> at_currency a = ''VND'' \<and> ev_currency_code v = ''VND'')"

definition require_bank_transfer_proof :: "bool \<Rightarrow> int \<Rightarrow> string \<Rightarrow> string \<Rightarrow> shop_db \<Rightarrow> settlement result" where
  "require_bank_transfer_proof enabled now order_id settlement_id db =
     throw_if (\<not> enabled) (ConflictException ''BANK_TRANSFER_DISABLED'') (
     let err = ConflictException ''BANK_STATEMENT_PROOF_REQUIRED'' in
     some_or err (find_settlement settlement_id db) (\<lambda>s.
     some_or err (find_order order_id db) (\<lambda>x.
     some_or err (request_of_order order_id db) (\<lambda>r.
     some_or err (st_reference s) (\<lambda>ref.
     some_or err (find (\<lambda>e. be_id e = ref) (evidence db)) (\<lambda>e.
     some_or err (find_attempt (br_attempt_id r) db) (\<lambda>a.
     some_or err (st_event_id s) (\<lambda>ve.
     some_or err (find_event ve db) (\<lambda>v.
     throw_if (\<not> bank_proof_holds now order_id settlement_id db s x r e a v) err (Inr s))))))))))"

section \<open>What the operations change\<close>

named_theorems frame_simps \<open>fields an update of the state leaves alone\<close>

lemma add_lifecycle_frame [frame_simps]:
  "orders (add_lifecycle e db) = orders db" "settlements (add_lifecycle e db) = settlements db"
  "approvals (add_lifecycle e db) = approvals db" "evidence (add_lifecycle e db) = evidence db"
  "bank_requests (add_lifecycle e db) = bank_requests db" "active_admins (add_lifecycle e db) = active_admins db"
  "attempts (add_lifecycle e db) = attempts db" "payment_events (add_lifecycle e db) = payment_events db"
  "reservations (add_lifecycle e db) = reservations db"
  by (simp_all add: add_lifecycle_def)

lemma bank_lifecycle_frame [frame_simps]:
  "orders (bank_lifecycle t i p n a q r db) = orders db"
  "settlements (bank_lifecycle t i p n a q r db) = settlements db"
  "approvals (bank_lifecycle t i p n a q r db) = approvals db"
  "evidence (bank_lifecycle t i p n a q r db) = evidence db"
  "bank_requests (bank_lifecycle t i p n a q r db) = bank_requests db"
  "active_admins (bank_lifecycle t i p n a q r db) = active_admins db"
  "attempts (bank_lifecycle t i p n a q r db) = attempts db"
  "payment_events (bank_lifecycle t i p n a q r db) = payment_events db"
  "reservations (bank_lifecycle t i p n a q r db) = reservations db"
  by (simp_all add: bank_lifecycle_def frame_simps)

lemma finish_reservations_frame [frame_simps]:
  "orders (finish_reservations f s a r rs db) = orders db"
  "settlements (finish_reservations f s a r rs db) = settlements db"
  "approvals (finish_reservations f s a r rs db) = approvals db"
  "evidence (finish_reservations f s a r rs db) = evidence db"
  "bank_requests (finish_reservations f s a r rs db) = bank_requests db"
  "active_admins (finish_reservations f s a r rs db) = active_admins db"
  "attempts (finish_reservations f s a r rs db) = attempts db"
  "payment_events (finish_reservations f s a r rs db) = payment_events db"
  by (induction rs arbitrary: db) (simp_all add: frame_simps)

lemma update_frame [frame_simps]:
  "orders (set_attempt i g db) = orders db" "settlements (set_attempt i g db) = settlements db"
  "approvals (set_attempt i g db) = approvals db" "evidence (set_attempt i g db) = evidence db"
  "bank_requests (set_attempt i g db) = bank_requests db" "active_admins (set_attempt i g db) = active_admins db"
  "orders (set_request_status i s db) = orders db" "settlements (set_request_status i s db) = settlements db"
  "approvals (set_request_status i s db) = approvals db" "evidence (set_request_status i s db) = evidence db"
  "active_admins (set_request_status i s db) = active_admins db"
  "orders (set_order i h db) = update_where (\<lambda>x. or_id x = i) h (orders db)"
  "settlements (set_order i h db) = settlements db" "approvals (set_order i h db) = approvals db"
  "evidence (set_order i h db) = evidence db" "bank_requests (set_order i h db) = bank_requests db"
  "active_admins (set_order i h db) = active_admins db"
  by (simp_all add: set_attempt_def set_request_status_def set_order_def)

lemma bank_idempotency_frame:
  assumes "bank_idempotency env actor op key request db = Inr db'"
  shows "\<exists>rows. db' = db\<lparr>idempotency := rows\<rparr>"
  using assms
  by (auto simp: bank_idempotency_def result_simps Let_def split: option.splits intro: exI [of _ "idempotency db"])

section \<open>The operations as steps\<close>

text \<open>One committed transaction of the service.\<close>

inductive bank_step ::
  "bank_env \<Rightarrow> (string \<Rightarrow> statement_input \<Rightarrow> string) \<Rightarrow> (string \<Rightarrow> approval_input \<Rightarrow> string) \<Rightarrow> int
   \<Rightarrow> shop_db \<Rightarrow> shop_db \<Rightarrow> bool"
  for env sj aj now db where
  step_create: "bank_create env learner i key fresh now db = Inr ((), db') \<Longrightarrow> bank_step env sj aj now db db'"
| step_close: "bank_close env learner i status key fresh now db = Inr ((), db') \<Longrightarrow> bank_step env sj aj now db db'"
| step_support: "bank_support_request env learner i key reason db = Inr ((), db') \<Longrightarrow> bank_step env sj aj now db db'"
| step_statement: "record_statement env sj actor i key input fresh now db = Inr (res, db')
    \<Longrightarrow> bank_step env sj aj now db db'"
| step_approve: "approve_txn env aj actor i key ainput fresh now db = Inr (ares, db')
    \<Longrightarrow> bank_step env sj aj now db db'"

text \<open>The unique index on evidence and approver.\<close>

definition approvals_unique :: "shop_db \<Rightarrow> bool" where
  "approvals_unique db = distinct (map (\<lambda>a. (ap_evidence_id a, ap_actor_id a)) (approvals db))"

definition order_confirmed :: "string \<Rightarrow> shop_db \<Rightarrow> bool" where
  "order_confirmed i db = (\<exists>x. find_order i db = Some x \<and> or_status x = ''confirmed'')"

text \<open>What the tables must say of an order that a bank transfer has just confirmed.\<close>

definition dual_control_evidence :: "bank_env \<Rightarrow> int \<Rightarrow> string \<Rightarrow> shop_db \<Rightarrow> shop_db \<Rightarrow> bool" where
  "dual_control_evidence env now i db db' =
     (\<exists>r e x a b s. r \<in> set (bank_requests db) \<and> br_order_id r = i \<and> br_status r = ''UNDER_REVIEW''
        \<and> e \<in> set (evidence db) \<and> be_request_id e = br_id r \<and> \<not> opt_truthy (be_exception e)
        \<and> classify_bank_evidence r e now = None
        \<and> find_order i db = Some x \<and> or_status x = ''pending_payment'' \<and> or_payable_amount x = be_amount e
        \<and> a \<noteq> b \<and> {a, b} \<subseteq> set (bk_operators env) \<inter> set (active_admins db)
        \<and> \<lparr>ap_evidence_id = be_id e, ap_actor_id = a\<rparr> \<in> set (approvals db')
        \<and> \<lparr>ap_evidence_id = be_id e, ap_actor_id = b\<rparr> \<in> set (approvals db')
        \<and> settlements db' = settlements db @ [s] \<and> st_order_id s = i \<and> st_amount s = or_payable_amount x
        \<and> st_reference s = Some (be_id e)
        \<and> map_option or_confirmed_settlement_id (find_order i db') = Some (Some (st_id s)))"

lemma all_operators_Inr:
  "all_operators env as db = Inr () \<Longrightarrow> a \<in> set as
   \<Longrightarrow> ap_actor_id a \<in> set (bk_operators env) \<and> ap_actor_id a \<in> set (active_admins db)"
  by (induction as) (auto simp: result_simps bank_operator_def)

lemma two_approvers:
  assumes "distinct (map (\<lambda>a. (ap_evidence_id a, ap_actor_id a)) as)"
    and "2 \<le> length (filter (\<lambda>a. ap_evidence_id a = i) as)"
  obtains a b where "a \<noteq> b" "\<lparr>ap_evidence_id = i, ap_actor_id = a\<rparr> \<in> set as"
    "\<lparr>ap_evidence_id = i, ap_actor_id = b\<rparr> \<in> set as"
proof -
  obtain p q ps where f: "filter (\<lambda>a. ap_evidence_id a = i) as = p # q # ps"
    using assms(2) by (cases "filter (\<lambda>a. ap_evidence_id a = i) as"; cases "tl (filter (\<lambda>a. ap_evidence_id a = i) as)") auto
  then have "{p, q} \<subseteq> set (filter (\<lambda>a. ap_evidence_id a = i) as)" by simp
  then have "p \<in> set as" "q \<in> set as" "ap_evidence_id p = i" "ap_evidence_id q = i" by auto
  moreover have "distinct (map (\<lambda>a. (ap_evidence_id a, ap_actor_id a)) (p # q # ps))"
    unfolding f [symmetric] by (rule distinct_map_filter [OF assms(1)])
  ultimately have "ap_actor_id p \<noteq> ap_actor_id q" by auto
  moreover have "\<lparr>ap_evidence_id = i, ap_actor_id = ap_actor_id p\<rparr> = p" "\<lparr>ap_evidence_id = i, ap_actor_id = ap_actor_id q\<rparr> = q"
    using \<open>ap_evidence_id p = i\<close> \<open>ap_evidence_id q = i\<close> by simp_all
  ultimately show thesis using that \<open>p \<in> set as\<close> \<open>q \<in> set as\<close> by metis
qed

lemma order_confirmed_set_order:
  assumes "order_confirmed i (set_order j (\<lambda>x. x\<lparr>or_status := n\<rparr>) db)" and "n \<noteq> ''confirmed''"
  shows "order_confirmed i db"
  using assms by (auto simp: order_confirmed_def find_order_def frame_simps find_update_where split: if_splits)

lemma order_confirmed_cong: "orders db = orders db' \<Longrightarrow> order_confirmed i db = order_confirmed i db'"
  by (simp add: order_confirmed_def find_order_def)

lemma bank_idempotency_wp [wp_intro]:
  assumes "\<And>rows. P (db\<lparr>idempotency := rows\<rparr>)"
  shows "ok_all P (bank_idempotency env actor op key request db)"
  using assms bank_idempotency_frame by (fastforce simp: ok_all_def)

lemma bank_guard_wp [wp]:
  "ok_all P (assert_enabled env) = (bk_enabled env \<longrightarrow> P ())"
  "ok_all P (bank_operator env actor db) =
     (bk_enabled env \<and> actor \<in> set (bk_operators env) \<and> actor \<in> set (active_admins db) \<longrightarrow> P ())"
  by (auto simp: ok_all_def result_simps assert_enabled_def bank_operator_def)

text \<open>No order, approval or settlement is touched.\<close>

definition same_money :: "shop_db \<Rightarrow> shop_db \<Rightarrow> bool" where
  "same_money db db' = (orders db' = orders db \<and> approvals db' = approvals db \<and> settlements db' = settlements db)"

lemma bank_create_frame:
  "ok_all (\<lambda>(u, db'). same_money db db') (bank_create env learner i key fresh now db)"
  unfolding bank_create_def Let_def same_money_def
  by (intro allI impI conjI wp_intro | simp add: wp frame_simps split del: if_split
    | simp add: frame_simps split: option.splits)+

lemma bank_support_frame:
  "ok_all (\<lambda>(u, db'). same_money db db') (bank_support_request env learner i key reason db)"
  unfolding bank_support_request_def Let_def same_money_def
  by (intro allI impI conjI wp_intro | simp add: wp frame_simps split del: if_split
    | simp add: frame_simps split: option.splits)+

lemma record_statement_frame:
  "ok_all (\<lambda>(u, db'). same_money db db') (record_statement env sj actor i key input fresh now db)"
  unfolding record_statement_def Let_def same_money_def
  by (intro allI impI conjI wp_intro | simp add: wp frame_simps split del: if_split
    | simp add: frame_simps split: option.splits)+

lemma bank_close_frame:
  "ok_all (\<lambda>(u, db'). approvals db' = approvals db \<and> settlements db' = settlements db
      \<and> (\<forall>j. order_confirmed j db' \<longrightarrow> order_confirmed j db))
    (bank_close env learner i status key fresh now db)"
  unfolding bank_close_def Let_def 
  apply (intro allI impI wp_intro | simp add: wp frame_simps split del: if_split)+
  apply (auto intro: wp_intro simp: wp order_confirmed_def find_order_def frame_simps find_update_where split: if_splits)
  done

text \<open>The settlement and the order that the confirmation writes.\<close>

definition bank_settlement :: "bank_request \<Rightarrow> bank_evidence \<Rightarrow> (string \<Rightarrow> string) \<Rightarrow> settlement" where
  "bank_settlement r e fresh =
     \<lparr>st_id = fresh ''settlement'', st_order_id = br_order_id r, st_attempt_id = Some (br_attempt_id r),
      st_event_id = Some (fresh ''event''), st_kind = ''provider_collection'', st_disposition = ''matched'',
      st_provider = Some ''bank_transfer'', st_reference = Some (be_id e), st_amount = br_amount r,
      st_currency = ''VND'', st_settled_at = the (be_occurred_at e)\<rparr>"

lemma confirm_bank_payment_frame [frame_simps]:
  "approvals (confirm_bank_payment actor r e fresh now db) = approvals db"
  "settlements (confirm_bank_payment actor r e fresh now db) = settlements db @ [bank_settlement r e fresh]"
  "orders (confirm_bank_payment actor r e fresh now db) =
     update_where (\<lambda>x. or_id x = br_order_id r)
       (\<lambda>x. x\<lparr>or_status := ''confirmed'', or_confirmed_at := Some now,
             or_confirmed_settlement_id := Some (fresh ''settlement'')\<rparr>) (orders db)"
  by (simp_all add: confirm_bank_payment_def Let_def frame_simps bank_settlement_def)

text \<open>A run of the approval either leaves the orders and settlements alone, or confirms one order.\<close>

definition approval_outcome ::
  "bank_env \<Rightarrow> int \<Rightarrow> (string \<Rightarrow> string) \<Rightarrow> shop_db \<Rightarrow> shop_db \<Rightarrow> bool" where
  "approval_outcome env now fresh db db' =
     (orders db' = orders db \<and> settlements db' = settlements db \<or>
      (\<exists>r e x found. r \<in> set (bank_requests db) \<and> br_status r = ''UNDER_REVIEW''
         \<and> e \<in> set (evidence db) \<and> be_request_id e = br_id r \<and> \<not> opt_truthy (be_exception e)
         \<and> classify_bank_evidence r e now = None
         \<and> find_order (br_order_id r) db = Some x \<and> or_status x = ''pending_payment''
         \<and> or_payable_amount x = br_amount r
         \<and> found = filter (\<lambda>a. ap_evidence_id a = be_id e) (approvals db') \<and> 2 \<le> length found
         \<and> (\<forall>a\<in>set found. ap_actor_id a \<in> set (bk_operators env) \<inter> set (active_admins db))
         \<and> settlements db' = settlements db @ [bank_settlement r e fresh]
         \<and> orders db' = update_where (\<lambda>x. or_id x = br_order_id r)
             (\<lambda>x. x\<lparr>or_status := ''confirmed'', or_confirmed_at := Some now,
                   or_confirmed_settlement_id := Some (fresh ''settlement'')\<rparr>) (orders db)))"

definition with_approval :: "string \<Rightarrow> string \<Rightarrow> shop_db \<Rightarrow> shop_db" where
  "with_approval i actor db =
     (if list_ex (\<lambda>a. ap_evidence_id a = i \<and> ap_actor_id a = actor) (approvals db) then db
      else db\<lparr>approvals := approvals db @ [\<lparr>ap_evidence_id = i, ap_actor_id = actor\<rparr>]\<rparr>)"

lemma with_approval_frame [frame_simps]:
  "orders (with_approval i actor db) = orders db" "settlements (with_approval i actor db) = settlements db"
  "active_admins (with_approval i actor db) = active_admins db"
  by (simp_all add: with_approval_def)

lemma with_approval_unique: "approvals_unique db \<Longrightarrow> approvals_unique (with_approval i actor db)"
  by (auto simp: approvals_unique_def with_approval_def list_ex_iff)

lemma all_operators_wp [wp]:
  "ok_all P (all_operators env as db) =
     ((\<forall>a\<in>set as. bk_enabled env \<and> ap_actor_id a \<in> set (bk_operators env) \<inter> set (active_admins db)) \<longrightarrow> P ())"
  by (induction as) (auto simp: wp)

lemma approvals_unique_cong: "approvals db = approvals db' \<Longrightarrow> approvals_unique db = approvals_unique db'"
  by (simp add: approvals_unique_def)

lemma approvals_unique_wp:
  assumes "approvals_unique db" and "approvals db' = approvals (with_approval i actor (db\<lparr>idempotency := rows\<rparr>))"
  shows "approvals_unique db'"
  using assms with_approval_unique [of "db\<lparr>idempotency := rows\<rparr>" i actor]
  by (simp add: approvals_unique_def)

lemma approval_outcome_confirmed:
  assumes "find (\<lambda>e. be_id e = i) (evidence db) = Some e" and "find (\<lambda>r. br_id r = be_request_id e) (bank_requests db) = Some r"
    and "\<not> opt_truthy (be_exception e) \<and> classify_bank_evidence r e now = None \<and> b \<and> br_status r = ''UNDER_REVIEW''"
    and "find_order (br_order_id r) dbx = Some x" and "orders dbx = orders db"
    and "or_payable_amount x = br_amount r \<and> or_status x = ''pending_payment'' \<and> c"
    and "approvals db' = approvals dbx" and "\<not> length (filter (\<lambda>a. ap_evidence_id a = i) (approvals dbx)) < 2"
    and "\<forall>a. a \<in> set (approvals dbx) \<and> ap_evidence_id a = i \<longrightarrow>
           ap_actor_id a \<in> set (bk_operators env) \<and> ap_actor_id a \<in> set (active_admins db)"
    and "settlements db' = settlements db @ [bank_settlement r e fresh]"
    and "orders db' = update_where (\<lambda>x. or_id x = br_order_id r)
           (\<lambda>x. x\<lparr>or_status := ''confirmed'', or_confirmed_at := Some now,
                 or_confirmed_settlement_id := Some (fresh ''settlement'')\<rparr>) (orders db)"
  shows "approval_outcome env now fresh db db'"
  unfolding approval_outcome_def
  using assms find_SomeD [OF assms(1)] find_SomeD [OF assms(2)]
  by (intro disjI2 exI [of _ r] exI [of _ e] exI [of _ x] exI) (auto simp: find_order_def)

lemma approve_txn_outcome:
  assumes "approvals_unique db"
  shows "ok_all (\<lambda>(res, db'). approvals_unique db' \<and> approval_outcome env now fresh db db')
    (approve_txn env aj actor i key input fresh now db)"
proof -
  have keep: "approval_outcome env now fresh db db'" if "orders db' = orders db" "settlements db' = settlements db" for db'
    using that by (simp add: approval_outcome_def)
  show ?thesis
    unfolding approve_txn_def Let_def with_approval_def [symmetric]
    apply (intro allI impI conjI wp_intro | simp add: wp frame_simps split del: if_split)+
         subgoal using assms by (simp add: approvals_unique_def)
        subgoal by (rule keep) simp_all
       subgoal by (rule approvals_unique_wp [OF assms]) simp
      subgoal by (rule keep) (simp_all add: frame_simps)
     subgoal by (rule approvals_unique_wp [OF assms]) (simp add: frame_simps)
    by (rule approval_outcome_confirmed, assumption+) (simp_all add: frame_simps)
qed

lemma outcome_confirms:
  assumes "approval_outcome env now fresh db db'" and "approvals_unique db'"
    and "order_confirmed j db'" and "\<not> order_confirmed j db"
  shows "dual_control_evidence env now j db db'"
proof -
  have "orders db' \<noteq> orders db" using assms(3,4) order_confirmed_cong by metis
  with assms(1) obtain r e x found where *:
    "r \<in> set (bank_requests db)" "br_status r = ''UNDER_REVIEW''" "e \<in> set (evidence db)" "be_request_id e = br_id r"
    "\<not> opt_truthy (be_exception e)" "classify_bank_evidence r e now = None"
    "find_order (br_order_id r) db = Some x" "or_status x = ''pending_payment''" "or_payable_amount x = br_amount r"
    and found: "found = filter (\<lambda>a. ap_evidence_id a = be_id e) (approvals db')" "2 \<le> length found"
    and ops: "\<forall>a\<in>set found. ap_actor_id a \<in> set (bk_operators env) \<inter> set (active_admins db)"
    and st: "settlements db' = settlements db @ [bank_settlement r e fresh]"
    and os: "orders db' = update_where (\<lambda>x. or_id x = br_order_id r)
             (\<lambda>x. x\<lparr>or_status := ''confirmed'', or_confirmed_at := Some now,
                   or_confirmed_settlement_id := Some (fresh ''settlement'')\<rparr>) (orders db)"
    unfolding approval_outcome_def by blast
  have j: "br_order_id r = j"
    using assms(3,4) unfolding order_confirmed_def find_order_def os
    by (auto simp: find_update_where split: if_splits dest: find_SomeD)
  obtain a b where ab: "a \<noteq> b" "\<lparr>ap_evidence_id = be_id e, ap_actor_id = a\<rparr> \<in> set (approvals db')"
    "\<lparr>ap_evidence_id = be_id e, ap_actor_id = b\<rparr> \<in> set (approvals db')"
    using two_approvers [of "approvals db'" "be_id e"] assms(2) found by (auto simp: approvals_unique_def)
  have in_found: "{\<lparr>ap_evidence_id = be_id e, ap_actor_id = a\<rparr>, \<lparr>ap_evidence_id = be_id e, ap_actor_id = b\<rparr>} \<subseteq> set found"
    using ab by (simp add: found(1))
  have "{a, b} \<subseteq> set (bk_operators env) \<inter> set (active_admins db)"
    using in_found ops by fastforce
  moreover have "be_amount e = br_amount r"
    using *(6) by (auto simp: classify_bank_evidence_def split: if_splits)
  moreover have "map_option or_confirmed_settlement_id (find_order j db') = Some (Some (fresh ''settlement''))"
    using *(7) j find_SomeD [of _ "orders db" x] by (auto simp: find_order_def os find_update_where)
  ultimately show ?thesis
    unfolding dual_control_evidence_def
    using * ab j st
    by (intro exI [of _ r] exI [of _ e] exI [of _ x] exI [of _ a] exI [of _ b] exI [of _ "bank_settlement r e fresh"])
      (simp add: bank_settlement_def)
qed

lemma bank_step_confirms:
  assumes "bank_step env sj aj now db db'" and "approvals_unique db"
  shows "approvals_unique db' \<and> (\<forall>i. order_confirmed i db' \<longrightarrow> order_confirmed i db \<or> dual_control_evidence env now i db db')"
  using assms(1)
proof cases
  case (step_create learner i key fresh)
  with ok_allD [OF bank_create_frame] assms(2) show ?thesis
    by (fastforce simp: same_money_def approvals_unique_def order_confirmed_def find_order_def)
next
  case (step_close learner i status key fresh)
  with ok_allD [OF bank_close_frame] assms(2) show ?thesis by (fastforce simp: approvals_unique_def)
next
  case (step_support learner i key reason)
  with ok_allD [OF bank_support_frame] assms(2) show ?thesis
    by (fastforce simp: same_money_def approvals_unique_def order_confirmed_def find_order_def)
next
  case (step_statement actor i key input fresh res)
  with ok_allD [OF record_statement_frame] assms(2) show ?thesis
    by (fastforce simp: same_money_def approvals_unique_def order_confirmed_def find_order_def)
next
  case (step_approve actor i key ainput fresh ares)
  with ok_allD [OF approve_txn_outcome [OF assms(2)]] outcome_confirms show ?thesis by fastforce
qed

text \<open>A history of the service: committed transactions, each at its own time.\<close>

definition bank_history ::
  "bank_env \<Rightarrow> (string \<Rightarrow> statement_input \<Rightarrow> string) \<Rightarrow> (string \<Rightarrow> approval_input \<Rightarrow> string) \<Rightarrow> shop_db \<Rightarrow> shop_db \<Rightarrow> bool" where
  "bank_history env sj aj = (\<lambda>db db'. \<exists>now. bank_step env sj aj now db db')\<^sup>*\<^sup>*"

lemma bank_history_unique: "bank_history env sj aj db db' \<Longrightarrow> approvals_unique db \<Longrightarrow> approvals_unique db'"
  unfolding bank_history_def
  by (induction rule: rtranclp_induct) (use bank_step_confirms in blast)+

text \<open>C1: Whatever transactions of the bank transfer service run, in whatever order, an order becomes confirmed
  only by a step in which an exception-free bank statement matches its request exactly, two different
  operators who are both on the allow list and active administrators have approved that statement, and exactly
  one settlement of the payable amount is written, to which the order points.\<close>

theorem bank_confirmation_needs_dual_control:
  assumes "bank_history env sj aj db0 db" and "approvals_unique db0"
    and "order_confirmed i db" and "\<not> order_confirmed i db0"
  shows "\<exists>db1 db2 now. bank_history env sj aj db0 db1 \<and> bank_step env sj aj now db1 db2
    \<and> dual_control_evidence env now i db1 db2 \<and> bank_history env sj aj db2 db"
  using assms(1,3) unfolding bank_history_def
proof (induction rule: rtranclp_induct)
  case base
  with assms(4) show ?case by simp
next
  case (step y z)
  obtain now where now: "bank_step env sj aj now y z" using step(2) by blast
  have u: "approvals_unique y" using bank_history_unique [OF _ assms(2)] step(1) by (simp add: bank_history_def)
  show ?case
  proof (cases "order_confirmed i y")
    case True
    then obtain db1 db2 t where "(\<lambda>db db'. \<exists>now. bank_step env sj aj now db db')\<^sup>*\<^sup>* db0 db1"
      "bank_step env sj aj t db1 db2" "dual_control_evidence env t i db1 db2"
      "(\<lambda>db db'. \<exists>now. bank_step env sj aj now db db')\<^sup>*\<^sup>* db2 y"
      using step.IH by blast
    with step(2) rtranclp.rtrancl_into_rtrancl [of _ db2 y z] show ?thesis by blast
  next
    case False
    with bank_step_confirms [OF now u] step.prems have "dual_control_evidence env now i y z" by blast
    with now step(1) show ?thesis by blast
  qed
qed

definition ex_bank_env :: bank_env where
  "ex_bank_env = \<lparr>bk_enabled = True, bk_operators = [''op1'', ''op2''], bk_gds_exclusive = True, bk_sha = (\<lambda>s. s)\<rparr>"

definition ex_bank_db :: shop_db where
  "ex_bank_db = empty_shop\<lparr>orders := [\<lparr>or_id = ''o1'', or_buyer_id = ''u1'', or_status = ''pending_payment'',
       or_fulfillment_status = ''not_started'', or_currency = ''VND'', or_payable_amount = 50000,
       or_confirmed_settlement_id = None, or_confirmed_at = None, or_created_at = 10, or_term_months = None\<rparr>],
     reservations := [\<lparr>re_id = ''v1'', re_order_id = ''o1'', re_status = ''reserved'', re_expires_at = 900\<rparr>],
     bank_requests := [\<lparr>br_id = ''r1'', br_order_id = ''o1'', br_attempt_id = ''a1'', br_bank_bin = ''970422'',
       br_account_number = ''0000000000'', br_amount = 50000, br_content = ''EDUAIR1'', br_status = ''UNDER_REVIEW'',
       br_created_at = 10, br_expires_at = 900\<rparr>],
     evidence := [\<lparr>be_id = ''e1'', be_request_id = ''r1'', be_bank_bin = ''970422'', be_account_number = ''0000000000'',
       be_transaction_id = ''t1'', be_amount = 50000, be_content = ''EDUAIR1'', be_occurred_at = Some 20,
       be_statement_reference = ''p1'', be_statement_sha256 = ''h1'', be_recorded_by = ''op1'', be_exception = None\<rparr>],
     approvals := [\<lparr>ap_evidence_id = ''e1'', ap_actor_id = ''op1''\<rparr>],
     active_admins := [''op1'', ''op2'']\<rparr>"

definition ex_approval :: approval_input where
  "ex_approval = \<lparr>av_source = ''BANK_STATEMENT_CHECKED'', av_statement_sha256 = ''h1'', av_transaction_id = ''t1'',
     av_amount = 50000, av_content = ''EDUAIR1'', av_account_number = ''0000000000'', av_reason = None\<rparr>"

definition ex_approve :: "string \<Rightarrow> (approval_result \<times> shop_db) result" where
  "ex_approve actor = approve_txn ex_bank_env (\<lambda>i _. i) actor ''e1'' (Some ''key-0001'') ex_approval (\<lambda>p. p) 50 ex_bank_db"

lemma ex_approve_ok:
  "is_ok (ex_approve ''op2'') \<and> map (\<lambda>x. (or_id x, or_status x)) (orders (snd (projr (ex_approve ''op2'')))) = [(''o1'', ''confirmed'')]"
  by code_simp

lemma bank_confirmation_needs_dual_control_witness:
  "\<exists>db1 db2 now. dual_control_evidence ex_bank_env now ''o1'' db1 db2"
proof -
  obtain res db where r: "ex_approve ''op2'' = Inr (res, db)"
    using ex_approve_ok by (auto simp: is_ok_iff)
  have "bank_history ex_bank_env (\<lambda>i _. i) (\<lambda>i _. i) ex_bank_db db"
    using step_approve [OF r [unfolded ex_approve_def]] unfolding bank_history_def by blast
  moreover have "approvals_unique ex_bank_db" by (simp add: approvals_unique_def ex_bank_db_def empty_shop_def)
  moreover have "order_confirmed ''o1'' db"
    using ex_approve_ok r by (auto simp: order_confirmed_def find_order_def)
  moreover have "\<not> order_confirmed ''o1'' ex_bank_db"
    by (simp add: order_confirmed_def find_order_def ex_bank_db_def empty_shop_def)
  ultimately show ?thesis using bank_confirmation_needs_dual_control by blast
qed

end
