(* ===== verification/Revenue_Finance.thy ===== *)
theory Revenue_Finance
  imports Bank_Transfer Revenue_Rules Membership_Rules
begin

text \<open>
  The revenue service, \<^verbatim>\<open>revenue-sharing/revenue-finance.service.ts\<close>: a paid order line is
  captured as a snapshot of shares, spread into earning periods, reversed by refunds and recognized when
  due.  The transactions take one advisory lock, so they run one after another.  The configuration tables
  (order lines, plan versions, policies, participations) are their own record; the ids that
  the database generates are arguments.
\<close>

section \<open>Configuration\<close>

record order_line =
  ol_id :: string
  ol_order_id :: string
  ol_product_type :: string
  ol_product_ref :: string
  ol_seller_id :: string
  ol_final_amount :: int

record included_course =
  ic_course_id :: string
  ic_weight :: int
  ic_instructor :: string
  ic_deleted :: bool
  ic_status :: string
  ic_moderation :: string

record plan_version =
  pv_id :: string
  pv_plan_id :: string
  pv_policy_id :: "string option"
  pv_courses :: "included_course list"

record plan_policy =
  pl_id :: string
  pl_plan_id :: string
  pl_fee_bps :: int

record participation =
  pt_course_id :: string
  pt_seller_id :: string
  pt_left :: bool

record retail_policy =
  rt_id :: string
  rt_fee_bps :: int
  rt_status :: string
  rt_effective_at :: int
  rt_created_at :: int

record notice =
  nt_user_id :: string
  nt_event_key :: string

record retail_audit =
  ra_actor_id :: string
  ra_action :: string
  ra_target_id :: string

record revenue_config =
  order_lines :: "order_line list"
  plan_versions :: "plan_version list"
  plan_policies :: "plan_policy list"
  participations :: "participation list"
  retail_policies :: "retail_policy list"
  course_sellers :: "string list"
  notices :: "notice list"
  retail_audits :: "retail_audit list"

section \<open>Retail policies\<close>

definition newest_effective :: "retail_policy \<Rightarrow> retail_policy \<Rightarrow> int" where
  "newest_effective = newest_first rt_effective_at rt_id"

definition due_first :: "retail_policy \<Rightarrow> retail_policy \<Rightarrow> int" where
  "due_first a b =
     (if rt_effective_at a \<noteq> rt_effective_at b then (if rt_effective_at a < rt_effective_at b then -1 else 1)
      else if rt_id a < rt_id b then -1 else if rt_id a > rt_id b then 1 else 0)"

definition activate_policy :: "string \<Rightarrow> retail_policy list \<Rightarrow> retail_policy list" where
  "activate_policy i ps =
     update_where (\<lambda>p. rt_id p = i) (\<lambda>p. p\<lparr>rt_status := ''active''\<rparr>)
       (update_where (\<lambda>p. rt_status p = ''active'') (\<lambda>p. p\<lparr>rt_status := ''superseded''\<rparr>) ps)"

definition activate_retail_due :: "int \<Rightarrow> retail_policy list \<Rightarrow> retail_policy list" where
  "activate_retail_due now ps =
     fold (\<lambda>p. activate_policy (rt_id p))
       (js_sort due_first (filter (\<lambda>p. rt_status p = ''scheduled'' \<and> rt_effective_at p \<le> now) ps)) ps"

definition list_retail_policies :: "revenue_config \<Rightarrow> retail_policy list" where
  "list_retail_policies cfg = take 100 (js_sort (newest_first rt_created_at rt_id) (retail_policies cfg))"

text \<open>\<^verbatim>\<open>upsert\<close> with an empty update: a notice with the same key is kept.\<close>

fun notify_sellers :: "string \<Rightarrow> string list \<Rightarrow> notice list \<Rightarrow> notice list" where
  "notify_sellers key [] ns = ns"
| "notify_sellers key (s # ss) ns =
     notify_sellers key ss
       (if list_ex (\<lambda>n. nt_user_id n = s \<and> nt_event_key n = key) ns then ns
        else ns @ [\<lparr>nt_user_id = s, nt_event_key = key\<rparr>])"

definition schedule_retail ::
  "string \<Rightarrow> js_number \<Rightarrow> string \<Rightarrow> js_number option \<Rightarrow> string \<Rightarrow> int
   \<Rightarrow> revenue_config \<Rightarrow> (retail_policy \<times> revenue_config) result" where
  "schedule_retail actor fee mode days i now cfg =
     (case fee of
        NonIntegral \<Rightarrow> Inl (BadRequestException ''Invalid platform fee.'')
      | Integral bps \<Rightarrow>
          throw_if (bps < 0 \<or> bps > 10000) (BadRequestException ''Invalid platform fee.'') (
          and_then (membership_effective_at mode days now) (\<lambda>effective.
          let ps = activate_retail_due now (retail_policies cfg) in
          throw_if (list_ex (\<lambda>p. rt_status p = ''scheduled'') ps)
            (ConflictException ''A retail fee change is already scheduled.'') (
          throw_if (list_ex (\<lambda>p. rt_id p = i) ps) (PrismaError ''P2002'') (
          let added = ps @ [\<lparr>rt_id = i, rt_fee_bps = bps, rt_status = ''scheduled'',
                            rt_effective_at = effective, rt_created_at = now\<rparr>];
              final = activate_retail_due now added in
          and_then (or_throw (find (\<lambda>p. rt_id p = i) final)) (\<lambda>policy.
          Inr (policy, cfg\<lparr>retail_policies := final,
            notices := notify_sellers (''revenue:retail:'' @ i) (uniq (course_sellers cfg)) (notices cfg),
            retail_audits := retail_audits cfg @ [\<lparr>ra_actor_id = actor,
              ra_action = ''revenue.retail.policy.scheduled'', ra_target_id = i\<rparr>]\<rparr>)))))))"

definition cancel_retail ::
  "string \<Rightarrow> string \<Rightarrow> int \<Rightarrow> revenue_config \<Rightarrow> (retail_policy \<times> revenue_config) result" where
  "cancel_retail actor i now cfg =
     (let err = ConflictException ''Only a future retail fee change can be cancelled.'' in
      some_or err (find (\<lambda>p. rt_id p = i) (retail_policies cfg)) (\<lambda>policy.
      throw_if (rt_status policy \<noteq> ''scheduled'' \<or> rt_effective_at policy \<le> now) err (
      Inr (policy\<lparr>rt_status := ''cancelled''\<rparr>,
        cfg\<lparr>retail_policies := update_where (\<lambda>p. rt_id p = i) (\<lambda>p. p\<lparr>rt_status := ''cancelled''\<rparr>) (retail_policies cfg),
            retail_audits := retail_audits cfg @ [\<lparr>ra_actor_id = actor,
              ra_action = ''revenue.retail.policy.cancelled'', ra_target_id = i\<rparr>]\<rparr>))))"

section \<open>Capturing an order\<close>

text \<open>The policy, fee and participants of a line; \<^const>\<open>None\<close> when the line takes no part.\<close>

definition course_terms :: "revenue_config \<Rightarrow> order_line \<Rightarrow> (string \<times> int \<times> participant list) option" where
  "course_terms cfg line =
     (case js_sort newest_effective (filter (\<lambda>p. rt_status p = ''active'') (retail_policies cfg)) of
        [] \<Rightarrow> None
      | policy # _ \<Rightarrow> Some (rt_id policy, rt_fee_bps policy,
          [\<lparr>pp_course_id = ol_product_ref line, pp_seller_id = ol_seller_id line, pp_weight = 1, pp_amount = 0\<rparr>]))"

definition catalog_stale :: "revenue_config \<Rightarrow> plan_version \<Rightarrow> bool" where
  "catalog_stale cfg version =
     list_ex (\<lambda>x. ic_deleted x \<or> ic_status x \<noteq> ''published'' \<or> ic_moderation x \<noteq> ''clear'' \<or>
       \<not> list_ex (\<lambda>p. pt_course_id p = ic_course_id x \<and> pt_seller_id p = ic_instructor x)
           (filter (\<lambda>p. pt_course_id p \<in> set (map ic_course_id (pv_courses version)) \<and> \<not> pt_left p)
             (participations cfg)))
       (pv_courses version)"

definition membership_terms ::
  "revenue_config \<Rightarrow> order_line \<Rightarrow> (string \<times> int \<times> participant list) option result" where
  "membership_terms cfg line =
     (case find (\<lambda>v. pv_id v = ol_product_ref line) (plan_versions cfg) of
        None \<Rightarrow> Inr None
      | Some version \<Rightarrow>
          (case pv_policy_id version of
             None \<Rightarrow> Inr None
           | Some pid \<Rightarrow>
               if pid = [] then Inr None
               else
               let err = ConflictException ''MEMBERSHIP_REVENUE_POLICY_MISSING'' in
               some_or err (find (\<lambda>p. pl_id p = pid) (plan_policies cfg)) (\<lambda>policy.
               throw_if (pl_plan_id policy \<noteq> pv_plan_id version) err (
               throw_if (catalog_stale cfg version) (ConflictException ''MEMBERSHIP_CATALOG_REFRESH_REQUIRED'') (
               throw_if (pv_courses version = [] \<and> pl_fee_bps policy < 10000)
                 (ConflictException ''MEMBERSHIP_REVENUE_RECIPIENTS_REQUIRED'') (
               Inr (Some (pl_id policy, pl_fee_bps policy,
                 map (\<lambda>x. \<lparr>pp_course_id = ic_course_id x, pp_seller_id = ic_instructor x,
                           pp_weight = ic_weight x, pp_amount = 0\<rparr>) (pv_courses version)))))))))"

definition line_terms :: "revenue_config \<Rightarrow> order_line \<Rightarrow> (string \<times> int \<times> participant list) option result" where
  "line_terms cfg line =
     (if ol_product_type line = ''course'' then Inr (course_terms cfg line) else membership_terms cfg line)"

definition capture_line :: "revenue_config \<Rightarrow> string \<Rightarrow> shop_db \<Rightarrow> order_line \<Rightarrow> shop_db result" where
  "capture_line cfg order_id db line =
     (if list_ex (\<lambda>s. sn_id s = ol_id line) (snapshots db) then Inr db
      else and_then (line_terms cfg line) (\<lambda>terms.
        case terms of
          None \<Rightarrow> Inr db
        | Some (policy, fee, ps) \<Rightarrow>
            and_then (split_revenue (ol_final_amount line) (Integral fee)
                (map (\<lambda>p. \<lparr>wa_id = pp_course_id p, weight = pp_weight p\<rparr>) ps)) (\<lambda>split.
            Inr (db\<lparr>snapshots := snapshots db @ [\<lparr>sn_id = ol_id line, sn_order_id = order_id,
              sn_product_type = ol_product_type line, sn_policy_id = policy, sn_fee_bps = fee,
              sn_basis = ol_final_amount line, sn_platform = platform_amount_minor split,
              sn_seller = ol_final_amount line - platform_amount_minor split,
              sn_participants = map (\<lambda>p. p\<lparr>pp_amount := share_of (shares split) (pp_course_id p)\<rparr>) ps\<rparr>]\<rparr>))))"

definition capture_revenue ::
  "int \<Rightarrow> string \<Rightarrow> revenue_config \<times> shop_db \<Rightarrow> (revenue_config \<times> shop_db) result" where
  "capture_revenue now order_id st =
     (case st of (cfg, db) \<Rightarrow>
        let cfg' = cfg\<lparr>retail_policies := activate_retail_due now (retail_policies cfg)\<rparr> in
        and_then (fold_result (capture_line cfg' order_id) db
            (filter (\<lambda>l. ol_order_id l = order_id) (order_lines cfg'))) (\<lambda>db'.
        Inr (cfg', db')))"

section \<open>Verified payments\<close>

definition free_order :: "commerce_order \<Rightarrow> settlement \<Rightarrow> bool" where
  "free_order x s = (or_payable_amount x = 0 \<and> st_disposition s = ''internal'')"

definition wallet_paid :: "shop_db \<Rightarrow> commerce_order \<Rightarrow> settlement \<Rightarrow> bool" where
  "wallet_paid db x s =
     (case (hold_of_order (or_id x) db, journal_of_key (''gds:capture:'' @ or_id x) db) of
        (Some h, Some j) \<Rightarrow>
          gh_status h = ''CAPTURED'' \<and> gh_amount h = st_amount s
          \<and> (case find_wallet (gh_wallet_id h) db of None \<Rightarrow> False | Some w \<Rightarrow> gw_buyer_id w = or_buyer_id x)
          \<and> gj_kind j = ''CAPTURE'' \<and> gj_wallet_id j = gh_wallet_id h \<and> gj_amount j = st_amount s
          \<and> st_reference s = Some (''gds:order:'' @ or_id x) \<and> st_attempt_id s = None \<and> st_event_id s = None
      | _ \<Rightarrow> False)"

definition provider_paid :: "shop_db \<Rightarrow> commerce_order \<Rightarrow> settlement \<Rightarrow> bool" where
  "provider_paid db x s =
     (st_kind s = ''provider_collection'' \<and> st_disposition s = ''matched''
      \<and> (st_provider s = Some ''payos'' \<or> st_provider s = Some ''vnpay'') \<and> opt_truthy (st_reference s)
      \<and> (case (Option.bind (st_event_id s) (\<lambda>i. find_event i db), Option.bind (st_attempt_id s) (\<lambda>i. find_attempt i db)) of
           (Some e, Some a) \<Rightarrow>
             at_order_id a = or_id x \<and> ev_attempt_id e = at_id a \<and> Some (at_provider a) = st_provider s
             \<and> Some (ev_provider e) = st_provider s \<and> opt_truthy (at_payment_identity a) \<and> at_order_code a \<noteq> None
             \<and> ev_payment_identity e = at_payment_identity a \<and> ev_settlement_reference e = st_reference s
             \<and> ev_next_status e = ''paid'' \<and> at_status a = ''paid'' \<and> ev_amount e = st_amount s
             \<and> at_amount a = st_amount s \<and> at_currency a = st_currency s \<and> ev_currency_code e = st_currency s
             \<and> ev_occurred_at e = Some (st_settled_at s)
         | _ \<Rightarrow> False))"

definition is_verified :: "bool \<Rightarrow> int \<Rightarrow> shop_db \<Rightarrow> commerce_order \<Rightarrow> bool result" where
  "is_verified bank_on now db x =
     (case Option.bind (or_confirmed_settlement_id x) (\<lambda>i. find_settlement i db) of
        None \<Rightarrow> Inr False
      | Some s \<Rightarrow>
          if or_status x \<noteq> ''confirmed'' \<or> st_order_id s \<noteq> or_id x \<or> st_amount s \<noteq> or_payable_amount x
             \<or> st_currency s \<noteq> ''VND'' \<or> or_currency x \<noteq> ''VND'' then Inr False
          else if st_kind s = ''no_payment_required'' then Inr (free_order x s)
          else if st_provider s = Some ''bank_transfer''
          then and_then (require_bank_transfer_proof bank_on now (or_id x) (st_id s) db) (\<lambda>_. Inr True)
          else if st_kind s = ''wallet_capture'' \<and> st_provider s = Some ''gds'' \<and> st_disposition s = ''internal''
          then Inr (wallet_paid db x s)
          else Inr (provider_paid db x s))"

section \<open>Earning periods\<close>

definition period_due :: "int option \<Rightarrow> int \<Rightarrow> nat \<Rightarrow> nat \<Rightarrow> int result" where
  "period_due expires starts months index =
     (case expires of
        None \<Rightarrow> Inr starts
      | Some e \<Rightarrow> if index = months - 1 then Inr e
                  else add_calendar_months (Some starts) (Integral (int index + 1)))"

definition participant_periods ::
  "(string \<Rightarrow> nat \<Rightarrow> string) \<Rightarrow> string \<Rightarrow> allocated_amount list list \<Rightarrow> int option \<Rightarrow> int \<Rightarrow> participant
   \<Rightarrow> earning_period list result" where
  "participant_periods fresh sid monthly expires starts p =
     map_result (\<lambda>index. and_then (period_due expires starts (length monthly) index) (\<lambda>due.
       Inr \<lparr>ep_id = fresh (pp_course_id p) index, ep_snapshot_id = sid, ep_seller_id = pp_seller_id p,
            ep_course_id = pp_course_id p, ep_index = index, ep_due_at = due,
            ep_amount = share_of (monthly ! index) (pp_course_id p)\<rparr>)) [0..<length monthly]"

text \<open>The primary key and the unique index on snapshot, course and index.\<close>

definition insert_periods :: "earning_period list \<Rightarrow> shop_db \<Rightarrow> shop_db result" where
  "insert_periods new db =
     throw_if (\<not> distinct (map ep_id (periods db @ new))
         \<or> \<not> distinct (map (\<lambda>p. (ep_snapshot_id p, ep_course_id p, ep_index p)) (periods db @ new)))
       (PrismaError ''P2002'') (Inr (db\<lparr>periods := periods db @ new\<rparr>))"

definition snapshot_weights :: "revenue_snapshot \<Rightarrow> weighted_amount list" where
  "snapshot_weights s =
     \<lparr>wa_id = ''platform'', weight = sn_platform s\<rparr>
       # map (\<lambda>p. \<lparr>wa_id = pp_course_id p, weight = pp_amount p\<rparr>) (sn_participants s)"

text \<open>\<^const>\<open>None\<close> is the early return that waits for the subscription.\<close>

definition period_terms :: "revenue_snapshot \<Rightarrow> commerce_order \<Rightarrow> shop_db \<Rightarrow> (int \<times> int \<times> int option) option" where
  "period_terms s x db =
     (if sn_product_type s = ''membership'' then
        (case (find (\<lambda>m. ms_order_line_id m = Some (sn_id s)) (subscriptions (rights db)), or_term_months x) of
           (Some sub, Some months) \<Rightarrow> Some (months, ms_starts_at sub, Some (ms_expires_at sub))
         | _ \<Rightarrow> None)
      else Some (1, (case or_confirmed_at x of Some t \<Rightarrow> t | None \<Rightarrow> or_created_at x), None))"

definition periods_of :: "string \<Rightarrow> shop_db \<Rightarrow> earning_period list" where
  "periods_of sid db = filter (\<lambda>p. ep_snapshot_id p = sid) (periods db)"

definition create_periods ::
  "(string \<Rightarrow> nat \<Rightarrow> string) \<Rightarrow> revenue_snapshot \<Rightarrow> commerce_order \<Rightarrow> shop_db \<Rightarrow> shop_db option result" where
  "create_periods fresh s x db =
     (if periods_of (sn_id s) db \<noteq> [] \<or> sn_participants s = [] then Inr (Some db)
      else case period_terms s x db of
        None \<Rightarrow> Inr None
      | Some (months, starts, expires) \<Rightarrow>
          and_then (monthly_revenue_shares (snapshot_weights s) (Integral months)) (\<lambda>monthly.
          and_then (map_result (participant_periods fresh (sn_id s) monthly expires starts) (sn_participants s)) (\<lambda>rows.
          and_then (insert_periods (concat rows) db) (\<lambda>db'. Inr (Some db')))))"

section \<open>Refunds and recognition\<close>

definition entries_of :: "earning_period \<Rightarrow> shop_db \<Rightarrow> ledger_entry list" where
  "entries_of p db = filter (\<lambda>e. le_period_id e = ep_id p) (entries db)"

definition refund_kind :: "string \<Rightarrow> bool" where
  "refund_kind k = (take 7 k = ''refund_'')"

definition recognized :: "ledger_entry list \<Rightarrow> bool" where
  "recognized es = list_ex (\<lambda>e. le_kind e = ''recognized'') es"

definition sum_kinds :: "(string \<Rightarrow> bool) \<Rightarrow> ledger_entry list \<Rightarrow> int" where
  "sum_kinds K es = sum_list (map le_amount (filter (\<lambda>e. K (le_kind e)) es))"

definition insert_entry :: "ledger_entry \<Rightarrow> shop_db \<Rightarrow> shop_db result" where
  "insert_entry e db =
     throw_if (list_ex (\<lambda>e'. le_source_key e' = le_source_key e) (entries db)) (PrismaError ''P2002'')
       (Inr (db\<lparr>entries := entries db @ [e]\<rparr>))"

definition refund_order :: "refund_allocation \<Rightarrow> refund_allocation \<Rightarrow> int" where
  "refund_order a b =
     (if ra_recorded_at a \<noteq> ra_recorded_at b then (if ra_recorded_at a < ra_recorded_at b then -1 else 1)
      else if ra_id a < ra_id b then -1 else if ra_id a > ra_id b then 1 else 0)"

definition line_refunds :: "string \<Rightarrow> commerce_order \<Rightarrow> shop_db \<Rightarrow> refund_allocation list" where
  "line_refunds sid x db =
     js_sort refund_order (filter (\<lambda>r. ra_order_line_id r = sid \<and> ra_refund_status r = ''recorded''
       \<and> Some (ra_settlement_id r) = or_confirmed_settlement_id x) (refunds db))"

text \<open>The rows are read from \<^verbatim>\<open>db0\<close>, the tables before the refund entries are written.\<close>

definition reverse_period ::
  "shop_db \<Rightarrow> int \<Rightarrow> int \<Rightarrow> string \<Rightarrow> allocated_amount list \<Rightarrow> shop_db \<Rightarrow> earning_period \<Rightarrow> shop_db result" where
  "reverse_period db0 now cumulative refund targets db p =
     (let target = share_of targets (ep_id p);
          reversed = - sum_kinds refund_kind (entries_of p db0);
          delta = target - reversed in
      if delta = 0 then Inr db
      else insert_entry \<lparr>le_period_id = ep_id p,
             le_source_key = ''refund:'' @ ep_id p @ '':'' @ show_int cumulative, le_refund_id = Some refund,
             le_kind = (if recognized (entries_of p db0) then ''refund_recognized'' else ''refund_pending''),
             le_amount = - delta, le_created_at = now\<rparr> db)"

definition reverse_participant ::
  "shop_db \<Rightarrow> int \<Rightarrow> int \<Rightarrow> string \<Rightarrow> string \<Rightarrow> allocated_amount list \<Rightarrow> shop_db \<Rightarrow> participant \<Rightarrow> shop_db result" where
  "reverse_participant db0 now cumulative refund sid targets db p =
     (let group = filter (\<lambda>q. ep_course_id q = pp_course_id p) (periods_of sid db0) in
      and_then (allocate_minor (share_of targets (pp_course_id p))
          (map (\<lambda>q. \<lparr>wa_id = ep_id q, weight = ep_amount q\<rparr>) (filter (\<lambda>q. ep_amount q > 0) group))) (\<lambda>period_targets.
      fold_result (reverse_period db0 now cumulative refund period_targets) db group))"

definition apply_refunds :: "int \<Rightarrow> revenue_snapshot \<Rightarrow> commerce_order \<Rightarrow> shop_db \<Rightarrow> shop_db result" where
  "apply_refunds now s x db =
     (let rs = line_refunds (sn_id s) x db; cumulative = sum_list (map ra_amount rs) in
      throw_if (cumulative > sn_basis s) (ConflictException ''REVENUE_REFUND_EXCEEDS_BASIS'') (
      if cumulative > 0 then
        and_then (refund_targets cumulative (sn_basis s) (snapshot_weights s)) (\<lambda>targets.
        fold_result (reverse_participant db now cumulative (ra_refund_id (last rs)) (sn_id s) targets) db
          (sn_participants s))
      else Inr db))"

definition recognize_period :: "shop_db \<Rightarrow> int \<Rightarrow> shop_db \<Rightarrow> earning_period \<Rightarrow> shop_db result" where
  "recognize_period db0 now db p =
     (if recognized (entries_of p db0) then Inr db
      else
        let amount = ep_amount p + sum_kinds (\<lambda>k. k = ''refund_pending'') (entries_of p db0) in
        throw_if (amount < 0) (ConflictException ''NEGATIVE_REVENUE_RECOGNITION'') (
        insert_entry \<lparr>le_period_id = ep_id p, le_source_key = ''recognize:'' @ ep_id p, le_refund_id = None,
          le_kind = ''recognized'', le_amount = amount, le_created_at = now\<rparr> db))"

definition recognize_due :: "int \<Rightarrow> string \<Rightarrow> shop_db \<Rightarrow> shop_db result" where
  "recognize_due now sid db =
     fold_result (recognize_period db now) db (filter (\<lambda>p. ep_due_at p \<le> now) (periods_of sid db))"

definition process_snapshot ::
  "bool \<Rightarrow> (string \<Rightarrow> nat \<Rightarrow> string) \<Rightarrow> int \<Rightarrow> string \<Rightarrow> shop_db \<Rightarrow> shop_db result" where
  "process_snapshot bank_on fresh now sid db =
     and_then (or_throw (find (\<lambda>s. sn_id s = sid) (snapshots db))) (\<lambda>s.
     case find_order (sn_order_id s) db of
       None \<Rightarrow> Inr db
     | Some x \<Rightarrow>
         and_then (is_verified bank_on now db x) (\<lambda>ok.
         if \<not> ok then Inr db
         else
           and_then (create_periods fresh s x db) (\<lambda>m.
           case m of
             None \<Rightarrow> Inr db
           | Some db1 \<Rightarrow> and_then (apply_refunds now s x db1) (recognize_due now sid))))"

definition reconcile_wallet_period ::
  "bool \<Rightarrow> (string \<Rightarrow> nat \<Rightarrow> string) \<Rightarrow> int \<Rightarrow> string \<Rightarrow> shop_db \<Rightarrow> (bool \<times> shop_db) result" where
  "reconcile_wallet_period bank_on fresh now period_id db =
     and_then (or_throw (find (\<lambda>p. ep_id p = period_id) (periods db))) (\<lambda>p.
     and_then (process_snapshot bank_on fresh now (ep_snapshot_id p) db) (\<lambda>db1.
     and_then (or_throw (find (\<lambda>s. sn_id s = ep_snapshot_id p) (snapshots db1))) (\<lambda>s.
     case find_order (sn_order_id s) db1 of
       None \<Rightarrow> Inr (False, db1)
     | Some x \<Rightarrow> and_then (is_verified bank_on now db1 x) (\<lambda>ok. Inr (ok, db1)))))"

section \<open>Batches and reports\<close>

definition revenue_serializable :: "(nat \<Rightarrow> api_error option) \<Rightarrow> ('s, 'a) txn \<Rightarrow> ('s, 'a) txn" where
  "revenue_serializable aborts body =
     retry_loop (\<lambda>e. e = PrismaError ''P2034'') (PrismaError ''P2034'') 0 4 (aborting aborts body)"

definition batch_ids :: "string option \<Rightarrow> shop_db \<Rightarrow> string list" where
  "batch_ids cursor db =
     take 100 (sort (filter (\<lambda>i. opt_truthy cursor \<longrightarrow> i > the cursor) (map sn_id (snapshots db))))"

definition next_cursor :: "string list \<Rightarrow> string option" where
  "next_cursor ids = (if length ids = 100 then Some (last ids) else None)"

fun process_batch ::
  "bool \<Rightarrow> (string \<Rightarrow> string \<Rightarrow> nat \<Rightarrow> string) \<Rightarrow> int \<Rightarrow> string list \<Rightarrow> int \<times> shop_db \<Rightarrow> int \<times> shop_db" where
  "process_batch bank_on fresh now [] st = st"
| "process_batch bank_on fresh now (i # is) (failed, db) =
     process_batch bank_on fresh now is
       (case process_snapshot bank_on (fresh i) now i db of
          Inl _ \<Rightarrow> (failed + 1, db) | Inr db' \<Rightarrow> (failed, db'))"

record batch_result =
  bt_checked :: nat
  bt_failed :: int

definition run_batch ::
  "bool \<Rightarrow> (string \<Rightarrow> string \<Rightarrow> nat \<Rightarrow> string) \<Rightarrow> int \<Rightarrow> string option \<times> revenue_config \<times> shop_db
   \<Rightarrow> batch_result \<times> string option \<times> revenue_config \<times> shop_db" where
  "run_batch bank_on fresh now st =
     (case st of (cursor, cfg, db) \<Rightarrow>
        let cfg' = cfg\<lparr>retail_policies := activate_retail_due now (retail_policies cfg)\<rparr>;
            ids = batch_ids cursor db;
            (failed, db') = process_batch bank_on fresh now ids (0, db)
        in (\<lparr>bt_checked = length ids, bt_failed = failed\<rparr>, next_cursor ids, cfg', db'))"

record period_report =
  pr_id :: string
  pr_line_id :: string
  pr_seller_id :: string
  pr_course_id :: string
  pr_amount :: int
  pr_due_at :: int
  pr_recognized :: int
  pr_refunded :: int
  pr_pending :: int

definition report_item :: "shop_db \<Rightarrow> earning_period \<Rightarrow> period_report" where
  "report_item db p =
     (let es = entries_of p db in
      \<lparr>pr_id = ep_id p, pr_line_id = ep_snapshot_id p, pr_seller_id = ep_seller_id p, pr_course_id = ep_course_id p,
       pr_amount = ep_amount p, pr_due_at = ep_due_at p,
       pr_recognized = sum_kinds (\<lambda>k. k \<noteq> ''refund_pending'') es,
       pr_refunded = sum_kinds refund_kind es,
       pr_pending = (if recognized es then 0 else ep_amount p + sum_list (map le_amount es))\<rparr>)"

record revenue_totals =
  tt_pending :: int
  tt_recognized :: int
  tt_refunded :: int

text \<open>The aggregate query.\<close>

definition report_totals :: "shop_db \<Rightarrow> earning_period list \<Rightarrow> revenue_totals" where
  "report_totals db ps =
     \<lparr>tt_pending = sum_list (map (\<lambda>p. if \<not> recognized (entries_of p db)
          then ep_amount p + sum_kinds (\<lambda>k. k = ''refund_pending'') (entries_of p db) else 0) ps),
      tt_recognized = sum_list (map (\<lambda>p. sum_kinds (\<lambda>k. k = ''recognized'' \<or> k = ''refund_recognized'') (entries_of p db)) ps),
      tt_refunded = sum_list (map (\<lambda>p. sum_kinds (\<lambda>k. k = ''refund_pending'' \<or> k = ''refund_recognized'') (entries_of p db)) ps)\<rparr>"

definition latest_due :: "earning_period \<Rightarrow> earning_period \<Rightarrow> int" where
  "latest_due a b =
     (if ep_due_at a \<noteq> ep_due_at b then (if ep_due_at a > ep_due_at b then -1 else 1)
      else if ep_id a < ep_id b then -1 else if ep_id a > ep_id b then 1 else 0)"

definition seller_periods :: "string option \<Rightarrow> shop_db \<Rightarrow> earning_period list" where
  "seller_periods seller db = filter (\<lambda>p. opt_truthy seller \<longrightarrow> Some (ep_seller_id p) = seller) (periods db)"

definition revenue_report :: "string option \<Rightarrow> nat \<Rightarrow> nat \<Rightarrow> shop_db \<Rightarrow> period_report page \<times> revenue_totals" where
  "revenue_report seller page psize db =
     (make_page (report_item db) page psize (js_sort latest_due (seller_periods seller db)),
      report_totals db (seller_periods seller db))"

section \<open>The entries of one period\<close>

text \<open>Every entry is of a known kind; refunds stay within the period; it is recognized at most once, for
  what the refunds before then left of it.\<close>

definition reversed_amount :: "ledger_entry list \<Rightarrow> int" where
  "reversed_amount es = - sum_kinds refund_kind es"

definition entries_sound :: "int \<Rightarrow> ledger_entry list \<Rightarrow> bool" where
  "entries_sound a es =
     ((\<forall>e\<in>set es. le_kind e \<in> {''recognized'', ''refund_pending'', ''refund_recognized''})
      \<and> 0 \<le> reversed_amount es \<and> reversed_amount es \<le> a
      \<and> count_where (\<lambda>e. le_kind e = ''recognized'') es \<le> 1
      \<and> (if recognized es
         then sum_kinds (\<lambda>k. k = ''recognized'') es = a + sum_kinds (\<lambda>k. k = ''refund_pending'') es
         else \<forall>e\<in>set es. le_kind e = ''refund_pending''))"

lemma sum_kinds_simps [simp]:
  "sum_kinds K [] = 0"
  "sum_kinds K (e # es) = (if K (le_kind e) then le_amount e else 0) + sum_kinds K es"
  "sum_kinds K (xs @ ys) = sum_kinds K xs + sum_kinds K ys"
  by (simp_all add: sum_kinds_def)

lemma recognized_simps [simp]:
  "recognized [] = False" "recognized (e # es) = (le_kind e = ''recognized'' \<or> recognized es)"
  "recognized (xs @ ys) = (recognized xs \<or> recognized ys)"
  by (simp_all add: recognized_def)

lemma refund_kind_simps [simp]:
  "refund_kind ''refund_pending''" "refund_kind ''refund_recognized''" "\<not> refund_kind ''recognized''"
  by (simp_all add: refund_kind_def)

lemma reversed_split:
  assumes "\<forall>e\<in>set es. le_kind e \<in> {''recognized'', ''refund_pending'', ''refund_recognized''}"
  shows "reversed_amount es = - sum_kinds (\<lambda>k. k = ''refund_pending'') es - sum_kinds (\<lambda>k. k = ''refund_recognized'') es"
    and "sum_kinds (\<lambda>k. k \<noteq> ''refund_pending'') es = sum_kinds (\<lambda>k. k = ''recognized'' \<or> k = ''refund_recognized'') es"
    and "sum_kinds (\<lambda>k. k = ''recognized'' \<or> k = ''refund_recognized'') es
      = sum_kinds (\<lambda>k. k = ''recognized'') es + sum_kinds (\<lambda>k. k = ''refund_recognized'') es"
    and "sum_kinds refund_kind es = sum_kinds (\<lambda>k. k = ''refund_pending'' \<or> k = ''refund_recognized'') es"
  using assms by (induction es) (auto simp: reversed_amount_def)

lemma sound_Nil: "0 \<le> a \<Longrightarrow> entries_sound a []"
  by (simp add: entries_sound_def reversed_amount_def)

lemma only_pending:
  "\<forall>e\<in>set es. le_kind e = ''refund_pending'' \<Longrightarrow> sum_kinds refund_kind es = sum_kinds (\<lambda>k. k = ''refund_pending'') es
    \<and> sum_list (map le_amount es) = sum_kinds (\<lambda>k. k = ''refund_pending'') es
    \<and> sum_kinds (\<lambda>k. k = ''recognized'' \<or> k = ''refund_recognized'') es = 0
    \<and> sum_kinds (\<lambda>k. k = ''recognized'') es = 0 \<and> count_where (\<lambda>e. le_kind e = ''recognized'') es = 0"
  by (induction es) auto

lemma sound_refund:
  assumes "entries_sound a es" and "0 \<le> t" and "t \<le> a"
    and "le_kind e = (if recognized es then ''refund_recognized'' else ''refund_pending'')"
    and "le_amount e = - (t - reversed_amount es)"
  shows "entries_sound a (es @ [e])" and "reversed_amount (es @ [e]) = t"
  using assms by (auto simp: entries_sound_def reversed_amount_def)

lemma sound_recognize:
  assumes "entries_sound a es" and "\<not> recognized es" and "le_kind e = ''recognized''"
    and "le_amount e = a + sum_kinds (\<lambda>k. k = ''refund_pending'') es"
  shows "entries_sound a (es @ [e])"
  using assms only_pending [of es] by (auto simp: entries_sound_def reversed_amount_def)

lemma sound_net:
  assumes "entries_sound a es"
  shows "recognized es \<Longrightarrow> sum_kinds (\<lambda>k. k = ''recognized'' \<or> k = ''refund_recognized'') es = a - reversed_amount es"
    and "\<not> recognized es \<Longrightarrow> a + sum_kinds (\<lambda>k. k = ''refund_pending'') es = a - reversed_amount es"
proof -
  have k: "\<forall>e\<in>set es. le_kind e \<in> {''recognized'', ''refund_pending'', ''refund_recognized''}"
    using assms by (simp add: entries_sound_def)
  show "recognized es \<Longrightarrow> sum_kinds (\<lambda>k. k = ''recognized'' \<or> k = ''refund_recognized'') es = a - reversed_amount es"
    unfolding reversed_split(1) [OF k] reversed_split(3) [OF k]
    using assms by (simp add: entries_sound_def)
  show "\<not> recognized es \<Longrightarrow> a + sum_kinds (\<lambda>k. k = ''refund_pending'') es = a - reversed_amount es"
    using assms only_pending [of es] by (simp add: entries_sound_def reversed_amount_def)
qed

section \<open>Loops that write entries\<close>

lemma filter_concat_own:
  assumes "distinct (map ep_id ps)" and "q \<in> set ps" and "\<And>p e. p \<in> set ps \<Longrightarrow> e \<in> set (es p) \<Longrightarrow> le_period_id e = ep_id p"
  shows "filter (\<lambda>e. le_period_id e = ep_id q) (concat (map es ps)) = es q"
  using assms
proof (induction ps)
  case Nil
  then show ?case by simp
next
  case (Cons p ps)
  have none: "filter (\<lambda>e. le_period_id e = ep_id q) (concat (map es xs)) = []"
    if "ep_id q \<notin> ep_id ` set xs" "\<And>x e. x \<in> set xs \<Longrightarrow> e \<in> set (es x) \<Longrightarrow> le_period_id e = ep_id x" for xs
    using that by (auto simp: filter_empty_conv) (metis image_eqI)
  show ?case
  proof (cases "q = p")
    case True
    with Cons.prems none [of ps] show ?thesis by auto
  next
    case False
    with Cons.prems(2) have q: "q \<in> set ps" by simp
    with Cons.prems(1) have "ep_id q \<noteq> ep_id p" by (metis distinct.simps(2) imageI list.map(2) list.set_map)
    then have "filter (\<lambda>e. le_period_id e = ep_id q) (es p) = []"
      using Cons.prems(3) [of p] by (auto simp: filter_empty_conv)
    with Cons q show ?thesis by simp
  qed
qed

lemma fold_entries:
  assumes "\<And>db p db'. p \<in> set ps \<Longrightarrow> f db p = Inr db' \<Longrightarrow> db' = db\<lparr>entries := entries db @ es p\<rparr>"
    and "fold_result f db ps = Inr db'"
  shows "db' = db\<lparr>entries := entries db @ concat (map es ps)\<rparr>"
  using assms by (induction ps arbitrary: db) (fastforce simp: result_simps)+

section \<open>Shares found by id\<close>

lemma share_of_nth:
  assumes "map aa_id xs = is" and "distinct is" and "k < length xs"
  shows "share_of xs (is ! k) = amount_minor (xs ! k)"
proof -
  have "find (\<lambda>p. aa_id p = aa_id (xs ! k)) xs = Some (xs ! k)"
    using assms by (intro find_row) auto
  moreover have "is ! k = aa_id (xs ! k)" using assms(1,3) by auto
  ultimately show ?thesis by (simp add: share_of_def)
qed

lemma share_of_all:
  assumes "map aa_id xs = is" and "distinct is"
  shows "map (share_of xs) is = map amount_minor xs"
  using assms share_of_nth [OF assms] by (intro nth_equalityI) (auto simp flip: assms(1))

lemma allocate_share_bounds:
  assumes "allocate_minor a ws = Inr xs" and "a \<le> sum_list (map weight ws)"
  shows "0 \<le> share_of xs i" and "x \<in> set ws \<Longrightarrow> share_of xs (wa_id x) \<le> weight x"
    and "i \<notin> wa_id ` set ws \<Longrightarrow> share_of xs i = 0"
proof -
  have ids: "aa_id ` set xs = wa_id ` set ws" using allocate_minor_ids [OF assms(1)] by (metis list.set_map)
  show z: "i \<notin> wa_id ` set ws \<Longrightarrow> share_of xs i = 0" by (rule share_of_notin) (simp add: ids)
  have f: "\<exists>p\<in>set xs. aa_id p = wa_id x \<and> share_of xs (wa_id x) = amount_minor p" if "x \<in> set ws" for x
  proof -
    have "wa_id x \<in> aa_id ` set xs" unfolding ids using that by simp
    then obtain p0 where "p0 \<in> set xs" "aa_id p0 = wa_id x" by (metis imageE)
    then have "find (\<lambda>p. aa_id p = wa_id x) xs \<noteq> None" using find_NoneD [of "\<lambda>p. aa_id p = wa_id x" xs p0] by blast
    then obtain p where "find (\<lambda>p. aa_id p = wa_id x) xs = Some p" by blast
    then show ?thesis using find_SomeD by (fastforce simp: share_of_def)
  qed
  show "0 \<le> share_of xs i"
  proof (cases "i \<in> wa_id ` set ws")
    case True
    then obtain y where y: "y \<in> set ws" "i = wa_id y" by auto
    then obtain p where "p \<in> set xs" "aa_id p = wa_id y" "share_of xs (wa_id y) = amount_minor p" using f by blast
    then show ?thesis using allocate_minor_le_weight(1) [OF assms] y by metis
  qed (simp add: z)
  show "x \<in> set ws \<Longrightarrow> share_of xs (wa_id x) \<le> weight x"
    using f allocate_minor_le_weight(2) [OF assms] by fastforce
qed

section \<open>The invariant of the tables\<close>

definition snapshot_ok :: "revenue_snapshot \<Rightarrow> bool" where
  "snapshot_ok s =
     (0 \<le> sn_platform s \<and> (\<forall>p\<in>set (sn_participants s). 0 \<le> pp_amount p)
      \<and> sn_platform s + sum_list (map pp_amount (sn_participants s)) = sn_basis s)"

definition course_group :: "shop_db \<Rightarrow> string \<Rightarrow> participant \<Rightarrow> earning_period list" where
  "course_group db sid p = filter (\<lambda>q. ep_course_id q = pp_course_id p) (periods_of sid db)"

definition snapshot_periods_ok :: "shop_db \<Rightarrow> revenue_snapshot \<Rightarrow> bool" where
  "snapshot_periods_ok db s =
     (periods_of (sn_id s) db \<noteq> [] \<longrightarrow>
        distinct (''platform'' # map pp_course_id (sn_participants s))
        \<and> (\<forall>q\<in>set (periods_of (sn_id s) db). ep_course_id q \<in> pp_course_id ` set (sn_participants s))
        \<and> (\<forall>p\<in>set (sn_participants s). sum_list (map ep_amount (course_group db (sn_id s) p)) = pp_amount p))"

definition revenue_inv :: "shop_db \<Rightarrow> bool" where
  "revenue_inv db =
     (distinct (map sn_id (snapshots db)) \<and> distinct (map ep_id (periods db))
      \<and> (\<forall>s\<in>set (snapshots db). snapshot_ok s \<and> snapshot_periods_ok db s)
      \<and> (\<forall>q\<in>set (periods db). ep_snapshot_id q \<in> sn_id ` set (snapshots db) \<and> 0 \<le> ep_amount q
           \<and> entries_sound (ep_amount q) (entries_of q db))
      \<and> (\<forall>e\<in>set (entries db). le_period_id e \<in> ep_id ` set (periods db)))"

lemma revenue_inv_cong:
  "snapshots db' = snapshots db \<Longrightarrow> periods db' = periods db \<Longrightarrow> entries db' = entries db
   \<Longrightarrow> revenue_inv db' = revenue_inv db"
  by (simp add: revenue_inv_def snapshot_periods_ok_def course_group_def periods_of_def entries_of_def)

text \<open>A loop that adds to every period what the soundness of its entries allows keeps the invariant.\<close>

lemma entries_added:
  assumes "revenue_inv db" and "ps = filter P (periods db)"
    and "\<And>p e. p \<in> set ps \<Longrightarrow> e \<in> set (es p) \<Longrightarrow> le_period_id e = ep_id p"
    and "\<And>p. p \<in> set ps \<Longrightarrow> entries_sound (ep_amount p) (entries_of p db @ es p)"
    and new: "set new = (\<Union>p\<in>set ps. set (es p))"
    and "\<And>q. q \<in> set ps \<Longrightarrow> filter (\<lambda>e. le_period_id e = ep_id q) new = es q"
  shows "revenue_inv (db\<lparr>entries := entries db @ new\<rparr>)"
proof -
  let ?db = "db\<lparr>entries := entries db @ new\<rparr>"
  have d: "distinct (map ep_id (periods db))" using assms(1) by (simp add: revenue_inv_def)
  have sub: "set ps \<subseteq> set (periods db)" by (auto simp: assms(2))
  have own: "entries_sound (ep_amount q) (entries_of q ?db)" if q: "q \<in> set (periods db)" for q
  proof (cases "q \<in> set ps")
    case True
    then show ?thesis using assms(4) [OF True] assms(6) [OF True] by (simp add: entries_of_def)
  next
    case False
    have "le_period_id e \<noteq> ep_id q" if e: "e \<in> set new" for e
    proof
      assume "le_period_id e = ep_id q"
      moreover obtain p where "p \<in> set ps" "e \<in> set (es p)" using e new by auto
      ultimately have "ep_id p = ep_id q" using assms(3) by metis
      then have "p = q" using d q \<open>p \<in> set ps\<close> sub by (metis distinct_map inj_on_def subsetD)
      with False \<open>p \<in> set ps\<close> show False by simp
    qed
    then have "entries_of q ?db = entries_of q db" by (simp add: entries_of_def filter_empty_conv)
    with assms(1) q show ?thesis by (simp add: revenue_inv_def)
  qed
  have "le_period_id e \<in> ep_id ` set (periods db)" if "e \<in> set new" for e
    using that new assms(3) sub by fastforce
  with assms(1) own show ?thesis
    by (auto simp: revenue_inv_def snapshot_periods_ok_def course_group_def periods_of_def)
qed

section \<open>The steps keep the invariant\<close>

lemma split_shares:
  assumes "split_revenue amt (Integral fee) (map (\<lambda>p. \<lparr>wa_id = pp_course_id p, weight = pp_weight p\<rparr>) ps) = Inr split"
  shows "0 \<le> platform_amount_minor split"
    and "platform_amount_minor split + sum_list (map (\<lambda>p. share_of (shares split) (pp_course_id p)) ps) = amt"
    and "p \<in> set ps \<Longrightarrow> 0 \<le> share_of (shares split) (pp_course_id p)"
proof -
  let ?ws = "map (\<lambda>p. \<lparr>wa_id = pp_course_id p, weight = pp_weight p\<rparr>) ps"
  have sh: "allocate_minor (amt - platform_amount_minor split) ?ws = Inr (shares split)"
    and nn: "0 \<le> platform_amount_minor split"
    using assms by (auto simp: split_revenue_def result_simps Let_def pos_imp_zdiv_nonneg_iff split: if_splits)
  show "0 \<le> platform_amount_minor split" by (rule nn)
  have ids: "map aa_id (shares split) = map pp_course_id ps" and d: "distinct (map pp_course_id ps)"
    using allocate_minor_ids [OF sh] sh by (auto simp: allocate_minor_ok_iff comp_def)
  have shs: "map (share_of (shares split)) (map pp_course_id ps) = map amount_minor (shares split)"
    by (rule share_of_all [OF ids d])
  then show "platform_amount_minor split + sum_list (map (\<lambda>p. share_of (shares split) (pp_course_id p)) ps) = amt"
    using allocate_minor_sum [OF sh] by (simp add: comp_def)
  show "p \<in> set ps \<Longrightarrow> 0 \<le> share_of (shares split) (pp_course_id p)"
  proof -
    assume "p \<in> set ps"
    then have "share_of (shares split) (pp_course_id p) \<in> set (map (share_of (shares split)) (map pp_course_id ps))" by simp
    then show ?thesis unfolding shs using allocate_minor_nonneg [OF sh] by auto
  qed
qed

lemma snapshot_added:
  assumes "revenue_inv db" and "\<forall>x\<in>set (snapshots db). sn_id x \<noteq> sn_id s" and "snapshot_ok s"
  shows "revenue_inv (db\<lparr>snapshots := snapshots db @ [s]\<rparr>)"
proof -
  have "periods_of (sn_id s) db = []"
    using assms(1,2) unfolding revenue_inv_def periods_of_def filter_empty_conv by (metis imageE)
  with assms show ?thesis
    by (auto simp: revenue_inv_def snapshot_periods_ok_def course_group_def periods_of_def entries_of_def)
qed

lemma capture_line_inv:
  assumes "revenue_inv db"
  shows "ok_all revenue_inv (capture_line cfg i db line)"
proof -
  have "snapshot_ok \<lparr>sn_id = ol_id line, sn_order_id = i,
              sn_product_type = ol_product_type line, sn_policy_id = policy, sn_fee_bps = fee,
              sn_basis = ol_final_amount line, sn_platform = platform_amount_minor split,
              sn_seller = ol_final_amount line - platform_amount_minor split,
              sn_participants = map (\<lambda>p. p\<lparr>pp_amount := share_of (shares split) (pp_course_id p)\<rparr>) ps\<rparr>"
    if "split_revenue (ol_final_amount line) (Integral fee)
        (map (\<lambda>p. \<lparr>wa_id = pp_course_id p, weight = pp_weight p\<rparr>) ps) = Inr split" for policy fee split ps
    using split_shares [OF that] by (simp add: snapshot_ok_def comp_def)
  with assms show ?thesis
    by (auto simp: ok_all_def capture_line_def result_simps list_ex_iff split: option.splits intro!: snapshot_added)
qed

lemma capture_order_inv:
  assumes "revenue_inv db" and "capture_revenue now i (cfg, db) = Inr (cfg', db')"
  shows "revenue_inv db'"
proof -
  obtain cfg1 ls where "fold_result (capture_line cfg1 i) db ls = Inr db'"
    using assms(2) by (auto simp: capture_revenue_def Let_def result_simps)
  then show ?thesis
    by (rule fold_result_invariant) (use assms(1) ok_allD [OF capture_line_inv] in blast)+
qed

lemma map_result_nth:
  "map_result f xs = Inr ys \<Longrightarrow> length ys = length xs \<and> (\<forall>k<length xs. f (xs ! k) = Inr (ys ! k))"
  by (auto simp: map_result_Inr_iff list_all2_conv_all_nth)

lemma participant_periods_facts:
  assumes "participant_periods fresh sid monthly expires starts p = Inr rows"
  shows "map ep_amount rows = map (\<lambda>row. share_of row (pp_course_id p)) monthly"
    and "q \<in> set rows \<Longrightarrow> ep_snapshot_id q = sid \<and> ep_course_id q = pp_course_id p"
proof -
  note n = map_result_nth [OF assms [unfolded participant_periods_def]]
  have f: "ep_snapshot_id (rows ! k) = sid \<and> ep_course_id (rows ! k) = pp_course_id p
      \<and> ep_amount (rows ! k) = share_of (monthly ! k) (pp_course_id p)" if "k < length monthly" for k
  proof -
    let ?m = "and_then (period_due expires starts (length monthly) k) (\<lambda>due.
       Inr \<lparr>ep_id = fresh (pp_course_id p) k, ep_snapshot_id = sid, ep_seller_id = pp_seller_id p,
            ep_course_id = pp_course_id p, ep_index = k, ep_due_at = due,
            ep_amount = share_of (monthly ! k) (pp_course_id p)\<rparr>)"
    have "ok_all (\<lambda>q. ep_snapshot_id q = sid \<and> ep_course_id q = pp_course_id p
        \<and> ep_amount q = share_of (monthly ! k) (pp_course_id p)) ?m"
      by (simp add: wp) (simp add: ok_all_def)
    moreover have "?m = Inr (rows ! k)" using n that by simp
    ultimately show ?thesis by (rule ok_allD)
  qed
  show "map ep_amount rows = map (\<lambda>row. share_of row (pp_course_id p)) monthly"
    using n f by (intro nth_equalityI) auto
  show "q \<in> set rows \<Longrightarrow> ep_snapshot_id q = sid \<and> ep_course_id q = pp_course_id p"
    using n f by (auto simp: in_set_conv_nth)
qed

lemma monthly_share_sums:
  assumes "monthly_revenue_shares os (Integral m) = Inr monthly" and "x \<in> set os"
  shows "sum_list (map (\<lambda>row. share_of row (wa_id x)) monthly) = weight x"
    and "row \<in> set monthly \<Longrightarrow> 0 \<le> share_of row (wa_id x)" and "distinct (map wa_id os)"
proof -
  have pre: "list_all (\<lambda>x. 0 \<le> weight x) os" "distinct (map wa_id os)" "1 \<le> m" "m \<le> 1200"
    using assms(1) by (auto simp: monthly_revenue_shares_def monthly_amounts_def list_ex_iff list_all_iff result_simps
        not_less split: if_splits)
  show "distinct (map wa_id os)" by (rule pre)
  obtain k where k: "k < length os" "x = os ! k" using assms(2) by (metis in_set_conv_nth)
  from monthly_shares_terms [OF pre] assms(1)
  have rows: "\<forall>row\<in>set monthly. map aa_id row = map wa_id os \<and> list_all (\<lambda>p. 0 \<le> amount_minor p) row"
    and s: "sum_list (map (\<lambda>row. amount_minor (row ! k)) monthly) = weight (os ! k)"
    using k by auto
  have sh: "share_of row (wa_id x) = amount_minor (row ! k) \<and> 0 \<le> amount_minor (row ! k)" if "row \<in> set monthly" for row
  proof -
    have "map aa_id row = map wa_id os" "list_all (\<lambda>p. 0 \<le> amount_minor p) row" using rows that by auto
    moreover from this(1) have "length row = length os" by (metis length_map)
    ultimately show ?thesis using share_of_nth [of row "map wa_id os" k] k pre(2) by (auto simp: list_all_iff)
  qed
  then show "row \<in> set monthly \<Longrightarrow> 0 \<le> share_of row (wa_id x)" by simp
  have eq: "map (\<lambda>row. share_of row (wa_id x)) monthly = map (\<lambda>row. amount_minor (row ! k)) monthly"
    using sh by (intro map_cong) auto
  have "sum_list (map (\<lambda>row. amount_minor (row ! k)) monthly) = weight x" unfolding k(2) by (rule s)
  then show "sum_list (map (\<lambda>row. share_of row (wa_id x)) monthly) = weight x" unfolding eq .
qed

lemma filter_concat_nth:
  assumes "list_all2 (\<lambda>p r. \<forall>q\<in>set r. g q = f p) ps rows" and "distinct (map f ps)" and "k < length ps"
  shows "filter (\<lambda>q. g q = f (ps ! k)) (concat rows) = rows ! k"
  using assms
proof (induction arbitrary: k rule: list_all2_induct)
  case Nil
  then show ?case by simp
next
  case (Cons p ps r rows)
  have none: "filter (\<lambda>q. g q = c) (concat rows) = []" if "c \<notin> f ` set ps" for c
    using Cons.hyps(2) that by (fastforce simp: filter_empty_conv list_all2_conv_all_nth in_set_conv_nth)
  show ?case
  proof (cases k)
    case 0
    with Cons.hyps(1) Cons.prems none [of "f p"] show ?thesis by simp
  next
    case (Suc j)
    with Cons.prems have j: "j < length ps" by simp
    then have "f (ps ! j) \<noteq> f p" using Cons.prems(1) by (metis distinct.simps(2) image_eqI list.simps(9) list.set_map nth_mem)
    with Cons.hyps(1) have "filter (\<lambda>q. g q = f (ps ! j)) r = []" by (auto simp: filter_empty_conv)
    with Suc Cons.IH [OF _ j] Cons.prems(1) show ?thesis by simp
  qed
qed

lemma create_periods_inv:
  assumes inv: "revenue_inv db" and s: "s \<in> set (snapshots db)"
    and ok: "create_periods fresh s x db = Inr (Some db1)"
  shows "revenue_inv db1 \<and> snapshots db1 = snapshots db"
proof (cases "periods_of (sn_id s) db \<noteq> [] \<or> sn_participants s = []")
  case True
  with ok inv show ?thesis by (simp add: create_periods_def split: if_splits)
next
  case False
  let ?ps = "sn_participants s"
  from False ok obtain months starts expires monthly rows where
    monthly: "monthly_revenue_shares (snapshot_weights s) (Integral months) = Inr monthly"
    and rows: "map_result (participant_periods fresh (sn_id s) monthly expires starts) ?ps = Inr rows"
    and ins: "insert_periods (concat rows) db = Inr db1"
    by (auto simp: create_periods_def result_simps split: option.splits)
  from ins have d: "distinct (map ep_id (periods db @ concat rows))" and db1: "db1 = db\<lparr>periods := periods db @ concat rows\<rparr>"
    by (auto simp: insert_periods_def result_simps)
  note r = map_result_nth [OF rows]
  have pf: "map ep_amount (rows ! k) = map (\<lambda>row. share_of row (pp_course_id (?ps ! k))) monthly"
    "q \<in> set (rows ! k) \<Longrightarrow> ep_snapshot_id q = sn_id s \<and> ep_course_id q = pp_course_id (?ps ! k)"
    if "k < length ?ps" for k q using participant_periods_facts r that by blast+
  have new: "\<exists>k<length ?ps. q \<in> set (rows ! k)" if "q \<in> set (concat rows)" for q
    using that r by (fastforce simp: in_set_conv_nth)
  have w: "\<lparr>wa_id = pp_course_id (?ps ! k), weight = pp_amount (?ps ! k)\<rparr> \<in> set (snapshot_weights s)" if "k < length ?ps" for k
    using that by (auto simp: snapshot_weights_def)
  have ms: "sum_list (map (\<lambda>row. share_of row (pp_course_id (?ps ! k))) monthly) = pp_amount (?ps ! k)"
    "row \<in> set monthly \<Longrightarrow> 0 \<le> share_of row (pp_course_id (?ps ! k))" if "k < length ?ps" for k row
    using monthly_share_sums [OF monthly w [OF that]] by simp_all
  have dist: "distinct (''platform'' # map pp_course_id ?ps)"
    using monthly_share_sums(3) [OF monthly, of "hd (snapshot_weights s)"] by (auto simp: snapshot_weights_def comp_def)
  have groups: "filter (\<lambda>q. ep_course_id q = pp_course_id (?ps ! k)) (concat rows) = rows ! k" if "k < length ?ps" for k
    using filter_concat_nth [of ep_course_id pp_course_id ?ps rows k] pf(2) r dist that
    by (auto simp: list_all2_conv_all_nth)
  have same: "periods_of (sn_id s) db1 = concat rows"
  proof -
    have "filter (\<lambda>p. ep_snapshot_id p = sn_id s) (concat rows) = concat rows"
      using new pf(2) by (auto simp: filter_id_conv simp del: set_concat)
    with False show ?thesis by (simp add: periods_of_def db1)
  qed
  have other: "periods_of i db1 = periods_of i db" if "i \<noteq> sn_id s" for i
  proof -
    have "filter (\<lambda>p. ep_snapshot_id p = i) (concat rows) = []"
      using new pf(2) that by (auto simp: filter_empty_conv simp del: set_concat)
    then show ?thesis by (simp add: periods_of_def db1)
  qed
  have one: "snapshot_periods_ok db1 s"
    unfolding snapshot_periods_ok_def course_group_def same
  proof (intro impI conjI ballI)
    show "distinct (''platform'' # map pp_course_id ?ps)" by (rule dist)
  next
    fix q
    assume "q \<in> set (concat rows)"
    then show "ep_course_id q \<in> pp_course_id ` set ?ps" using new pf(2) nth_mem by blast
  next
    fix p
    assume "p \<in> set ?ps"
    then obtain k where k: "k < length ?ps" "p = ?ps ! k" by (metis in_set_conv_nth)
    show "sum_list (map ep_amount (filter (\<lambda>q. ep_course_id q = pp_course_id p) (concat rows))) = pp_amount p"
      unfolding k(2) groups [OF k(1)] pf(1) [OF k(1)] ms(1) [OF k(1)] ..
  qed
  have rest: "snapshot_periods_ok db1 t" if "t \<in> set (snapshots db)" "t \<noteq> s" for t
  proof -
    have "sn_id t \<noteq> sn_id s" using inv s that by (auto simp: revenue_inv_def distinct_map inj_on_def)
    with inv that other show ?thesis by (simp add: revenue_inv_def snapshot_periods_ok_def course_group_def)
  qed
  have fresh_ok: "ep_snapshot_id q = sn_id s \<and> 0 \<le> ep_amount q \<and> entries_of q db1 = []" if q: "q \<in> set (concat rows)" for q
  proof -
    obtain k where k: "k < length ?ps" "q \<in> set (rows ! k)" using new [OF q] by blast
    then have "ep_amount q \<in> set (map (\<lambda>row. share_of row (pp_course_id (?ps ! k))) monthly)"
      by (metis pf(1) image_eqI list.set_map)
    then have "0 \<le> ep_amount q" using ms(2) [OF k(1)] by auto
    moreover have own: "le_period_id e \<noteq> ep_id q" if "e \<in> set (entries db)" for e
    proof -
      have "le_period_id e \<in> ep_id ` set (periods db)" using inv that by (simp add: revenue_inv_def)
      moreover have "ep_id q \<in> ep_id ` set (concat rows)" using q by (rule imageI)
      moreover have "ep_id ` set (periods db) \<inter> ep_id ` set (concat rows) = {}"
        using d unfolding map_append distinct_append set_map by blast
      ultimately show ?thesis by (metis disjoint_iff)
    qed
    moreover have "entries_of q db1 = []" using own by (simp add: entries_of_def db1 filter_empty_conv)
    ultimately show ?thesis using pf(2) [OF k] by blast
  qed
  have sn: "snapshots db1 = snapshots db" and en: "entries db1 = entries db" and pe: "periods db1 = periods db @ concat rows"
    by (simp_all add: db1)
  have "ep_snapshot_id q \<in> sn_id ` set (snapshots db) \<and> 0 \<le> ep_amount q \<and> entries_sound (ep_amount q) (entries_of q db1)"
    if "q \<in> set (periods db) \<union> set (concat rows)" for q
  proof (cases "q \<in> set (concat rows)")
    case True
    from fresh_ok [OF True] s sound_Nil show ?thesis by simp
  next
    case False
    moreover have "entries_of q db1 = entries_of q db" by (simp add: entries_of_def en)
    ultimately show ?thesis using inv that by (simp add: revenue_inv_def del: set_concat)
  qed
  moreover have "le_period_id e \<in> ep_id ` (set (periods db) \<union> set (concat rows))" if "e \<in> set (entries db)" for e
    using inv that by (auto simp: revenue_inv_def)
  moreover have "snapshot_ok t \<and> snapshot_periods_ok db1 t" if "t \<in> set (snapshots db)" for t
    using inv one rest that by (cases "t = s") (simp_all add: revenue_inv_def)
  moreover have "distinct (map sn_id (snapshots db))" using inv by (simp add: revenue_inv_def)
  ultimately show ?thesis
    unfolding revenue_inv_def sn en pe set_append using d by blast
qed

lemma concat_single:
  "distinct ps \<Longrightarrow> x \<in> set ps \<Longrightarrow> (\<And>y. y \<in> set ps \<Longrightarrow> y \<noteq> x \<Longrightarrow> h y = []) \<Longrightarrow> concat (map h ps) = h x"
proof (induction ps)
  case (Cons y ys)
  show ?case
  proof (cases "y = x")
    case True
    with Cons.prems have "\<forall>z\<in>set ys. h z = []" by auto
    with True show ?thesis by simp
  next
    case False
    with Cons show ?thesis by simp
  qed
qed simp

definition refund_entry :: "shop_db \<Rightarrow> int \<Rightarrow> int \<Rightarrow> string \<Rightarrow> allocated_amount list \<Rightarrow> earning_period \<Rightarrow> ledger_entry list" where
  "refund_entry db0 now cumulative refund targets p =
     (let delta = share_of targets (ep_id p) + sum_kinds refund_kind (entries_of p db0) in
      if delta = 0 then []
      else [\<lparr>le_period_id = ep_id p, le_source_key = ''refund:'' @ ep_id p @ '':'' @ show_int cumulative,
             le_refund_id = Some refund,
             le_kind = (if recognized (entries_of p db0) then ''refund_recognized'' else ''refund_pending''),
             le_amount = - delta, le_created_at = now\<rparr>])"

lemma reverse_period_entry:
  "reverse_period db0 now c r al db p = Inr db' \<Longrightarrow> db' = db\<lparr>entries := entries db @ refund_entry db0 now c r al p\<rparr>"
  by (auto simp: reverse_period_def refund_entry_def insert_entry_def result_simps Let_def split: if_splits)

lemma refund_entry_sound:
  assumes "entries_sound (ep_amount p) (entries_of p db0)"
    and "0 \<le> share_of al (ep_id p)" and "share_of al (ep_id p) \<le> ep_amount p"
  shows "entries_sound (ep_amount p) (entries_of p db0 @ refund_entry db0 now c r al p)"
  using assms sound_refund(1) [OF assms]
  by (auto simp: refund_entry_def Let_def reversed_amount_def)

lemma reverse_participant_entries:
  assumes "reverse_participant db0 now c r sid targets db p = Inr db'"
  obtains al where "allocate_minor (share_of targets (pp_course_id p))
      (map (\<lambda>q. \<lparr>wa_id = ep_id q, weight = ep_amount q\<rparr>) (filter (\<lambda>q. ep_amount q > 0) (course_group db0 sid p))) = Inr al"
    "db' = db\<lparr>entries := entries db @ concat (map (refund_entry db0 now c r al) (course_group db0 sid p))\<rparr>"
proof -
  from assms obtain al where al: "allocate_minor (share_of targets (pp_course_id p))
      (map (\<lambda>q. \<lparr>wa_id = ep_id q, weight = ep_amount q\<rparr>) (filter (\<lambda>q. ep_amount q > 0) (course_group db0 sid p))) = Inr al"
    and f: "fold_result (reverse_period db0 now c r al) db (course_group db0 sid p) = Inr db'"
    unfolding reverse_participant_def Let_def course_group_def and_then_Inr_iff by blast
  from fold_entries [OF reverse_period_entry f] show thesis by (rule that [OF al])
qed

lemma sum_positive_filter:
  "(\<forall>q\<in>set qs. 0 \<le> ep_amount q) \<Longrightarrow>
   sum_list (map weight (map (\<lambda>q. \<lparr>wa_id = ep_id q, weight = ep_amount q\<rparr>) (filter (\<lambda>q. ep_amount q > 0) qs)))
     = sum_list (map ep_amount qs)"
  by (induction qs) (auto simp: comp_def)

lemma notin_image: "\<forall>x\<in>A. f x \<noteq> y \<Longrightarrow> y \<notin> f ` A"
  by blast

lemma sum_weights_filter: "\<forall>w\<in>set ws. 0 \<le> weight w \<Longrightarrow>
    sum_list (map weight (filter (\<lambda>x. weight x > 0) ws)) = sum_list (map weight ws)"
  by (induction ws) auto

lemma refund_target_bounds:
  assumes "refund_targets c (sn_basis s) (snapshot_weights s) = Inr targets" and "snapshot_ok s"
    and "distinct (''platform'' # map pp_course_id (sn_participants s))" and "p \<in> set (sn_participants s)"
  shows "share_of targets (pp_course_id p) \<le> pp_amount p"
proof -
  let ?ws = "filter (\<lambda>x. weight x > 0) (snapshot_weights s)"
  have a: "allocate_minor c ?ws = Inr targets" and c: "c \<le> sn_basis s"
    and b: "sum_list (map weight (snapshot_weights s)) = sn_basis s"
    using assms(1) by (auto simp: refund_targets_def split: if_splits)
  have "\<forall>w\<in>set (snapshot_weights s). 0 \<le> weight w"
    using assms(2) by (auto simp: snapshot_weights_def snapshot_ok_def)
  then have le: "c \<le> sum_list (map weight ?ws)" using b c sum_weights_filter [of "snapshot_weights s"] by simp
  note bounds = allocate_share_bounds [OF a le]
  show ?thesis
  proof (cases "pp_amount p > 0")
    case True
    then have "\<lparr>wa_id = pp_course_id p, weight = pp_amount p\<rparr> \<in> set ?ws"
      using assms(4) by (auto simp: snapshot_weights_def)
    from bounds(2) [OF this] show ?thesis by simp
  next
    case False
    have only: "q = p" if "q \<in> set (sn_participants s)" "pp_course_id q = pp_course_id p" for q
      using assms(3,4) that by (simp add: distinct_map inj_on_def)
    have np: "''platform'' \<noteq> pp_course_id p"
      using assms(3,4) by (metis distinct.simps(2) image_eqI list.set_map)
    have "\<forall>w\<in>set ?ws. wa_id w \<noteq> pp_course_id p"
    proof (intro ballI notI)
      fix w
      assume w: "w \<in> set ?ws" "wa_id w = pp_course_id p"
      then have w': "w \<in> set (snapshot_weights s)" "weight w > 0" by simp_all
      then have "w = \<lparr>wa_id = ''platform'', weight = sn_platform s\<rparr>
          \<or> (\<exists>q\<in>set (sn_participants s). w = \<lparr>wa_id = pp_course_id q, weight = pp_amount q\<rparr>)"
        by (auto simp: snapshot_weights_def)
      with np w(2) obtain q where "q \<in> set (sn_participants s)" "w = \<lparr>wa_id = pp_course_id q, weight = pp_amount q\<rparr>" by auto
      with only w(2) w'(2) False show False by auto
    qed
    then have "pp_course_id p \<notin> wa_id ` set ?ws" by (rule notin_image)
    from bounds(3) [OF this] show ?thesis using assms(2,4) by (simp add: snapshot_ok_def)
  qed
qed

lemma period_target_bounds:
  assumes alloc: "allocate_minor t (map (\<lambda>q. \<lparr>wa_id = ep_id q, weight = ep_amount q\<rparr>) (filter (\<lambda>q. ep_amount q > 0) g)) = Inr al"
    (is "allocate_minor t ?ws = _")
    and nonneg: "\<forall>q\<in>set g. 0 \<le> ep_amount q" and t: "t \<le> sum_list (map ep_amount g)"
    and d: "distinct (map ep_id g)" and q: "q \<in> set g"
  shows "0 \<le> share_of al (ep_id q) \<and> share_of al (ep_id q) \<le> ep_amount q"
proof -
  have le: "t \<le> sum_list (map weight ?ws)" using t unfolding sum_positive_filter [OF nonneg] .
  have "share_of al (ep_id q) \<le> ep_amount q"
  proof (cases "ep_amount q > 0")
    case True
    with q have "\<lparr>wa_id = ep_id q, weight = ep_amount q\<rparr> \<in> set ?ws" by auto
    from allocate_share_bounds(2) [OF alloc le this] show ?thesis by simp
  next
    case False
    have "\<forall>q'\<in>set g. ep_amount q' > 0 \<longrightarrow> ep_id q' \<noteq> ep_id q"
      using False q d by (auto simp: distinct_map inj_on_def)
    then have "\<forall>w\<in>set ?ws. wa_id w \<noteq> ep_id q" by simp
    then have "ep_id q \<notin> wa_id ` set ?ws" by (rule notin_image)
    from allocate_share_bounds(3) [OF alloc le this] nonneg q show ?thesis by auto
  qed
  with allocate_share_bounds(1) [OF alloc le] show ?thesis by simp
qed

lemma course_group_subset: "set (course_group db sid p) \<subseteq> set (periods_of sid db)"
  by (auto simp: course_group_def)

lemma fold_result_each:
  "fold_result f d ps = Inr d' \<Longrightarrow> p \<in> set ps \<Longrightarrow> \<exists>u u'. f u p = Inr u'"
  by (induction ps arbitrary: d) (auto simp: result_simps)

lemma apply_refunds_inv:
  assumes inv: "revenue_inv db" and s: "s \<in> set (snapshots db)" and ok: "apply_refunds now s x db = Inr db'"
  shows "revenue_inv db' \<and> snapshots db' = snapshots db \<and> periods db' = periods db"
proof (cases "sum_list (map ra_amount (line_refunds (sn_id s) x db)) > 0")
  case False
  with ok inv show ?thesis by (simp add: apply_refunds_def Let_def result_simps)
next
  case True
  let ?sid = "sn_id s" and ?ps = "sn_participants s" and ?c = "sum_list (map ra_amount (line_refunds (sn_id s) x db))"
  let ?r = "ra_refund_id (last (line_refunds (sn_id s) x db))"
  from True ok obtain targets where targets: "refund_targets ?c (sn_basis s) (snapshot_weights s) = Inr targets"
    and fold: "fold_result (reverse_participant db now ?c ?r ?sid targets) db ?ps = Inr db'"
    by (auto simp: apply_refunds_def Let_def result_simps)
  define al where "al p = projr (allocate_minor (share_of targets (pp_course_id p))
      (map (\<lambda>q. \<lparr>wa_id = ep_id q, weight = ep_amount q\<rparr>) (filter (\<lambda>q. ep_amount q > 0) (course_group db ?sid p))))" for p
  define es where "es p = refund_entry db now ?c ?r (al p)" for p
  have step: "d' = d\<lparr>entries := entries d @ concat (map (es p) (course_group db ?sid p))\<rparr>"
    if "reverse_participant db now ?c ?r ?sid targets d p = Inr d'" for d p d'
    using reverse_participant_entries [OF that] unfolding es_def al_def by (metis sum.sel(2))
  from fold_entries [OF step fold]
  have db': "db' = db\<lparr>entries := entries db @ concat (map (\<lambda>p. concat (map (es p) (course_group db ?sid p))) ?ps)\<rparr>" .
  show ?thesis
  proof (cases "periods_of ?sid db = []")
    case True
    then have "course_group db ?sid p = []" for p by (simp add: course_group_def)
    moreover have "concat (map (\<lambda>p. []) ?ps) = ([] :: ledger_entry list)" by simp
    ultimately have "db' = db" by (simp add: db' del: concat_eq_Nil_conv)
    with inv show ?thesis by simp
  next
    case False
    have dist: "distinct (''platform'' # map pp_course_id ?ps)"
      and courses: "\<And>q. q \<in> set (periods_of ?sid db) \<Longrightarrow> ep_course_id q \<in> pp_course_id ` set ?ps"
      and sums: "\<And>p. p \<in> set ?ps \<Longrightarrow> sum_list (map ep_amount (course_group db ?sid p)) = pp_amount p"
      using inv s False by (auto simp: revenue_inv_def snapshot_periods_ok_def)
    have sok: "snapshot_ok s" using inv s by (simp add: revenue_inv_def)
    have nonneg: "\<forall>q\<in>set (course_group db ?sid p). 0 \<le> ep_amount q" for p
      using inv by (auto simp: revenue_inv_def course_group_def periods_of_def)
    have alloc: "allocate_minor (share_of targets (pp_course_id p))
        (map (\<lambda>q. \<lparr>wa_id = ep_id q, weight = ep_amount q\<rparr>) (filter (\<lambda>q. ep_amount q > 0) (course_group db ?sid p))) = Inr (al p)"
      if p: "p \<in> set ?ps" for p
    proof -
      from fold_result_each [OF fold p] obtain d d' where
        "reverse_participant db now ?c ?r ?sid targets d p = Inr d'" by blast
      then obtain al' where "allocate_minor (share_of targets (pp_course_id p))
        (map (\<lambda>q. \<lparr>wa_id = ep_id q, weight = ep_amount q\<rparr>) (filter (\<lambda>q. ep_amount q > 0) (course_group db ?sid p))) = Inr al'"
        by (rule reverse_participant_entries)
      then show ?thesis by (simp add: al_def)
    qed
    have bounds: "0 \<le> share_of (al p) (ep_id q) \<and> share_of (al p) (ep_id q) \<le> ep_amount q"
      if p: "p \<in> set ?ps" and q: "q \<in> set (course_group db ?sid p)" for p q
    proof (rule period_target_bounds [OF alloc [OF p] nonneg _ _ q])
      show "share_of targets (pp_course_id p) \<le> sum_list (map ep_amount (course_group db ?sid p))"
        using refund_target_bounds [OF targets sok dist p] sums [OF p] by simp
      show "distinct (map ep_id (course_group db ?sid p))"
        using inv by (simp add: revenue_inv_def course_group_def periods_of_def distinct_map_filter)
    qed
    define own :: "earning_period \<Rightarrow> participant" where "own q = the (find (\<lambda>p. pp_course_id p = ep_course_id q) ?ps)" for q
    have own: "own q = p" if "p \<in> set ?ps" "q \<in> set (course_group db ?sid p)" for p q
    proof -
      have "ep_course_id q = pp_course_id p" using that by (simp add: course_group_def)
      with find_row [of pp_course_id ?ps p] dist that show ?thesis by (simp add: own_def)
    qed
    have member: "\<exists>p\<in>set ?ps. q \<in> set (course_group db ?sid p)" if "q \<in> set (periods_of ?sid db)" for q
      using courses [OF that] that by (auto simp: course_group_def)
    have dp: "distinct (map ep_id (periods db))" using inv by (simp add: revenue_inv_def)
    have pe: "periods_of ?sid db = filter (\<lambda>p. ep_snapshot_id p = ?sid) (periods db)" by (simp add: periods_of_def)
    let ?new = "concat (map (\<lambda>p. concat (map (es p) (course_group db ?sid p))) ?ps)"
    have ids: "le_period_id e = ep_id q" if "e \<in> set (es p q)" for e p q
      using that by (auto simp: es_def refund_entry_def Let_def split: if_splits)
    have "revenue_inv (db\<lparr>entries := entries db @ ?new\<rparr>)"
    proof (rule entries_added [OF inv pe, where es = "\<lambda>q. es (own q) q"])
      show "le_period_id e = ep_id p" if "e \<in> set (es (own p) p)" for p e by (rule ids [OF that])
    next
      fix q
      assume q: "q \<in> set (periods_of ?sid db)"
      then obtain p where p: "p \<in> set ?ps" "q \<in> set (course_group db ?sid p)" using member by blast
      have "entries_sound (ep_amount q) (entries_of q db)" using inv q by (auto simp: revenue_inv_def periods_of_def)
      then show "entries_sound (ep_amount q) (entries_of q db @ es (own q) q)"
        unfolding own [OF p] es_def using bounds [OF p] by (intro refund_entry_sound) auto
    next
      show "set ?new = (\<Union>q\<in>set (periods_of ?sid db). set (es (own q) q))"
      proof (intro equalityI subsetI)
        fix e
        assume "e \<in> set ?new"
        then obtain p q where "p \<in> set ?ps" "q \<in> set (course_group db ?sid p)" "e \<in> set (es p q)" by auto
        with own course_group_subset show "e \<in> (\<Union>q\<in>set (periods_of ?sid db). set (es (own q) q))" by fastforce
      next
        fix e
        assume "e \<in> (\<Union>q\<in>set (periods_of ?sid db). set (es (own q) q))"
        then obtain q where q: "q \<in> set (periods_of ?sid db)" "e \<in> set (es (own q) q)" by auto
        with member own show "e \<in> set ?new" by fastforce
      qed
    next
      fix q
      assume "q \<in> set (periods_of ?sid db)"
      then obtain p where p: "p \<in> set ?ps" "q \<in> set (course_group db ?sid p)" using member by blast
      let ?h = "\<lambda>p. filter (\<lambda>e. le_period_id e = ep_id q) (concat (map (es p) (course_group db ?sid p)))"
      have dg: "distinct (map ep_id (course_group db ?sid p'))" for p'
        using dp by (simp add: course_group_def periods_of_def distinct_map_filter)
      have "?h p' = []" if p': "p' \<in> set ?ps" "p' \<noteq> p" for p'
      proof -
        have "ep_id x \<noteq> ep_id q" if "x \<in> set (course_group db ?sid p')" for x
        proof
          assume "ep_id x = ep_id q"
          then have "x = q" using dp that p(2) by (auto simp: course_group_def periods_of_def distinct_map inj_on_def)
          with own [OF p] own [OF p'(1)] that p'(2) show False by simp
        qed
        with ids show ?thesis by (fastforce simp: filter_empty_conv)
      qed
      moreover have "distinct ?ps" using dist by (simp add: distinct_map)
      ultimately have "concat (map ?h ?ps) = ?h p" using p(1) by (intro concat_single)
      moreover have "?h p = es p q" by (rule filter_concat_own [OF dg p(2)]) (rule ids)
      ultimately show "filter (\<lambda>e. le_period_id e = ep_id q) ?new = es (own q) q"
        using own [OF p] by (simp add: filter_concat comp_def)
    qed
    then show ?thesis unfolding db' by simp
  qed
qed

definition recognition_entry :: "shop_db \<Rightarrow> int \<Rightarrow> earning_period \<Rightarrow> ledger_entry list" where
  "recognition_entry db0 now p =
     (if recognized (entries_of p db0) then []
      else [\<lparr>le_period_id = ep_id p, le_source_key = ''recognize:'' @ ep_id p, le_refund_id = None,
             le_kind = ''recognized'',
             le_amount = ep_amount p + sum_kinds (\<lambda>k. k = ''refund_pending'') (entries_of p db0), le_created_at = now\<rparr>])"

lemma recognize_period_entry:
  "recognize_period db0 now db p = Inr db' \<Longrightarrow> db' = db\<lparr>entries := entries db @ recognition_entry db0 now p\<rparr>"
  by (auto simp: recognize_period_def recognition_entry_def insert_entry_def result_simps Let_def split: if_splits)

lemma recognize_due_inv:
  assumes inv: "revenue_inv db" and ok: "recognize_due now sid db = Inr db'"
  shows "revenue_inv db' \<and> snapshots db' = snapshots db \<and> periods db' = periods db"
proof -
  let ?due = "filter (\<lambda>p. ep_due_at p \<le> now) (periods_of sid db)"
  have db': "db' = db\<lparr>entries := entries db @ concat (map (recognition_entry db now) ?due)\<rparr>"
    by (rule fold_entries [OF recognize_period_entry ok [unfolded recognize_due_def]])
  have due: "?due = filter (\<lambda>p. ep_snapshot_id p = sid \<and> ep_due_at p \<le> now) (periods db)"
    by (simp add: periods_of_def conj_commute)
  have ids: "le_period_id e = ep_id p" if "e \<in> set (recognition_entry db now p)" for e p
    using that by (auto simp: recognition_entry_def split: if_splits)
  have "revenue_inv (db\<lparr>entries := entries db @ concat (map (recognition_entry db now) ?due)\<rparr>)"
  proof (rule entries_added [OF inv due])
    show "le_period_id e = ep_id p" if "e \<in> set (recognition_entry db now p)" for e p by (rule ids [OF that])
  next
    fix p
    assume "p \<in> set ?due"
    then have "entries_sound (ep_amount p) (entries_of p db)" using inv by (auto simp: revenue_inv_def periods_of_def)
    then show "entries_sound (ep_amount p) (entries_of p db @ recognition_entry db now p)"
      using sound_recognize by (auto simp: recognition_entry_def)
  next
    fix p
    assume "p \<in> set ?due"
    moreover have "distinct (map ep_id ?due)"
      using inv by (simp add: revenue_inv_def periods_of_def distinct_map_filter)
    ultimately show "filter (\<lambda>e. le_period_id e = ep_id p) (concat (map (recognition_entry db now) ?due)) = recognition_entry db now p"
      using ids by (intro filter_concat_own)
  qed simp
  then show ?thesis unfolding db' by simp
qed

lemma process_snapshot_inv:
  assumes inv: "revenue_inv db" and ok: "process_snapshot bank_on fresh now sid db = Inr db'"
  shows "revenue_inv db' \<and> snapshots db' = snapshots db"
proof (cases "db' = db")
  case False
  from ok obtain s where s: "find (\<lambda>s. sn_id s = sid) (snapshots db) = Some s"
    by (auto simp: process_snapshot_def result_simps)
  from find_SomeD [OF this] have mem: "s \<in> set (snapshots db)" by simp
  obtain x db1 db2 where 1: "create_periods fresh s x db = Inr (Some db1)" and 2: "apply_refunds now s x db1 = Inr db2"
    and 3: "recognize_due now sid db2 = Inr db'"
    using ok False s by (auto simp: process_snapshot_def result_simps split: option.splits if_splits)
  from create_periods_inv [OF inv mem 1] have a: "revenue_inv db1" "snapshots db1 = snapshots db" by auto
  with apply_refunds_inv [OF a(1) _ 2] mem have b: "revenue_inv db2" "snapshots db2 = snapshots db" by auto
  with recognize_due_inv [OF b(1) 3] show ?thesis by simp
qed (use inv in simp)

section \<open>Histories\<close>

text \<open>The revenue service takes one lock per transaction.  Everything else in the program may change any other
  table in between: orders are confirmed, refunds recorded, subscriptions started, policies replaced.\<close>

inductive revenue_step :: "bool \<Rightarrow> revenue_config \<times> shop_db \<Rightarrow> revenue_config \<times> shop_db \<Rightarrow> bool" for bank_on where
  rv_capture: "capture_revenue now i (cfg, db) = Inr (cfg', db') \<Longrightarrow> revenue_step bank_on (cfg, db) (cfg', db')"
| rv_process: "process_snapshot bank_on fresh now sid db = Inr db' \<Longrightarrow> revenue_step bank_on (cfg, db) (cfg, db')"
| rv_other: "snapshots db' = snapshots db \<Longrightarrow> periods db' = periods db \<Longrightarrow> entries db' = entries db
    \<Longrightarrow> revenue_step bank_on (cfg, db) (cfg', db')"

lemma revenue_step_inv: "revenue_step bank_on st st' \<Longrightarrow> revenue_inv (snd st) \<Longrightarrow> revenue_inv (snd st')"
proof (induction rule: revenue_step.induct)
  case (rv_capture now i cfg db cfg' db')
  then show ?case using capture_order_inv [of db now i cfg cfg' db'] by simp
next
  case (rv_process fresh now sid db db' cfg)
  then show ?case using process_snapshot_inv [of db bank_on fresh now sid db'] by simp
next
  case (rv_other db' db cfg cfg')
  then show ?case using revenue_inv_cong [of db' db] by simp
qed

lemma revenue_steps_inv: "(revenue_step bank_on)\<^sup>*\<^sup>* st st' \<Longrightarrow> revenue_inv (snd st) \<Longrightarrow> revenue_inv (snd st')"
  by (induction rule: rtranclp_induct) (use revenue_step_inv in auto)

definition no_revenue :: "shop_db \<Rightarrow> bool" where
  "no_revenue db = (snapshots db = [] \<and> periods db = [] \<and> entries db = [])"

lemma no_revenue_inv: "no_revenue db \<Longrightarrow> revenue_inv db"
  by (simp add: no_revenue_def revenue_inv_def)

text \<open>C5: In every history, refunds reverse at most what a period earns, a period is recognized at most once, what
  stays recognized is exactly its amount less its refunds, and an unrecognized period never owes a negative
  amount, so that the guard against negative recognition cannot fire.\<close>

theorem revenue_periods_conserve:
  assumes "(revenue_step bank_on)\<^sup>*\<^sup>* (cfg0, db0) (cfg, db)" and "no_revenue db0" and "p \<in> set (periods db)"
  shows "0 \<le> reversed_amount (entries_of p db) \<and> reversed_amount (entries_of p db) \<le> ep_amount p
    \<and> count_where (\<lambda>e. le_kind e = ''recognized'') (entries_of p db) \<le> 1
    \<and> (if recognized (entries_of p db)
       then sum_kinds (\<lambda>k. k = ''recognized'' \<or> k = ''refund_recognized'') (entries_of p db)
              = ep_amount p - reversed_amount (entries_of p db)
       else 0 \<le> ep_amount p + sum_kinds (\<lambda>k. k = ''refund_pending'') (entries_of p db))"
proof -
  have "revenue_inv db" using revenue_steps_inv [OF assms(1)] no_revenue_inv [OF assms(2)] by simp
  then have "entries_sound (ep_amount p) (entries_of p db)" using assms(3) by (simp add: revenue_inv_def)
  note es = this sound_net [OF this]
  show ?thesis
  proof (intro conjI)
    show "0 \<le> reversed_amount (entries_of p db)" "reversed_amount (entries_of p db) \<le> ep_amount p"
      "count_where (\<lambda>e. le_kind e = ''recognized'') (entries_of p db) \<le> 1" using es(1) by (simp_all add: entries_sound_def)
    with es(2,3) show "if recognized (entries_of p db)
       then sum_kinds (\<lambda>k. k = ''recognized'' \<or> k = ''refund_recognized'') (entries_of p db)
              = ep_amount p - reversed_amount (entries_of p db)
       else 0 \<le> ep_amount p + sum_kinds (\<lambda>k. k = ''refund_pending'') (entries_of p db)" by simp
  qed
qed



text \<open>C40: The totals of the revenue report, computed by the database, are the sums of the items it would list on all its
  pages, and the pages together list every period of the seller.\<close>

theorem revenue_report_consistent:
  assumes "(revenue_step bank_on)\<^sup>*\<^sup>* (cfg0, db0) (cfg, db)" and "no_revenue db0" and "0 < psize"
  shows "let ps = seller_periods seller db;
             items = concat (map (\<lambda>k. pg_items (fst (revenue_report seller k psize db))) [1..<Suc (total_pages (length ps) psize)]);
             totals = snd (revenue_report seller 1 psize db) in
    mset items = mset (map (report_item db) ps)
    \<and> tt_pending totals = sum_list (map pr_pending items) \<and> tt_recognized totals = sum_list (map pr_recognized items)
    \<and> tt_refunded totals = sum_list (map pr_refunded items)"
proof -
  have inv: "revenue_inv db" using revenue_steps_inv [OF assms(1)] no_revenue_inv [OF assms(2)] by simp
  let ?ps = "seller_periods seller db" and ?sorted = "js_sort latest_due (seller_periods seller db)"
  define items where "items = concat (map (\<lambda>k. pg_items (fst (revenue_report seller k psize db))) [1..<Suc (total_pages (length ?ps) psize)])"
  have "items = map (report_item db) (concat (map (\<lambda>k. page_of k psize ?sorted) [1..<Suc (total_pages (length ?sorted) psize)]))"
    by (simp add: items_def revenue_report_def make_page_def map_concat comp_def)
  then have items: "items = map (report_item db) ?sorted" unfolding pages_cover [OF assms(3)] .
  then have m: "mset items = mset (map (report_item db) ?ps)" by simp
  have sums: "sum_list (map f items) = sum_list (map (\<lambda>p. f (report_item db p)) ?ps)" for f :: "period_report \<Rightarrow> int"
  proof -
    have "mset (map f items) = mset (map (\<lambda>p. f (report_item db p)) ?ps)" using m by (simp add: image_mset.compositionality comp_def)
    then show ?thesis by (metis sum_mset_sum_list)
  qed
  have "entries_sound (ep_amount p) (entries_of p db)" if "p \<in> set ?ps" for p
    using inv that by (auto simp: revenue_inv_def seller_periods_def)
  then have k: "\<forall>e\<in>set (entries_of p db). le_kind e \<in> {''recognized'', ''refund_pending'', ''refund_recognized''}"
    and u: "\<not> recognized (entries_of p db) \<longrightarrow> (\<forall>e\<in>set (entries_of p db). le_kind e = ''refund_pending'')"
    if "p \<in> set ?ps" for p using that by (auto simp: entries_sound_def)
  have "pr_pending (report_item db p) = (if \<not> recognized (entries_of p db)
          then ep_amount p + sum_kinds (\<lambda>k. k = ''refund_pending'') (entries_of p db) else 0)" if "p \<in> set ?ps" for p
    using u [OF that] only_pending by (auto simp: report_item_def Let_def)
  moreover have "pr_recognized (report_item db p) = sum_kinds (\<lambda>k. k = ''recognized'' \<or> k = ''refund_recognized'') (entries_of p db)"
    "pr_refunded (report_item db p) = sum_kinds (\<lambda>k. k = ''refund_pending'' \<or> k = ''refund_recognized'') (entries_of p db)"
    if "p \<in> set ?ps" for p
    using reversed_split(2,4) [OF k [OF that]] by (simp_all add: report_item_def Let_def)
  ultimately show ?thesis
    unfolding Let_def items_def [symmetric] using m
    by (auto simp: sums revenue_report_def report_totals_def intro!: arg_cong [of _ _ sum_list])
qed

section \<open>A sweep of the batch job\<close>

lemma fold_result_frame:
  assumes "fold_result f db xs = Inr db'" and "\<And>d x d'. f d x = Inr d' \<Longrightarrow> g d' = g d"
  shows "g db' = g db"
  using assms by (induction xs arbitrary: db) (auto simp: result_simps)

text \<open>Processing a snapshot changes periods and entries only.\<close>

definition revenue_bare :: "shop_db \<Rightarrow> shop_db" where
  "revenue_bare db = db\<lparr>periods := [], entries := []\<rparr>"

lemma insert_entry_bare: "insert_entry e db = Inr db' \<Longrightarrow> revenue_bare db' = revenue_bare db"
  by (auto simp: insert_entry_def result_simps revenue_bare_def)

lemma reverse_participant_bare:
  "reverse_participant d0 now c r sid ts db p = Inr db' \<Longrightarrow> revenue_bare db' = revenue_bare db"
  by (auto simp: reverse_participant_def reverse_period_def Let_def result_simps split: if_splits
      elim!: fold_result_frame dest: insert_entry_bare)

lemma recognize_due_bare: "recognize_due now sid db = Inr db' \<Longrightarrow> revenue_bare db' = revenue_bare db"
  by (auto simp: recognize_due_def recognize_period_def Let_def result_simps split: if_splits
      elim!: fold_result_frame dest: insert_entry_bare)

lemma process_snapshot_bare:
  assumes "process_snapshot bank_on fresh now sid db = Inr db'"
  shows "revenue_bare db' = revenue_bare db"
proof (cases "db' = db")
  case False
  then obtain s x db1 db2 where "create_periods fresh s x db = Inr (Some db1)" and "apply_refunds now s x db1 = Inr db2"
    and "recognize_due now sid db2 = Inr db'"
    using assms by (auto simp: process_snapshot_def result_simps split: option.splits if_splits)
  moreover from this(1) have "revenue_bare db1 = revenue_bare db"
    by (auto simp: create_periods_def insert_periods_def result_simps revenue_bare_def split: option.splits if_splits)
  moreover from \<open>apply_refunds now s x db1 = Inr db2\<close> have "revenue_bare db2 = revenue_bare db1"
    by (auto simp: apply_refunds_def Let_def result_simps split: if_splits
        elim!: fold_result_frame dest: reverse_participant_bare)
  ultimately show ?thesis using recognize_due_bare by metis
qed simp

lemma revenue_bare_tables:
  assumes "revenue_bare db' = revenue_bare db"
  shows "snapshots db' = snapshots db" "wallets db' = wallets db" "holds db' = holds db" "journal db' = journal db"
    "topups db' = topups db" "withdrawals db' = withdrawals db" "withdrawal_events db' = withdrawal_events db"
    "verifications db' = verifications db" "projections db' = projections db" "effects db' = effects db"
    "wd_settings db' = wd_settings db" "orders db' = orders db" "settlements db' = settlements db"
  using assms by (cases db, cases db', simp add: revenue_bare_def)+

lemma process_snapshot_snapshots: "process_snapshot bank_on fresh now sid db = Inr db' \<Longrightarrow> snapshots db' = snapshots db"
  by (rule revenue_bare_tables [OF process_snapshot_bare])

lemma process_batch_snapshots:
  "snapshots (snd (process_batch bank_on fresh now ids (f, db))) = snapshots db"
  by (induction ids arbitrary: f db) (auto dest: process_snapshot_snapshots split: sum.splits)

text \<open>One try of one snapshot, which counts a failure and leaves the tables as they were then; a batch is a row of
  tries.\<close>

definition try_snapshot ::
  "bool \<Rightarrow> (string \<Rightarrow> string \<Rightarrow> nat \<Rightarrow> string) \<Rightarrow> int \<Rightarrow> string \<Rightarrow> int \<times> shop_db \<Rightarrow> int \<times> shop_db" where
  "try_snapshot bank_on fresh now i st =
     (case process_snapshot bank_on (fresh i) now i (snd st) of
        Inl _ \<Rightarrow> (fst st + 1, snd st) | Inr db' \<Rightarrow> (fst st, db'))"

lemma process_batch_tries: "process_batch bank_on fresh now ids st = fold (try_snapshot bank_on fresh now) ids st"
proof (induction ids arbitrary: st)
  case (Cons i ids)
  then show ?case by (cases st) (simp add: try_snapshot_def split: sum.split)
qed simp

text \<open>The number of failures is only counted.\<close>

lemma tries_shift:
  "fold (\<lambda>j. try_snapshot bank_on fresh (t j) (f j)) js (n + m, db) =
     (n + fst (fold (\<lambda>j. try_snapshot bank_on fresh (t j) (f j)) js (m, db)),
      snd (fold (\<lambda>j. try_snapshot bank_on fresh (t j) (f j)) js (m, db)))"
proof (induction js arbitrary: m db)
  case (Cons j js)
  then show ?case by (simp add: try_snapshot_def add.assoc split: sum.split)
qed simp

text \<open>Consecutive runs, the \<^verbatim>\<open>k\<close>-th of them at \<^verbatim>\<open>time k\<close>.\<close>

fun run_batches ::
  "bool \<Rightarrow> (string \<Rightarrow> string \<Rightarrow> nat \<Rightarrow> string) \<Rightarrow> (nat \<Rightarrow> int) \<Rightarrow> nat \<Rightarrow> nat \<Rightarrow> string option \<times> revenue_config \<times> shop_db
   \<Rightarrow> batch_result list \<times> string option \<times> revenue_config \<times> shop_db" where
  "run_batches bank_on fresh time k 0 st = ([], st)"
| "run_batches bank_on fresh time k (Suc n) st =
     (let (r, st1) = run_batch bank_on fresh (time k) st;
          (rs, st2) = run_batches bank_on fresh time (Suc k) n st1
      in (r # rs, st2))"

lemma filter_above_nth:
  fixes S :: "string list"
  assumes "sorted S" and "distinct S" and "k < length S"
  shows "filter (\<lambda>i. i > S ! k) S = drop (Suc k) S"
proof -
  have "filter (\<lambda>i. i > S ! k) (take (Suc k) S) = []"
    using assms by (auto simp: filter_empty_conv in_set_conv_nth sorted_iff_nth_mono not_less less_Suc_eq_le)
  moreover have "filter (\<lambda>i. i > S ! k) (drop (Suc k) S) = drop (Suc k) S"
  proof (rule filter_True, rule ballI)
    fix x
    assume "x \<in> set (drop (Suc k) S)"
    then obtain j where j: "j < length S - Suc k" "x = S ! (Suc k + j)" by (auto simp: in_set_conv_nth)
    then have "S ! k \<le> x" using assms(1) by (auto simp: sorted_iff_nth_mono)
    moreover have "S ! k \<noteq> x" using assms(2,3) j by (simp add: nth_eq_iff_index_eq)
    ultimately show "x > S ! k" by simp
  qed
  ultimately show ?thesis by (metis append_take_drop_id filter_append self_append_conv2)
qed

lemma batch_ids_sorted:
  "batch_ids cursor db = take 100 (filter (\<lambda>i. opt_truthy cursor \<longrightarrow> i > the cursor) (sort (map sn_id (snapshots db))))"
  by (simp add: batch_ids_def filter_sort)

lemma batch_ids_at:
  fixes S :: "string list"
  assumes "sorted S" and "distinct S" and "[] \<notin> set S" and "S = sort (map sn_id (snapshots db))"
    and "k \<le> length S" and "cursor = (if k = 0 then None else Some (S ! (k - 1)))"
  shows "batch_ids cursor db = take 100 (drop k S)"
proof (cases k)
  case 0
  with assms show ?thesis by (simp add: batch_ids_sorted)
next
  case (Suc j)
  then have j: "j < length S" and c: "cursor = Some (S ! j)" using assms(5,6) by simp_all
  then have "truthy (S ! j)" using assms(3) nth_mem by metis
  then show ?thesis
    unfolding batch_ids_sorted assms(4) [symmetric] using c filter_above_nth [OF assms(1,2) j] Suc by simp
qed

text \<open>What is left to do from the \<^verbatim>\<open>k\<close>-th run on.\<close>

lemma run_batches_from:
  fixes S :: "string list"
  assumes "sorted S" and "distinct S" and "[] \<notin> set S" and "S = sort (map sn_id (snapshots db))"
    and "100 * k \<le> length S" and "cursor = (if k = 0 then None else Some (S ! (100 * k - 1)))"
    and "n = length S div 100 - k"
    and "run_batches bank_on fresh time k (Suc n) (cursor, cfg, db) = (results, cursor', cfg', db')"
  shows "cursor' = None \<and> sum_list (map bt_checked results) = length S - 100 * k
    \<and> (sum_list (map bt_failed results), db')
        = fold (\<lambda>j. try_snapshot bank_on fresh (time (j div 100)) (S ! j)) [100 * k..<length S] (0, db)"
  using assms(4-)
proof (induction n arbitrary: k cursor cfg db results)
  case (0 k cursor cfg db results)
  let ?one = "\<lambda>j. try_snapshot bank_on fresh (time (j div 100)) (S ! j)"
  have ids: "batch_ids cursor db = take 100 (drop (100 * k) S)"
    by (rule batch_ids_at [OF assms(1-3)]) (use 0 in simp_all)
  have few: "length S < 100 * k + 100" using "0.prems"(2,4) by linarith
  then have all: "batch_ids cursor db = map ((!) S) [100 * k..<length S]"
    unfolding ids using few by (intro nth_equalityI) simp_all
  obtain f db1 where b: "process_batch bank_on fresh (time k) (batch_ids cursor db) (0, db) = (f, db1)" by fastforce
  have "fold (try_snapshot bank_on fresh (time k)) (map ((!) S) [100 * k..<length S]) (0, db) = fold ?one [100 * k..<length S] (0, db)"
    unfolding fold_map comp_def
  proof (rule fold_cong [OF refl refl])
    show "try_snapshot bank_on fresh (time k) (S ! j) = ?one j" if "j \<in> set [100 * k..<length S]" for j
    proof -
      have "j div 100 = k" using that few by (auto intro: div_nat_eqI)
      then show ?thesis by simp
    qed
  qed
  then have "fold ?one [100 * k..<length S] (0, db) = (f, db1)" using b by (simp add: process_batch_tries all)
  moreover have "next_cursor (batch_ids cursor db) = None" using few by (simp add: next_cursor_def all)
  ultimately show ?case using "0.prems"(5) few b by (auto simp: run_batch_def Let_def all)
next
  case (Suc n k cursor cfg db results)
  let ?one = "\<lambda>j. try_snapshot bank_on fresh (time (j div 100)) (S ! j)"
  have big: "100 * k + 100 \<le> length S" using Suc.prems(4) by linarith
  have "batch_ids cursor db = take 100 (drop (100 * k) S)"
    by (rule batch_ids_at [OF assms(1-3)]) (use Suc.prems in simp_all)
  also have "\<dots> = map ((!) S) [100 * k..<100 * k + 100]"
    using big by (intro nth_equalityI) simp_all
  finally have ids: "batch_ids cursor db = map ((!) S) [100 * k..<100 * k + 100]" .
  obtain f db1 where b: "process_batch bank_on fresh (time k) (batch_ids cursor db) (0, db) = (f, db1)" by fastforce
  have "fold (try_snapshot bank_on fresh (time k)) (map ((!) S) [100 * k..<100 * k + 100]) (0, db)
      = fold ?one [100 * k..<100 * k + 100] (0, db)"
    unfolding fold_map comp_def
  proof (rule fold_cong [OF refl refl])
    show "try_snapshot bank_on fresh (time k) (S ! j) = ?one j" if "j \<in> set [100 * k..<100 * k + 100]" for j
    proof -
      have "j div 100 = k" using that by (auto intro: div_nat_eqI)
      then show ?thesis by simp
    qed
  qed
  then have f: "fold ?one [100 * k..<100 * k + 100] (0, db) = (f, db1)" using b by (simp add: process_batch_tries ids)
  have same: "snapshots db1 = snapshots db"
    using process_batch_snapshots [of bank_on fresh "time k" "batch_ids cursor db" 0 db] b by simp
  have next_k: "next_cursor (batch_ids cursor db) = Some (S ! (100 * Suc k - 1))"
    by (simp add: next_cursor_def ids last_map)
  define cfg1 where "cfg1 = cfg\<lparr>retail_policies := activate_retail_due (time k) (retail_policies cfg)\<rparr>"
  obtain rest where r: "run_batches bank_on fresh time (Suc k) (Suc n) (Some (S ! (100 * Suc k - 1)), cfg1, db1) = (rest, cursor', cfg', db')"
    and results: "results = \<lparr>bt_checked = 100, bt_failed = f\<rparr> # rest"
    using Suc.prems(5) b next_k
    by (auto simp: run_batch_def Let_def ids cfg1_def split: prod.splits simp del: run_batches.simps(2) simp: run_batches.simps(2) [of _ _ _ _ "Suc n"])
  have IH: "cursor' = None \<and> sum_list (map bt_checked rest) = length S - 100 * Suc k
    \<and> (sum_list (map bt_failed rest), db') = fold ?one [100 * Suc k..<length S] (0, db1)"
    by (rule Suc.IH [OF _ _ _ _ r]) (use Suc.prems same big in simp_all)
  have "[100 * k..<length S] = [100 * k..<100 * k + 100] @ [100 * Suc k..<length S]"
    using upt_add_eq_append [of "100 * k" "100 * k + 100" "length S - (100 * k + 100)"] big by (simp add: add.commute)
  then have "fold ?one [100 * k..<length S] (0, db) = fold ?one [100 * Suc k..<length S] (f, db1)"
    by (simp only: fold_append comp_def f)
  also have "\<dots> = (f + fst (fold ?one [100 * Suc k..<length S] (0, db1)), snd (fold ?one [100 * Suc k..<length S] (0, db1)))"
    using tries_shift [of bank_on fresh "\<lambda>j. time (j div 100)" "(!) S" "[100 * Suc k..<length S]" f 0 db1] by simp
  also have "\<dots> = (f + sum_list (map bt_failed rest), db')" using IH by (metis fst_conv snd_conv)
  finally show ?case using IH results big by simp
qed

text \<open>C17: The batch job starves nobody: from the start, one run more than a hundredth of the snapshots has exactly the
  effect of processing every snapshot once, in the order of their ids, each at the time of its run and with the
  tables left as they were where it fails; the runs count every snapshot as checked and every failure as failed, and
  the cursor is left where it started.\<close>

theorem batch_sweep_complete:
  assumes "distinct (map sn_id (snapshots db))" and "[] \<notin> sn_id ` set (snapshots db)"
  shows "let S = sort (map sn_id (snapshots db));
      (results, cursor, cfg', db') = run_batches bank_on fresh time 0 (Suc (length S div 100)) (None, cfg, db) in
    cursor = None \<and> sum_list (map bt_checked results) = length S
    \<and> (sum_list (map bt_failed results), db')
        = fold (\<lambda>j. try_snapshot bank_on fresh (time (j div 100)) (S ! j)) [0..<length S] (0, db)"
proof -
  let ?S = "sort (map sn_id (snapshots db))"
  obtain results cursor cfg' db' where r: "run_batches bank_on fresh time 0 (Suc (length ?S div 100)) (None, cfg, db) = (results, cursor, cfg', db')"
    by (metis prod_cases4)
  have "cursor = None \<and> sum_list (map bt_checked results) = length ?S - 100 * 0
    \<and> (sum_list (map bt_failed results), db')
        = fold (\<lambda>j. try_snapshot bank_on fresh (time (j div 100)) (?S ! j)) [100 * 0..<length ?S] (0, db)"
    by (rule run_batches_from [OF _ _ _ refl _ _ _ r]) (use assms in auto)
  then show ?thesis unfolding Let_def r by simp
qed

section \<open>The retail fee\<close>

definition retail_inv :: "retail_policy list \<Rightarrow> bool" where
  "retail_inv ps =
     (distinct (map rt_id ps) \<and> count_where (\<lambda>p. rt_status p = ''active'') ps \<le> 1
      \<and> count_where (\<lambda>p. rt_status p = ''scheduled'') ps \<le> 1)"

lemma activate_policy_inv:
  assumes "retail_inv ps"
  shows "retail_inv (activate_policy i ps)"
proof -
  have "map rt_id (activate_policy i ps) = map rt_id ps"
    by (simp add: activate_policy_def map_update_where_same)
  moreover have "count_where (\<lambda>p. rt_status p = ''active'') (activate_policy i ps) \<le> count_where (\<lambda>p. rt_id p = i) ps"
    by (simp add: activate_policy_def count_update_where count_where_mono cong: if_cong)
  moreover have "count_where (\<lambda>p. rt_status p = ''scheduled'') (activate_policy i ps) \<le> count_where (\<lambda>p. rt_status p = ''scheduled'') ps"
    by (auto simp: activate_policy_def count_update_where intro!: count_where_mono split: if_splits)
  ultimately show ?thesis using assms count_key_le_1 [of rt_id ps i] by (auto simp: retail_inv_def)
qed

lemma activate_retail_due_inv: "retail_inv ps \<Longrightarrow> retail_inv (activate_retail_due now ps)"
proof -
  have "retail_inv ps \<Longrightarrow> retail_inv (fold (\<lambda>p. activate_policy (rt_id p)) qs ps)" for qs
    by (induction qs arbitrary: ps) (simp_all add: activate_policy_inv)
  then show "retail_inv ps \<Longrightarrow> retail_inv (activate_retail_due now ps)" by (simp add: activate_retail_due_def)
qed

lemma schedule_retail_inv:
  assumes "retail_inv (retail_policies cfg)"
  shows "ok_all (\<lambda>(policy, cfg'). retail_inv (retail_policies cfg')) (schedule_retail actor fee mode days i now cfg)"
proof -
  let ?ps = "activate_retail_due now (retail_policies cfg)"
  have "retail_inv (activate_retail_due now (?ps @ [\<lparr>rt_id = i, rt_fee_bps = bps, rt_status = ''scheduled'',
      rt_effective_at = t, rt_created_at = now\<rparr>]))"
    if "\<not> list_ex (\<lambda>p. rt_status p = ''scheduled'') ?ps" "\<not> list_ex (\<lambda>p. rt_id p = i) ?ps" for bps t
  proof (rule activate_retail_due_inv)
    have "count_where (\<lambda>p. rt_status p = ''scheduled'') ?ps = 0"
      using that(1) by (auto simp: count_where_zero list_ex_iff)
    then show "retail_inv (?ps @ [\<lparr>rt_id = i, rt_fee_bps = bps, rt_status = ''scheduled'', rt_effective_at = t, rt_created_at = now\<rparr>])"
      using activate_retail_due_inv [OF assms, of now] that(2) by (auto simp: retail_inv_def list_ex_iff)
  qed
  then show ?thesis
    by (cases fee) (auto simp: schedule_retail_def Let_def ok_all_def result_simps)
qed

lemma cancel_retail_inv:
  assumes "retail_inv (retail_policies cfg)"
  shows "ok_all (\<lambda>(policy, cfg'). retail_inv (retail_policies cfg')) (cancel_retail actor i now cfg)"
proof -
  let ?ps = "update_where (\<lambda>p. rt_id p = i) (\<lambda>p. p\<lparr>rt_status := ''cancelled''\<rparr>) (retail_policies cfg)"
  have "map rt_id ?ps = map rt_id (retail_policies cfg)" by (simp add: map_update_where_same)
  moreover have "count_where (\<lambda>p. rt_status p = c) ?ps \<le> count_where (\<lambda>p. rt_status p = c) (retail_policies cfg)"
    if "c \<noteq> ''cancelled''" for c
    using that by (auto simp: count_update_where intro!: count_where_mono split: if_splits)
  from this [of "''active''"] this [of "''scheduled''"] calculation have "retail_inv ?ps"
    using assms by (auto simp: retail_inv_def)
  then show ?thesis by (auto simp: cancel_retail_def Let_def ok_all_def result_simps)
qed

section \<open>Examples\<close>

definition ex_retail_config :: revenue_config where
  "ex_retail_config = \<lparr>order_lines = [\<lparr>ol_id = ''l1'', ol_order_id = ''o1'', ol_product_type = ''course'',
       ol_product_ref = ''c1'', ol_seller_id = ''s1'', ol_final_amount = 1000\<rparr>],
     plan_versions = [], plan_policies = [], participations = [],
     retail_policies = [\<lparr>rt_id = ''r1'', rt_fee_bps = 1500, rt_status = ''active'', rt_effective_at = 0, rt_created_at = 0\<rparr>],
     course_sellers = [''s1''], notices = [], retail_audits = []\<rparr>"

definition ex_paid_shop :: shop_db where
  "ex_paid_shop = empty_shop\<lparr>orders := [\<lparr>or_id = ''o1'', or_buyer_id = ''u1'', or_status = ''confirmed'',
       or_fulfillment_status = ''not_started'', or_currency = ''VND'', or_payable_amount = 1000,
       or_confirmed_settlement_id = Some ''t1'', or_confirmed_at = Some 20, or_created_at = 10, or_term_months = None\<rparr>],
     settlements := [\<lparr>st_id = ''t1'', st_order_id = ''o1'', st_attempt_id = Some ''a1'', st_event_id = Some ''v1'',
       st_kind = ''provider_collection'', st_disposition = ''matched'', st_provider = Some ''payos'',
       st_reference = Some ''p1'', st_amount = 1000, st_currency = ''VND'', st_settled_at = 20\<rparr>],
     attempts := [\<lparr>at_id = ''a1'', at_order_id = ''o1'', at_provider = ''payos'', at_payment_identity = Some ''i1'',
       at_order_code = Some 7, at_status = ''paid'', at_amount = 1000, at_currency = ''VND'', at_expires_at = None,
       at_closed_at = None, at_paid_at = Some 20\<rparr>],
     payment_events := [\<lparr>ev_id = ''v1'', ev_attempt_id = ''a1'', ev_provider = ''payos'', ev_identity = ''w1'',
       ev_payment_identity = Some ''i1'', ev_settlement_reference = Some ''p1'', ev_amount = 1000,
       ev_currency_code = ''VND'', ev_next_status = ''paid'', ev_occurred_at = Some 20\<rparr>],
     refunds := [\<lparr>ra_id = ''x1'', ra_refund_id = ''f1'', ra_order_line_id = ''l1'', ra_amount = 400,
       ra_refund_status = ''recorded'', ra_settlement_id = ''t1'', ra_recorded_at = 30\<rparr>]\<rparr>"

definition ex_capture :: "(revenue_config \<times> shop_db) result" where
  "ex_capture = capture_revenue 15 ''o1'' (ex_retail_config, ex_paid_shop)"

definition ex_process :: "shop_db result" where
  "ex_process = process_snapshot False (\<lambda>c n. c @ show_nat n) 50 ''l1'' (snd (projr ex_capture))"

lemma ex_capture_ok: "is_ok ex_capture" by code_simp

lemma ex_process_facts:
  "is_ok ex_process \<and> map (\<lambda>p. (ep_id p, ep_snapshot_id p, ep_amount p)) (periods (projr ex_process)) = [(''c10'', ''l1'', 850)]
   \<and> map (\<lambda>e. (le_kind e, le_amount e)) (entries (projr ex_process)) = [(''refund_pending'', -340), (''recognized'', 510)]"
  by code_simp

lemma is_ok_isl: "is_ok m = (\<not> isl m)"
  by (cases m) simp_all

definition ex_final :: shop_db where
  "ex_final = projr ex_process"

lemma ex_history: "(revenue_step False)\<^sup>*\<^sup>* (ex_retail_config, ex_paid_shop) (fst (projr ex_capture), ex_final)"
proof -
  obtain cfg db where c: "ex_capture = Inr (cfg, db)" using ex_capture_ok by (auto simp: is_ok_iff)
  then have "revenue_step False (ex_retail_config, ex_paid_shop) (cfg, db)"
    unfolding ex_capture_def by (rule rv_capture)
  moreover have "ex_process = Inr ex_final"
    unfolding ex_final_def by (rule sum.collapse(2) [symmetric]) (use ex_process_facts in \<open>simp add: is_ok_isl\<close>)
  then have "process_snapshot False (\<lambda>c n. c @ show_nat n) 50 ''l1'' db = Inr ex_final"
    unfolding ex_process_def c by simp
  then have "revenue_step False (cfg, db) (cfg, ex_final)" by (rule rv_process)
  ultimately have "(revenue_step False)\<^sup>*\<^sup>* (ex_retail_config, ex_paid_shop) (cfg, ex_final)"
    by (meson converse_rtranclp_into_rtranclp rtranclp.rtrancl_refl)
  then show ?thesis unfolding c by simp
qed

lemma ex_no_revenue: "no_revenue ex_paid_shop"
  by (simp add: no_revenue_def ex_paid_shop_def empty_shop_def)

lemma ex_period: "\<exists>p. periods ex_final = [p] \<and> ep_id p = ''c10'' \<and> ep_snapshot_id p = ''l1'' \<and> ep_amount p = 850"
  using ex_process_facts by (cases "periods (projr ex_process)") (auto simp: ex_final_def)

lemma revenue_periods_conserve_witness:
  "\<exists>p\<in>set (periods ex_final). ep_amount p = 850 \<and> reversed_amount (entries_of p ex_final) \<le> 850"
proof -
  obtain p where p: "periods ex_final = [p]" "ep_amount p = 850" using ex_period by blast
  with revenue_periods_conserve [OF ex_history ex_no_revenue, of p] show ?thesis by auto
qed



lemma revenue_report_consistent_witness:
  "tt_pending (snd (revenue_report None 1 20 ex_final)) = sum_list (map pr_pending (concat (map (\<lambda>k.
     pg_items (fst (revenue_report None k 20 ex_final))) [1..<Suc (total_pages (length (seller_periods None ex_final)) 20)])))"
  using revenue_report_consistent [OF ex_history ex_no_revenue, of 20 None] unfolding Let_def by simp

lemma batch_sweep_complete_witness:
  "let (results, cursor, cfg', db') = run_batches False (\<lambda>_ c n. c @ show_nat n) (\<lambda>_. 50) 0 1 (None, ex_retail_config, snd (projr ex_capture)) in
     cursor = None \<and> sum_list (map bt_checked results) = 1 \<and> sum_list (map bt_failed results) = 0 \<and> db' = ex_final"
proof -
  let ?db = "snd (projr ex_capture)"
  have s: "map sn_id (snapshots ?db) = [''l1'']" by code_simp
  then have i: "sn_id ` set (snapshots ?db) = {''l1''}" by (metis empty_set list.set_map list.simps(15))
  have p: "process_snapshot False (\<lambda>c n. c @ show_nat n) 50 ''l1'' ?db = Inr ex_final"
    unfolding ex_process_def [symmetric] ex_final_def
    by (rule sum.collapse(2) [symmetric]) (use ex_process_facts in \<open>simp add: is_ok_isl\<close>)
  obtain results cursor cfg' db' where r: "run_batches False (\<lambda>_ c n. c @ show_nat n) (\<lambda>_. 50) 0 1 (None, ex_retail_config, ?db) = (results, cursor, cfg', db')"
    by (metis prod_cases4)
  have "distinct (map sn_id (snapshots ?db))" "[] \<notin> sn_id ` set (snapshots ?db)" using s i by simp_all
  from batch_sweep_complete [OF this, of False "\<lambda>_ c n. c @ show_nat n" "\<lambda>_. 50" ex_retail_config]
  have "cursor = None \<and> sum_list (map bt_checked results) = 1 \<and> (sum_list (map bt_failed results), db') = (0, ex_final)"
    using r by (simp add: Let_def s try_snapshot_def p)
  then show ?thesis unfolding r by simp
qed

end
