(* ===== verification/Course_Access.thy ===== *)
theory Course_Access
  imports Learning_Db
begin

text \<open>
  Who may open a course: \<^verbatim>\<open>course-access.rules.ts\<close> and \<^verbatim>\<open>course-access.service.ts\<close>
  under \<^verbatim>\<open>src/modules/access\<close>, with the sandbox policy of early access by receipt
  (\<^verbatim>\<open>src/common/security/receipt-sandbox-policy.ts\<close>).
\<close>

section \<open>The decision\<close>

datatype access_operation = MANAGE | PUBLIC_PREVIEW | FULL_LEARNING

datatype access_mode = MANAGER | PREVIEW | LEARNER | NO_ACCESS

record access_facts =
  af_user_deleted :: bool
  af_course_deleted :: bool
  af_platform_admin :: bool
  af_owner :: bool
  af_moderation_clear :: bool
  af_published :: bool
  af_archived :: bool
  af_public :: bool
  af_preview_resource :: bool
  af_active_grant :: bool
  af_grace_grant :: bool
  af_legacy_enrollment :: bool

record access_decision =
  ad_allowed :: bool
  ad_mode :: access_mode
  ad_reason :: string

definition deny :: "string \<Rightarrow> access_decision" where
  "deny reason = \<lparr>ad_allowed = False, ad_mode = NO_ACCESS, ad_reason = reason\<rparr>"

definition resolve_course_access_facts :: "access_operation \<Rightarrow> access_facts \<Rightarrow> access_decision" where
  "resolve_course_access_facts operation facts =
     (if af_user_deleted facts \<or> af_course_deleted facts then deny ''SUBJECT_NOT_FOUND''
      else if operation = MANAGE then
        (if af_platform_admin facts \<or> af_owner facts
         then \<lparr>ad_allowed = True, ad_mode = MANAGER, ad_reason = ''MANAGEMENT_AUTHORITY''\<rparr>
         else deny ''COURSE_NOT_FOUND'')
      else if \<not> af_moderation_clear facts then deny ''COURSE_NOT_FOUND''
      else if operation = PUBLIC_PREVIEW then
        (if af_published facts \<and> af_public facts \<and> af_preview_resource facts
         then \<lparr>ad_allowed = True, ad_mode = PREVIEW, ad_reason = ''PUBLIC_PREVIEW''\<rparr>
         else deny ''COURSE_NOT_FOUND'')
      else if (af_published facts \<or> af_archived facts)
        \<and> (af_active_grant facts \<or> af_grace_grant facts \<or> af_legacy_enrollment facts)
        then \<lparr>ad_allowed = True, ad_mode = LEARNER, ad_reason = ''COURSE_ENTITLED''\<rparr>
      else deny ''COURSE_ACCESS_REQUIRED'')"

section \<open>Early access by receipt\<close>

text \<open>\<^verbatim>\<open>s.split(',')\<close>\<close>

fun split_comma :: "string \<Rightarrow> string list" where
  "split_comma [] = [[]]"
| "split_comma (c # cs) =
     (if c = CHR '','' then [] # split_comma cs
      else case split_comma cs of [] \<Rightarrow> [[c]] | w # ws \<Rightarrow> (c # w) # ws)"

definition receipt_sandbox_enabled :: "string \<Rightarrow> (string \<Rightarrow> string option) \<Rightarrow> string \<Rightarrow> bool" where
  "receipt_sandbox_enabled node_env env buyer =
     (let buyers = filter truthy (map js_trim (split_comma
        (case env ''BANK_RECEIPT_SYNTHETIC_BUYER_IDS'' of None \<Rightarrow> [] | Some s \<Rightarrow> s))) in
      (node_env = ''development'' \<or> node_env = ''test'')
      \<and> env ''BANK_TRANSFER_SANDBOX_ENABLED'' = Some ''true''
      \<and> env ''BANK_RECEIPT_SANDBOX_ENABLED'' = Some ''true'' \<and> buyer \<in> set buyers)"

definition receipt_early_access_enabled :: "string \<Rightarrow> (string \<Rightarrow> string option) \<Rightarrow> string \<Rightarrow> bool" where
  "receipt_early_access_enabled node_env env buyer =
     (receipt_sandbox_enabled node_env env buyer \<and> env ''BANK_RECEIPT_EARLY_ACCESS_ENABLED'' = Some ''true'')"

section \<open>Looking for a grant\<close>

record access_request =
  rq_user :: "auth_user option"
  rq_course_id :: string
  rq_operation :: access_operation
  rq_preview_resource :: bool
  rq_at :: "int option"

text \<open>\<^verbatim>\<open>orderBy: [{ endsAt: desc, nulls first }, { graceEndsAt: 'desc' }, { id: 'asc' }]\<close>;
  PostgreSQL puts nulls first in a descending order by default.\<close>

fun desc_nulls_first :: "int option \<Rightarrow> int option \<Rightarrow> int" where
  "desc_nulls_first None None = 0"
| "desc_nulls_first None (Some b) = -1"
| "desc_nulls_first (Some a) None = 1"
| "desc_nulls_first (Some a) (Some b) = (if a > b then -1 else if a < b then 1 else 0)"

definition grant_order :: "access_grant \<Rightarrow> access_grant \<Rightarrow> int" where
  "grant_order a b =
     (let e = desc_nulls_first (ag_ends_at a) (ag_ends_at b);
          g = desc_nulls_first (ag_grace_ends_at a) (ag_grace_ends_at b) in
      if e \<noteq> 0 then e else if g \<noteq> 0 then g
      else if ag_id a < ag_id b then -1 else if ag_id b < ag_id a then 1 else 0)"

definition after :: "int \<Rightarrow> int option \<Rightarrow> bool" where
  "after moment t = (case t of None \<Rightarrow> False | Some e \<Rightarrow> moment < e)"

definition in_window :: "int \<Rightarrow> access_grant \<Rightarrow> bool" where
  "in_window moment g =
     (ag_status g = ''active'' \<and> ag_starts_at g \<le> moment
      \<and> (ag_ends_at g = None \<or> after moment (ag_ends_at g) \<or> after moment (ag_grace_ends_at g)))"

definition regular_sources :: "string list" where
  "regular_sources = [''course_purchase'', ''membership'', ''membership_grace'', ''scholarship'', ''tmi_reward'',
     ''admin'', ''free_enrollment'', ''legacy_enrollment'']"

definition of_user :: "string \<Rightarrow> string \<Rightarrow> access_grant \<Rightarrow> bool" where
  "of_user u c g = (ag_user_id g = u \<and> ag_course_id g = c)"

definition regular_grant :: "string \<Rightarrow> string \<Rightarrow> int \<Rightarrow> access_grant \<Rightarrow> bool" where
  "regular_grant u c moment g = (of_user u c g \<and> in_window moment g \<and> ag_source_type g \<in> set regular_sources)"

definition effect_source :: "receipt_effect \<Rightarrow> string" where
  "effect_source x =
     rx_generation_id x @ '':'' @ rx_order_line_id x
       @ (if rx_effect_kind x = ''MEMBERSHIP_GRACE'' then '':grace'' else [])"

definition unverified_effects :: "string \<Rightarrow> lms_db \<Rightarrow> receipt_effect list" where
  "unverified_effects u db =
     filter (\<lambda>x. rx_resource_type x = ''course_access_grant''
       \<and> list_ex (\<lambda>g. rg_id g = rx_generation_id x \<and> rg_status g = ''ACCESS_UNVERIFIED'' \<and> rg_buyer_id g = u)
         (generations db)) (receipt_effects db)"

definition receipt_grant :: "receipt_effect list \<Rightarrow> string \<Rightarrow> string \<Rightarrow> int \<Rightarrow> access_grant \<Rightarrow> bool" where
  "receipt_grant xs u c moment g =
     (of_user u c g \<and> in_window moment g \<and> ag_source_type g = ''unverified_receipt_access''
      \<and> list_ex (\<lambda>x. ag_id g = rx_resource_id x \<and> ag_source_id g = effect_source x) xs)"

definition find_receipt_grant :: "lms_env \<Rightarrow> string \<Rightarrow> string \<Rightarrow> int \<Rightarrow> lms_db \<Rightarrow> access_grant option" where
  "find_receipt_grant env u c moment db =
     (if receipt_early_access_enabled
           (case lv_node_env env of None \<Rightarrow> ''production'' | Some s \<Rightarrow> s) (lv_process_env env) u
         \<and> unverified_effects u db \<noteq> []
      then find (receipt_grant (unverified_effects u db) u c moment) (js_sort grant_order (grants db))
      else None)"

text \<open>The grant found, and whether it counts as a grace period.\<close>

definition learner_grant :: "lms_env \<Rightarrow> string \<Rightarrow> string \<Rightarrow> int \<Rightarrow> lms_db \<Rightarrow> (access_grant \<times> bool) option" where
  "learner_grant env u c moment db =
     (case find (regular_grant u c moment) (js_sort grant_order (grants db)) of
        Some g \<Rightarrow> Some (g, ag_source_type g = ''membership_grace'')
      | None \<Rightarrow>
          (case find_receipt_grant env u c moment db of
             None \<Rightarrow> None
           | Some g \<Rightarrow>
               Some (g, list_ex (\<lambda>x. rx_resource_id x = ag_id g \<and> rx_effect_kind x = ''MEMBERSHIP_GRACE'')
                          (unverified_effects u db)
                        \<or> ag_source_type g = ''membership_grace'')))"

definition no_course_facts :: access_facts where
  "no_course_facts = \<lparr>af_user_deleted = False, af_course_deleted = True, af_platform_admin = False, af_owner = False,
     af_moderation_clear = False, af_published = False, af_archived = False, af_public = False,
     af_preview_resource = False, af_active_grant = False, af_grace_grant = False, af_legacy_enrollment = False\<rparr>"

definition has_role :: "string \<Rightarrow> access_request \<Rightarrow> bool" where
  "has_role r rq = (case rq_user rq of None \<Rightarrow> False | Some u \<Rightarrow> r \<in> set (au_roles u))"

definition subject_missing :: "access_request \<Rightarrow> lms_db \<Rightarrow> bool" where
  "subject_missing rq db =
     (case rq_user rq of None \<Rightarrow> False
      | Some u \<Rightarrow> (case find (\<lambda>x. us_id x = au_id u) (users db) of
           None \<Rightarrow> True | Some r \<Rightarrow> us_deleted_at r \<noteq> None))"

definition grant_facts :: "lms_env \<Rightarrow> access_request \<Rightarrow> lms_db \<Rightarrow> bool \<times> bool" where
  "grant_facts env rq db =
     (let moment = (case rq_at rq of None \<Rightarrow> lv_now env | Some t \<Rightarrow> t) in
      if rq_operation rq = FULL_LEARNING \<and> has_role ''student'' rq then
        (case rq_user rq of None \<Rightarrow> (False, False)
         | Some u \<Rightarrow> (case learner_grant env (au_id u) (rq_course_id rq) moment db of
              None \<Rightarrow> (False, False)
            | Some (g, grace) \<Rightarrow>
                (let live = (\<not> grace \<and> (ag_ends_at g = None \<or> after moment (ag_ends_at g))) in
                 (live, grace \<or> \<not> live \<and> after moment (ag_grace_ends_at g)))))
      else (False, False))"

definition decide_access :: "lms_env \<Rightarrow> access_request \<Rightarrow> lms_db \<Rightarrow> access_decision" where
  "decide_access env rq db =
     (case find_course (rq_course_id rq) db of
        None \<Rightarrow> resolve_course_access_facts (rq_operation rq) no_course_facts
      | Some c \<Rightarrow>
          (case grant_facts env rq db of (live, grace) \<Rightarrow>
             resolve_course_access_facts (rq_operation rq)
               \<lparr>af_user_deleted = subject_missing rq db, af_course_deleted = (co_deleted_at c \<noteq> None),
                af_platform_admin = has_role ''platform_admin'' rq,
                af_owner = (case rq_user rq of None \<Rightarrow> False | Some u \<Rightarrow> au_id u = co_instructor_id c),
                af_moderation_clear = (co_moderation c = ''clear''), af_published = (co_status c = ''published''),
                af_archived = (co_status c = ''archived''), af_public = (co_visibility c = ''public''),
                af_preview_resource = rq_preview_resource rq, af_active_grant = live, af_grace_grant = grace,
                af_legacy_enrollment = False\<rparr>))"

definition require_access :: "lms_env \<Rightarrow> access_request \<Rightarrow> lms_db \<Rightarrow> access_decision result" where
  "require_access env rq db =
     (let d = decide_access env rq db in throw_if (\<not> ad_allowed d) (NotFoundException ''Course not found'') (Inr d))"

definition content_request :: "auth_user \<Rightarrow> string \<Rightarrow> bool \<Rightarrow> int option \<Rightarrow> access_operation \<Rightarrow> access_request" where
  "content_request user course_id preview moment operation =
     \<lparr>rq_user = Some user, rq_course_id = course_id, rq_operation = operation, rq_preview_resource = preview,
      rq_at = moment\<rparr>"

definition decide_content :: "lms_env \<Rightarrow> auth_user \<Rightarrow> string \<Rightarrow> bool \<Rightarrow> int option \<Rightarrow> lms_db \<Rightarrow> access_decision" where
  "decide_content env user course_id preview moment db =
     (let manage = decide_access env (content_request user course_id preview moment MANAGE) db;
          public = decide_access env (content_request user course_id preview moment PUBLIC_PREVIEW) db in
      if ad_allowed manage then manage
      else if preview \<and> ad_allowed public then public
      else decide_access env (content_request user course_id preview moment FULL_LEARNING) db)"

definition require_content :: "lms_env \<Rightarrow> auth_user \<Rightarrow> string \<Rightarrow> bool \<Rightarrow> int option \<Rightarrow> lms_db \<Rightarrow> access_decision result" where
  "require_content env user course_id preview moment db =
     (let d = decide_content env user course_id preview moment db in
      throw_if (\<not> ad_allowed d) (NotFoundException ''Course not found'') (Inr d))"

text \<open>The request every learner operation makes: the student role and full learning.\<close>

definition student_request :: "string \<Rightarrow> string \<Rightarrow> access_request" where
  "student_request u c =
     \<lparr>rq_user = Some \<lparr>au_id = u, au_roles = [''student'']\<rparr>, rq_course_id = c, rq_operation = FULL_LEARNING,
      rq_preview_resource = False, rq_at = None\<rparr>"

section \<open>Granting and revoking\<close>

record grant_input =
  gi_user_id :: string
  gi_course_id :: string
  gi_source_type :: string
  gi_source_id :: string
  gi_starts_at :: int
  gi_ends_at :: "int option"
  gi_grace_ends_at :: "int option"

definition grant_key :: "access_grant \<Rightarrow> string \<times> string \<times> string \<times> string" where
  "grant_key g = (ag_user_id g, ag_course_id g, ag_source_type g, ag_source_id g)"

definition input_key :: "grant_input \<Rightarrow> string \<times> string \<times> string \<times> string" where
  "input_key i = (gi_user_id i, gi_course_id i, gi_source_type i, gi_source_id i)"

definition find_grant :: "string \<times> string \<times> string \<times> string \<Rightarrow> lms_db \<Rightarrow> access_grant option" where
  "find_grant k db = find (\<lambda>g. grant_key g = k) (grants db)"

definition bad_window :: "grant_input \<Rightarrow> bool" where
  "bad_window i =
     (gi_source_id i = [] \<or> length (gi_source_id i) > 128
      \<or> (case gi_ends_at i of None \<Rightarrow> False | Some e \<Rightarrow> e \<le> gi_starts_at i)
      \<or> (case gi_grace_ends_at i of None \<Rightarrow> False
          | Some g \<Rightarrow> (case gi_ends_at i of None \<Rightarrow> True | Some e \<Rightarrow> g < e)))"

text \<open>\<^verbatim>\<open>createMany\<close> with \<^verbatim>\<open>skipDuplicates\<close>, and the upsert with an empty update.\<close>

definition insert_grant :: "string \<Rightarrow> grant_input \<Rightarrow> lms_db \<Rightarrow> lms_db" where
  "insert_grant fresh_id i db =
     (if find_grant (input_key i) db \<noteq> None then db
      else db\<lparr>grants := grants db @ [\<lparr>ag_id = fresh_id, ag_user_id = gi_user_id i, ag_course_id = gi_course_id i,
        ag_source_type = gi_source_type i, ag_source_id = gi_source_id i, ag_status = ''active'',
        ag_starts_at = gi_starts_at i, ag_ends_at = gi_ends_at i, ag_grace_ends_at = gi_grace_ends_at i,
        ag_revoked_at = None, ag_reason = None\<rparr>]\<rparr>)"

definition upsert_enrollment :: "string \<Rightarrow> string \<Rightarrow> lms_db \<Rightarrow> lms_db" where
  "upsert_enrollment u c db =
     (if find_enrollment u c db \<noteq> None then db
      else db\<lparr>enrollments := enrollments db @
        [\<lparr>en_user_id = u, en_course_id = c, en_status = ''active'', en_completed_at = None\<rparr>]\<rparr>)"

definition new_progress :: "string \<Rightarrow> string \<Rightarrow> string \<Rightarrow> learning_progress" where
  "new_progress u c l = \<lparr>lp_user_id = u, lp_course_id = c, lp_lesson_id = l, lp_status = ''not_started'',
     lp_percent = 0, lp_watched = 0, lp_duration = None, lp_last_position = 0, lp_max_watched = 0, lp_document = 0,
     lp_completed_at = None, lp_last_accessed_at = None\<rparr>"

definition start_lessons :: "string \<Rightarrow> string \<Rightarrow> lms_db \<Rightarrow> lms_db" where
  "start_lessons u c db =
     (let ls = filter (\<lambda>l. ln_course_id l = c \<and> ln_deleted_at l = None) (lessons db) in
      db\<lparr>progress_rows := progress_rows db @
        map (\<lambda>l. new_progress u c (ln_id l)) (filter (\<lambda>l. find_progress u (ln_id l) db = None) ls)\<rparr>)"

definition ensure_grant :: "string \<Rightarrow> grant_input \<Rightarrow> (lms_db, access_grant option) txn" where
  "ensure_grant fresh_id i db =
     throw_if (bad_window i) (BadRequestException ''Invalid course access grant source or window.'') (
     let db' = start_lessons (gi_user_id i) (gi_course_id i)
                 (upsert_enrollment (gi_user_id i) (gi_course_id i) (insert_grant fresh_id i db)) in
     Inr (find_grant (input_key i) db', db'))"

definition revoke_grant :: "string \<times> string \<times> string \<times> string \<Rightarrow> string \<Rightarrow> int \<Rightarrow> (lms_db, access_grant option) txn" where
  "revoke_grant k reason now db =
     throw_if (js_trim reason = [] \<or> length reason > 120)
       (BadRequestException ''Invalid course access revocation reason.'') (
     case find_grant k db of
       None \<Rightarrow> Inr (None, db)
     | Some g \<Rightarrow>
         if ag_status g = ''revoked'' then Inr (Some g, db)
         else
           (let g' = g\<lparr>ag_status := ''revoked'', ag_revoked_at := Some now, ag_reason := Some reason\<rparr> in
            Inr (Some g', db\<lparr>grants := update_where (\<lambda>x. ag_id x = ag_id g) (\<lambda>_. g') (grants db)\<rparr>)))"

section \<open>The grant search\<close>

lemma find_sorted_None [simp]: "find P (js_sort f xs) = None \<longleftrightarrow> \<not> (\<exists>x\<in>set xs. P x)"
  by (simp add: find_ex)

lemma learner_grant_None:
  "learner_grant env u c m db = None \<longleftrightarrow>
     \<not> (\<exists>g\<in>set (grants db). regular_grant u c m g)
     \<and> find_receipt_grant env u c m db = None"
  using find_sorted_None [of "regular_grant u c m" grant_order "grants db"]
  by (cases "find (regular_grant u c m) (js_sort grant_order (grants db))")
    (auto simp: learner_grant_def split: option.splits)

lemma learner_grant_in_window:
  assumes "learner_grant env u c m db = Some (g, grace)"
  shows "in_window m g"
  using assms
  by (auto simp: learner_grant_def find_receipt_grant_def regular_grant_def receipt_grant_def
      split: option.splits if_splits dest!: find_SomeD)

lemma grant_facts_allowed:
  assumes "rq_operation rq = FULL_LEARNING" and "rq_user rq = Some usr" and "''student'' \<in> set (au_roles usr)"
    and "rq_at rq = None"
  shows "fst (grant_facts env rq db) \<or> snd (grant_facts env rq db) \<longleftrightarrow>
    learner_grant env (au_id usr) (rq_course_id rq) (lv_now env) db \<noteq> None"
proof (cases "learner_grant env (au_id usr) (rq_course_id rq) (lv_now env) db")
  case (Some p)
  then obtain g grace where p: "p = (g, grace)" by (cases p) auto
  with Some have "in_window (lv_now env) g" using learner_grant_in_window by blast
  with Some p assms show ?thesis by (auto simp: grant_facts_def has_role_def in_window_def Let_def)
qed (use assms in \<open>simp add: grant_facts_def has_role_def\<close>)

lemma receipt_grant_None:
  "find_receipt_grant env u c m db = None \<longleftrightarrow>
     \<not> (receipt_early_access_enabled (case lv_node_env env of None \<Rightarrow> ''production'' | Some s \<Rightarrow> s) (lv_process_env env) u
        \<and> (\<exists>g\<in>set (grants db). receipt_grant (unverified_effects u db) u c m g))"
  by (auto simp: find_receipt_grant_def receipt_grant_def)

text \<open>A user with a qualifying grant, as a reader of the rules would say it.\<close>

definition course_open :: "string \<Rightarrow> lms_db \<Rightarrow> bool" where
  "course_open c db = (case find_course c db of None \<Rightarrow> False
     | Some r \<Rightarrow> co_deleted_at r = None \<and> co_moderation r = ''clear'' \<and> co_status r \<in> {''published'', ''archived''})"

definition user_alive :: "string \<Rightarrow> lms_db \<Rightarrow> bool" where
  "user_alive u db = (case find (\<lambda>x. us_id x = u) (users db) of None \<Rightarrow> False | Some r \<Rightarrow> us_deleted_at r = None)"

definition holds_grant :: "lms_env \<Rightarrow> string \<Rightarrow> string \<Rightarrow> lms_db \<Rightarrow> bool" where
  "holds_grant env u c db = list_ex (\<lambda>g. regular_grant u c (lv_now env) g
       \<or> receipt_early_access_enabled (case lv_node_env env of None \<Rightarrow> ''production'' | Some s \<Rightarrow> s) (lv_process_env env) u
         \<and> receipt_grant (unverified_effects u db) u c (lv_now env) g) (grants db)"

lemma resolve_full_learning:
  "ad_allowed (resolve_course_access_facts FULL_LEARNING f) \<longleftrightarrow>
     \<not> af_user_deleted f \<and> \<not> af_course_deleted f \<and> af_moderation_clear f \<and> (af_published f \<or> af_archived f)
     \<and> (af_active_grant f \<or> af_grace_grant f \<or> af_legacy_enrollment f)"
  by (simp add: resolve_course_access_facts_def deny_def)

lemma learning_access_iff:
  "ad_allowed (decide_access env (student_request u c) db) \<longleftrightarrow>
     course_open c db \<and> user_alive u db \<and> holds_grant env u c db"
proof -
  let ?rq = "student_request u c"
  have g: "fst (grant_facts env ?rq db) \<or> snd (grant_facts env ?rq db) \<longleftrightarrow> holds_grant env u c db"
    by (subst grant_facts_allowed)
      (auto simp: student_request_def learner_grant_None receipt_grant_None holds_grant_def list_ex_iff)
  show ?thesis
  proof (cases "find_course c db")
    case None
    then show ?thesis
      by (simp add: decide_access_def student_request_def course_open_def resolve_full_learning no_course_facts_def)
  next
    case (Some r)
    obtain live grace where f: "grant_facts env ?rq db = (live, grace)" by fastforce
    have "ad_allowed (decide_access env ?rq db) \<longleftrightarrow>
        \<not> subject_missing ?rq db \<and> course_open c db \<and> (live \<or> grace)"
      using Some f by (auto simp: decide_access_def student_request_def course_open_def resolve_full_learning)
    moreover have "subject_missing ?rq db \<longleftrightarrow> \<not> user_alive u db"
      by (simp add: subject_missing_def student_request_def user_alive_def split: option.splits)
    ultimately show ?thesis using g f by auto
  qed
qed

text \<open>C18: A student may learn a course exactly when the course exists, is not deleted, is not hidden by a
  moderator and is published or archived, the account exists and is not deleted, and some grant of a regular source
  (or, where early access by receipt is switched on, one that an unverified receipt created) is active, has started
  and has not passed both its end and its grace end.\<close>

theorem learning_access_characterised:
  "ad_allowed (decide_access env (student_request u c) db) \<longleftrightarrow>
     course_open c db \<and> user_alive u db \<and> holds_grant env u c db"
  by (rule learning_access_iff)

section \<open>Revocation\<close>

definition grants_inv :: "lms_db \<Rightarrow> bool" where
  "grants_inv db = (distinct (map ag_id (grants db)) \<and> distinct (map grant_key (grants db)))"

text \<open>Any operation of the service on the grants; the database gives a new row a new id.\<close>

inductive grant_step :: "lms_db \<Rightarrow> lms_db \<Rightarrow> bool" where
  ensure: "ensure_grant i inp db = Inr (r, db') \<Longrightarrow> i \<notin> ag_id ` set (grants db) \<Longrightarrow> grant_step db db'"
| revoke: "revoke_grant k reason now db = Inr (r, db') \<Longrightarrow> grant_step db db'"

inductive_cases grant_stepE: "grant_step db db'"

lemma ensure_grant_grants:
  "ensure_grant i inp db = Inr (r, db') \<Longrightarrow> grants db' = grants (insert_grant i inp db)"
  by (auto simp: ensure_grant_def result_simps Let_def start_lessons_def upsert_enrollment_def)

lemma grants_insert:
  "grants (insert_grant i inp db) = grants db \<or>
   (\<exists>g. grants (insert_grant i inp db) = grants db @ [g] \<and> ag_id g = i \<and> grant_key g = input_key inp
        \<and> find_grant (input_key inp) db = None)"
  by (auto simp: insert_grant_def grant_key_def input_key_def)

lemma find_grant_None: "find_grant k db = None \<longleftrightarrow> k \<notin> grant_key ` set (grants db)"
  by (auto simp: find_grant_def find_ex)

lemma revoke_grant_grants:
  assumes "revoke_grant k reason now db = Inr (r, db')"
  shows "grants db' = grants db \<or> (\<exists>g g'. find_grant k db = Some g \<and> r = Some g' \<and> ag_id g' = ag_id g
    \<and> grant_key g' = grant_key g \<and> ag_status g' = ''revoked''
    \<and> grants db' = update_where (\<lambda>x. ag_id x = ag_id g) (\<lambda>_. g') (grants db))"
  using assms by (auto simp: revoke_grant_def result_simps Let_def grant_key_def split: option.splits if_splits)

text \<open>With distinct ids, replacing the row of an id keeps the keys.\<close>

lemma replace_row:
  assumes "distinct (map ag_id gs)" and "g \<in> set gs" and "ag_id g' = ag_id g" and "grant_key g' = grant_key g"
  shows "map ag_id (update_where (\<lambda>x. ag_id x = ag_id g) (\<lambda>_. g') gs) = map ag_id gs"
    and "map grant_key (update_where (\<lambda>x. ag_id x = ag_id g) (\<lambda>_. g') gs) = map grant_key gs"
proof -
  have "x = g" if "x \<in> set gs" "ag_id x = ag_id g" for x
    using assms(1,2) that by (metis distinct_map inj_onD)
  with assms(3,4) show "map ag_id (update_where (\<lambda>x. ag_id x = ag_id g) (\<lambda>_. g') gs) = map ag_id gs"
    and "map grant_key (update_where (\<lambda>x. ag_id x = ag_id g) (\<lambda>_. g') gs) = map grant_key gs"
    by (auto simp: update_where_def)
qed

definition key_revoked :: "string \<times> string \<times> string \<times> string \<Rightarrow> lms_db \<Rightarrow> bool" where
  "key_revoked k db = (\<exists>g\<in>set (grants db). grant_key g = k \<and> ag_status g = ''revoked'')"

lemma find_grant_mem: "find_grant k db = Some g \<Longrightarrow> g \<in> set (grants db) \<and> grant_key g = k"
  by (auto simp: find_grant_def dest: find_SomeD)

lemma grant_step_inv:
  assumes "grant_step db db'" and inv: "grants_inv db"
  shows "grants_inv db' \<and> (key_revoked k db \<longrightarrow> key_revoked k db')"
  using assms(1)
proof (cases rule: grant_step.cases)
  case (ensure i inp r)
  have eq: "grants db' = grants (insert_grant i inp db)" by (rule ensure_grant_grants [OF ensure(1)])
  consider "grants db' = grants db" | g where "grants db' = grants db @ [g]" "ag_id g = i"
      "grant_key g = input_key inp" "find_grant (input_key inp) db = None"
    using grants_insert [of i inp db] unfolding eq [symmetric] by blast
  then show ?thesis
  proof cases
    case 1
    with inv show ?thesis by (simp add: grants_inv_def key_revoked_def)
  next
    case 2
    with inv ensure(2) show ?thesis by (auto simp: grants_inv_def key_revoked_def find_grant_None)
  qed
next
  case (revoke k' reason now r)
  consider "grants db' = grants db" | g g' where "find_grant k' db = Some g" "ag_id g' = ag_id g"
      "grant_key g' = grant_key g" "ag_status g' = ''revoked''"
      "grants db' = update_where (\<lambda>x. ag_id x = ag_id g) (\<lambda>_. g') (grants db)"
    using revoke_grant_grants [OF revoke] by blast
  then show ?thesis
  proof cases
    case 1
    with inv show ?thesis by (simp add: grants_inv_def key_revoked_def)
  next
    case 2
    have g: "g \<in> set (grants db)" using find_grant_mem [OF 2(1)] by simp
    have d: "distinct (map ag_id (grants db))" using inv by (simp add: grants_inv_def)
    have "key_revoked k db'" if rev: "key_revoked k db"
    proof -
      obtain x where x: "x \<in> set (grants db)" "grant_key x = k" "ag_status x = ''revoked''"
        using rev by (auto simp: key_revoked_def)
      show ?thesis
      proof (cases "ag_id x = ag_id g")
        case True
        then have "x = g" using d x(1) g by (metis distinct_map inj_onD)
        then have "grant_key g' = k" using 2(3) x(2) by simp
        moreover have "g' \<in> set (grants db')" using g by (auto simp: 2(5) set_update_where)
        ultimately show ?thesis using 2(4) by (auto simp: key_revoked_def)
      next
        case False
        then have "x \<in> set (grants db')" using x(1) by (auto simp: 2(5) set_update_where)
        with x show ?thesis by (auto simp: key_revoked_def)
      qed
    qed
    then show ?thesis using inv replace_row [OF d g 2(2,3)] by (simp add: grants_inv_def 2(5))
  qed
qed

lemma grant_steps_inv:
  assumes "grant_step\<^sup>*\<^sup>* db db'" and "grants_inv db"
  shows "grants_inv db' \<and> (key_revoked k db \<longrightarrow> key_revoked k db')"
  using assms by (induction rule: rtranclp_induct) (use grant_step_inv in blast)+

lemma revoke_revokes:
  assumes "revoke_grant k reason now db = Inr (Some g, db')"
  shows "key_revoked k db'"
proof -
  obtain g0 where g0: "find_grant k db = Some g0"
    using assms by (auto simp: revoke_grant_def result_simps split: option.splits)
  note m = find_grant_mem [OF g0]
  show ?thesis
  proof (cases "ag_status g0 = ''revoked''")
    case True
    with assms g0 have "db' = db" by (auto simp: revoke_grant_def result_simps)
    with True m show ?thesis by (auto simp: key_revoked_def)
  next
    case False
    let ?g = "g0\<lparr>ag_status := ''revoked'', ag_revoked_at := Some now, ag_reason := Some reason\<rparr>"
    have "grants db' = update_where (\<lambda>x. ag_id x = ag_id g0) (\<lambda>_. ?g) (grants db)"
      using assms g0 False by (auto simp: revoke_grant_def result_simps Let_def)
    then have "?g \<in> set (grants db')" using m by (auto simp: set_update_where)
    moreover have "grant_key ?g = k" using m by (simp add: grant_key_def)
    ultimately show ?thesis by (auto simp: key_revoked_def)
  qed
qed

text \<open>C21: Once the grant of a source has been revoked, no sequence of later grants and revocations ever
  makes that source usable again: granting the same source a second time is a no-op.\<close>

theorem revocation_is_final:
  assumes "grants_inv db"
    and "revoke_grant k reason now db = Inr (Some g, db1)"
    and "grant_step\<^sup>*\<^sup>* db1 db2"
    and "x \<in> set (grants db2)" and "grant_key x = k"
  shows "ag_status x = ''revoked'' \<and> \<not> in_window moment x"
proof -
  have "grants_inv db1" using grant_step_inv [OF grant_step.revoke [OF assms(2)] assms(1)] by simp
  with grant_steps_inv [OF assms(3)] revoke_revokes [OF assms(2)]
  have inv: "grants_inv db2" and "key_revoked k db2" by blast+
  then obtain y where "y \<in> set (grants db2)" "grant_key y = k" "ag_status y = ''revoked''"
    by (auto simp: key_revoked_def)
  moreover from this have "y = x" using inv assms(4,5)
    by (metis distinct_map grants_inv_def inj_onD)
  ultimately show ?thesis by (simp add: in_window_def)
qed

definition sample_grant_input :: grant_input where
  "sample_grant_input = \<lparr>gi_user_id = ''u'', gi_course_id = ''c'', gi_source_type = ''admin'', gi_source_id = ''s'',
     gi_starts_at = 0, gi_ends_at = None, gi_grace_ends_at = None\<rparr>"

definition sample_granted :: lms_db where
  "sample_granted = snd (projr (ensure_grant ''g1'' sample_grant_input empty_lms))"

theorem revocation_is_final_witness:
  "\<exists>db1 db2 x. revoke_grant (''u'', ''c'', ''admin'', ''s'') ''refund'' 5 sample_granted = Inr (Some x, db1)
     \<and> grant_step\<^sup>*\<^sup>* db1 db2 \<and> x \<in> set (grants db2) \<and> ag_status x = ''revoked'' \<and> \<not> in_window 10 x"
proof -
  let ?k = "(''u'', ''c'', ''admin'', ''s'')"
  obtain x db1 where r: "revoke_grant ?k ''refund'' 5 sample_granted = Inr (Some x, db1)"
      and x: "x \<in> set (grants db1)" "grant_key x = ?k"
    by (simp add: revoke_grant_def sample_granted_def ensure_grant_def sample_grant_input_def bad_window_def
        insert_grant_def find_grant_def empty_lms_def upsert_enrollment_def find_enrollment_def start_lessons_def
        grant_key_def input_key_def js_trim_def js_space_def update_where_def Let_def)
  have inv: "grants_inv sample_granted" by code_simp
  have "grant_step\<^sup>*\<^sup>* db1 db1" by simp
  from revocation_is_final [OF inv r this x] r x show ?thesis by blast
qed

section \<open>Granting\<close>

lemma find_enrollment_upsert: "find_enrollment u c (upsert_enrollment u c db) \<noteq> None"
  by (auto simp: upsert_enrollment_def find_enrollment_def find_append)

lemma start_lessons_started:
  assumes "l \<in> set (lessons db)" and "ln_course_id l = c" and "ln_deleted_at l = None"
  shows "find_progress u (ln_id l) (start_lessons u c db) \<noteq> None"
proof (cases "find_progress u (ln_id l) db")
  case None
  let ?p = "new_progress u c (ln_id l)"
  have "?p \<in> set (progress_rows (start_lessons u c db))"
    using assms None by (auto simp: start_lessons_def Let_def)
  moreover have "lp_user_id ?p = u \<and> lp_lesson_id ?p = ln_id l" by (simp add: new_progress_def)
  ultimately show ?thesis unfolding find_progress_def find_ex by blast
next
  case (Some p)
  then show ?thesis by (simp add: start_lessons_def Let_def find_progress_def find_append)
qed

text \<open>The decision reads only courses, users, grants and early access by receipt.\<close>

lemma decide_access_cong:
  assumes "courses db' = courses db" and "users db' = users db" and "grants db' = grants db"
    and "receipt_effects db' = receipt_effects db" and "generations db' = generations db"
  shows "decide_access env rq db' = decide_access env rq db"
proof -
  have e: "unverified_effects u db' = unverified_effects u db" for u
    using assms by (simp add: unverified_effects_def)
  then have "learner_grant env u c m db' = learner_grant env u c m db" for u c m
    using assms by (simp add: learner_grant_def find_receipt_grant_def cong: option.case_cong)
  then have "grant_facts env rq db' = grant_facts env rq db" by (simp add: grant_facts_def cong: option.case_cong if_cong)
  moreover have "subject_missing rq db' = subject_missing rq db" using assms by (simp add: subject_missing_def cong: option.case_cong)
  ultimately show ?thesis using assms by (simp add: decide_access_def find_course_def cong: option.case_cong)
qed

lemma insert_new_grant:
  assumes "find_grant (input_key inp) db = None" and "gi_source_type inp \<in> set regular_sources"
    and "gi_starts_at inp \<le> lv_now env" and "gi_ends_at inp = None \<or> after (lv_now env) (gi_ends_at inp)"
  shows "holds_grant env (gi_user_id inp) (gi_course_id inp) (insert_grant i inp db)"
  using assms by (auto simp: holds_grant_def insert_grant_def regular_grant_def of_user_def in_window_def)

text \<open>A grant leaves everything that was there, enrols the user, starts every lesson of the course, and,
  when its source was never granted before and its window contains the present moment, lets the user learn an open
  course.\<close>

theorem grant_opens_course:
  assumes "ensure_grant i inp db = Inr (r, db')"
  shows "find_enrollment (gi_user_id inp) (gi_course_id inp) db' \<noteq> None
    \<and> take (length (grants db)) (grants db') = grants db
    \<and> take (length (progress_rows db)) (progress_rows db') = progress_rows db
    \<and> (\<forall>l\<in>set (lessons db). ln_course_id l = gi_course_id inp \<and> ln_deleted_at l = None
         \<longrightarrow> find_progress (gi_user_id inp) (ln_id l) db' \<noteq> None)
    \<and> (course_open (gi_course_id inp) db \<and> user_alive (gi_user_id inp) db
         \<and> find_grant (input_key inp) db = None \<and> gi_source_type inp \<in> set regular_sources
         \<and> gi_starts_at inp \<le> lv_now env \<and> (gi_ends_at inp = None \<or> after (lv_now env) (gi_ends_at inp))
       \<longrightarrow> ad_allowed (decide_access env (student_request (gi_user_id inp) (gi_course_id inp)) db'))"
proof (intro conjI ballI impI)
  let ?u = "gi_user_id inp" and ?c = "gi_course_id inp"
  let ?db1 = "insert_grant i inp db"
  have db': "db' = start_lessons ?u ?c (upsert_enrollment ?u ?c ?db1)"
    using assms by (simp add: ensure_grant_def result_simps Let_def)
  have same: "progress_rows ?db1 = progress_rows db" "lessons ?db1 = lessons db" "courses ?db1 = courses db"
      "users ?db1 = users db"
    by (simp_all add: insert_grant_def)
  show "find_enrollment ?u ?c db' \<noteq> None"
    using find_enrollment_upsert [of ?u ?c ?db1]
    by (simp add: db' start_lessons_def Let_def find_enrollment_def)
  show "take (length (grants db)) (grants db') = grants db"
    by (simp add: db' start_lessons_def Let_def upsert_enrollment_def insert_grant_def)
  show "take (length (progress_rows db)) (progress_rows db') = progress_rows db"
    by (simp add: db' start_lessons_def Let_def upsert_enrollment_def same)
  show "find_progress ?u (ln_id l) db' \<noteq> None"
    if "l \<in> set (lessons db)" and "ln_course_id l = ?c \<and> ln_deleted_at l = None" for l
    unfolding db' by (rule start_lessons_started) (use that in \<open>simp_all add: upsert_enrollment_def same\<close>)
  assume a: "course_open ?c db \<and> user_alive ?u db \<and> find_grant (input_key inp) db = None
    \<and> gi_source_type inp \<in> set regular_sources \<and> gi_starts_at inp \<le> lv_now env
    \<and> (gi_ends_at inp = None \<or> after (lv_now env) (gi_ends_at inp))"
  then have "holds_grant env ?u ?c ?db1" by (intro insert_new_grant) simp_all
  then have "ad_allowed (decide_access env (student_request ?u ?c) ?db1)"
    using a by (simp add: learning_access_iff course_open_def user_alive_def find_course_def same)
  moreover have "decide_access env (student_request ?u ?c) db' = decide_access env (student_request ?u ?c) ?db1"
    by (rule decide_access_cong) (simp_all add: db' start_lessons_def Let_def upsert_enrollment_def)
  ultimately show "ad_allowed (decide_access env (student_request ?u ?c) db')" by simp
qed

definition sample_open :: lms_db where
  "sample_open = empty_lms\<lparr>
     users := [\<lparr>us_id = ''u'', us_full_name = ''U'', us_status = ''active'', us_deleted_at = None\<rparr>],
     courses := [\<lparr>co_id = ''c'', co_instructor_id = ''t'', co_title = ''C'', co_status = ''published'',
       co_visibility = ''public'', co_moderation = ''clear'', co_deleted_at = None\<rparr>],
     lessons := [\<lparr>ln_id = ''l'', ln_course_id = ''c'', ln_title = ''L'', ln_type = ''video'', ln_order_index = 1,
       ln_duration_minutes = None, ln_is_preview = False, ln_is_required = True, ln_deleted_at = None\<rparr>]\<rparr>"

theorem grant_opens_course_witness:
  "\<exists>r db'. ensure_grant ''g'' sample_grant_input sample_open = Inr (r, db')
     \<and> ad_allowed (decide_access plain_env (student_request ''u'' ''c'') db')
     \<and> find_progress ''u'' ''l'' db' \<noteq> None \<and> \<not> ad_allowed (decide_access plain_env (student_request ''u'' ''c'') sample_open)"
proof -
  obtain r db' where e: "ensure_grant ''g'' sample_grant_input sample_open = Inr (r, db')"
    by (simp add: ensure_grant_def sample_grant_input_def bad_window_def throw_if_def Let_def)
  have i: "gi_user_id sample_grant_input = ''u''" "gi_course_id sample_grant_input = ''c''"
    by (simp_all add: sample_grant_input_def)
  have "course_open ''c'' sample_open" "user_alive ''u'' sample_open" "find_grant (input_key sample_grant_input) sample_open = None"
      "gi_source_type sample_grant_input \<in> set regular_sources" "gi_starts_at sample_grant_input \<le> lv_now plain_env"
      "gi_ends_at sample_grant_input = None" "\<not> ad_allowed (decide_access plain_env (student_request ''u'' ''c'') sample_open)"
    by code_simp+
  with grant_opens_course [OF e, of plain_env] show ?thesis using e i by (auto simp: sample_open_def)
qed

end
