(* ===== verification/Course_Completion.thy ===== *)
theory Course_Completion
  imports Course_Access
begin

text \<open>
  Certificates (\<^verbatim>\<open>certificates.service.ts\<close>) and the completion of a course
  (\<^verbatim>\<open>course-completion.service.ts\<close>).  The QR renderer and \<^verbatim>\<open>encodeURIComponent\<close> are
  parameters; the notification of a new certificate, which is sent after the commit and may fail without
  effect, is described by its payload.
\<close>

section \<open>Certificates\<close>

definition find_active :: "string \<Rightarrow> string \<Rightarrow> lms_db \<Rightarrow> certificate option" where
  "find_active u c db =
     find (\<lambda>x. ce_user_id x = u \<and> ce_course_id x = c \<and> ce_status x = ''active'') (certificates db)"

text \<open>The database keeps codes unique, and active certificates unique per user and course.\<close>

definition create_certificate ::
  "lms_env \<Rightarrow> string \<Rightarrow> string \<Rightarrow> string \<Rightarrow> string \<Rightarrow> (lms_db, certificate) txn" where
  "create_certificate env u c title template db =
     (let code = ''CERT-'' @ js_upper (lv_fresh env ''certificateCode'');
          url = ''/api/v1/certificates/verify/'' @ lv_encode_uri env code;
          issued = \<lparr>ce_id = lv_fresh env ''certificate'', ce_user_id = u, ce_course_id = c, ce_template_id = template,
            ce_code = code, ce_title = title, ce_status = ''active'', ce_issued_at = lv_now env, ce_revoked_at = None,
            ce_reason = None, ce_verification_url = url, ce_qr_code_url = lv_qr_code env url\<rparr> in
      throw_if (list_ex (\<lambda>x. ce_code x = code) (certificates db) \<or> find_active u c db \<noteq> None) (PrismaError ''P2002'') (
      and_then (add_lms_audit \<lparr>ai_actor_kind = None, ai_actor_id = Some u, ai_action = ''CERTIFICATE_ISSUED'',
          ai_target_type = ''certificate'', ai_target_id = ce_id issued,
          ai_metadata = [(''courseId'', MString c), (''certificateTemplateId'', MString template)]\<rparr>
        (db\<lparr>certificates := certificates db @ [issued]\<rparr>))
        (\<lambda>db'. Inr (issued, db'))))"

definition oldest_template :: "certificate_template \<Rightarrow> certificate_template \<Rightarrow> int" where
  "oldest_template a b =
     (if ct_created_at a \<noteq> ct_created_at b then (if ct_created_at a < ct_created_at b then -1 else 1)
      else if ct_id a < ct_id b then -1 else if ct_id b < ct_id a then 1 else 0)"

definition first_template :: "lms_db \<Rightarrow> certificate_template option" where
  "first_template db = (case js_sort oldest_template (templates db) of [] \<Rightarrow> None | t # _ \<Rightarrow> Some t)"

text \<open>The certificate and whether it is new.\<close>

definition issue_for_completion :: "lms_env \<Rightarrow> string \<Rightarrow> string \<Rightarrow> (lms_db, certificate \<times> bool) txn" where
  "issue_for_completion env u c db =
     (case find_active u c db of
        Some existing \<Rightarrow> Inr ((existing, False), db)
      | None \<Rightarrow>
          some_or (NotFoundException ''Course not found'') (find_course c db) (\<lambda>r.
          some_or (NotFoundException ''Certificate template not found'') (first_template db) (\<lambda>t.
          and_then (create_certificate env u (co_id r) (co_title r) (ct_id t) db) (\<lambda>(x, db').
          Inr ((x, True), db')))))"

definition issue_certificate :: "lms_env \<Rightarrow> string \<Rightarrow> string \<Rightarrow> string \<Rightarrow> (lms_db, certificate) txn" where
  "issue_certificate env u c template db =
     and_then (require_access env (student_request u c) db) (\<lambda>_.
     some_or (NotFoundException ''Enrollment not found'') (find_enrollment u c db) (\<lambda>e.
     throw_if (en_status e \<noteq> ''completed'' \<or> en_completed_at e = None)
       (BadRequestException ''Course must be completed before issuance'') (
     and_then (or_throw (find_course c db)) (\<lambda>r.
     some_or (NotFoundException ''Certificate template not found'')
       (find (\<lambda>t. ct_id t = template) (templates db)) (\<lambda>t.
     case find_active u c db of
       Some existing \<Rightarrow> Inr (existing, db)
     | None \<Rightarrow>
         (case create_certificate env u (co_id r) (co_title r) (ct_id t) db of
            Inr ok \<Rightarrow> Inr ok
          | Inl err \<Rightarrow>
              if err = PrismaError ''P2002''
              then (case find_active u c db of Some d \<Rightarrow> Inr (d, db) | None \<Rightarrow> Inl err)
              else Inl err))))))"

definition revoke_certificate :: "string \<Rightarrow> string \<Rightarrow> string \<Rightarrow> int \<Rightarrow> (lms_db, certificate) txn" where
  "revoke_certificate actor i reason now db =
     some_or (NotFoundException ''Certificate not found'') (find (\<lambda>x. ce_id x = i) (certificates db)) (\<lambda>x.
     if ce_status x = ''revoked'' then Inr (x, db)
     else
       (let x' = x\<lparr>ce_status := ''revoked'', ce_revoked_at := Some now, ce_reason := Some reason\<rparr> in
        and_then (add_lms_audit \<lparr>ai_actor_kind = None, ai_actor_id = Some actor, ai_action = ''CERTIFICATE_REVOKED'',
            ai_target_type = ''certificate'', ai_target_id = i, ai_metadata = [(''reason'', MString reason)]\<rparr>
          (db\<lparr>certificates := update_where (\<lambda>y. ce_id y = i) (\<lambda>_. x') (certificates db)\<rparr>))
          (\<lambda>db'. Inr (x', db'))))"

record certificate_view =
  cv_code :: string
  cv_title :: string
  cv_status :: string
  cv_issued_at :: int
  cv_revoked_at :: "int option"
  cv_verification_url :: string
  cv_course_title :: string
  cv_recipient :: string

definition verify_certificate :: "string \<Rightarrow> lms_db \<Rightarrow> certificate_view result" where
  "verify_certificate code db =
     some_or (NotFoundException ''Certificate not found'') (find (\<lambda>x. ce_code x = code) (certificates db)) (\<lambda>x.
     and_then (or_throw (find_course (ce_course_id x) db)) (\<lambda>r.
     and_then (or_throw (find (\<lambda>y. us_id y = ce_user_id x) (users db))) (\<lambda>usr.
     Inr \<lparr>cv_code = ce_code x, cv_title = ce_title x, cv_status = ce_status x, cv_issued_at = ce_issued_at x,
          cv_revoked_at = ce_revoked_at x, cv_verification_url = ce_verification_url x,
          cv_course_title = co_title r, cv_recipient = us_full_name usr\<rparr>)))"

definition max_unpaginated :: nat where
  "max_unpaginated = 100"

text \<open>\<^verbatim>\<open>orderBy: { issuedAt: 'desc' }\<close>\<close>

definition issued_desc :: "certificate \<Rightarrow> certificate \<Rightarrow> int" where
  "issued_desc a b = ce_issued_at b - ce_issued_at a"

definition list_my_certificates :: "string \<Rightarrow> lms_db \<Rightarrow> (certificate \<times> string) list result" where
  "list_my_certificates u db =
     map_result (\<lambda>x. and_then (or_throw (find_course (ce_course_id x) db)) (\<lambda>r. Inr (x, co_title r)))
       (take max_unpaginated (js_sort issued_desc (filter (\<lambda>x. ce_user_id x = u) (certificates db))))"

section \<open>Completion\<close>

definition required_lessons :: "string \<Rightarrow> lms_db \<Rightarrow> lesson list" where
  "required_lessons c db = filter (\<lambda>l. ln_course_id l = c \<and> ln_deleted_at l = None \<and> ln_is_required l) (lessons db)"

definition required_quizzes :: "string \<Rightarrow> lms_db \<Rightarrow> quiz list" where
  "required_quizzes c db =
     filter (\<lambda>q. qz_course_id q = c \<and> qz_deleted_at q = None \<and> qz_is_required q \<and> qz_status q = ''published'') (quizzes db)"

definition required_assignments :: "string \<Rightarrow> lms_db \<Rightarrow> assignment list" where
  "required_assignments c db =
     filter (\<lambda>a. as_course_id a = c \<and> as_deleted_at a = None \<and> as_is_required a \<and> as_status a = ''published'')
       (assignments db)"

definition lesson_done :: "string \<Rightarrow> lms_db \<Rightarrow> lesson \<Rightarrow> bool" where
  "lesson_done u db l =
     list_ex (\<lambda>p. lp_lesson_id p = ln_id l \<and> lp_user_id p = u \<and> lp_status p = ''completed'') (progress_rows db)"

definition quiz_done :: "string \<Rightarrow> lms_db \<Rightarrow> quiz \<Rightarrow> bool" where
  "quiz_done u db q =
     list_ex (\<lambda>a. qa_quiz_id a = qz_id q \<and> qa_user_id a = u \<and> qa_submitted_at a \<noteq> None \<and> qa_passed a = Some True)
       (quiz_attempts db)"

definition assignment_done :: "string \<Rightarrow> lms_db \<Rightarrow> assignment \<Rightarrow> bool" where
  "assignment_done u db a = list_ex (\<lambda>s. su_assignment_id s = as_id a \<and> su_user_id s = u) (submissions db)"

definition total_required :: "string \<Rightarrow> lms_db \<Rightarrow> int" where
  "total_required c db =
     int (length (required_lessons c db)) + int (length (required_quizzes c db)) + int (length (required_assignments c db))"

definition completed_required :: "string \<Rightarrow> string \<Rightarrow> lms_db \<Rightarrow> int" where
  "completed_required u c db =
     count_where (lesson_done u db) (required_lessons c db) + count_where (quiz_done u db) (required_quizzes c db)
       + count_where (assignment_done u db) (required_assignments c db)"

definition policy_complete :: "string \<Rightarrow> string \<Rightarrow> lms_db \<Rightarrow> bool" where
  "policy_complete u c db = (total_required c db > 0 \<and> completed_required u c db = total_required c db)"

record issued_notice =
  in_user_id :: string
  in_certificate_id :: string
  in_title :: string

record completion_evaluation =
  ev_completed :: bool
  ev_completed_items :: int
  ev_total_items :: int
  ev_enrollment_updated :: bool
  ev_certificate_issued :: "issued_notice option"

definition to_issued_notice :: "string \<Rightarrow> certificate \<times> bool \<Rightarrow> issued_notice option" where
  "to_issued_notice u issuance =
     (if snd issuance
      then Some \<lparr>in_user_id = u, in_certificate_id = ce_id (fst issuance), in_title = ce_title (fst issuance)\<rparr>
      else None)"

definition complete_enrollment :: "string \<Rightarrow> string \<Rightarrow> int \<Rightarrow> lms_db \<Rightarrow> lms_db" where
  "complete_enrollment u c now db =
     db\<lparr>enrollments := update_where (\<lambda>e. en_user_id e = u \<and> en_course_id e = c \<and> en_status e = ''active'')
       (\<lambda>e. e\<lparr>en_status := ''completed'', en_completed_at := Some now\<rparr>) (enrollments db)\<rparr>"

definition evaluate_and_sync :: "lms_env \<Rightarrow> string \<Rightarrow> string \<Rightarrow> (lms_db, completion_evaluation) txn" where
  "evaluate_and_sync env u c db =
     some_or (NotFoundException ''Enrollment not found'') (find_enrollment u c db) (\<lambda>e.
     let result = (\<lambda>done updated notice. \<lparr>ev_completed = done, ev_completed_items = completed_required u c db,
           ev_total_items = total_required c db, ev_enrollment_updated = updated, ev_certificate_issued = notice\<rparr>) in
     if en_status e = ''completed'' then
       and_then (issue_for_completion env u c db) (\<lambda>(issuance, db').
       Inr (result True False (to_issued_notice u issuance), db'))
     else if \<not> policy_complete u c db \<or> en_status e \<noteq> ''active'' then Inr (result False False None, db)
     else
       and_then (issue_for_completion env u c (complete_enrollment u c (lv_now env) db)) (\<lambda>(issuance, db').
       Inr (result True
              (count_where (\<lambda>x. en_user_id x = u \<and> en_course_id x = c \<and> en_status x = ''active'') (enrollments db) = 1)
              (to_issued_notice u issuance), db')))"

record certificate_notification =
  cn_user_id :: string
  cn_event_key :: string
  cn_type :: string
  cn_category :: string
  cn_title :: string
  cn_body :: string
  cn_link :: string

definition publish_certificate_issued :: "issued_notice option \<Rightarrow> certificate_notification option" where
  "publish_certificate_issued notice =
     map_option (\<lambda>n. \<lparr>cn_user_id = in_user_id n, cn_event_key = ''certificate-issued:'' @ in_certificate_id n,
       cn_type = ''certificate.issued'', cn_category = ''certificate'', cn_title = ''Certificate issued'',
       cn_body = ''Your certificate for '' @ in_title n @ '' is ready.'', cn_link = ''/dashboard/certificates''\<rparr>) notice"

section \<open>What completion leaves alone\<close>

text \<open>Certificates are added with an audit row; nothing else changes.\<close>

lemma create_certificate_frame:
  "ok_all (\<lambda>(x, db'). (\<exists>row. db' = db\<lparr>certificates := certificates db @ [x], lms_audits := lms_audits db @ [row]\<rparr>)
     \<and> ce_user_id x = u \<and> ce_course_id x = c \<and> ce_status x = ''active'' \<and> ce_id x = lv_fresh env ''certificate''
     \<and> ce_code x \<notin> ce_code ` set (certificates db) \<and> find_active u c db = None)
     (create_certificate env u c title template db)"
  by (auto simp: create_certificate_def wp Let_def list_ex_iff)

lemma find_course_id: "find_course c db = Some r \<Longrightarrow> co_id r = c"
  by (auto simp: find_course_def dest: find_SomeD)

lemma issue_for_completion_frame:
  "ok_all (\<lambda>((x, issued), db'). find_active u c db' = Some x \<and> (issued \<longleftrightarrow> find_active u c db = None)
     \<and> (\<not> issued \<longrightarrow> db' = db)
     \<and> (issued \<longrightarrow> (\<exists>row. db' = db\<lparr>certificates := certificates db @ [x], lms_audits := lms_audits db @ [row]\<rparr>)
         \<and> ce_user_id x = u \<and> ce_course_id x = c \<and> ce_status x = ''active'' \<and> ce_id x = lv_fresh env ''certificate''
         \<and> ce_code x \<notin> ce_code ` set (certificates db)))
     (issue_for_completion env u c db)"
proof (cases "find_active u c db")
  case None
  have "find_active u c (db\<lparr>certificates := certificates db @ [x], lms_audits := ys\<rparr>) = Some x"
    if "ce_user_id x = u" "ce_course_id x = c" "ce_status x = ''active''" for x ys
    using None that by (auto simp: find_active_def find_append)
  with None show ?thesis
    by (auto simp: issue_for_completion_def wp split: prod.splits dest!: find_course_id
        intro!: ok_all_weaken [OF create_certificate_frame])
qed (simp add: issue_for_completion_def wp)

text \<open>Evaluation changes enrollments, certificates and audits only.\<close>

definition same_content :: "lms_db \<Rightarrow> lms_db \<Rightarrow> bool" where
  "same_content db db' =
     (users db' = users db \<and> courses db' = courses db \<and> lessons db' = lessons db \<and> grants db' = grants db
      \<and> generations db' = generations db \<and> receipt_effects db' = receipt_effects db \<and> progress_rows db' = progress_rows db
      \<and> assignments db' = assignments db \<and> submissions db' = submissions db \<and> quizzes db' = quizzes db
      \<and> questions db' = questions db \<and> quiz_attempts db' = quiz_attempts db \<and> templates db' = templates db)"

lemma issue_for_completion_cases:
  assumes "issue_for_completion env u c db = Inr ((x, issued), db')"
  obtains "\<not> issued" "db' = db" "find_active u c db = Some x"
  | row where "issued" "db' = db\<lparr>certificates := certificates db @ [x], lms_audits := lms_audits db @ [row]\<rparr>"
      "find_active u c db = None" "find_active u c db' = Some x" "ce_user_id x = u" "ce_course_id x = c"
      "ce_status x = ''active''" "ce_id x = lv_fresh env ''certificate''" "ce_code x \<notin> ce_code ` set (certificates db)"
  using ok_allD [OF issue_for_completion_frame assms] by (cases issued) auto

lemma evaluate_cases:
  assumes "evaluate_and_sync env u c db = Inr (ev, db')" and "find_enrollment u c db = Some e"
  obtains "\<not> ev_completed ev" "db' = db" "en_status e \<noteq> ''completed''"
      "\<not> policy_complete u c db \<or> en_status e \<noteq> ''active''"
  | x issued where "ev_completed ev" "en_status e = ''completed''"
      "issue_for_completion env u c db = Inr ((x, issued), db')"
  | x issued where "ev_completed ev" "en_status e = ''active''" "policy_complete u c db"
      "issue_for_completion env u c (complete_enrollment u c (lv_now env) db) = Inr ((x, issued), db')"
  using assms
  by (auto simp: evaluate_and_sync_def result_simps Let_def split: if_splits prod.splits)

lemma find_complete_enrollment:
  assumes "find_enrollment u c db = Some e"
  shows "find_enrollment u c (complete_enrollment u c now db) =
    Some (if en_status e = ''active'' then e\<lparr>en_status := ''completed'', en_completed_at := Some now\<rparr> else e)"
proof -
  have "find (\<lambda>x. en_user_id x = u \<and> en_course_id x = c)
      (map (\<lambda>e. if en_user_id e = u \<and> en_course_id e = c \<and> en_status e = ''active''
         then e\<lparr>en_status := ''completed'', en_completed_at := Some now\<rparr> else e) es) =
    map_option (\<lambda>e. if en_status e = ''active'' then e\<lparr>en_status := ''completed'', en_completed_at := Some now\<rparr> else e)
      (find (\<lambda>x. en_user_id x = u \<and> en_course_id x = c) es)" for es :: "enrollment list"
    by (induction es) auto
  with assms show ?thesis by (simp add: find_enrollment_def complete_enrollment_def update_where_def)
qed

lemma issue_same_content:
  "issue_for_completion env u c db = Inr ((x, issued), db') \<Longrightarrow>
    same_content db db' \<and> enrollments db' = enrollments db \<and> find_active u c db' = Some x"
  by (erule issue_for_completion_cases) (simp_all add: same_content_def)

lemma evaluate_same_content:
  assumes "evaluate_and_sync env u c db = Inr (ev, db')"
  shows "same_content db db'"
proof -
  obtain e where "find_enrollment u c db = Some e"
    using assms by (auto simp: evaluate_and_sync_def result_simps)
  from assms this show ?thesis
    by (rule evaluate_cases)
      (auto dest!: issue_same_content simp: complete_enrollment_def same_content_def)
qed

section \<open>When completion is refused\<close>

text \<open>The reason for which issuing or evaluating fails, for a course that exists.\<close>

definition issue_refusal :: "lms_env \<Rightarrow> string \<Rightarrow> string \<Rightarrow> lms_db \<Rightarrow> api_error option" where
  "issue_refusal env u c db =
     (if find_active u c db \<noteq> None then None
      else if templates db = [] then Some (NotFoundException ''Certificate template not found'')
      else if ''CERT-'' @ js_upper (lv_fresh env ''certificateCode'') \<in> ce_code ` set (certificates db) then Some (PrismaError ''P2002'')
      else if u = [] then Some (PlainError ''Audit actor kind and identity do not match.'')
      else None)"

definition completion_refusal :: "lms_env \<Rightarrow> string \<Rightarrow> string \<Rightarrow> lms_db \<Rightarrow> api_error option" where
  "completion_refusal env u c db =
     (case find_enrollment u c db of
        None \<Rightarrow> Some (NotFoundException ''Enrollment not found'')
      | Some e \<Rightarrow>
          if en_status e = ''completed'' \<or> en_status e = ''active'' \<and> policy_complete u c db then issue_refusal env u c db
          else None)"

lemma issue_refusal_exact:
  assumes "find_course c db \<noteq> None"
  shows "case issue_refusal env u c db of
      Some e \<Rightarrow> issue_for_completion env u c db = Inl e
    | None \<Rightarrow> is_ok (issue_for_completion env u c db)"
proof -
  obtain r where r: "find_course c db = Some r" using assms by blast
  have id: "co_id r = c" by (rule find_course_id [OF r])
  show ?thesis
  proof (cases "find_active u c db")
    case None
    show ?thesis
    proof (cases "templates db")
      case Nil
      with None r show ?thesis by (simp add: issue_refusal_def issue_for_completion_def first_template_def)
    next
      case (Cons t ts)
      then have "length (js_sort oldest_template (templates db)) \<noteq> 0" unfolding length_js_sort by simp
      then obtain t' ts' where "js_sort oldest_template (templates db) = t' # ts'"
        by (cases "js_sort oldest_template (templates db)") simp_all
      then have f: "first_template db = Some t'" by (simp add: first_template_def)
      let ?code = "''CERT-'' @ js_upper (lv_fresh env ''certificateCode'')"
      have taken: "list_ex (\<lambda>x. ce_code x = k) xs \<longleftrightarrow> k \<in> ce_code ` set xs" for k xs
        by (induction xs) auto
      show ?thesis
        using None Cons r f id
        by (auto simp: issue_refusal_def issue_for_completion_def create_certificate_def Let_def taken throw_if_def
            add_lms_audit_def audit_record_def)
    qed
  qed (simp add: issue_refusal_def issue_for_completion_def)
qed

lemma completion_refusal_exact:
  assumes "find_course c db \<noteq> None"
  shows "case completion_refusal env u c db of
      Some e \<Rightarrow> evaluate_and_sync env u c db = Inl e
    | None \<Rightarrow> is_ok (evaluate_and_sync env u c db)"
proof (cases "find_enrollment u c db")
  case (Some e)
  have same: "issue_refusal env u c (complete_enrollment u c now db) = issue_refusal env u c db"
    "find_course c (complete_enrollment u c now db) = find_course c db" for now
    by (simp_all add: issue_refusal_def complete_enrollment_def find_active_def find_course_def)
  have issue: "issue_refusal env u c db = Some err \<Longrightarrow> issue_for_completion env u c d = Inl err"
    "issue_refusal env u c db = None \<Longrightarrow> \<exists>x i d'. issue_for_completion env u c d = Inr ((x, i), d')"
    if "d = db \<or> d = complete_enrollment u c (lv_now env) db" for d err
    using that issue_refusal_exact [of c d env u] assms same by (auto simp: is_ok_iff)
  show ?thesis
    using Some issue [of db] issue [of "complete_enrollment u c (lv_now env) db"]
    by (cases "issue_refusal env u c db") (auto simp: completion_refusal_def evaluate_and_sync_def Let_def)
qed (simp add: completion_refusal_def evaluate_and_sync_def)

text \<open>C24: Evaluating an enrollment reports completion exactly when it was completed before or it is active
  and every required item of the course is done, of which there is at least one.  Then the enrollment is completed,
  keeping an earlier completion time, and the learner holds an active certificate of the course, even when an earlier
  one was revoked; otherwise nothing changes.\<close>

theorem completion_outcome:
  assumes "evaluate_and_sync env u c db = Inr (ev, db')" and "find_enrollment u c db = Some e"
  shows "ev_completed ev = (en_status e = ''completed'' \<or> (en_status e = ''active'' \<and> policy_complete u c db))
    \<and> (if ev_completed ev
       then find_enrollment u c db' = Some (if en_status e = ''completed'' then e
              else e\<lparr>en_status := ''completed'', en_completed_at := Some (lv_now env)\<rparr>)
            \<and> find_active u c db' \<noteq> None
       else db' = db)"
  using assms
proof (cases rule: evaluate_cases)
  case 1
  then show ?thesis by auto
next
  case (2 x issued)
  then show ?thesis using issue_same_content [OF 2(3)] assms(2) by (simp add: find_enrollment_def)
next
  case (3 x issued)
  then show ?thesis
    using issue_same_content [OF 3(4)] find_complete_enrollment [OF assms(2), of "lv_now env"]
    by (simp add: find_enrollment_def)
qed

text \<open>A course with one lesson that the learner has finished.\<close>

definition sample_finished :: lms_db where
  "sample_finished = sample_open\<lparr>
     enrollments := [\<lparr>en_user_id = ''u'', en_course_id = ''c'', en_status = ''active'', en_completed_at = None\<rparr>],
     progress_rows := [(new_progress ''u'' ''c'' ''l'')\<lparr>lp_status := ''completed''\<rparr>],
     templates := [\<lparr>ct_id = ''t'', ct_created_at = 0\<rparr>]\<rparr>"

theorem completion_outcome_witness:
  "\<exists>ev db'. evaluate_and_sync plain_env ''u'' ''c'' sample_finished = Inr (ev, db') \<and> ev_completed ev
     \<and> find_active ''u'' ''c'' db' \<noteq> None"
proof -
  have "is_ok (evaluate_and_sync plain_env ''u'' ''c'' sample_finished)" by code_simp
  then obtain ev db' where e: "evaluate_and_sync plain_env ''u'' ''c'' sample_finished = Inr (ev, db')"
    by (auto simp: is_ok_iff)
  have "find_enrollment ''u'' ''c'' sample_finished =
      Some \<lparr>en_user_id = ''u'', en_course_id = ''c'', en_status = ''active'', en_completed_at = None\<rparr>"
    by (simp add: find_enrollment_def sample_finished_def)
  note o = completion_outcome [OF e this]
  moreover have "policy_complete ''u'' ''c'' sample_finished" by code_simp
  ultimately show ?thesis using e by auto
qed

end
