(* ===== verification/Learning_Path.thy ===== *)
theory Learning_Path
  imports Course_Completion
begin

text \<open>
  The order in which a learner may open the steps of a course and the progress on them:
  \<^verbatim>\<open>learning-path.rules.ts\<close> and \<^verbatim>\<open>learning-path.service.ts\<close> under
  \<^verbatim>\<open>src/modules/courses\<close>.  A percentage is computed in IEEE doubles as in the code.
\<close>

section \<open>The rules\<close>

datatype step_type = LESSON | ASSIGNMENT | QUIZ

datatype step_status = LOCKED | AVAILABLE | IN_PROGRESS | COMPLETED

record step_candidate =
  cd_id :: string
  cd_type :: step_type
  cd_title :: string
  cd_position :: int
  cd_is_required :: bool
  cd_completed :: bool
  cd_in_progress :: bool
  cd_lesson_id :: "string option"
  cd_is_preview :: "bool option"
  cd_percent :: "int option"
  cd_watched :: "int option"
  cd_duration :: "int option"
  cd_last_position :: "int option"
  cd_document :: "int option"

record learning_step =
  ls_candidate :: step_candidate
  ls_status :: step_status
  ls_locked_reason :: "string option"

record path_progress =
  pp_completed_steps :: nat
  pp_total_steps :: nat
  pp_percent :: int
  pp_completed :: bool

fun type_order :: "step_type \<Rightarrow> int" where
  "type_order LESSON = 0"
| "type_order ASSIGNMENT = 1"
| "type_order QUIZ = 2"

definition step_order :: "(string \<Rightarrow> string \<Rightarrow> int) \<Rightarrow> step_candidate \<Rightarrow> step_candidate \<Rightarrow> int" where
  "step_order locale_compare a b =
     (if cd_position a - cd_position b \<noteq> 0 then cd_position a - cd_position b
      else if type_order (cd_type a) - type_order (cd_type b) \<noteq> 0 then type_order (cd_type a) - type_order (cd_type b)
      else locale_compare (cd_id a) (cd_id b))"

text \<open>The message, in the bytes of its UTF-8 encoding.\<close>

definition locked_reason :: "string \<Rightarrow> string" where
  "locked_reason title =
     [CHR ''B'', CHR 0xE1, CHR 0xBA, CHR 0xA1] @ ''n c'' @ [CHR 0xE1, CHR 0xBA, CHR 0xA7] @ ''n ho''
     @ [CHR 0xC3, CHR 0xA0] @ ''n th'' @ [CHR 0xC3, CHR 0xA0] @ ''nh '' @ [CHR 0x22] @ title @ [CHR 0x22]
     @ '' tr'' @ [CHR 0xC6, CHR 0xB0, CHR 0xE1, CHR 0xBB, CHR 0x9B] @ ''c.''"

text \<open>The walk over the sorted candidates; \<^verbatim>\<open>prev\<close> is \<^verbatim>\<open>previousStep\<close>.\<close>

definition make_step :: "learning_step option \<Rightarrow> step_candidate \<Rightarrow> learning_step" where
  "make_step prev c =
     (if cd_completed c then \<lparr>ls_candidate = c, ls_status = COMPLETED, ls_locked_reason = None\<rparr>
      else case prev of
        Some p \<Rightarrow>
          if ls_status p \<noteq> COMPLETED
          then \<lparr>ls_candidate = c, ls_status = LOCKED, ls_locked_reason = Some (locked_reason (cd_title (ls_candidate p)))\<rparr>
          else \<lparr>ls_candidate = c, ls_status = (if cd_in_progress c then IN_PROGRESS else AVAILABLE), ls_locked_reason = None\<rparr>
      | None \<Rightarrow> \<lparr>ls_candidate = c, ls_status = (if cd_in_progress c then IN_PROGRESS else AVAILABLE), ls_locked_reason = None\<rparr>)"

fun walk_steps :: "learning_step option \<Rightarrow> step_candidate list \<Rightarrow> learning_step list" where
  "walk_steps prev [] = []"
| "walk_steps prev (c # cs) =
     (let s = make_step prev c in
      s # walk_steps (if prev = None \<and> cd_is_required c \<and> \<not> cd_completed c then Some s else prev) cs)"

definition build_learning_path_steps ::
  "(string \<Rightarrow> string \<Rightarrow> int) \<Rightarrow> step_candidate list \<Rightarrow> learning_step list" where
  "build_learning_path_steps locale_compare candidates =
     walk_steps None (js_sort (step_order locale_compare) candidates)"

text \<open>\<^verbatim>\<open>Math.round((a / b) * 100)\<close>\<close>

definition percent_of :: "int \<Rightarrow> int \<Rightarrow> int" where
  "percent_of a b = math_round (double_mult (double_div (double_of_int a) (double_of_int b)) (double_of_int 100))"

definition calculate_learning_path_progress :: "learning_step list \<Rightarrow> path_progress" where
  "calculate_learning_path_progress steps =
     (let required = filter (\<lambda>s. cd_is_required (ls_candidate s)) steps;
          n = length required;
          done = length (filter (\<lambda>s. ls_status s = COMPLETED) required) in
      \<lparr>pp_completed_steps = done, pp_total_steps = n,
       pp_percent = (if n = 0 then 0 else percent_of (int done) (int n)),
       pp_completed = (n > 0 \<and> done = n)\<rparr>)"

section \<open>Progress on one lesson\<close>

record progress_input =
  pi_watched :: "js_double option"
  pi_duration :: "js_double option"
  pi_last_position :: "js_double option"
  pi_document :: "int option"

record progress_values =
  pv_status :: string
  pv_percent :: int
  pv_watched :: int
  pv_duration :: "int option"
  pv_last_position :: int
  pv_max_watched :: int
  pv_document :: int
  pv_completed :: bool

definition completion_threshold :: int where
  "completion_threshold = 90"

definition progress_status :: "bool \<Rightarrow> int \<Rightarrow> string" where
  "progress_status completed percent =
     (if completed then ''completed'' else if percent > 0 then ''in_progress'' else ''not_started'')"

text \<open>\<^verbatim>\<open>durationSeconds || Number.MAX_SAFE_INTEGER\<close>\<close>

definition or_max_safe :: "int \<Rightarrow> int" where
  "or_max_safe d = (if d = 0 then max_safe_integer else d)"

definition video_values :: "lesson \<Rightarrow> learning_progress \<Rightarrow> progress_input \<Rightarrow> progress_values" where
  "video_values l prev inp =
     (let duration = max 0 (case pi_duration inp of Some d \<Rightarrow> math_round d
            | None \<Rightarrow> (case lp_duration prev of Some d \<Rightarrow> d
                | None \<Rightarrow> (case ln_duration_minutes l of None \<Rightarrow> 0 | Some m \<Rightarrow> m) * 60));
          requested = min (or_max_safe duration)
            (max 0 (case pi_last_position inp of Some p \<Rightarrow> math_round p | None \<Rightarrow> lp_last_position prev));
          can_advance = (requested \<le> lp_max_watched prev + 5);
          position = (if can_advance then requested else lp_last_position prev);
          watched = (if can_advance
            then min (or_max_safe duration)
              (max (max (lp_watched prev) (case pi_watched inp of Some w \<Rightarrow> math_round w | None \<Rightarrow> requested)) requested)
            else lp_watched prev);
          max_watched = max (lp_max_watched prev) position;
          percent = (if duration \<noteq> 0 then min 100 (percent_of watched duration) else lp_percent prev);
          completed = (duration > 0 \<and> percent \<ge> completion_threshold) in
      \<lparr>pv_status = progress_status completed percent, pv_percent = percent, pv_watched = watched,
       pv_duration = Some duration, pv_last_position = position, pv_max_watched = max_watched,
       pv_document = lp_document prev, pv_completed = completed\<rparr>)"

definition document_values :: "learning_progress \<Rightarrow> progress_input \<Rightarrow> progress_values" where
  "document_values prev inp =
     (let document = min 100 (max (lp_document prev) (case pi_document inp of Some d \<Rightarrow> d | None \<Rightarrow> lp_document prev));
          completed = (document \<ge> completion_threshold) in
      \<lparr>pv_status = progress_status completed document, pv_percent = document, pv_watched = lp_watched prev,
       pv_duration = lp_duration prev, pv_last_position = lp_last_position prev, pv_max_watched = lp_max_watched prev,
       pv_document = document, pv_completed = completed\<rparr>)"

definition calculate_progress_values :: "lesson \<Rightarrow> learning_progress option \<Rightarrow> progress_input \<Rightarrow> progress_values" where
  "calculate_progress_values l current inp =
     (let prev = (case current of Some p \<Rightarrow> p | None \<Rightarrow> new_progress [] [] []) in
      if ln_type l = ''video'' then video_values l prev inp else document_values prev inp)"

definition upsert_progress :: "lms_env \<Rightarrow> string \<Rightarrow> lesson \<Rightarrow> progress_values \<Rightarrow> lms_db \<Rightarrow> lms_db" where
  "upsert_progress env u l v db =
     (let set = (\<lambda>p. p\<lparr>lp_status := pv_status v, lp_percent := pv_percent v, lp_watched := pv_watched v,
            lp_duration := pv_duration v, lp_last_position := pv_last_position v, lp_max_watched := pv_max_watched v,
            lp_document := pv_document v, lp_completed_at := (if pv_completed v then Some (lv_now env) else None),
            lp_last_accessed_at := Some (lv_now env)\<rparr>) in
      case find_progress u (ln_id l) db of
        Some _ \<Rightarrow> db\<lparr>progress_rows := update_where (\<lambda>p. lp_user_id p = u \<and> lp_lesson_id p = ln_id l) set (progress_rows db)\<rparr>
      | None \<Rightarrow> db\<lparr>progress_rows := progress_rows db @ [set (new_progress u (ln_course_id l) (ln_id l))]\<rparr>)"

section \<open>The path of a learner\<close>

record path_response =
  pr_course_id :: string
  pr_steps :: "learning_step list"
  pr_current :: "learning_step option"
  pr_next :: "learning_step option"
  pr_completed_lessons :: "string list"
  pr_progress :: path_progress

definition course_lessons :: "string \<Rightarrow> lms_db \<Rightarrow> lesson list" where
  "course_lessons c db =
     js_sort (\<lambda>a b. ln_order_index a - ln_order_index b)
       (filter (\<lambda>l. ln_course_id l = c \<and> ln_deleted_at l = None) (lessons db))"

definition lesson_position :: "lesson list \<Rightarrow> string option \<Rightarrow> int" where
  "lesson_position ls lesson_id =
     (let beyond = fold (\<lambda>l m. max m (ln_order_index l)) ls 0 + 1 in
      case lesson_id of None \<Rightarrow> beyond
      | Some i \<Rightarrow> if i = [] then beyond
          else (case find (\<lambda>l. ln_id l = i) ls of Some l \<Rightarrow> ln_order_index l | None \<Rightarrow> beyond))"

definition lesson_candidate :: "string \<Rightarrow> lms_db \<Rightarrow> lesson \<Rightarrow> step_candidate" where
  "lesson_candidate u db l =
     (let p = find_progress u (ln_id l) db;
          field = (\<lambda>f. case p of None \<Rightarrow> 0 | Some r \<Rightarrow> f r);
          status = map_option lp_status p in
      \<lparr>cd_id = ln_id l, cd_type = LESSON, cd_title = ln_title l, cd_position = ln_order_index l,
       cd_is_required = ln_is_required l, cd_completed = (status = Some ''completed''),
       cd_in_progress = (status = Some ''in_progress'' \<or> field lp_percent > 0), cd_lesson_id = Some (ln_id l),
       cd_is_preview = Some (ln_is_preview l), cd_percent = Some (field lp_percent),
       cd_watched = Some (field lp_watched), cd_duration = (case p of None \<Rightarrow> None | Some r \<Rightarrow> lp_duration r),
       cd_last_position = Some (field lp_last_position), cd_document = Some (field lp_document)\<rparr>)"

definition assignment_candidate :: "string \<Rightarrow> lms_db \<Rightarrow> lesson list \<Rightarrow> assignment \<Rightarrow> step_candidate" where
  "assignment_candidate u db ls a =
     (let submitted = list_ex (\<lambda>s. su_assignment_id s = as_id a \<and> su_user_id s = u) (submissions db) in
      \<lparr>cd_id = as_id a, cd_type = ASSIGNMENT, cd_title = as_title a, cd_position = lesson_position ls (as_lesson_id a),
       cd_is_required = as_is_required a, cd_completed = submitted, cd_in_progress = submitted,
       cd_lesson_id = as_lesson_id a, cd_is_preview = None, cd_percent = None, cd_watched = None, cd_duration = None,
       cd_last_position = None, cd_document = None\<rparr>)"

definition quiz_candidate :: "string \<Rightarrow> lms_db \<Rightarrow> lesson list \<Rightarrow> quiz \<Rightarrow> step_candidate" where
  "quiz_candidate u db ls q =
     (let attempts = filter (\<lambda>a. qa_quiz_id a = qz_id q \<and> qa_user_id a = u \<and> qa_submitted_at a \<noteq> None) (quiz_attempts db) in
      \<lparr>cd_id = qz_id q, cd_type = QUIZ, cd_title = qz_title q, cd_position = lesson_position ls (qz_lesson_id q),
       cd_is_required = qz_is_required q, cd_completed = list_ex (\<lambda>a. qa_passed a = Some True) attempts,
       cd_in_progress = (attempts \<noteq> []), cd_lesson_id = qz_lesson_id q, cd_is_preview = None, cd_percent = None,
       cd_watched = None, cd_duration = None, cd_last_position = None, cd_document = None\<rparr>)"

definition path_candidates :: "string \<Rightarrow> string \<Rightarrow> lms_db \<Rightarrow> step_candidate list" where
  "path_candidates u c db =
     (let ls = course_lessons c db in
      map (lesson_candidate u db) ls
      @ map (assignment_candidate u db ls)
          (filter (\<lambda>a. as_course_id a = c \<and> as_deleted_at a = None \<and> as_status a = ''published'') (assignments db))
      @ map (quiz_candidate u db ls)
          (filter (\<lambda>q. qz_course_id q = c \<and> qz_deleted_at q = None \<and> qz_status q = ''published'') (quizzes db)))"

definition path_of_steps :: "string \<Rightarrow> learning_step list \<Rightarrow> path_response" where
  "path_of_steps c steps =
     (let current = (case find (\<lambda>s. ls_status s = IN_PROGRESS) steps of Some s \<Rightarrow> Some s
            | None \<Rightarrow> find (\<lambda>s. ls_status s = AVAILABLE) steps) in
      \<lparr>pr_course_id = c, pr_steps = steps, pr_current = current,
       pr_next = (case current of None \<Rightarrow> None
         | Some s \<Rightarrow> (let i = index_of s steps in if i < length steps - 1 then Some (steps ! (i + 1)) else None)),
       pr_completed_lessons = map (\<lambda>s. cd_id (ls_candidate s))
         (filter (\<lambda>s. cd_type (ls_candidate s) = LESSON \<and> ls_status s = COMPLETED) steps),
       pr_progress = calculate_learning_path_progress steps\<rparr>)"

definition learning_path_for_user :: "lms_env \<Rightarrow> string \<Rightarrow> string \<Rightarrow> lms_db \<Rightarrow> path_response result" where
  "learning_path_for_user env u c db =
     and_then (require_access env (student_request u c) db) (\<lambda>_.
     some_or (NotFoundException ''Course or enrollment not found'') (live_course c db) (\<lambda>_.
     Inr (path_of_steps c (build_learning_path_steps (lv_locale_compare env) (path_candidates u c db)))))"

definition get_learning_path :: "lms_env \<Rightarrow> auth_user \<Rightarrow> string \<Rightarrow> lms_db \<Rightarrow> path_response result" where
  "get_learning_path env user c db =
     throw_if (''student'' \<notin> set (au_roles user)) (ForbiddenException ''Student role required'')
       (learning_path_for_user env (au_id user) c db)"

text \<open>The lesson with its course, neither of them deleted.\<close>

definition lesson_of_live_course :: "string \<Rightarrow> lms_db \<Rightarrow> lesson option" where
  "lesson_of_live_course i db =
     find (\<lambda>l. ln_id l = i \<and> ln_deleted_at l = None \<and> live_course (ln_course_id l) db \<noteq> None) (lessons db)"

definition update_lesson_progress ::
  "lms_env \<Rightarrow> auth_user \<Rightarrow> string \<Rightarrow> progress_input \<Rightarrow> (lms_db, path_response \<times> issued_notice option) txn" where
  "update_lesson_progress env user lesson_id inp db =
     throw_if (''student'' \<notin> set (au_roles user)) (ForbiddenException ''Student role required'') (
     some_or (NotFoundException ''Lesson not found'') (lesson_of_live_course lesson_id db) (\<lambda>l.
     and_then (require_access env (student_request (au_id user) (ln_course_id l)) db) (\<lambda>_.
     let v = calculate_progress_values l (find_progress (au_id user) lesson_id db) inp;
         db1 = upsert_progress env (au_id user) l v db in
     and_then (learning_path_for_user env (au_id user) (ln_course_id l) db1) (\<lambda>path.
     and_then (evaluate_and_sync env (au_id user) (ln_course_id l) db1) (\<lambda>(completion, db2).
     Inr ((path, ev_certificate_issued completion), db2))))))"

definition assert_lesson_accessible :: "lms_env \<Rightarrow> auth_user \<Rightarrow> string \<Rightarrow> lms_db \<Rightarrow> unit result" where
  "assert_lesson_accessible env user lesson_id db =
     (if ''student'' \<notin> set (au_roles user) then Inr ()
      else
        some_or (NotFoundException ''Lesson not found'') (live_lesson lesson_id db) (\<lambda>l.
        and_then (learning_path_for_user env (au_id user) (ln_course_id l) db) (\<lambda>path.
        some_or (NotFoundException ''Lesson not found'')
          (find (\<lambda>s. cd_type (ls_candidate s) = LESSON \<and> cd_id (ls_candidate s) = lesson_id) (pr_steps path)) (\<lambda>s.
        throw_if (ls_status s = LOCKED) (NotFoundException ''Lesson not found'') (Inr ())))))"

record lesson_progress_response =
  lr_lesson_id :: string
  lr_status :: string
  lr_percent :: int
  lr_watched :: int
  lr_duration :: "int option"
  lr_last_position :: int
  lr_document :: int
  lr_completed_at :: "int option"

definition get_lesson_progress :: "lms_env \<Rightarrow> auth_user \<Rightarrow> string \<Rightarrow> lms_db \<Rightarrow> lesson_progress_response result" where
  "get_lesson_progress env user lesson_id db =
     throw_if (''student'' \<notin> set (au_roles user)) (ForbiddenException ''Student role required'') (
     some_or (NotFoundException ''Lesson not found'') (lesson_of_live_course lesson_id db) (\<lambda>l.
     and_then (require_access env (student_request (au_id user) (ln_course_id l)) db) (\<lambda>_.
     and_then (assert_lesson_accessible env user lesson_id db) (\<lambda>_.
     let p = (case find_progress (au_id user) lesson_id db of Some r \<Rightarrow> r | None \<Rightarrow> new_progress [] [] []) in
     Inr \<lparr>lr_lesson_id = lesson_id, lr_status = lp_status p, lr_percent = lp_percent p, lr_watched = lp_watched p,
          lr_duration = lp_duration p, lr_last_position = lp_last_position p, lr_document = lp_document p,
          lr_completed_at = lp_completed_at p\<rparr>))))"

text \<open>\<^verbatim>\<open>findStepCourseId\<close>: the type is an assignment or a quiz.\<close>

definition find_step_course_id :: "step_type \<Rightarrow> string \<Rightarrow> lms_db \<Rightarrow> string result" where
  "find_step_course_id ty i db =
     some_or (NotFoundException ''Learning step not found'')
       (if ty = ASSIGNMENT
        then map_option as_course_id (find (\<lambda>a. as_id a = i \<and> as_deleted_at a = None) (assignments db))
        else map_option qz_course_id (find (\<lambda>q. qz_id q = i \<and> qz_deleted_at q = None) (quizzes db)))
       Inr"

definition assert_student_step_accessible ::
  "lms_env \<Rightarrow> string \<Rightarrow> string \<Rightarrow> step_type \<Rightarrow> lms_db \<Rightarrow> unit result" where
  "assert_student_step_accessible env u i ty db =
     and_then (find_step_course_id ty i db) (\<lambda>c.
     and_then (learning_path_for_user env u c db) (\<lambda>path.
     some_or (NotFoundException ''Learning step not found'')
       (find (\<lambda>s. cd_id (ls_candidate s) = i \<and> cd_type (ls_candidate s) = ty) (pr_steps path)) (\<lambda>s.
     throw_if (ls_status s = LOCKED) (NotFoundException ''Learning step not found'') (Inr ()))))"

section \<open>Percentages\<close>

lemma percent_of_round: "percent_of a b = \<lfloor>dval (js_percent a b) + 1 / 2\<rfloor>"
  by (simp add: percent_of_def js_percent_def math_round_dval)

lemma percent_of_bounds:
  assumes "0 \<le> a" and "0 < b"
  shows "0 \<le> percent_of a b" and "a \<le> b \<Longrightarrow> percent_of a b \<le> 100"
  using js_percent_nonneg [OF assms] js_percent_le [OF assms]
  by (auto simp: percent_of_round le_floor_iff floor_le_iff)

text \<open>Rounding to a whole percentage is accurate to half a per cent and the rounding errors.\<close>

lemma percent_of_error:
  assumes "0 \<le> a" and "0 < b" and "a \<le> b"
  shows "\<bar>percent_of a b - 100 * (a / b)\<bar> \<le> 1 / 2 + 1 / 2 ^ 45"
proof -
  let ?p = "dval (js_percent a b)"
  have "real_of_int a / b \<le> 1" using assms by simp
  then have "\<bar>?p - 100 * (a / b)\<bar> \<le> 1 / 2 ^ 45"
    using js_percent_error [OF assms(1,2)] by (simp add: order_trans)
  moreover have "\<bar>percent_of a b - ?p\<bar> \<le> 1 / 2"
    unfolding percent_of_round by linarith
  ultimately show ?thesis by linarith
qed

section \<open>The steps\<close>

text \<open>The closed form of the walk: a step that is not completed is locked by the first required and
  incomplete step before it.\<close>

definition blocks :: "step_candidate \<Rightarrow> bool" where
  "blocks c = (cd_is_required c \<and> \<not> cd_completed c)"

definition step_in_order :: "step_candidate list \<Rightarrow> nat \<Rightarrow> learning_step" where
  "step_in_order cs i =
     (let c = cs ! i in
      if cd_completed c then \<lparr>ls_candidate = c, ls_status = COMPLETED, ls_locked_reason = None\<rparr>
      else case find blocks (take i cs) of
        Some b \<Rightarrow> \<lparr>ls_candidate = c, ls_status = LOCKED, ls_locked_reason = Some (locked_reason (cd_title b))\<rparr>
      | None \<Rightarrow> \<lparr>ls_candidate = c, ls_status = (if cd_in_progress c then IN_PROGRESS else AVAILABLE),
                 ls_locked_reason = None\<rparr>)"

lemma make_step_candidate [simp]: "ls_candidate (make_step prev c) = c"
  by (simp add: make_step_def split: option.split)

lemma make_step_not_completed [simp]: "ls_status (make_step prev c) = COMPLETED \<longleftrightarrow> cd_completed c"
  by (simp add: make_step_def split: option.split)

lemma length_walk_steps [simp]: "length (walk_steps prev cs) = length cs"
  by (induction cs arbitrary: prev) (simp_all add: Let_def)

lemma walk_steps_candidates: "map ls_candidate (walk_steps prev cs) = cs"
  by (induction cs arbitrary: prev) (simp_all add: Let_def)

lemma walk_steps_blocked:
  assumes "blocks (ls_candidate p)" and "ls_status p \<noteq> COMPLETED"
  shows "walk_steps (Some p) cs = map (make_step (Some p)) cs"
  by (induction cs) simp_all

lemma walk_steps_nth:
  "i < length cs \<Longrightarrow> walk_steps None cs ! i = step_in_order cs i"
proof (induction cs arbitrary: i)
  case Nil
  then show ?case by simp
next
  case (Cons c cs)
  let ?s = "make_step None c"
  show ?case
  proof (cases i)
    case 0
    then show ?thesis by (simp add: step_in_order_def make_step_def Let_def)
  next
    case (Suc j)
    then have j: "j < length cs" using Cons.prems by simp
    show ?thesis
    proof (cases "blocks c")
      case True
      then have "walk_steps None (c # cs) ! i = make_step (Some ?s) (cs ! j)"
        using Suc j walk_steps_blocked [of ?s cs] by (simp add: blocks_def Let_def)
      moreover have "find blocks (take i (c # cs)) = Some c" using True Suc by simp
      moreover have "ls_status ?s \<noteq> COMPLETED" using True by (simp add: blocks_def)
      ultimately show ?thesis using Suc
        by (simp add: step_in_order_def make_step_def [of "Some ?s"] Let_def)
    next
      case False
      then have "\<not> (cd_is_required c \<and> \<not> cd_completed c)" by (simp add: blocks_def)
      then have "walk_steps None (c # cs) ! i = walk_steps None cs ! j"
        using Suc by (simp only: walk_steps.simps Let_def simp_thms if_False nth_Cons_Suc)
      moreover have "step_in_order (c # cs) i = step_in_order cs j"
        using False Suc by (simp add: step_in_order_def Let_def cong: option.case_cong)
      ultimately show ?thesis using Cons.IH [OF j] by simp
    qed
  qed
qed

text \<open>The candidates are put in the order of their positions whenever \<^verbatim>\<open>localeCompare\<close> is a
  comparator.\<close>

lemma step_order_comparator:
  assumes "comparator loc"
  shows "comparator (step_order loc)"
proof
  show "step_order loc a b \<le> 0 \<or> step_order loc b a \<le> 0" for a b
    using comparator.total [OF assms, of "cd_id a" "cd_id b"] by (auto simp: step_order_def)
  show "step_order loc a c \<le> 0" if "step_order loc a b \<le> 0" "step_order loc b c \<le> 0" for a b c
    using that comparator.trans [OF assms, of "cd_id a" "cd_id b" "cd_id c"]
    unfolding step_order_def by (simp split: if_splits)
qed

lemma step_order_position: "step_order loc a b \<le> 0 \<Longrightarrow> cd_position a \<le> cd_position b"
  by (simp add: step_order_def split: if_splits)

text \<open>C25: The steps of a learning path are the candidates in the order of their positions, and a step is
  completed exactly when its candidate is; otherwise it is locked, with the title of the first required and incomplete
  step before it, when there is one, and open when there is none.\<close>

theorem learning_path_closed_form:
  assumes "comparator loc"
  shows "(let cs = js_sort (step_order loc) candidates in
      build_learning_path_steps loc candidates = map (step_in_order cs) [0..<length cs]
      \<and> mset cs = mset candidates \<and> sorted (map cd_position cs))"
proof -
  let ?cs = "js_sort (step_order loc) candidates"
  have "build_learning_path_steps loc candidates = map (step_in_order ?cs) [0..<length ?cs]"
    unfolding build_learning_path_steps_def by (rule nth_equalityI) (simp_all add: walk_steps_nth)
  moreover have "sorted_wrt (\<lambda>a b. step_order loc a b \<le> 0) ?cs"
    by (rule comparator.sorted_js_sort [OF step_order_comparator [OF assms]])
  then have "sorted_wrt (\<lambda>a b. cd_position a \<le> cd_position b) ?cs"
    by (rule sorted_wrt_mono_rel [rotated]) (rule step_order_position)
  ultimately show ?thesis by (simp add: Let_def sorted_map)
qed

definition sample_step :: "string \<Rightarrow> int \<Rightarrow> bool \<Rightarrow> bool \<Rightarrow> step_candidate" where
  "sample_step i position required completed = \<lparr>cd_id = i, cd_type = LESSON, cd_title = i, cd_position = position,
     cd_is_required = required, cd_completed = completed, cd_in_progress = False, cd_lesson_id = None,
     cd_is_preview = None, cd_percent = None, cd_watched = None, cd_duration = None, cd_last_position = None,
     cd_document = None\<rparr>"

lemma ascii_compare: "comparator (lv_locale_compare plain_env)"
  by unfold_locales (auto simp: plain_env_def split: if_splits)

theorem learning_path_closed_form_witness:
  "map (\<lambda>s. (cd_id (ls_candidate s), ls_status s))
     (build_learning_path_steps (lv_locale_compare plain_env)
       [sample_step ''c'' 3 True False, sample_step ''b'' 2 True False, sample_step ''a'' 1 True True])
     = [(''a'', COMPLETED), (''b'', AVAILABLE), (''c'', LOCKED)]"
  using learning_path_closed_form [OF ascii_compare,
      of "[sample_step ''c'' 3 True False, sample_step ''b'' 2 True False, sample_step ''a'' 1 True True]"]
  by (simp add: Let_def step_order_def sample_step_def step_in_order_def blocks_def upt_conv_Cons)

section \<open>The path and the completion of the course\<close>

lemma count_js_sort [simp]: "length (filter P (js_sort f xs)) = length (filter P xs)"
  by (metis mset_filter mset_js_sort size_mset)

text \<open>One progress row per user and lesson, as the database keeps it.\<close>

definition progress_key :: "learning_progress \<Rightarrow> string \<times> string" where
  "progress_key p = (lp_user_id p, lp_lesson_id p)"

lemma find_progress_done:
  assumes "distinct (map progress_key (progress_rows db))"
  shows "map_option lp_status (find_progress u (ln_id l) db) = Some ''completed'' \<longleftrightarrow> lesson_done u db l"
proof -
  have "map_option lp_status (find (\<lambda>p. lp_user_id p = u \<and> lp_lesson_id p = i) rows) = Some s \<longleftrightarrow>
      list_ex (\<lambda>p. lp_lesson_id p = i \<and> lp_user_id p = u \<and> lp_status p = s) rows"
    if "distinct (map progress_key rows)" for rows :: "learning_progress list" and i s
    using that by (induction rows) (auto simp: progress_key_def list_ex_iff)
  from this [OF assms] show ?thesis by (simp add: find_progress_def lesson_done_def)
qed

lemma list_ex_filter: "list_ex P (filter Q xs) \<longleftrightarrow> list_ex (\<lambda>x. Q x \<and> P x) xs"
  by (auto simp: list_ex_iff)

lemma candidate_done [simp]:
  "cd_completed (assignment_candidate u db ls a) = assignment_done u db a"
  "cd_completed (quiz_candidate u db ls q) = quiz_done u db q"
  "cd_is_required (lesson_candidate u db l) = ln_is_required l"
  "cd_is_required (assignment_candidate u db ls a) = as_is_required a"
  "cd_is_required (quiz_candidate u db ls q) = qz_is_required q"
  by (simp_all add: lesson_candidate_def assignment_candidate_def quiz_candidate_def assignment_done_def quiz_done_def
      Let_def list_ex_filter conj_assoc)

lemma lesson_candidate_done:
  "distinct (map progress_key (progress_rows db)) \<Longrightarrow> cd_completed (lesson_candidate u db l) = lesson_done u db l"
  using find_progress_done [of db u l] by (simp add: lesson_candidate_def Let_def)

text \<open>The required steps of the path, and those of them that are done, are the items completion counts.\<close>

lemma length_filter_map: "length (filter P (map f xs)) = length (filter (\<lambda>x. P (f x)) xs)"
  by (induction xs) auto

lemma path_counts:
  assumes "distinct (map progress_key (progress_rows db))"
  shows "int (length (filter cd_is_required (path_candidates u c db))) = total_required c db"
    and "int (length (filter (\<lambda>x. cd_is_required x \<and> cd_completed x) (path_candidates u c db)))
      = completed_required u c db"
  by (simp_all add: path_candidates_def Let_def length_filter_map course_lessons_def total_required_def
      completed_required_def count_where_def required_lessons_def required_quizzes_def required_assignments_def
      lesson_candidate_done [OF assms] conj_ac)

lemma steps_counts:
  "length (filter (\<lambda>s. cd_is_required (ls_candidate s)) (build_learning_path_steps loc cs))
    = length (filter cd_is_required cs)"
  "length (filter (\<lambda>s. cd_is_required (ls_candidate s) \<and> ls_status s = COMPLETED) (build_learning_path_steps loc cs))
    = length (filter (\<lambda>c. cd_is_required c \<and> cd_completed c) cs)"
proof -
  let ?cs = "js_sort (step_order loc) cs"
  have w: "length (filter (\<lambda>s. Q (ls_candidate s) (ls_status s = COMPLETED)) (walk_steps prev xs))
      = length (filter (\<lambda>c. Q c (cd_completed c)) xs)" for Q prev xs
    by (induction xs arbitrary: prev) (simp_all add: Let_def)
  show "length (filter (\<lambda>s. cd_is_required (ls_candidate s)) (build_learning_path_steps loc cs))
      = length (filter cd_is_required cs)"
    using w [of "\<lambda>c b. cd_is_required c" None ?cs] by (simp add: build_learning_path_steps_def)
  show "length (filter (\<lambda>s. cd_is_required (ls_candidate s) \<and> ls_status s = COMPLETED) (build_learning_path_steps loc cs))
      = length (filter (\<lambda>c. cd_is_required c \<and> cd_completed c) cs)"
    using w [of "\<lambda>c b. cd_is_required c \<and> b" None ?cs] by (simp add: build_learning_path_steps_def)
qed

text \<open>C26: The progress a learner sees on the learning path and the completion service, which count the
  required items in different ways, always agree: on the number of required steps, on the number of those done, and on
  whether the course is complete.  The percentage shown is within half a per cent (and the rounding of doubles) of the
  exact one and between 0 and 100.\<close>

theorem path_agrees_with_completion:
  assumes "distinct (map progress_key (progress_rows db))"
    and "learning_path_for_user env u c db = Inr path"
  shows "(let p = pr_progress path in
      int (pp_total_steps p) = total_required c db \<and> int (pp_completed_steps p) = completed_required u c db
      \<and> pp_completed p = policy_complete u c db \<and> 0 \<le> pp_percent p \<and> pp_percent p \<le> 100
      \<and> (if pp_total_steps p = 0 then pp_percent p = 0
         else \<bar>pp_percent p - 100 * (real (pp_completed_steps p) / pp_total_steps p)\<bar> \<le> 1 / 2 + 1 / 2 ^ 45))"
proof -
  let ?cs = "path_candidates u c db"
  let ?n = "length (filter cd_is_required ?cs)" and ?d = "length (filter (\<lambda>x. cd_is_required x \<and> cd_completed x) ?cs)"
  have p: "pr_progress path = calculate_learning_path_progress (build_learning_path_steps (lv_locale_compare env) ?cs)"
    using assms(2) by (auto simp: learning_path_for_user_def result_simps path_of_steps_def Let_def)
  have f: "pp_total_steps (pr_progress path) = ?n" "pp_completed_steps (pr_progress path) = ?d"
      "pp_percent (pr_progress path) = (if ?n = 0 then 0 else percent_of (int ?d) (int ?n))"
      "pp_completed (pr_progress path) = (?n > 0 \<and> ?d = ?n)"
    unfolding p calculate_learning_path_progress_def Let_def filter_filter
    by (simp_all add: steps_counts conj_commute)
  note counts = path_counts [OF assms(1), of u c]
  have le: "?d \<le> ?n" using length_filter_le [of cd_completed "filter cd_is_required ?cs"] by (simp add: conj_commute)
  have policy: "policy_complete u c db = (?n > 0 \<and> ?d = ?n)"
    unfolding policy_complete_def counts [symmetric] by linarith
  show ?thesis
  proof (cases "?n = 0")
    case True
    then show ?thesis unfolding Let_def f counts [symmetric] policy by simp
  next
    case False
    with le have "0 \<le> int ?d" "0 < int ?n" "int ?d \<le> int ?n" by simp_all
    note percent_of_bounds(1) [OF this(1,2)] percent_of_bounds(2) [OF this] percent_of_error [OF this]
    with False show ?thesis unfolding Let_def f counts [symmetric] policy by simp
  qed
qed

definition sample_enrolled :: lms_db where
  "sample_enrolled = sample_finished\<lparr>
     grants := [\<lparr>ag_id = ''g'', ag_user_id = ''u'', ag_course_id = ''c'', ag_source_type = ''admin'', ag_source_id = ''s'',
       ag_status = ''active'', ag_starts_at = 0, ag_ends_at = None, ag_grace_ends_at = None, ag_revoked_at = None,
       ag_reason = None\<rparr>]\<rparr>"

theorem path_agrees_with_completion_witness:
  "\<exists>path. learning_path_for_user plain_env ''u'' ''c'' sample_enrolled = Inr path
     \<and> pp_completed (pr_progress path) \<and> policy_complete ''u'' ''c'' sample_enrolled"
proof -
  have "is_ok (learning_path_for_user plain_env ''u'' ''c'' sample_enrolled)" by code_simp
  then obtain path where p: "learning_path_for_user plain_env ''u'' ''c'' sample_enrolled = Inr path"
    by (auto simp: is_ok_iff)
  have d: "distinct (map progress_key (progress_rows sample_enrolled))" by code_simp
  have "policy_complete ''u'' ''c'' sample_enrolled" by code_simp
  with path_agrees_with_completion [OF d p] p show ?thesis by (simp add: Let_def)
qed

section \<open>Progress on a lesson\<close>

definition progress_ok :: "learning_progress \<Rightarrow> bool" where
  "progress_ok p =
     (0 \<le> lp_percent p \<and> lp_percent p \<le> 100 \<and> 0 \<le> lp_document p \<and> lp_document p \<le> 100 \<and> 0 \<le> lp_watched p
      \<and> 0 \<le> lp_last_position p \<and> lp_last_position p \<le> lp_max_watched p
      \<and> (case lp_duration p of None \<Rightarrow> True | Some d \<Rightarrow> 0 \<le> d)
      \<and> (lp_status p = ''completed'' \<longleftrightarrow> lp_completed_at p \<noteq> None)
      \<and> lp_status p \<in> {''not_started'', ''in_progress'', ''completed''})"

text \<open>What the validation of the request body lets through.\<close>

definition input_ok :: "progress_input \<Rightarrow> bool" where
  "input_ok inp =
     ((case pi_watched inp of None \<Rightarrow> True | Some x \<Rightarrow> 0 \<le> fst x) \<and> (case pi_duration inp of None \<Rightarrow> True | Some x \<Rightarrow> 0 \<le> fst x)
      \<and> (case pi_last_position inp of None \<Rightarrow> True | Some x \<Rightarrow> 0 \<le> fst x)
      \<and> (case pi_document inp of None \<Rightarrow> True | Some x \<Rightarrow> 0 \<le> x))"

definition values_ok :: "learning_progress \<Rightarrow> progress_values \<Rightarrow> bool" where
  "values_ok prev v =
     (0 \<le> pv_percent v \<and> pv_percent v \<le> 100 \<and> lp_document prev \<le> pv_document v \<and> pv_document v \<le> 100 \<and> 0 \<le> pv_watched v
      \<and> 0 \<le> pv_last_position v \<and> pv_last_position v \<le> pv_max_watched v
      \<and> lp_max_watched prev \<le> pv_max_watched v \<and> pv_max_watched v \<le> lp_max_watched prev + 5
      \<and> (case pv_duration v of None \<Rightarrow> True | Some d \<Rightarrow> 0 \<le> d)
      \<and> pv_status v = progress_status (pv_completed v) (pv_percent v)
      \<and> (pv_completed v \<longrightarrow> completion_threshold \<le> pv_percent v))"

lemma new_progress_ok [simp]: "progress_ok (new_progress u c l)"
  by (simp add: progress_ok_def new_progress_def)

lemma or_max_safe_pos: "0 \<le> d \<Longrightarrow> 0 < or_max_safe d"
  by (simp add: or_max_safe_def max_safe_integer_def)

lemma video_values_ok:
  assumes prev: "progress_ok prev" and inp: "input_ok inp"
  shows "values_ok prev (video_values l prev inp)"
proof -
  define duration where "duration = max 0 (case pi_duration inp of Some d \<Rightarrow> math_round d
      | None \<Rightarrow> (case lp_duration prev of Some d \<Rightarrow> d
          | None \<Rightarrow> (case ln_duration_minutes l of None \<Rightarrow> 0 | Some m \<Rightarrow> m) * 60))"
  define requested where "requested = min (or_max_safe duration)
      (max 0 (case pi_last_position inp of Some p \<Rightarrow> math_round p | None \<Rightarrow> lp_last_position prev))"
  define can where "can = (requested \<le> lp_max_watched prev + 5)"
  define position where "position = (if can then requested else lp_last_position prev)"
  define watched where "watched = (if can
      then min (or_max_safe duration)
        (max (max (lp_watched prev) (case pi_watched inp of Some w \<Rightarrow> math_round w | None \<Rightarrow> requested)) requested)
      else lp_watched prev)"
  define furthest where "furthest = max (lp_max_watched prev) position"
  define percent where "percent = (if duration \<noteq> 0 then min 100 (percent_of watched duration) else lp_percent prev)"
  have v: "video_values l prev inp = \<lparr>pv_status = progress_status (duration > 0 \<and> percent \<ge> completion_threshold) percent,
      pv_percent = percent, pv_watched = watched, pv_duration = Some duration, pv_last_position = position,
      pv_max_watched = furthest, pv_document = lp_document prev,
      pv_completed = (duration > 0 \<and> percent \<ge> completion_threshold)\<rparr>"
    unfolding video_values_def Let_def percent_def furthest_def watched_def position_def can_def requested_def duration_def
    by (rule refl)
  have dur: "0 \<le> duration" by (simp add: duration_def)
  then have req: "0 \<le> requested" using or_max_safe_pos [of duration] by (simp add: requested_def)
  have pos: "0 \<le> position" using req prev by (simp add: position_def progress_ok_def)
  have w: "0 \<le> watched" using req prev or_max_safe_pos [OF dur] by (auto simp: watched_def progress_ok_def)
  have p: "0 \<le> percent" "percent \<le> 100"
    using prev dur percent_of_bounds(1) [OF w] by (auto simp: percent_def progress_ok_def)
  have "position \<le> lp_max_watched prev + 5" using prev by (simp add: position_def can_def progress_ok_def)
  then have m: "position \<le> furthest" "lp_max_watched prev \<le> furthest" "furthest \<le> lp_max_watched prev + 5"
    by (simp_all add: furthest_def)
  have d: "lp_document prev \<le> 100" using prev by (simp add: progress_ok_def)
  show ?thesis unfolding v values_ok_def progress_values.select_convs option.case
    using p w pos m dur d by blast
qed

lemma document_values_ok:
  assumes "progress_ok prev"
  shows "values_ok prev (document_values prev inp)"
proof -
  let ?d = "min 100 (max (lp_document prev) (case pi_document inp of Some d \<Rightarrow> d | None \<Rightarrow> lp_document prev))"
  have d: "lp_document prev \<le> ?d" "?d \<le> 100" "0 \<le> ?d" using assms by (simp_all add: progress_ok_def le_max_iff_disj)
  have v: "document_values prev inp = \<lparr>pv_status = progress_status (?d \<ge> completion_threshold) ?d, pv_percent = ?d,
      pv_watched = lp_watched prev, pv_duration = lp_duration prev, pv_last_position = lp_last_position prev,
      pv_max_watched = lp_max_watched prev, pv_document = ?d, pv_completed = (?d \<ge> completion_threshold)\<rparr>"
    by (simp add: document_values_def Let_def)
  show ?thesis unfolding v values_ok_def using d assms by (simp add: progress_ok_def del: min.bounded_iff)
qed

lemma calculate_values_ok:
  assumes "\<And>p. current = Some p \<Longrightarrow> progress_ok p" and "input_ok inp"
  shows "values_ok (case current of Some p \<Rightarrow> p | None \<Rightarrow> new_progress [] [] []) (calculate_progress_values l current inp)"
  using assms video_values_ok document_values_ok
  by (simp add: calculate_progress_values_def Let_def split: option.split)

text \<open>The progress rows of the database, before and after a report.\<close>

definition progress_table_ok :: "lms_db \<Rightarrow> bool" where
  "progress_table_ok db = (distinct (map progress_key (progress_rows db)) \<and> list_all progress_ok (progress_rows db))"

lemma values_row_ok:
  assumes "progress_ok prev" and "values_ok prev v" and "lp_document p = lp_document prev"
  shows "progress_ok (p\<lparr>lp_status := pv_status v, lp_percent := pv_percent v, lp_watched := pv_watched v,
     lp_duration := pv_duration v, lp_last_position := pv_last_position v, lp_max_watched := pv_max_watched v,
     lp_document := pv_document v, lp_completed_at := (if pv_completed v then Some now else None),
     lp_last_accessed_at := Some now\<rparr>)"
  using assms by (auto simp: progress_ok_def values_ok_def progress_status_def split: option.splits)

lemma find_progress_SomeD:
  "find_progress u l db = Some p \<Longrightarrow> p \<in> set (progress_rows db) \<and> lp_user_id p = u \<and> lp_lesson_id p = l"
  by (auto simp: find_progress_def dest: find_SomeD)

text \<open>What a report does to the rows: the learner's row of the lesson changes, no other.\<close>

lemma upsert_progress_cases:
  assumes "progress_table_ok db" and "v = calculate_progress_values l (find_progress u (ln_id l) db) inp" and "input_ok inp"
  obtains p q where "find_progress u (ln_id l) db = Some p" "progress_ok q" "progress_key q = progress_key p"
      "lp_max_watched q = pv_max_watched v" "lp_document q = pv_document v" "values_ok p v"
      "progress_rows (upsert_progress env u l v db) = map (\<lambda>x. if x = p then q else x) (progress_rows db)"
  | q where "find_progress u (ln_id l) db = None" "progress_ok q" "progress_key q = (u, ln_id l)"
      "lp_max_watched q = pv_max_watched v" "lp_document q = pv_document v" "values_ok (new_progress [] [] []) v"
      "progress_rows (upsert_progress env u l v db) = progress_rows db @ [q]"
proof (cases "find_progress u (ln_id l) db")
  case None
  have v: "values_ok (new_progress [] [] []) v"
    using calculate_values_ok [of None inp l] assms(2,3) None by simp
  let ?q = "(new_progress u (ln_course_id l) (ln_id l))\<lparr>lp_status := pv_status v, lp_percent := pv_percent v,
     lp_watched := pv_watched v, lp_duration := pv_duration v, lp_last_position := pv_last_position v,
     lp_max_watched := pv_max_watched v, lp_document := pv_document v,
     lp_completed_at := (if pv_completed v then Some (lv_now env) else None), lp_last_accessed_at := Some (lv_now env)\<rparr>"
  have "progress_ok ?q" by (rule values_row_ok [OF _ v]) (simp_all add: new_progress_def progress_ok_def)
  moreover have "progress_rows (upsert_progress env u l v db) = progress_rows db @ [?q]"
    using None by (simp add: upsert_progress_def Let_def)
  ultimately show ?thesis
    using None v by (intro that(2) [of ?q]) (simp_all add: progress_key_def new_progress_def)
next
  case (Some p)
  note m = find_progress_SomeD [OF Some]
  have rows: "distinct (map progress_key (progress_rows db))" "\<And>x. x \<in> set (progress_rows db) \<Longrightarrow> progress_ok x"
    using assms(1) by (simp_all add: progress_table_ok_def list_all_iff)
  have "progress_ok p" using rows(2) m by simp
  have v: "values_ok p v"
    using calculate_values_ok [of "Some p" inp l] assms(2,3) Some \<open>progress_ok p\<close> by simp
  let ?q = "p\<lparr>lp_status := pv_status v, lp_percent := pv_percent v,
     lp_watched := pv_watched v, lp_duration := pv_duration v, lp_last_position := pv_last_position v,
     lp_max_watched := pv_max_watched v, lp_document := pv_document v,
     lp_completed_at := (if pv_completed v then Some (lv_now env) else None), lp_last_accessed_at := Some (lv_now env)\<rparr>"
  have "x = p" if "x \<in> set (progress_rows db)" "lp_user_id x = u \<and> lp_lesson_id x = ln_id l" for x
  proof -
    have "progress_key x = progress_key p" using that(2) m by (simp add: progress_key_def)
    then show ?thesis using rows(1) that(1) m by (metis distinct_map inj_onD)
  qed
  moreover have "lp_user_id p = u \<and> lp_lesson_id p = ln_id l" using m by simp
  ultimately have only: "(lp_user_id x = u \<and> lp_lesson_id x = ln_id l) = (x = p)" if "x \<in> set (progress_rows db)" for x
    using that by blast
  define f where "f = (\<lambda>x. x\<lparr>lp_status := pv_status v, lp_percent := pv_percent v,
     lp_watched := pv_watched v, lp_duration := pv_duration v, lp_last_position := pv_last_position v,
     lp_max_watched := pv_max_watched v, lp_document := pv_document v,
     lp_completed_at := (if pv_completed v then Some (lv_now env) else None), lp_last_accessed_at := Some (lv_now env)\<rparr>
     :: learning_progress)"
  have "upsert_progress env u l v db =
      db\<lparr>progress_rows := update_where (\<lambda>x. lp_user_id x = u \<and> lp_lesson_id x = ln_id l) f (progress_rows db)\<rparr>"
    unfolding upsert_progress_def Some option.case Let_def f_def by (rule refl)
  moreover have "update_where (\<lambda>x. lp_user_id x = u \<and> lp_lesson_id x = ln_id l) f (progress_rows db)
      = map (\<lambda>x. if x = p then f p else x) (progress_rows db)"
    unfolding update_where_def by (rule map_cong [OF refl]) (simp only: only split: if_split, blast)
  ultimately have "progress_rows (upsert_progress env u l v db) = map (\<lambda>x. if x = p then ?q else x) (progress_rows db)"
    by (simp add: f_def)
  moreover have "progress_ok ?q" by (rule values_row_ok [OF \<open>progress_ok p\<close> v refl])
  moreover have "progress_key ?q = progress_key p" by (simp add: progress_key_def)
  ultimately show ?thesis using that(1) [OF Some, of ?q] v by simp
qed

lemma upsert_progress_table:
  assumes "progress_table_ok db" and "v = calculate_progress_values l (find_progress u (ln_id l) db) inp" and "input_ok inp"
  shows "progress_table_ok (upsert_progress env u l v db)"
  using assms
proof (cases rule: upsert_progress_cases [where env = env])
  case (1 p q)
  have "map progress_key (progress_rows (upsert_progress env u l v db)) = map progress_key (progress_rows db)"
    using 1(3) by (simp add: 1(7))
  moreover have "list_all progress_ok (progress_rows (upsert_progress env u l v db))"
    using assms(1) 1(2) by (auto simp: 1(7) progress_table_ok_def list_all_iff)
  ultimately show ?thesis using assms(1) by (simp only: progress_table_ok_def simp_thms)
next
  case (2 q)
  have "(u, ln_id l) \<notin> progress_key ` set (progress_rows db)"
    using 2(1) by (auto simp: find_progress_def find_ex progress_key_def)
  with assms(1) 2 show ?thesis by (simp add: progress_table_ok_def)
qed

lemma find_by_key:
  assumes "distinct (map progress_key (progress_rows db))" and "q \<in> set (progress_rows db)"
    and "progress_key q = (u, l)"
  shows "find_progress u l db = Some q"
proof -
  have "find (\<lambda>y. progress_key y = progress_key q) (progress_rows db) = Some q" using assms by (intro find_row)
  then show ?thesis using assms(3) by (simp add: find_progress_def progress_key_def)
qed

lemma upsert_progress_row:
  assumes "progress_table_ok db" and "v = calculate_progress_values l (find_progress u (ln_id l) db) inp" and "input_ok inp"
  shows "\<exists>prev q. values_ok prev v \<and> find_progress u (ln_id l) (upsert_progress env u l v db) = Some q
    \<and> prev = (case find_progress u (ln_id l) db of Some p \<Rightarrow> p | None \<Rightarrow> new_progress [] [] [])
    \<and> lp_max_watched q = pv_max_watched v \<and> lp_document q = pv_document v"
proof -
  have t: "distinct (map progress_key (progress_rows (upsert_progress env u l v db)))"
    using upsert_progress_table [OF assms] by (simp add: progress_table_ok_def)
  from assms show ?thesis
  proof (cases rule: upsert_progress_cases [where env = env])
    case (1 p q)
    have p: "p \<in> set (progress_rows db)" "progress_key p = (u, ln_id l)"
      using find_progress_SomeD [OF 1(1)] by (simp_all add: progress_key_def)
    then have "q \<in> set (progress_rows (upsert_progress env u l v db))" by (auto simp: 1(7))
    from find_by_key [OF t this] 1 p(2) show ?thesis by simp
  next
    case (2 q)
    then have "q \<in> set (progress_rows (upsert_progress env u l v db))" by simp
    from find_by_key [OF t this 2(3)] 2 show ?thesis by simp
  qed
qed

text \<open>C29: A report of progress keeps the progress table well formed: percentages stay between 0 and 100,
  positions below the furthest second watched, completion times go with the completed status, and there is one row per
  learner and lesson.  It never moves the furthest second watched back and moves it ahead by at most five, and never
  lowers the progress on a document.\<close>

theorem lesson_progress_well_typed:
  assumes "progress_table_ok db" and "input_ok inp"
    and "update_lesson_progress env user lesson_id inp db = Inr (r, db')"
  shows "progress_table_ok db' \<and>
    (\<exists>q. find_progress (au_id user) lesson_id db' = Some q
      \<and> (let prev = (case find_progress (au_id user) lesson_id db of Some p \<Rightarrow> p | None \<Rightarrow> new_progress [] [] []) in
         lp_max_watched prev \<le> lp_max_watched q \<and> lp_max_watched q \<le> lp_max_watched prev + 5
         \<and> lp_document prev \<le> lp_document q))"
proof -
  obtain l path ev where l: "lesson_of_live_course lesson_id db = Some l"
    and ev: "evaluate_and_sync env (au_id user) (ln_course_id l)
      (upsert_progress env (au_id user) l
        (calculate_progress_values l (find_progress (au_id user) lesson_id db) inp) db) = Inr (ev, db')"
    using assms(3) by (auto simp: update_lesson_progress_def result_simps Let_def split: prod.splits)
  let ?v = "calculate_progress_values l (find_progress (au_id user) lesson_id db) inp"
  let ?db1 = "upsert_progress env (au_id user) l ?v db"
  have i: "ln_id l = lesson_id" using l by (auto simp: lesson_of_live_course_def dest: find_SomeD)
  have rows: "progress_rows db' = progress_rows ?db1" using evaluate_same_content [OF ev] by (simp add: same_content_def)
  have "progress_table_ok ?db1" using assms(1,2) i by (intro upsert_progress_table) auto
  moreover have "\<exists>prev q. values_ok prev ?v \<and> find_progress (au_id user) (ln_id l) ?db1 = Some q
    \<and> prev = (case find_progress (au_id user) (ln_id l) db of Some p \<Rightarrow> p | None \<Rightarrow> new_progress [] [] [])
    \<and> lp_max_watched q = pv_max_watched ?v \<and> lp_document q = pv_document ?v"
    using assms(1,2) i by (intro upsert_progress_row) auto
  ultimately show ?thesis
    unfolding progress_table_ok_def find_progress_def rows i by (auto simp: values_ok_def Let_def)
qed

definition sample_report :: progress_input where
  "sample_report = \<lparr>pi_watched = Some (double_of_int 600), pi_duration = Some (double_of_int 600),
     pi_last_position = Some (double_of_int 5), pi_document = None\<rparr>"

theorem lesson_progress_well_typed_witness:
  "\<exists>r db'. update_lesson_progress plain_env \<lparr>au_id = ''u'', au_roles = [''student'']\<rparr> ''l'' sample_report
      (sample_enrolled\<lparr>progress_rows := []\<rparr>) = Inr (r, db')
    \<and> progress_table_ok db' \<and> (\<exists>q. find_progress ''u'' ''l'' db' = Some q \<and> lp_max_watched q \<le> 5)"
proof -
  define user where "user = \<lparr>au_id = ''u'', au_roles = [''student'']\<rparr>"
  define db where "db = sample_enrolled\<lparr>progress_rows := []\<rparr>"
  define l where "l = hd (lessons sample_open)"
  define v where "v = \<lparr>pv_status = ''completed'', pv_percent = 100, pv_watched = 600, pv_duration = Some 600,
     pv_last_position = 5, pv_max_watched = 5, pv_document = 0, pv_completed = True\<rparr>"
  define db1 where "db1 = upsert_progress plain_env ''u'' l v db"
  have l: "lesson_of_live_course ''l'' db = Some l" "ln_course_id l = ''c''" "ln_type l = ''video''"
    by (simp_all add: lesson_of_live_course_def live_course_def db_def sample_enrolled_def sample_finished_def sample_open_def l_def)
  have none: "find_progress ''u'' ''l'' db = None" by (simp add: find_progress_def db_def)
  have "percent_of 600 600 = 100" by code_simp
  then have v: "calculate_progress_values l (find_progress ''u'' ''l'' db) sample_report = v"
    by (simp add: none calculate_progress_values_def l video_values_def sample_report_def v_def double_of_int_def Let_def
        or_max_safe_def new_progress_def completion_threshold_def progress_status_def)
  have "is_ok (require_access plain_env (student_request ''u'' ''c'') db)" unfolding db_def by code_simp
  moreover have "is_ok (learning_path_for_user plain_env ''u'' ''c'' db1)" unfolding db1_def db_def v_def l_def by code_simp
  moreover have "is_ok (evaluate_and_sync plain_env ''u'' ''c'' db1)" unfolding db1_def db_def v_def l_def by code_simp
  ultimately obtain r db' where u: "update_lesson_progress plain_env user ''l'' sample_report db = Inr (r, db')"
    by (auto simp: update_lesson_progress_def user_def l v is_ok_iff db1_def [symmetric])
  have i: "input_ok sample_report" by (simp add: input_ok_def sample_report_def double_of_int_def)
  have t: "progress_table_ok db" "find_progress ''u'' ''l'' db = None"
    by (simp_all add: progress_table_ok_def db_def find_progress_def)
  have "au_id user = ''u''" by (simp add: user_def)
  with lesson_progress_well_typed [OF t(1) i u] t(2)
  have "progress_table_ok db' \<and> (\<exists>q. find_progress ''u'' ''l'' db' = Some q \<and> lp_max_watched q \<le> 5)"
    by (auto simp: new_progress_def Let_def)
  with u show ?thesis unfolding user_def db_def by blast
qed

end
