(* ===== verification/Quiz_Answers.thy ===== *)
theory Quiz_Answers
  imports Learning_Db
begin

text \<open>
  When two answers count as equal: \<^verbatim>\<open>canonicalJson\<close> and \<^verbatim>\<open>answersMatch\<close> of
  \<^verbatim>\<open>src/modules/quizzes/quizzes.service.ts\<close>.  The canonical text is shown to identify the
  normal form of a JSON value.
\<close>

section \<open>Comparing answers\<close>

text \<open>\<^verbatim>\<open>JSON.stringify\<close> of a string of ASCII characters.\<close>

definition hex_digit :: "nat \<Rightarrow> char" where
  "hex_digit n = ''0123456789abcdef'' ! n"

definition escape_char :: "char \<Rightarrow> string" where
  "escape_char c =
     (let n = of_char c :: nat in
      if c = CHR 0x22 then [CHR 0x5C, CHR 0x22]
      else if c = CHR 0x5C then [CHR 0x5C, CHR 0x5C]
      else if n = 8 then [CHR 0x5C, CHR ''b'']
      else if n = 9 then [CHR 0x5C, CHR ''t'']
      else if n = 10 then [CHR 0x5C, CHR ''n'']
      else if n = 12 then [CHR 0x5C, CHR ''f'']
      else if n = 13 then [CHR 0x5C, CHR ''r'']
      else if n < 32 then [CHR 0x5C, CHR ''u'', CHR ''0'', CHR ''0'', hex_digit (n div 16), hex_digit (n mod 16)]
      else [c])"

definition quote_json :: "string \<Rightarrow> string" where
  "quote_json s = [CHR 0x22] @ concat (map escape_char s) @ [CHR 0x22]"

fun join_comma :: "string list \<Rightarrow> string" where
  "join_comma [] = []"
| "join_comma [w] = w"
| "join_comma (w # v # ws) = w @ '','' @ join_comma (v # ws)"

fun canonical_json :: "json_value \<Rightarrow> string" where
  "canonical_json (JString s) = quote_json (js_lower (js_trim s))"
| "canonical_json (JNumber n) = n"
| "canonical_json (JBool b) = (if b then ''true'' else ''false'')"
| "canonical_json JNull = ''null''"
| "canonical_json (JArray vs) = ''['' @ join_comma (map canonical_json vs) @ '']''"
| "canonical_json (JObject ps) =
     ''{'' @ join_comma (map snd (sort_key fst (map (\<lambda>(k, v). (k, quote_json k @ '':'' @ canonical_json v)) ps))) @ ''}''"

definition answers_match :: "json_value option \<Rightarrow> json_value \<Rightarrow> bool" where
  "answers_match submitted correct =
     ((case submitted of None \<Rightarrow> ''undefined'' | Some v \<Rightarrow> canonical_json v) = canonical_json correct)"

definition is_compatible_answer :: "string \<Rightarrow> json_value option \<Rightarrow> bool" where
  "is_compatible_answer ty answer =
     (if ty = ''true_false'' then (case answer of Some (JBool b) \<Rightarrow> True | _ \<Rightarrow> False)
      else if ty = ''short_answer'' then (case answer of Some (JString s) \<Rightarrow> True | _ \<Rightarrow> False)
      else (case answer of Some (JString s) \<Rightarrow> True | Some (JNumber n) \<Rightarrow> True | Some (JArray vs) \<Rightarrow> True | _ \<Rightarrow> False))"

section \<open>The normal form of a value\<close>

text \<open>Strings are trimmed and put in lower case, properties are ordered by name.\<close>

fun normal_json :: "json_value \<Rightarrow> json_value" where
  "normal_json (JString s) = JString (js_lower (js_trim s))"
| "normal_json (JArray vs) = JArray (map normal_json vs)"
| "normal_json (JObject ps) = JObject (sort_key fst (map (\<lambda>(k, v). (k, normal_json v)) ps))"
| "normal_json v = v"

fun json_text :: "json_value \<Rightarrow> string" where
  "json_text (JString s) = quote_json s"
| "json_text (JNumber n) = n"
| "json_text (JBool b) = (if b then ''true'' else ''false'')"
| "json_text JNull = ''null''"
| "json_text (JArray vs) = ''['' @ join_comma (map json_text vs) @ '']''"
| "json_text (JObject ps) = ''{'' @ join_comma (map (\<lambda>(k, v). quote_json k @ '':'' @ json_text v) ps) @ ''}''"

lemma sort_key_map_fst:
  "sort_key fst (map (\<lambda>(k, v). (k, h k v)) ps) = map (\<lambda>(k, v). (k, h k v)) (sort_key fst ps)"
  for ps :: "('a::linorder \<times> 'b) list"
proof -
  have "insort_key fst (k, h k v) (map (\<lambda>(k, v). (k, h k v)) qs) = map (\<lambda>(k, v). (k, h k v)) (insort_key fst (k, v) qs)"
    for k v and qs :: "('a \<times> 'b) list"
    by (induction qs) auto
  then show ?thesis by (induction ps) auto
qed

lemma canonical_json_text: "canonical_json v = json_text (normal_json v)"
proof (induction v)
  case (JObject ps)
  let ?g = "\<lambda>k v. quote_json k @ '':'' @ json_text (normal_json v)"
  have "map (\<lambda>(k, v). (k, quote_json k @ '':'' @ canonical_json v)) ps = map (\<lambda>(k, v). (k, ?g k v)) ps"
    using JObject by (auto simp: snds.simps)
  then have "map snd (sort_key fst (map (\<lambda>(k, v). (k, quote_json k @ '':'' @ canonical_json v)) ps))
      = map snd (map (\<lambda>(k, v). (k, ?g k v)) (sort_key fst ps))"
    using sort_key_map_fst [of ?g ps] by (simp only:)
  also have "\<dots> = map (\<lambda>(k, v). quote_json k @ '':'' @ json_text v) (map (\<lambda>(k, v). (k, normal_json v)) (sort_key fst ps))"
    by (simp add: case_prod_unfold comp_def)
  also have "map (\<lambda>(k, v). (k, normal_json v)) (sort_key fst ps) = sort_key fst (map (\<lambda>(k, v). (k, normal_json v)) ps)"
    using sort_key_map_fst [of "\<lambda>k v. normal_json v" ps] by (simp only:)
  finally show ?case by simp
qed (simp_all cong: map_cong)

section \<open>Reading a text back\<close>

text \<open>What stands for one character of a string.\<close>

definition hex_digit_value :: "char \<Rightarrow> nat" where
  "hex_digit_value c = index_of c ''0123456789abcdef''"

definition read_char :: "string \<Rightarrow> char \<times> string" where
  "read_char s =
     (case s of
        [] \<Rightarrow> (CHR 0x00, [])
      | c # r \<Rightarrow>
          if c \<noteq> CHR 0x5C then (c, r)
          else (case r of
            [] \<Rightarrow> (c, [])
          | e # r' \<Rightarrow>
              if e = CHR ''b'' then (CHR 0x08, r') else if e = CHR ''t'' then (CHR 0x09, r')
              else if e = CHR ''n'' then (CHR 0x0A, r') else if e = CHR ''f'' then (CHR 0x0C, r')
              else if e = CHR ''r'' then (CHR 0x0D, r')
              else if e = CHR ''u'' then (char_of (16 * hex_digit_value (r' ! 2) + hex_digit_value (r' ! 3)), drop 4 r')
              else (e, r')))"

lemma hex_digit_value_digit: "n < 16 \<Longrightarrow> hex_digit_value (hex_digit n) = n"
  unfolding hex_digit_value_def hex_digit_def by (rule index_of_nth) simp_all

lemma read_escaped: "read_char (escape_char c @ s) = (c, s)"
proof -
  define n where "n = (of_char c :: nat)"
  have c: "char_of n = c" by (simp add: n_def)
  have "char_of (8::nat) = CHR 0x08" "char_of (9::nat) = CHR 0x09" "char_of (10::nat) = CHR 0x0A"
    "char_of (12::nat) = CHR 0x0C" "char_of (13::nat) = CHR 0x0D"
    by code_simp+
  then have named: "n = 8 \<Longrightarrow> c = CHR 0x08" "n = 9 \<Longrightarrow> c = CHR 0x09" "n = 10 \<Longrightarrow> c = CHR 0x0A"
    "n = 12 \<Longrightarrow> c = CHR 0x0C" "n = 13 \<Longrightarrow> c = CHR 0x0D"
    using c by metis+
  have h: "16 * hex_digit_value (hex_digit (n div 16)) + hex_digit_value (hex_digit (n mod 16)) = n" if "n < 32"
    using that by (simp add: hex_digit_value_digit)
  show ?thesis
    using named h c
    by (simp add: escape_char_def read_char_def Let_def flip: n_def)
qed

lemma escape_char_head: "\<exists>d r. escape_char c = d # r \<and> d \<noteq> CHR 0x22"
  by (simp add: escape_char_def Let_def)

lemma quote_split:
  assumes "quote_json a @ s = quote_json b @ t"
  shows "a = b \<and> s = t"
proof -
  have "concat (map escape_char a) @ CHR 0x22 # s = concat (map escape_char b) @ CHR 0x22 # t"
    using assms by (simp add: quote_json_def)
  then show ?thesis
  proof (induction a arbitrary: b)
    case Nil
    then show ?case using escape_char_head by (cases b) (auto, metis append_Cons list.inject)
  next
    case (Cons c a)
    obtain d b' where b: "b = d # b'"
      using Cons.prems escape_char_head [of c] by (cases b) auto
    have e: "escape_char c @ (concat (map escape_char a) @ CHR 0x22 # s)
        = escape_char d @ (concat (map escape_char b') @ CHR 0x22 # t)"
      using Cons.prems b by simp
    from arg_cong [OF e, of read_char] have "c = d"
      "concat (map escape_char a) @ CHR 0x22 # s = concat (map escape_char b') @ CHR 0x22 # t"
      by (simp_all add: read_escaped)
    with Cons.IH b show ?case by blast
  qed
qed

text \<open>The texts \<^verbatim>\<open>JSON.stringify\<close> prints for finite numbers start with a digit or a
  sign and have no character that can follow a value.\<close>

definition number_text :: "string \<Rightarrow> bool" where
  "number_text n = (n \<noteq> [] \<and> (digit_char (hd n) \<or> hd n = CHR ''-'') \<and> list_all (\<lambda>c. digit_char c \<or> c \<in> set ''+-.e'') n)"

fun wf_json :: "json_value \<Rightarrow> bool" where
  "wf_json (JNumber n) = number_text n"
| "wf_json (JArray vs) = list_all wf_json vs"
| "wf_json (JObject ps) = list_all (\<lambda>(k, v). wf_json v) ps"
| "wf_json v = True"

definition value_end :: "string \<Rightarrow> bool" where
  "value_end s = (s = [] \<or> hd s \<in> set '',]}'')"

lemma value_end_simps [simp]: "value_end []" "value_end (CHR '','' # s)" "value_end (CHR '']'' # s)" "value_end (CHR ''}'' # s)"
  by (simp_all add: value_end_def)

lemma number_split:
  assumes "n @ s = m @ t" and "number_text n" and "number_text m" and "value_end s" and "value_end t"
  shows "n = m \<and> s = t"
proof -
  let ?P = "\<lambda>c. digit_char c \<or> c \<in> set ''+-.e''"
  have stop: "takeWhile ?P x = []" if "value_end x" for x
    using that by (cases x) (auto simp: value_end_def digit_char_def)
  have "takeWhile ?P (x @ y) = x" if "number_text x" "value_end y" for x y
  proof -
    have "takeWhile ?P (x @ y) = x @ takeWhile ?P y"
      using that(1) by (intro takeWhile_append2) (simp add: number_text_def list_all_iff)
    then show ?thesis using stop [OF that(2)] by simp
  qed
  then have "n = m" using assms by metis
  with assms(1) show ?thesis by simp
qed

text \<open>The items of an array or object can be split off one by one.\<close>

lemma join_comma_Cons: "join_comma (w # ws) = w @ (if ws = [] then [] else CHR '','' # join_comma ws)"
  by (cases ws) simp_all

lemma join_split:
  assumes item: "\<And>x y s t. x \<in> set xs \<Longrightarrow> y \<in> set ys \<Longrightarrow> f x @ s = f y @ t \<Longrightarrow> value_end s \<Longrightarrow> value_end t \<Longrightarrow> x = y \<and> s = t"
    and first: "\<And>x. x \<in> set xs \<union> set ys \<Longrightarrow> f x \<noteq> [] \<and> hd (f x) \<notin> set '']}''"
    and c: "c \<in> set '']}''"
    and eq: "join_comma (map f xs) @ c # s = join_comma (map f ys) @ c # t"
  shows "xs = ys \<and> s = t"
  using item first eq
proof (induction xs arbitrary: ys)
  case Nil
  show ?case
  proof (cases ys)
    case (Cons y ys')
    with Nil.prems(2) [of y] Nil.prems(3) c show ?thesis by (cases "f y") (auto simp: join_comma_Cons)
  qed (use Nil in simp)
next
  case (Cons x xs)
  show ?case
  proof (cases ys)
    case Nil
    with Cons.prems(2) [of x] Cons.prems(3) c show ?thesis by (cases "f x") (auto simp: join_comma_Cons)
  next
    case ys: (Cons y ys')
    let ?r = "\<lambda>ws z. (if ws = [] then [] else CHR '','' # join_comma (map f ws)) @ c # z"
    have e: "f x @ ?r xs s = f y @ ?r ys' t" using Cons.prems(3) ys by (simp add: join_comma_Cons)
    have "value_end (?r ws z)" for ws z using c by (auto simp: value_end_def)
    from Cons.prems(1) [OF _ _ e this this] ys have xy: "x = y" and r: "?r xs s = ?r ys' t" by simp_all
    have "join_comma (map f xs) @ c # s = join_comma (map f ys') @ c # t"
      using r c by (auto split: if_splits)
    then have "xs = ys' \<and> s = t"
    proof (intro Cons.IH)
      show "x' = y' \<and> u = z" if "x' \<in> set xs" "y' \<in> set ys'" "f x' @ u = f y' @ z" "value_end u" "value_end z" for x' y' u z
        by (rule Cons.prems(1) [OF _ _ that(3-5)]) (simp_all add: that(1,2) ys)
      show "f x' \<noteq> [] \<and> hd (f x') \<notin> set '']}''" if "x' \<in> set xs \<union> set ys'" for x'
        by (rule Cons.prems(2)) (use that ys in auto)
    qed
    with ys xy show ?thesis by simp
  qed
qed

text \<open>The first character of a text tells what kind of value it stands for.\<close>

fun json_kind :: "json_value \<Rightarrow> nat" where
  "json_kind (JString s) = 0"
| "json_kind (JNumber n) = 1"
| "json_kind (JBool b) = 2"
| "json_kind JNull = 3"
| "json_kind (JArray vs) = 4"
| "json_kind (JObject ps) = 5"

definition first_kind :: "char \<Rightarrow> nat" where
  "first_kind c =
     (if c = CHR 0x22 then 0 else if c = CHR ''t'' \<or> c = CHR ''f'' then 2 else if c = CHR ''n'' then 3
      else if c = CHR ''['' then 4 else if c = CHR ''{'' then 5 else 1)"

lemma first_kind_number: "digit_char c \<or> c = CHR ''-'' \<Longrightarrow> first_kind c = 1"
  by (auto simp: digit_char_def first_kind_def)

lemma json_text_kind: "wf_json v \<Longrightarrow> first_kind (hd (json_text v @ s)) = json_kind v"
proof (cases v)
  case (JNumber n)
  assume "wf_json v"
  then show ?thesis using JNumber first_kind_number [of "hd n"] by (simp add: number_text_def)
qed (simp_all add: first_kind_def quote_json_def)

lemma json_text_first: "wf_json v \<Longrightarrow> json_text v \<noteq> [] \<and> hd (json_text v) \<notin> set '']},''"
proof (cases v)
  case (JNumber n)
  assume "wf_json v"
  then show ?thesis using JNumber by (auto simp: number_text_def digit_char_def)
qed (simp_all add: quote_json_def)

lemma json_text_same_kind:
  "json_text v @ s = json_text w @ t \<Longrightarrow> wf_json v \<Longrightarrow> wf_json w \<Longrightarrow> json_kind w = json_kind v"
  using json_text_kind [of v s] json_text_kind [of w t] by simp

lemma json_text_split:
  assumes "json_text v @ s = json_text w @ t" and "wf_json v" and "wf_json w" and "value_end s" and "value_end t"
  shows "v = w \<and> s = t"
  using assms
proof (induction v arbitrary: w s t)
  case (JString a)
  from json_text_same_kind [OF JString.prems(1-3)] obtain b where "w = JString b" by (cases w) auto
  with JString.prems(1) quote_split [of a s b t] show ?case by simp
next
  case (JNumber n)
  from json_text_same_kind [OF JNumber.prems(1-3)] obtain m where "w = JNumber m" by (cases w) auto
  with JNumber.prems number_split [of n s m t] show ?case by simp
next
  case (JBool b)
  from json_text_same_kind [OF JBool.prems(1-3)] obtain d where "w = JBool d" by (cases w) auto
  with JBool.prems(1) show ?case by (auto split: if_splits)
next
  case JNull
  from json_text_same_kind [OF JNull.prems(1-3)] have "w = JNull" by (cases w) auto
  with JNull.prems(1) show ?case by simp
next
  case (JArray xs)
  from json_text_same_kind [OF JArray.prems(1-3)] obtain ys where w: "w = JArray ys" by (cases w) auto
  have "xs = ys \<and> s = t"
  proof (rule join_split [where f = json_text and c = "CHR '']''"])
    show "x = y \<and> u = z" if "x \<in> set xs" "y \<in> set ys" "json_text x @ u = json_text y @ z" "value_end u" "value_end z" for x y u z
      using JArray.IH [OF that(1) that(3)] that JArray.prems(2,3) w by (simp add: list_all_iff)
    show "json_text x \<noteq> [] \<and> hd (json_text x) \<notin> set '']}''" if "x \<in> set xs \<union> set ys" for x
      using json_text_first [of x] that JArray.prems(2,3) w by (auto simp: list_all_iff)
    show "join_comma (map json_text xs) @ CHR '']'' # s = join_comma (map json_text ys) @ CHR '']'' # t"
      using JArray.prems(1) w by simp
  qed simp
  with w show ?case by simp
next
  case (JObject xs)
  from json_text_same_kind [OF JObject.prems(1-3)] obtain ys where w: "w = JObject ys" by (cases w) auto
  let ?f = "\<lambda>(k, v). quote_json k @ '':'' @ json_text v"
  have "xs = ys \<and> s = t"
  proof (rule join_split [where f = ?f and c = "CHR ''}''"])
    fix x y u z
    assume a: "x \<in> set xs" "y \<in> set ys" "?f x @ u = ?f y @ z" "value_end u" "value_end z"
    obtain k v k' v' where xy: "x = (k, v)" "y = (k', v')" by (cases x; cases y)
    have "quote_json k @ '':'' @ json_text v @ u = quote_json k' @ '':'' @ json_text v' @ z" using a(3) xy by simp
    from quote_split [OF this] have k: "k = k'" and v: "json_text v @ u = json_text v' @ z" by simp_all
    have "v = v' \<and> u = z"
      using JObject.IH [OF a(1) _ v] a JObject.prems(2,3) w xy by (auto simp: list_all_iff snds.simps)
    with k xy show "x = y \<and> u = z" by simp
  next
    show "?f x \<noteq> [] \<and> hd (?f x) \<notin> set '']}''" for x by (cases x) (simp add: quote_json_def)
    show "join_comma (map ?f xs) @ CHR ''}'' # s = join_comma (map ?f ys) @ CHR ''}'' # t"
      using JObject.prems(1) w by simp
  qed simp
  with w show ?case by simp
qed

lemma wf_normal: "wf_json v \<Longrightarrow> wf_json (normal_json v)"
proof (induction v)
  case (JObject ps)
  then show ?case by (auto simp: list_all_iff snds.simps)
qed (auto simp: list_all_iff)

text \<open>C38: An answer is marked correct exactly when it is present and equal to the stored one as a JSON value,
  where strings are compared without surrounding space and letter case, at any depth, and the order of the properties of
  an object does not matter.\<close>

theorem answers_match_normal_form:
  assumes "wf_json correct" and "\<And>v. submitted = Some v \<Longrightarrow> wf_json v"
  shows "answers_match submitted correct \<longleftrightarrow> map_option normal_json submitted = Some (normal_json correct)"
proof (cases submitted)
  case None
  have "json_text v \<noteq> ''undefined''" if "wf_json v" for v
    using that by (cases v) (auto simp: quote_json_def number_text_def digit_char_def)
  then show ?thesis using wf_normal [OF assms(1)] None by (force simp: answers_match_def canonical_json_text)
next
  case (Some v)
  then have "json_text (normal_json v) @ [] = json_text (normal_json correct) @ [] \<longleftrightarrow> normal_json v = normal_json correct"
    using json_text_split [of "normal_json v" "[]" "normal_json correct" "[]"] wf_normal assms by auto
  with Some show ?thesis by (simp add: answers_match_def canonical_json_text)
qed

theorem answers_match_normal_form_witness:
  "answers_match (Some (JObject [(''b'', JString '' Yes ''), (''a'', JNumber ''1'')]))
     (JObject [(''a'', JNumber ''1''), (''b'', JString ''yes'')])"
  using answers_match_normal_form [of "JObject [(''a'', JNumber ''1''), (''b'', JString ''yes'')]"
      "Some (JObject [(''b'', JString '' Yes ''), (''a'', JNumber ''1'')])"]
  by (simp add: number_text_def digit_char_def js_lower_def lower_of_def js_trim_def js_space_def less_char_def)

end
