(* ===== verification/Quizzes.thy ===== *)
theory Quizzes
  imports Learning_Path Quiz_Answers "HOL-Library.Word"
begin

text \<open>
  Quizzes and their attempts: \<^verbatim>\<open>src/modules/quizzes/quizzes.service.ts\<close>.  Points and scores
  are IEEE doubles, answers are JSON values, and the deterministic shuffle works on 32-bit words as the bitwise
  operators of JavaScript do.
\<close>

unbundle bit_operations_syntax

section \<open>Managing a quiz\<close>

record create_quiz_input =
  cq_lesson_id :: "string option"
  cq_title :: string
  cq_description :: "string option"
  cq_passing_score :: js_double
  cq_time_limit :: "int option"
  cq_max_attempts :: "int option"
  cq_randomize_questions :: "bool option"
  cq_randomize_options :: "bool option"
  cq_show_correct :: "bool option"
  cq_is_required :: "bool option"

text \<open>In an update a missing property is \<^term>\<open>None\<close>; a nullable one may be present and null.\<close>

record update_quiz_input =
  uq_lesson_id :: "string option option"
  uq_title :: "string option"
  uq_description :: "string option option"
  uq_passing_score :: "js_double option"
  uq_time_limit :: "int option option"
  uq_max_attempts :: "int option option"
  uq_randomize_questions :: "bool option"
  uq_randomize_options :: "bool option"
  uq_show_correct :: "bool option"
  uq_is_required :: "bool option"

fun or_else :: "'a option \<Rightarrow> 'a \<Rightarrow> 'a" where
  "or_else None d = d"
| "or_else (Some x) d = x"

definition manageable_course :: "auth_user \<Rightarrow> string \<Rightarrow> lms_db \<Rightarrow> course result" where
  "manageable_course user c db =
     some_or (NotFoundException ''Course not found'') (live_course c db) (\<lambda>r.
     throw_if (\<not> can_manage user (co_instructor_id r)) (NotFoundException ''Course not found'') (Inr r))"

definition assert_lesson_in_course :: "string option \<Rightarrow> string \<Rightarrow> lms_db \<Rightarrow> unit result" where
  "assert_lesson_in_course lesson_id c db =
     (if \<not> opt_truthy lesson_id then Inr ()
      else some_or (NotFoundException ''Lesson not found in course'')
        (find (\<lambda>l. Some (ln_id l) = lesson_id \<and> ln_course_id l = c \<and> ln_deleted_at l = None) (lessons db))
        (\<lambda>_. Inr ()))"

definition create_quiz :: "lms_env \<Rightarrow> auth_user \<Rightarrow> string \<Rightarrow> create_quiz_input \<Rightarrow> (lms_db, quiz) txn" where
  "create_quiz env user c inp db =
     and_then (manageable_course user c db) (\<lambda>_.
     and_then (assert_lesson_in_course (cq_lesson_id inp) c db) (\<lambda>_.
     let q = \<lparr>qz_id = lv_fresh env ''quiz'', qz_course_id = c, qz_lesson_id = cq_lesson_id inp, qz_title = cq_title inp,
           qz_description = cq_description inp, qz_passing_score = cq_passing_score inp,
           qz_time_limit = cq_time_limit inp, qz_max_attempts = cq_max_attempts inp,
           qz_randomize_questions = or_else (cq_randomize_questions inp) False,
           qz_randomize_options = or_else (cq_randomize_options inp) False,
           qz_show_correct = or_else (cq_show_correct inp) True, qz_is_required = or_else (cq_is_required inp) True,
           qz_status = ''draft'', qz_updated_at = lv_now env, qz_deleted_at = None\<rparr> in
     Inr (q, db\<lparr>quizzes := quizzes db @ [q]\<rparr>)))"

definition updated_desc :: "quiz \<Rightarrow> quiz \<Rightarrow> int" where
  "updated_desc a b = qz_updated_at b - qz_updated_at a"

definition list_quizzes :: "auth_user \<Rightarrow> string \<Rightarrow> lms_db \<Rightarrow> quiz list result" where
  "list_quizzes user c db =
     and_then (manageable_course user c db) (\<lambda>_.
     Inr (take max_unpaginated (js_sort updated_desc
       (filter (\<lambda>q. qz_course_id q = c \<and> qz_deleted_at q = None) (quizzes db)))))"

definition manageable_quiz :: "auth_user \<Rightarrow> string \<Rightarrow> lms_db \<Rightarrow> quiz result" where
  "manageable_quiz user i db =
     some_or (NotFoundException ''Quiz not found'') (find (\<lambda>q. qz_id q = i \<and> qz_deleted_at q = None) (quizzes db)) (\<lambda>q.
     and_then (or_throw (find_course (qz_course_id q) db)) (\<lambda>r.
     throw_if (\<not> can_manage user (co_instructor_id r)) (NotFoundException ''Quiz not found'') (Inr q)))"

definition set_quiz :: "quiz \<Rightarrow> lms_db \<Rightarrow> lms_db" where
  "set_quiz q db = db\<lparr>quizzes := update_where (\<lambda>x. qz_id x = qz_id q) (\<lambda>_. q) (quizzes db)\<rparr>"

definition update_quiz :: "auth_user \<Rightarrow> string \<Rightarrow> update_quiz_input \<Rightarrow> int \<Rightarrow> (lms_db, quiz) txn" where
  "update_quiz user i inp now db =
     and_then (manageable_quiz user i db) (\<lambda>q.
     and_then (assert_lesson_in_course (or_else (uq_lesson_id inp) None) (qz_course_id q) db) (\<lambda>_.
     let q' = q\<lparr>qz_lesson_id := or_else (uq_lesson_id inp) (qz_lesson_id q),
           qz_title := or_else (uq_title inp) (qz_title q),
           qz_description := or_else (uq_description inp) (qz_description q),
           qz_passing_score := or_else (uq_passing_score inp) (qz_passing_score q),
           qz_time_limit := or_else (uq_time_limit inp) (qz_time_limit q),
           qz_max_attempts := or_else (uq_max_attempts inp) (qz_max_attempts q),
           qz_randomize_questions := or_else (uq_randomize_questions inp) (qz_randomize_questions q),
           qz_randomize_options := or_else (uq_randomize_options inp) (qz_randomize_options q),
           qz_show_correct := or_else (uq_show_correct inp) (qz_show_correct q),
           qz_is_required := or_else (uq_is_required inp) (qz_is_required q), qz_updated_at := now\<rparr> in
     Inr (q', set_quiz q' db)))"

definition publish_quiz :: "auth_user \<Rightarrow> string \<Rightarrow> int \<Rightarrow> (lms_db, quiz) txn" where
  "publish_quiz user i now db =
     and_then (manageable_quiz user i db) (\<lambda>q.
     let q' = q\<lparr>qz_status := ''published'', qz_updated_at := now\<rparr> in
     and_then (add_lms_audit \<lparr>ai_actor_kind = None, ai_actor_id = Some (au_id user), ai_action = ''QUIZ_PUBLISHED'',
         ai_target_type = ''quiz'', ai_target_id = i, ai_metadata = [(''status'', MString ''published'')]\<rparr>
       (set_quiz q' db)) (\<lambda>db'.
     Inr (q', db')))"

definition delete_quiz :: "auth_user \<Rightarrow> string \<Rightarrow> int \<Rightarrow> (lms_db, unit) txn" where
  "delete_quiz user i now db =
     and_then (manageable_quiz user i db) (\<lambda>q.
     Inr ((), set_quiz (q\<lparr>qz_deleted_at := Some now, qz_status := ''archived'', qz_updated_at := now\<rparr>) db))"

section \<open>Managing its questions\<close>

record question_input =
  qi_type :: "string option"
  qi_text :: "string option"
  qi_options :: "json_value option option"
  qi_correct :: "json_value option"
  qi_explanation :: "string option option"
  qi_points :: "js_double option"
  qi_order_index :: "int option"

definition order_conflict :: api_error where
  "order_conflict = ConflictException ''Question order index is already in use''"

text \<open>The unique index on quiz and order: \<^verbatim>\<open>P2002\<close> becomes the conflict.\<close>

definition order_taken :: "question \<Rightarrow> lms_db \<Rightarrow> bool" where
  "order_taken x db =
     list_ex (\<lambda>y. qu_id y \<noteq> qu_id x \<and> qu_quiz_id y = qu_quiz_id x \<and> qu_order_index y = qu_order_index x) (questions db)"

text \<open>A new question comes with its type, text, correct answer, points and order.\<close>

definition create_question ::
  "lms_env \<Rightarrow> auth_user \<Rightarrow> string \<Rightarrow> question \<Rightarrow> (lms_db, question) txn" where
  "create_question env user quiz_id inp db =
     and_then (manageable_quiz user quiz_id db) (\<lambda>_.
     let x = inp\<lparr>qu_id := lv_fresh env ''question'', qu_quiz_id := quiz_id\<rparr> in
     throw_if (order_taken x db) order_conflict (Inr (x, db\<lparr>questions := questions db @ [x]\<rparr>)))"

definition by_order :: "question \<Rightarrow> question \<Rightarrow> int" where
  "by_order a b = qu_order_index a - qu_order_index b"

definition list_questions :: "auth_user \<Rightarrow> string \<Rightarrow> lms_db \<Rightarrow> question list result" where
  "list_questions user quiz_id db =
     and_then (manageable_quiz user quiz_id db) (\<lambda>_.
     Inr (take max_unpaginated (js_sort by_order (filter (\<lambda>x. qu_quiz_id x = quiz_id) (questions db)))))"

definition manageable_question :: "auth_user \<Rightarrow> string \<Rightarrow> lms_db \<Rightarrow> question result" where
  "manageable_question user i db =
     some_or (NotFoundException ''Question not found'')
       (find (\<lambda>x. qu_id x = i
          \<and> find (\<lambda>q. qz_id q = qu_quiz_id x \<and> qz_deleted_at q = None) (quizzes db) \<noteq> None) (questions db)) (\<lambda>x.
     and_then (or_throw (find (\<lambda>q. qz_id q = qu_quiz_id x) (quizzes db))) (\<lambda>q.
     and_then (or_throw (find_course (qz_course_id q) db)) (\<lambda>r.
     throw_if (\<not> can_manage user (co_instructor_id r)) (NotFoundException ''Question not found'') (Inr x))))"

definition update_question :: "auth_user \<Rightarrow> string \<Rightarrow> question_input \<Rightarrow> (lms_db, question) txn" where
  "update_question user i inp db =
     and_then (manageable_question user i db) (\<lambda>x.
     let x' = x\<lparr>qu_type := or_else (qi_type inp) (qu_type x), qu_text := or_else (qi_text inp) (qu_text x),
           qu_options := or_else (qi_options inp) (qu_options x), qu_correct := or_else (qi_correct inp) (qu_correct x),
           qu_explanation := or_else (qi_explanation inp) (qu_explanation x),
           qu_points := or_else (qi_points inp) (qu_points x),
           qu_order_index := or_else (qi_order_index inp) (qu_order_index x)\<rparr> in
     throw_if (order_taken x' db) order_conflict (
     Inr (x', db\<lparr>questions := update_where (\<lambda>y. qu_id y = i) (\<lambda>_. x') (questions db)\<rparr>)))"

definition delete_question :: "auth_user \<Rightarrow> string \<Rightarrow> (lms_db, unit) txn" where
  "delete_question user i db =
     and_then (manageable_question user i db) (\<lambda>_.
     Inr ((), db\<lparr>questions := filter (\<lambda>y. qu_id y \<noteq> i) (questions db)\<rparr>))"

section \<open>Checking and scoring answers\<close>

definition answer_of :: "(string \<times> json_value) list \<Rightarrow> string \<Rightarrow> json_value option" where
  "answer_of answers i = map_option snd (find (\<lambda>p. fst p = i) answers)"

definition validate_answer_set :: "question list \<Rightarrow> (string \<times> json_value) list \<Rightarrow> unit result" where
  "validate_answer_set qs answers =
     throw_if (length answers \<noteq> length qs \<or> length (remdups (map fst answers)) \<noteq> length answers
         \<or> list_ex (\<lambda>i. i \<notin> qu_id ` set qs) (map fst answers))
       (BadRequestException ''Each quiz question must be answered once'') (
     throw_if (list_ex (\<lambda>x. \<not> is_compatible_answer (qu_type x) (answer_of answers (qu_id x))) qs)
       (BadRequestException ''Answer type does not match question type'') (Inr ()))"

section \<open>Scoring\<close>

definition max_score :: "question list \<Rightarrow> js_double" where
  "max_score qs = fold (\<lambda>x acc. double_add acc (qu_points x)) qs (double_of_int 0)"

text \<open>\<^verbatim>\<open>new Map(...)\<close>: the last answer of a question counts.\<close>

definition mapped_answer :: "(string \<times> json_value) list \<Rightarrow> string \<Rightarrow> json_value option" where
  "mapped_answer answers i = map_of (rev answers) i"

definition correct_answer :: "(string \<times> json_value) list \<Rightarrow> question \<Rightarrow> bool" where
  "correct_answer answers x = answers_match (mapped_answer answers (qu_id x)) (qu_correct x)"

definition score_of :: "question list \<Rightarrow> (string \<times> json_value) list \<Rightarrow> js_double" where
  "score_of qs answers =
     fold (\<lambda>x acc. if correct_answer answers x then double_add acc (qu_points x) else acc) qs (double_of_int 0)"

definition score_percent :: "js_double \<Rightarrow> js_double \<Rightarrow> js_double" where
  "score_percent score maximum =
     (if double_zero maximum then double_of_int 0 else double_mult (double_div score maximum) (double_of_int 100))"

definition passes :: "js_double \<Rightarrow> js_double \<Rightarrow> js_double \<Rightarrow> bool" where
  "passes score maximum passing = double_le passing (score_percent score maximum)"

definition round_score :: "js_double \<Rightarrow> js_double" where
  "round_score x = double_div (double_of_int (math_round (double_mult x (double_of_int 100)))) (double_of_int 100)"

section \<open>Attempts\<close>

record attempt_response =
  tr_attempt :: quiz_attempt
  tr_score_percent :: js_double
  tr_answers :: "(string \<times> json_value option \<times> bool) list option"

definition published_quiz :: "string \<Rightarrow> lms_db \<Rightarrow> quiz option" where
  "published_quiz i db =
     find (\<lambda>q. qz_id q = i \<and> qz_deleted_at q = None \<and> qz_status q = ''published''
       \<and> live_course (qz_course_id q) db \<noteq> None) (quizzes db)"

definition quiz_questions :: "string \<Rightarrow> lms_db \<Rightarrow> question list" where
  "quiz_questions i db = js_sort by_order (filter (\<lambda>x. qu_quiz_id x = i) (questions db))"

definition submitted_attempts :: "string \<Rightarrow> string \<Rightarrow> lms_db \<Rightarrow> int" where
  "submitted_attempts i u db =
     count_where (\<lambda>a. qa_quiz_id a = i \<and> qa_user_id a = u \<and> qa_submitted_at a \<noteq> None) (quiz_attempts db)"

definition limit_reached :: "quiz \<Rightarrow> string \<Rightarrow> lms_db \<Rightarrow> bool" where
  "limit_reached q u db =
     (case qz_max_attempts q of None \<Rightarrow> False | Some n \<Rightarrow> submitted_attempts (qz_id q) u db \<ge> n)"

definition submit_attempt ::
  "lms_env \<Rightarrow> string \<Rightarrow> string \<Rightarrow> (string \<times> json_value) list \<Rightarrow> (lms_db, attempt_response \<times> issued_notice option) txn" where
  "submit_attempt env u quiz_id answers db =
     some_or (NotFoundException ''Quiz not found'') (published_quiz quiz_id db) (\<lambda>q.
     and_then (require_access env (student_request u (qz_course_id q)) db) (\<lambda>_.
     and_then (assert_student_step_accessible env u quiz_id QUIZ db) (\<lambda>_.
     let qs = quiz_questions quiz_id db in
     and_then (validate_answer_set qs answers) (\<lambda>_.
     let maximum = max_score qs; score = score_of qs answers in
     throw_if (limit_reached q u db) (BadRequestException ''Quiz attempt limit reached'') (
     let created = \<lparr>qa_id = lv_fresh env ''attempt'', qa_quiz_id = quiz_id, qa_user_id = u, qa_score = Some score,
           qa_max_score = Some maximum, qa_passed = Some (passes score maximum (qz_passing_score q)),
           qa_answers = answers, qa_submitted_at = Some (lv_now env), qa_created_at = lv_now env\<rparr> in
     and_then (evaluate_and_sync env u (qz_course_id q) (db\<lparr>quiz_attempts := quiz_attempts db @ [created]\<rparr>))
       (\<lambda>(completion, db').
     Inr ((\<lparr>tr_attempt = created, tr_score_percent = round_score (score_percent score maximum),
            tr_answers = (if qz_show_correct q
              then Some (map (\<lambda>x. (qu_id x, mapped_answer answers (qu_id x), correct_answer answers x)) qs) else None)\<rparr>,
           ev_certificate_issued completion), db')))))))"

definition attempts_desc :: "quiz_attempt \<Rightarrow> quiz_attempt \<Rightarrow> int" where
  "attempts_desc a b = qa_created_at b - qa_created_at a"

definition list_my_attempts ::
  "lms_env \<Rightarrow> string \<Rightarrow> string \<Rightarrow> lms_db \<Rightarrow> (quiz_attempt \<times> js_double) list result" where
  "list_my_attempts env u quiz_id db =
     and_then (assert_student_step_accessible env u quiz_id QUIZ db) (\<lambda>_.
     Inr (map (\<lambda>a. (a, case (qa_score a, qa_max_score a) of
              (Some s, Some n) \<Rightarrow> if double_zero n then double_of_int 0
                else round_score (double_mult (double_div s n) (double_of_int 100))
            | _ \<Rightarrow> double_of_int 0))
       (take max_unpaginated (js_sort attempts_desc
         (filter (\<lambda>a. qa_quiz_id a = quiz_id \<and> qa_user_id a = u) (quiz_attempts db))))))"

section \<open>The student's view\<close>

text \<open>FNV-1a over the seed, then one xorshift step per position.\<close>

definition fnv_step :: "32 word \<Rightarrow> char \<Rightarrow> 32 word" where
  "fnv_step state c = (state XOR word_of_int (of_char c)) * 16777619"

definition seed_state :: "string \<Rightarrow> 32 word" where
  "seed_state seed = foldl fnv_step 2166136261 seed"

definition xorshift :: "32 word \<Rightarrow> 32 word" where
  "xorshift state =
     (let a = state XOR push_bit 13 state; b = a XOR drop_bit 17 a in b XOR push_bit 5 b)"

definition swap_at :: "nat \<Rightarrow> nat \<Rightarrow> 'a list \<Rightarrow> 'a list" where
  "swap_at i j xs = xs[i := xs ! j, j := xs ! i]"

fun shuffle_loop :: "32 word \<Rightarrow> nat \<Rightarrow> 'a list \<Rightarrow> 'a list" where
  "shuffle_loop state 0 xs = xs"
| "shuffle_loop state (Suc i) xs =
     (let state' = xorshift state in
      shuffle_loop state' i (swap_at (Suc i) (unat state' mod (Suc i + 1)) xs))"

definition shuffle_deterministically :: "'a list \<Rightarrow> string \<Rightarrow> 'a list" where
  "shuffle_deterministically items seed = shuffle_loop (seed_state seed) (length items - 1) items"

record student_question =
  sq_id :: string
  sq_quiz_id :: string
  sq_type :: string
  sq_text :: string
  sq_options :: "json_value option"
  sq_points :: js_double
  sq_order_index :: int

definition attempt_seed :: "string \<Rightarrow> string \<Rightarrow> int \<Rightarrow> string \<Rightarrow> string" where
  "attempt_seed quiz_id u prior suffix = quiz_id @ '':'' @ u @ '':'' @ show_nat (nat prior) @ '':'' @ suffix"

definition student_view :: "quiz \<Rightarrow> string \<Rightarrow> int \<Rightarrow> question list \<Rightarrow> student_question list" where
  "student_view q u prior qs =
     (let shown = (if qz_randomize_questions q
          then shuffle_deterministically qs (attempt_seed (qz_id q) u prior ''questions'') else qs) in
      map (\<lambda>(index, x). \<lparr>sq_id = qu_id x, sq_quiz_id = qu_quiz_id x, sq_type = qu_type x, sq_text = qu_text x,
          sq_options = (case qu_options x of
              Some (JArray vs) \<Rightarrow> Some (JArray (if qz_randomize_options q
                then shuffle_deterministically vs (attempt_seed (qz_id q) u prior (qu_id x @ '':options'')) else vs))
            | other \<Rightarrow> other),
          sq_points = qu_points x,
          sq_order_index = (if qz_randomize_questions q then int index + 1 else qu_order_index x)\<rparr>)
        (zip [0..<length shown] shown))"

definition get_student_quiz :: "lms_env \<Rightarrow> string \<Rightarrow> string \<Rightarrow> lms_db \<Rightarrow> (quiz \<times> student_question list) result" where
  "get_student_quiz env u quiz_id db =
     some_or (NotFoundException ''Quiz not found'') (published_quiz quiz_id db) (\<lambda>q.
     and_then (require_access env (student_request u (qz_course_id q)) db) (\<lambda>_.
     and_then (assert_student_step_accessible env u quiz_id QUIZ db) (\<lambda>_.
     Inr (q, student_view q u (submitted_attempts quiz_id u db) (quiz_questions quiz_id db)))))"

definition list_student_quizzes :: "lms_env \<Rightarrow> string \<Rightarrow> string \<Rightarrow> lms_db \<Rightarrow> quiz list result" where
  "list_student_quizzes env u c db =
     and_then (require_access env (student_request u c) db) (\<lambda>_.
     Inr (take max_unpaginated (js_sort updated_desc (filter (\<lambda>q. qz_course_id q = c \<and> qz_deleted_at q = None
       \<and> qz_status q = ''published'' \<and> live_course c db \<noteq> None) (quizzes db)))))"

section \<open>The shuffle\<close>

lemma mset_swap_at: "i < length xs \<Longrightarrow> j < length xs \<Longrightarrow> mset (swap_at i j xs) = mset xs"
  by (simp add: swap_at_def mset_swap)

lemma length_swap_at [simp]: "length (swap_at i j xs) = length xs"
  by (simp add: swap_at_def)

lemma mset_shuffle_loop: "i < length xs \<or> i = 0 \<Longrightarrow> mset (shuffle_loop state i xs) = mset xs"
proof (induction i arbitrary: state xs)
  case 0
  then show ?case by simp
next
  case (Suc i)
  let ?j = "unat (xorshift state) mod (Suc i + 1)"
  have "?j < Suc i + 1" by simp
  then have "?j < length xs" using Suc.prems by linarith
  then have "mset (swap_at (Suc i) ?j xs) = mset xs" using Suc.prems by (intro mset_swap_at) auto
  moreover have "mset (shuffle_loop (xorshift state) i (swap_at (Suc i) ?j xs)) = mset (swap_at (Suc i) ?j xs)"
    using Suc.prems by (intro Suc.IH) simp
  ultimately show ?case by (simp add: Let_def)
qed

lemma mset_shuffle [simp]: "mset (shuffle_deterministically xs seed) = mset xs"
  unfolding shuffle_deterministically_def by (rule mset_shuffle_loop) (cases xs; simp)

lemma length_shuffle [simp]: "length (shuffle_deterministically xs seed) = length xs"
  by (metis mset_shuffle size_mset)

text \<open>What a question shows apart from its place, with the options as a multiset.\<close>

definition shown_options :: "json_value option \<Rightarrow> json_value multiset + json_value option" where
  "shown_options opts = (case opts of Some (JArray vs) \<Rightarrow> Inl (mset vs) | other \<Rightarrow> Inr other)"

lemma numbered:
  "map (\<lambda>(i, x). if b then int i + 1 else f x) (zip [0..<length xs] xs) =
    (if b then map int [1..<Suc (length xs)] else map f xs)"
proof (cases b)
  case True
  show ?thesis by (rule nth_equalityI) (simp_all add: True nth_upt del: upt_Suc)
next
  case False
  show ?thesis by (rule nth_equalityI) (simp_all add: False)
qed

text \<open>Shuffling never loses, repeats or alters anything: the student's view of a quiz shows exactly its
  questions, each with exactly its options; the questions are numbered 1, 2, 3, ... when they are shuffled and keep
  their order numbers when they are not.\<close>

theorem student_view_is_permutation:
  "mset (map (\<lambda>s. (sq_id s, sq_quiz_id s, sq_type s, sq_text s, shown_options (sq_options s), sq_points s))
       (student_view q u prior qs))
     = mset (map (\<lambda>x. (qu_id x, qu_quiz_id x, qu_type x, qu_text x, shown_options (qu_options x), qu_points x)) qs)
   \<and> map sq_order_index (student_view q u prior qs)
     = (if qz_randomize_questions q then map int [1..<Suc (length qs)] else map qu_order_index qs)"
proof -
  let ?shown = "if qz_randomize_questions q
     then shuffle_deterministically qs (attempt_seed (qz_id q) u prior ''questions'') else qs"
  let ?key = "\<lambda>x. (qu_id x, qu_quiz_id x, qu_type x, qu_text x, shown_options (qu_options x), qu_points x)"
  have o: "shown_options (case opts of
        Some (JArray vs) \<Rightarrow> Some (JArray (if b then shuffle_deterministically vs seed else vs)) | other \<Rightarrow> other)
      = shown_options opts" for opts b seed
    by (simp add: shown_options_def split: option.split json_value.split)
  have "map (\<lambda>s. (sq_id s, sq_quiz_id s, sq_type s, sq_text s, shown_options (sq_options s), sq_points s))
       (student_view q u prior qs) = map (\<lambda>(i, x). ?key x) (zip [0..<length ?shown] ?shown)"
    unfolding student_view_def Let_def map_map by (rule map_cong [OF refl]) (simp add: o split: prod.split)
  also have "\<dots> = map ?key ?shown" by (simp add: map_zip_map2 comp_def case_prod_unfold flip: map_map [of ?key snd, unfolded comp_def])
  finally have 1: "mset (map (\<lambda>s. (sq_id s, sq_quiz_id s, sq_type s, sq_text s, shown_options (sq_options s), sq_points s))
       (student_view q u prior qs)) = image_mset ?key (mset ?shown)" by simp
  have l: "length ?shown = length qs" by simp
  have "map sq_order_index (student_view q u prior qs) =
      map (\<lambda>(i, x). if qz_randomize_questions q then int i + 1 else qu_order_index x) (zip [0..<length ?shown] ?shown)"
    unfolding student_view_def Let_def map_map by (rule map_cong [OF refl]) (simp split: prod.split)
  also have "\<dots> = (if qz_randomize_questions q then map int [1..<Suc (length qs)] else map qu_order_index qs)"
    by (subst numbered) (simp add: l del: upt_Suc)
  finally show ?thesis using 1 by (simp add: mset_shuffle)
qed

section \<open>Passing\<close>

lemma score_percent_error:
  assumes "0 \<le> fst s" and "0 < fst M"
  shows "\<bar>dval (score_percent s M) - 100 * (dval s / dval M)\<bar> \<le> 100 * (dval s / dval M) / 2 ^ 51"
proof -
  obtain m k m' k' where sM: "s = (m, k)" "M = (m', k')" by (cases s; cases M)
  let ?q = "dval s / dval M" and ?x = "double_div s M"
  have eq: "real_of_int (m * 2 ^ k') / real_of_int (m' * 2 ^ k) = ?q"
    using assms by (simp add: sM dval_def)
  have n: "0 \<le> m * 2 ^ k'" "0 < m' * 2 ^ k" using assms by (simp_all add: sM)
  have q: "0 \<le> ?q" using assms by (simp add: sM dval_def)
  have x: "\<bar>dval ?x - ?q\<bar> \<le> ?q / 2 ^ 53" using double_error [OF n] unfolding eq by (simp add: sM)
  have "0 \<le> fst ?x" using fst_double_nonneg [OF n] by (simp add: sM)
  then have y: "\<bar>dval (double_mult ?x (double_of_int 100)) - dval ?x * 100\<bar> \<le> dval ?x * 100 / 2 ^ 53"
    using double_mult_of_int_error [of ?x 100] by simp
  have p: "score_percent s M = double_mult ?x (double_of_int 100)"
    using assms by (simp add: score_percent_def double_zero_def)
  have "dval ?x \<le> ?q + ?q / 2 ^ 53" using x by linarith
  with x y q show ?thesis unfolding p by (simp add: abs_le_iff) argo
qed

text \<open>C36: The pass decision compares a percentage computed in doubles.  It is right whenever the exact
  percentage is above the passing score, or below it, by more than one part in \<^verbatim>\<open>2^51\<close>; but at the
  boundary itself it can be wrong: 57 of 100 points do not pass a quiz whose passing score is 57.\<close>

theorem quiz_pass_threshold:
  assumes "0 \<le> fst score" and "0 < fst maximum"
  shows "(dval passing \<le> 100 * (dval score / dval maximum) * (1 - 1 / 2 ^ 51) \<longrightarrow> passes score maximum passing)
    \<and> (100 * (dval score / dval maximum) * (1 + 1 / 2 ^ 51) < dval passing \<longrightarrow> \<not> passes score maximum passing)
    \<and> \<not> passes (double_of_int 57) (double_of_int 100) (double_of_int 57)"
proof -
  note e = score_percent_error [OF assms]
  have "\<not> passes (double_of_int 57) (double_of_int 100) (double_of_int 57)" by code_simp
  with e show ?thesis by (simp add: passes_def double_le_dval abs_le_iff)
qed

theorem quiz_pass_threshold_witness:
  "passes (double_of_int 58) (double_of_int 100) (double_of_int 57)
   \<and> \<not> passes (double_of_int 56) (double_of_int 100) (double_of_int 57)"
  using quiz_pass_threshold [of "double_of_int 58" "double_of_int 100" "double_of_int 57"]
    quiz_pass_threshold [of "double_of_int 56" "double_of_int 100" "double_of_int 57"]
  by (simp add: double_of_int_def dval_def)

section \<open>Submitting an attempt\<close>

text \<open>A set of answers is complete when it answers every question exactly once.\<close>

lemma answer_set_complete:
  assumes "distinct (map qu_id qs)"
  shows "(length answers \<noteq> length qs \<or> length (remdups (map fst answers)) \<noteq> length answers
      \<or> list_ex (\<lambda>i. i \<notin> qu_id ` set qs) (map fst answers)) \<longleftrightarrow> mset (map fst answers) \<noteq> mset (map qu_id qs)"
    (is "?bad \<longleftrightarrow> ?ne")
proof
  assume "?ne"
  then show "?bad"
  proof (rule contrapos_np)
    assume "\<not> ?bad"
    then have l: "length answers = length qs" and d: "length (remdups (map fst answers)) = length (map fst answers)"
      and s: "set (map fst answers) \<subseteq> set (map qu_id qs)"
      by (auto simp: list_ex_iff)
    have "distinct (map fst answers)" using d by (simp only: remdups_id_iff_distinct [symmetric] length_remdups_eq)
    moreover from this have "set (map fst answers) = set (map qu_id qs)"
      using s l assms by (metis card_subset_eq distinct_card finite_set length_map)
    ultimately show "mset (map fst answers) = mset (map qu_id qs)"
      using assms by (simp only: set_eq_iff_mset_eq_distinct)
  qed
next
  assume "?bad"
  then show "?ne"
  proof (rule contrapos_pn)
    assume eq: "mset (map fst answers) = mset (map qu_id qs)"
    then have "length answers = length qs" by (metis length_map size_mset)
    moreover have s: "set (map fst answers) = set (map qu_id qs)" using eq by (rule mset_eq_setD)
    moreover have "distinct (map fst answers)" using eq assms by (metis mset_eq_imp_distinct_iff)
    then have "length (remdups (map fst answers)) = length answers" by (simp add: distinct_remdups_id)
    ultimately show "\<not> ?bad" by (auto simp: list_ex_iff)
  qed
qed

lemma quiz_questions_ids: "set (quiz_questions i db) = {x \<in> set (questions db). qu_quiz_id x = i}"
  by (simp add: quiz_questions_def)

text \<open>The rest of the handler once the learner may open the quiz.\<close>

lemma submit_attempt_admitted:
  assumes "published_quiz quiz_id db = Some q"
    and "ad_allowed (decide_access env (student_request u (qz_course_id q)) db)"
    and "assert_student_step_accessible env u quiz_id QUIZ db = Inr ()"
    and "distinct (map qu_id (quiz_questions quiz_id db))"
  shows "submit_attempt env u quiz_id answers db =
    (let qs = quiz_questions quiz_id db in
     throw_if (mset (map fst answers) \<noteq> mset (map qu_id qs))
       (BadRequestException ''Each quiz question must be answered once'') (
     throw_if (list_ex (\<lambda>x. \<not> is_compatible_answer (qu_type x) (answer_of answers (qu_id x))) qs)
       (BadRequestException ''Answer type does not match question type'') (
     throw_if (limit_reached q u db) (BadRequestException ''Quiz attempt limit reached'') (
     let created = \<lparr>qa_id = lv_fresh env ''attempt'', qa_quiz_id = quiz_id, qa_user_id = u,
           qa_score = Some (score_of qs answers), qa_max_score = Some (max_score qs),
           qa_passed = Some (passes (score_of qs answers) (max_score qs) (qz_passing_score q)),
           qa_answers = answers, qa_submitted_at = Some (lv_now env), qa_created_at = lv_now env\<rparr> in
     and_then (evaluate_and_sync env u (qz_course_id q) (db\<lparr>quiz_attempts := quiz_attempts db @ [created]\<rparr>))
       (\<lambda>(completion, db').
     Inr ((\<lparr>tr_attempt = created, tr_score_percent = round_score (score_percent (score_of qs answers) (max_score qs)),
            tr_answers = (if qz_show_correct q
              then Some (map (\<lambda>x. (qu_id x, mapped_answer answers (qu_id x), correct_answer answers x)) qs) else None)\<rparr>,
           ev_certificate_issued completion), db'))))))"
  using assms answer_set_complete [OF assms(4), of answers]
  by (simp add: submit_attempt_def require_access_def Let_def validate_answer_set_def throw_if_def)

text \<open>The attempt that is stored, and the reason for which a submission fails.\<close>

definition stored_attempt :: "lms_env \<Rightarrow> string \<Rightarrow> quiz \<Rightarrow> (string \<times> json_value) list \<Rightarrow> lms_db \<Rightarrow> quiz_attempt" where
  "stored_attempt env u q answers db =
     (let qs = quiz_questions (qz_id q) db in
      \<lparr>qa_id = lv_fresh env ''attempt'', qa_quiz_id = qz_id q, qa_user_id = u, qa_score = Some (score_of qs answers),
       qa_max_score = Some (max_score qs),
       qa_passed = Some (passes (score_of qs answers) (max_score qs) (qz_passing_score q)), qa_answers = answers,
       qa_submitted_at = Some (lv_now env), qa_created_at = lv_now env\<rparr>)"

definition with_attempt :: "quiz_attempt \<Rightarrow> lms_db \<Rightarrow> lms_db" where
  "with_attempt a db = db\<lparr>quiz_attempts := quiz_attempts db @ [a]\<rparr>"

definition submission_refusal :: "lms_env \<Rightarrow> string \<Rightarrow> quiz \<Rightarrow> (string \<times> json_value) list \<Rightarrow> lms_db \<Rightarrow> api_error option" where
  "submission_refusal env u q answers db =
     (let qs = quiz_questions (qz_id q) db in
      if mset (map fst answers) \<noteq> mset (map qu_id qs) then Some (BadRequestException ''Each quiz question must be answered once'')
      else if \<not> list_all (\<lambda>x. is_compatible_answer (qu_type x) (answer_of answers (qu_id x))) qs
      then Some (BadRequestException ''Answer type does not match question type'')
      else if limit_reached q u db then Some (BadRequestException ''Quiz attempt limit reached'')
      else completion_refusal env u (qz_course_id q) (with_attempt (stored_attempt env u q answers db) db))"

lemma submit_attempt_admitted_eq:
  assumes "published_quiz quiz_id db = Some q"
    and "ad_allowed (decide_access env (student_request u (qz_course_id q)) db)"
    and "assert_student_step_accessible env u quiz_id QUIZ db = Inr ()"
    and "distinct (map qu_id (quiz_questions quiz_id db))"
  shows "submit_attempt env u quiz_id answers db =
    (let qs = quiz_questions quiz_id db; created = stored_attempt env u q answers db in
     throw_if (mset (map fst answers) \<noteq> mset (map qu_id qs))
       (BadRequestException ''Each quiz question must be answered once'') (
     throw_if (\<not> list_all (\<lambda>x. is_compatible_answer (qu_type x) (answer_of answers (qu_id x))) qs)
       (BadRequestException ''Answer type does not match question type'') (
     throw_if (limit_reached q u db) (BadRequestException ''Quiz attempt limit reached'') (
     and_then (evaluate_and_sync env u (qz_course_id q) (with_attempt created db)) (\<lambda>(completion, db').
     Inr ((\<lparr>tr_attempt = created, tr_score_percent = round_score (score_percent (score_of qs answers) (max_score qs)),
            tr_answers = (if qz_show_correct q
              then Some (map (\<lambda>x. (qu_id x, mapped_answer answers (qu_id x), correct_answer answers x)) qs) else None)\<rparr>,
           ev_certificate_issued completion), db'))))))"
proof -
  have ex: "list_ex (\<lambda>x. \<not> P x) xs = (\<not> list_all P xs)" for P and xs :: "question list"
    by (auto simp: list_ex_iff list_all_iff)
  have i: "qz_id q = quiz_id" using assms(1) by (auto simp: published_quiz_def dest: find_SomeD)
  show ?thesis
    unfolding submit_attempt_admitted [OF assms] Let_def ex stored_attempt_def with_attempt_def i by (rule refl)
qed

text \<open>C27: A learner who may open a quiz gets exactly one of two outcomes.  Either the submission fails, with nothing
  stored, for the first of these reasons that holds: the answers do not cover every question exactly once; an answer has
  the wrong type for its question; the limit of attempts is reached; the attempt completes the course, or the course was
  completed before, and the certificate cannot be issued (no template, a code that is taken, an empty user id), or there
  is no enrollment.  Or there is no such reason, and the submission succeeds: exactly one attempt is added, with the score
  of its answers and the pass decision, and the response carries that attempt.\<close>

theorem submission_rejections:
  assumes "published_quiz quiz_id db = Some q"
    and "ad_allowed (decide_access env (student_request u (qz_course_id q)) db)"
    and "assert_student_step_accessible env u quiz_id QUIZ db = Inr ()"
    and "distinct (map qu_id (quiz_questions quiz_id db))"
  shows "case submission_refusal env u q answers db of
      Some e \<Rightarrow> submit_attempt env u quiz_id answers db = Inl e
    | None \<Rightarrow> (\<exists>r notice db'. submit_attempt env u quiz_id answers db = Inr ((r, notice), db')
        \<and> tr_attempt r = stored_attempt env u q answers db
        \<and> quiz_attempts db' = quiz_attempts db @ [stored_attempt env u q answers db]
        \<and> submitted_attempts quiz_id u db' = submitted_attempts quiz_id u db + 1)"
proof -
  let ?a = "stored_attempt env u q answers db" and ?c = "qz_course_id q"
  have i: "qz_id q = quiz_id" using assms(1) by (auto simp: published_quiz_def dest: find_SomeD)
  have "find_course ?c db \<noteq> None"
    using assms(2) unfolding learning_access_iff by (auto simp: course_open_def split: option.splits)
  then have c: "find_course ?c (with_attempt ?a db) \<noteq> None" by (simp add: with_attempt_def find_course_def)
  note refused = completion_refusal_exact [OF c, of env u]
  note eq = submit_attempt_admitted_eq [OF assms, of answers]
  have stored: "quiz_attempts db' = quiz_attempts db @ [?a] \<and> submitted_attempts quiz_id u db' = submitted_attempts quiz_id u db + 1"
    if "evaluate_and_sync env u ?c (with_attempt ?a db) = Inr (ev, db')" for ev db'
    using evaluate_same_content [OF that] i
    by (simp add: same_content_def with_attempt_def submitted_attempts_def stored_attempt_def Let_def)
  show ?thesis
  proof (cases "mset (map fst answers) = mset (map qu_id (quiz_questions quiz_id db))
      \<and> list_all (\<lambda>x. is_compatible_answer (qu_type x) (answer_of answers (qu_id x))) (quiz_questions quiz_id db)
      \<and> \<not> limit_reached q u db")
    case True
    then have r: "submission_refusal env u q answers db = completion_refusal env u ?c (with_attempt ?a db)"
      by (simp add: submission_refusal_def Let_def i)
    show ?thesis
    proof (cases "completion_refusal env u ?c (with_attempt ?a db)")
      case None
      then obtain ev db' where "evaluate_and_sync env u ?c (with_attempt ?a db) = Inr (ev, db')"
        using refused by (auto simp: is_ok_iff)
      with stored [OF this] True None r show ?thesis by (simp add: eq Let_def throw_if_def)
    next
      case (Some e)
      with refused True r show ?thesis by (simp add: eq Let_def throw_if_def)
    qed
  next
    case False
    then show ?thesis by (auto simp: submission_refusal_def Let_def i eq throw_if_def)
  qed
qed

text \<open>A course with one quiz of one question.\<close>

definition sample_quiz :: quiz where
  "sample_quiz = \<lparr>qz_id = ''q'', qz_course_id = ''c'', qz_lesson_id = None, qz_title = ''Q'', qz_description = None,
     qz_passing_score = double_of_int 50, qz_time_limit = None, qz_max_attempts = Some 1, qz_randomize_questions = True,
     qz_randomize_options = True, qz_show_correct = True, qz_is_required = True, qz_status = ''published'',
     qz_updated_at = 0, qz_deleted_at = None\<rparr>"

definition sample_quiz_db :: lms_db where
  "sample_quiz_db = sample_enrolled\<lparr>quizzes := [sample_quiz],
     questions := [\<lparr>qu_id = ''x'', qu_quiz_id = ''q'', qu_type = ''true_false'', qu_text = ''X'', qu_options = None,
       qu_correct = JBool True, qu_explanation = None, qu_points = double_of_int 1, qu_order_index = 1\<rparr>]\<rparr>"

theorem submission_rejections_witness:
  "submit_attempt plain_env ''u'' ''q'' [(''x'', JString ''true'')] sample_quiz_db
     = Inl (BadRequestException ''Answer type does not match question type'')
   \<and> submit_attempt plain_env ''u'' ''q'' [] sample_quiz_db
     = Inl (BadRequestException ''Each quiz question must be answered once'')
   \<and> (\<exists>r notice db'. submit_attempt plain_env ''u'' ''q'' [(''x'', JBool True)] sample_quiz_db = Inr ((r, notice), db')
        \<and> quiz_attempts db' = [tr_attempt r] \<and> qa_passed (tr_attempt r) = Some True)"
proof -
  have q: "published_quiz ''q'' sample_quiz_db = Some sample_quiz" by code_simp
  have a: "ad_allowed (decide_access plain_env (student_request ''u'' (qz_course_id sample_quiz)) sample_quiz_db)"
    by code_simp
  have o: "assert_student_step_accessible plain_env ''u'' ''q'' QUIZ sample_quiz_db = Inr ()" by code_simp
  have d: "distinct (map qu_id (quiz_questions ''q'' sample_quiz_db))" by code_simp
  have r: "submission_refusal plain_env ''u'' sample_quiz [(''x'', JString ''true'')] sample_quiz_db
      = Some (BadRequestException ''Answer type does not match question type'')"
    "submission_refusal plain_env ''u'' sample_quiz [] sample_quiz_db
      = Some (BadRequestException ''Each quiz question must be answered once'')"
    "submission_refusal plain_env ''u'' sample_quiz [(''x'', JBool True)] sample_quiz_db = None"
    "quiz_attempts sample_quiz_db = []"
    "qa_passed (stored_attempt plain_env ''u'' sample_quiz [(''x'', JBool True)] sample_quiz_db) = Some True"
    by code_simp+
  note s = submission_rejections [OF q a o d]
  show ?thesis
    using s [of "[(''x'', JString ''true'')]"] s [of "[]"] s [of "[(''x'', JBool True)]"] r(4,5)
    unfolding r(1-3) by fastforce
qed

end
