(* ===== verification/Learning_History.thy ===== *)
theory Learning_History
  imports Quizzes
begin

text \<open>
  The learning services together: every operation on grants, progress, quizzes and certificates as
  one step relation on the tables, and what holds after any sequence of them.
\<close>

section \<open>The invariant\<close>

definition enrollment_key :: "enrollment \<Rightarrow> string \<times> string" where
  "enrollment_key e = (en_user_id e, en_course_id e)"

definition certificate_key :: "certificate \<Rightarrow> string \<times> string" where
  "certificate_key x = (ce_user_id x, ce_course_id x)"

definition certificates_ok :: "certificate list \<Rightarrow> bool" where
  "certificates_ok cs =
     (distinct (map ce_id cs) \<and> distinct (map ce_code cs)
      \<and> distinct (map certificate_key (filter (\<lambda>x. ce_status x = ''active'') cs)))"

definition enrollments_ok :: "enrollment list \<Rightarrow> bool" where
  "enrollments_ok es =
     (distinct (map enrollment_key es) \<and> list_all (\<lambda>e. en_status e = ''completed'' \<longrightarrow> en_completed_at e \<noteq> None) es)"

text \<open>The learners who completed a course.\<close>

definition graduates :: "enrollment list \<Rightarrow> (string \<times> string) set" where
  "graduates es = enrollment_key ` {e \<in> set es. en_status e = ''completed''}"

definition learning_inv :: "lms_db \<Rightarrow> bool" where
  "learning_inv db =
     (distinct (map ln_id (lessons db)) \<and> grants_inv db \<and> progress_table_ok db \<and> certificates_ok (certificates db) \<and> enrollments_ok (enrollments db)
      \<and> certificate_key ` set (certificates db) \<subseteq> graduates (enrollments db))"

section \<open>Certificates\<close>

lemma find_active_None:
  "find_active u c db = None \<longleftrightarrow> (u, c) \<notin> certificate_key ` {x \<in> set (certificates db). ce_status x = ''active''}"
  by (auto simp: find_active_def find_ex certificate_key_def)

lemma certificates_ok_add:
  assumes "certificates_ok (certificates db)" and "find_active u c db = None"
    and "ce_user_id x = u" and "ce_course_id x = c"
    and "ce_id x \<notin> ce_id ` set (certificates db)" and "ce_code x \<notin> ce_code ` set (certificates db)"
  shows "certificates_ok (certificates db @ [x])"
  using assms by (auto simp: certificates_ok_def find_active_None certificate_key_def)

lemma certificates_ok_revoke:
  assumes "certificates_ok cs" and "x \<in> set cs"
    and "ce_id x' = ce_id x" and "ce_code x' = ce_code x" and "certificate_key x' = certificate_key x"
    and "ce_status x' \<noteq> ''active''"
  shows "certificates_ok (update_where (\<lambda>y. ce_id y = ce_id x) (\<lambda>_. x') cs)"
    and "certificate_key ` set (update_where (\<lambda>y. ce_id y = ce_id x) (\<lambda>_. x') cs) = certificate_key ` set cs"
proof -
  let ?cs = "update_where (\<lambda>y. ce_id y = ce_id x) (\<lambda>_. x') cs"
  have "y = x" if "y \<in> set cs" "ce_id y = ce_id x" for y
    using assms(1,2) that by (metis certificates_ok_def distinct_map inj_onD)
  then have row: "map f ?cs = map f cs" if "f x' = f x" for f :: "certificate \<Rightarrow> 'a"
    using that by (auto simp: update_where_def)
  from row [of certificate_key] assms(5)
  show "certificate_key ` set ?cs = certificate_key ` set cs" by (metis list.set_map)
  let ?act = "filter (\<lambda>y. ce_status y = ''active'') cs"
  have "filter (\<lambda>y. ce_status y = ''active'') ?cs = filter (\<lambda>y. ce_id y \<noteq> ce_id x) ?act"
    unfolding update_where_def using assms(6) by (induction cs) auto
  moreover have "distinct (map certificate_key (filter (\<lambda>y. ce_id y \<noteq> ce_id x) ?act))"
    by (rule distinct_map_filter) (use assms(1) in \<open>simp add: certificates_ok_def\<close>)
  ultimately have "distinct (map certificate_key (filter (\<lambda>y. ce_status y = ''active'') ?cs))" by simp
  with assms(1) row [of ce_id] row [of ce_code] assms(3,4) show "certificates_ok ?cs"
    by (simp add: certificates_ok_def)
qed

section \<open>Enrollments\<close>

lemma find_enrollment_key:
  "find_enrollment u c db = Some e \<Longrightarrow> e \<in> set (enrollments db) \<and> enrollment_key e = (u, c)"
  by (auto simp: find_enrollment_def enrollment_key_def dest: find_SomeD)

lemma complete_enrollment_ok:
  assumes "enrollments_ok (enrollments db)"
  shows "enrollments_ok (enrollments (complete_enrollment u c now db))"
    and "graduates (enrollments db) \<subseteq> graduates (enrollments (complete_enrollment u c now db))"
proof -
  have "map enrollment_key (enrollments (complete_enrollment u c now db)) = map enrollment_key (enrollments db)"
    unfolding complete_enrollment_def by (simp add: map_update_where_same enrollment_key_def)
  with assms show "enrollments_ok (enrollments (complete_enrollment u c now db))"
    by (auto simp: enrollments_ok_def complete_enrollment_def set_update_where list_all_iff)
  show "graduates (enrollments db) \<subseteq> graduates (enrollments (complete_enrollment u c now db))"
    by (force simp: graduates_def complete_enrollment_def set_update_where)
qed

lemma complete_enrollment_graduates:
  assumes "find_enrollment u c db = Some e" and "en_status e \<in> {''active'', ''completed''}"
  shows "(u, c) \<in> graduates (enrollments (complete_enrollment u c now db))"
proof -
  let ?db = "complete_enrollment u c now db"
  let ?e = "if en_status e = ''active'' then e\<lparr>en_status := ''completed'', en_completed_at := Some now\<rparr> else e"
  have "find_enrollment u c ?db = Some ?e" by (rule find_complete_enrollment [OF assms(1)])
  note m = find_enrollment_key [OF this]
  with assms(2) show ?thesis by (auto simp: graduates_def intro!: rev_image_eqI [of ?e] split: if_splits)
qed

lemma graduates_of_find:
  "find_enrollment u c db = Some e \<Longrightarrow> en_status e = ''completed'' \<Longrightarrow> (u, c) \<in> graduates (enrollments db)"
  using find_enrollment_key [of u c db e] by (auto simp: graduates_def intro!: rev_image_eqI [of e])

section \<open>One operation\<close>

text \<open>What an operation may do to certificates and enrollments: complete the enrollment of one learner in
  one course, then add at most one certificate for them.\<close>

lemma issue_inv:
  assumes "issue_for_completion env u c db = Inr ((x, issued), db')"
    and "certificates_ok (certificates db)" and "lv_fresh env ''certificate'' \<notin> ce_id ` set (certificates db)"
    and "certificate_key ` set (certificates db) \<subseteq> graduates (enrollments db)"
    and "(u, c) \<in> graduates (enrollments db)"
  shows "certificates_ok (certificates db')
    \<and> certificate_key ` set (certificates db') \<subseteq> graduates (enrollments db) \<and> enrollments db' = enrollments db"
  using assms(1)
proof (cases rule: issue_for_completion_cases)
  case 1
  with assms show ?thesis by simp
next
  case (2 row)
  have "certificates_ok (certificates db @ [x])"
    using assms(2,3) 2 by (intro certificates_ok_add) simp_all
  moreover have "certificate_key x = (u, c)" using 2 by (simp add: certificate_key_def)
  ultimately show ?thesis using assms(4,5) 2(2) by simp
qed

lemma evaluate_inv:
  assumes "evaluate_and_sync env u c db = Inr (ev, db')"
    and "learning_inv db" and "lv_fresh env ''certificate'' \<notin> ce_id ` set (certificates db)"
  shows "learning_inv db' \<and> graduates (enrollments db) \<subseteq> graduates (enrollments db')"
proof -
  obtain e where e: "find_enrollment u c db = Some e"
    using assms(1) by (auto simp: evaluate_and_sync_def result_simps)
  note same = evaluate_same_content [OF assms(1)]
  have inv: "certificates_ok (certificates db)" "enrollments_ok (enrollments db)"
      "certificate_key ` set (certificates db) \<subseteq> graduates (enrollments db)"
    using assms(2) by (simp_all add: learning_inv_def)
  have "certificates_ok (certificates db') \<and> enrollments_ok (enrollments db')
      \<and> certificate_key ` set (certificates db') \<subseteq> graduates (enrollments db')
      \<and> graduates (enrollments db) \<subseteq> graduates (enrollments db')"
    using assms(1) e
  proof (cases rule: evaluate_cases)
    case 1
    with inv show ?thesis by simp
  next
    case (2 x issued)
    from issue_inv [OF 2(3) inv(1) assms(3) inv(3) graduates_of_find [OF e 2(2)]] inv(2) show ?thesis by simp
  next
    case (3 x issued)
    let ?db = "complete_enrollment u c (lv_now env) db"
    have c: "certificates ?db = certificates db" by (simp add: complete_enrollment_def)
    note g = complete_enrollment_ok [OF inv(2), of u c "lv_now env"]
    have "(u, c) \<in> graduates (enrollments ?db)" by (rule complete_enrollment_graduates [OF e]) (simp add: 3(2))
    with issue_inv [OF 3(4)] inv g c assms(3) show ?thesis by (simp add: subset_trans)
  qed
  with same assms(2) show ?thesis
    by (simp add: learning_inv_def same_content_def grants_inv_def progress_table_ok_def)
qed

text \<open>Steps that leave certificates and enrollments alone, and the rest well formed.\<close>

lemma learning_inv_frame:
  assumes "learning_inv db" and "lessons db' = lessons db" and "grants db' = grants db" and "progress_table_ok db'"
    and "certificates db' = certificates db" and "enrollments db' = enrollments db"
  shows "learning_inv db'"
  using assms by (simp add: learning_inv_def grants_inv_def)

lemma upsert_progress_frame: "\<exists>rows. upsert_progress env u l v db = db\<lparr>progress_rows := rows\<rparr>"
proof (cases "find_progress u (ln_id l) db")
  case None
  show ?thesis unfolding upsert_progress_def None option.case Let_def by (rule exI, rule refl)
next
  case (Some p)
  show ?thesis unfolding upsert_progress_def Some option.case Let_def by (rule exI, rule refl)
qed

lemma upsert_progress_same:
  "lessons (upsert_progress env u l v db) = lessons db" "grants (upsert_progress env u l v db) = grants db"
  "certificates (upsert_progress env u l v db) = certificates db"
  "enrollments (upsert_progress env u l v db) = enrollments db"
proof -
  obtain rows where r: "upsert_progress env u l v db = db\<lparr>progress_rows := rows\<rparr>" using upsert_progress_frame ..
  show "lessons (upsert_progress env u l v db) = lessons db" "grants (upsert_progress env u l v db) = grants db"
    "certificates (upsert_progress env u l v db) = certificates db"
    "enrollments (upsert_progress env u l v db) = enrollments db"
    unfolding r by simp_all
qed

lemma update_progress_inv:
  assumes "update_lesson_progress env user lesson_id inp db = Inr (r, db')"
    and "learning_inv db" and "input_ok inp" and "lv_fresh env ''certificate'' \<notin> ce_id ` set (certificates db)"
  shows "learning_inv db' \<and> graduates (enrollments db) \<subseteq> graduates (enrollments db')"
proof -
  obtain l path ev where l: "lesson_of_live_course lesson_id db = Some l"
    and ev: "evaluate_and_sync env (au_id user) (ln_course_id l)
      (upsert_progress env (au_id user) l
        (calculate_progress_values l (find_progress (au_id user) lesson_id db) inp) db) = Inr (ev, db')"
    using assms(1) by (auto simp: update_lesson_progress_def result_simps Let_def split: prod.splits)
  let ?v = "calculate_progress_values l (find_progress (au_id user) lesson_id db) inp"
  let ?db = "upsert_progress env (au_id user) l ?v db"
  have i: "ln_id l = lesson_id" using l by (auto simp: lesson_of_live_course_def dest: find_SomeD)
  have "progress_table_ok db" using assms(2) by (simp add: learning_inv_def)
  then have "progress_table_ok ?db" using assms(3) i by (intro upsert_progress_table) simp_all
  then have "learning_inv ?db" by (rule learning_inv_frame [OF assms(2)  upsert_progress_same(1,2) _ upsert_progress_same(3,4)])
  with evaluate_inv [OF ev] assms(4) show ?thesis unfolding upsert_progress_same by simp
qed

lemma submit_attempt_stored:
  assumes "submit_attempt env u quiz_id answers db = Inr (r, db')"
  obtains a c ev where "evaluate_and_sync env u c (db\<lparr>quiz_attempts := quiz_attempts db @ [a]\<rparr>) = Inr (ev, db')"
  using assms by (auto simp: submit_attempt_def result_simps Let_def split: prod.splits)

lemma submit_inv:
  assumes "submit_attempt env u quiz_id answers db = Inr (r, db')"
    and "learning_inv db" and "lv_fresh env ''certificate'' \<notin> ce_id ` set (certificates db)"
  shows "learning_inv db' \<and> graduates (enrollments db) \<subseteq> graduates (enrollments db')"
proof -
  obtain a c ev where ev: "evaluate_and_sync env u c (db\<lparr>quiz_attempts := quiz_attempts db @ [a]\<rparr>) = Inr (ev, db')"
    using submit_attempt_stored [OF assms(1)] .
  have "learning_inv (db\<lparr>quiz_attempts := quiz_attempts db @ [a]\<rparr>)"
    using assms(2) by (simp add: learning_inv_def grants_inv_def progress_table_ok_def)
  with evaluate_inv [OF ev] assms(3) show ?thesis by simp
qed

lemma start_lessons_table:
  assumes "progress_table_ok db" and "distinct (map ln_id (lessons db))"
  shows "progress_table_ok (start_lessons u c db)"
proof -
  let ?ls = "filter (\<lambda>l. find_progress u (ln_id l) db = None)
    (filter (\<lambda>l. ln_course_id l = c \<and> ln_deleted_at l = None) (lessons db))"
  have rows: "progress_rows (start_lessons u c db) = progress_rows db @ map (\<lambda>l. new_progress u c (ln_id l)) ?ls"
    by (simp add: start_lessons_def Let_def)
  have keys: "map progress_key (map (\<lambda>l. new_progress u c (ln_id l)) ?ls) = map (\<lambda>i. (u, i)) (map ln_id ?ls)"
    by (simp add: progress_key_def new_progress_def)
  have "distinct (map ln_id ?ls)" by (intro distinct_map_filter assms(2))
  then have "distinct (map progress_key (map (\<lambda>l. new_progress u c (ln_id l)) ?ls))"
    unfolding keys by (simp only: distinct_map) (simp add: inj_on_def)
  moreover have "set (map progress_key (progress_rows db)) \<inter> set (map progress_key (map (\<lambda>l. new_progress u c (ln_id l)) ?ls)) = {}"
    unfolding keys by (auto simp: find_progress_def find_ex progress_key_def)
  ultimately show ?thesis
    using assms(1) unfolding progress_table_ok_def rows map_append distinct_append list_all_append
    by (simp add: list_all_iff)
qed

lemma ensure_grant_inv:
  assumes "ensure_grant i inp db = Inr (r, db')" and "learning_inv db" and "i \<notin> ag_id ` set (grants db)"
  shows "learning_inv db' \<and> graduates (enrollments db) \<subseteq> graduates (enrollments db')"
proof -
  let ?u = "gi_user_id inp" and ?c = "gi_course_id inp"
  let ?db1 = "upsert_enrollment ?u ?c (insert_grant i inp db)"
  have db': "db' = start_lessons ?u ?c ?db1" using assms(1) by (simp add: ensure_grant_def result_simps Let_def)
  have "grants_inv db'"
    using grant_step_inv [OF grant_step.ensure [OF assms(1,3)]] assms(2) by (simp add: learning_inv_def)
  moreover have "enrollments_ok (enrollments db') \<and> graduates (enrollments db) \<subseteq> graduates (enrollments db')"
    using assms(2)
    by (auto simp: db' start_lessons_def Let_def upsert_enrollment_def insert_grant_def learning_inv_def enrollments_ok_def
        graduates_def find_enrollment_def find_ex enrollment_key_def)
  moreover have "certificates db' = certificates db"
    by (simp add: db' start_lessons_def Let_def upsert_enrollment_def insert_grant_def)
  moreover have "progress_table_ok ?db1" "lessons ?db1 = lessons db"
    using assms(2) by (simp_all add: upsert_enrollment_def insert_grant_def learning_inv_def progress_table_ok_def)
  then have "progress_table_ok db'" "lessons db' = lessons db"
    using assms(2) start_lessons_table [of ?db1 ?u ?c] by (simp_all add: db' learning_inv_def start_lessons_def Let_def)
  ultimately show ?thesis using assms(2) by (auto simp: learning_inv_def)
qed

lemma issue_certificate_cases:
  assumes "issue_certificate env u c template db = Inr (x, db')"
  obtains "db' = db"
  | e row where "find_enrollment u c db = Some e" "en_status e = ''completed''" "find_active u c db = None"
      "db' = db\<lparr>certificates := certificates db @ [x], lms_audits := lms_audits db @ [row]\<rparr>"
      "ce_user_id x = u" "ce_course_id x = c" "ce_id x = lv_fresh env ''certificate''"
      "ce_code x \<notin> ce_code ` set (certificates db)"
proof -
  obtain e where e: "find_enrollment u c db = Some e" "en_status e = ''completed''"
    using assms by (auto simp: issue_certificate_def result_simps)
  obtain r where r: "find_course c db = Some r"
    using assms by (auto simp: issue_certificate_def result_simps)
  obtain t where t: "find (\<lambda>t. ct_id t = template) (templates db) = Some t"
    using assms by (auto simp: issue_certificate_def result_simps)
  have rest: "(case find_active u c db of
       Some existing \<Rightarrow> Inr (existing, db)
     | None \<Rightarrow>
         (case create_certificate env u (co_id r) (co_title r) (ct_id t) db of
            Inr ok \<Rightarrow> Inr ok
          | Inl err \<Rightarrow>
              if err = PrismaError ''P2002''
              then (case find_active u c db of Some d \<Rightarrow> Inr (d, db) | None \<Rightarrow> Inl err)
              else Inl err)) = Inr (x, db')"
    using assms by (auto simp: issue_certificate_def and_then_Inr_iff throw_if_Inr or_throw_def e r t)
  show ?thesis
  proof (cases "find_active u c db")
    case (Some y)
    with rest that(1) show ?thesis by simp
  next
    case None
    with rest have k: "create_certificate env u (co_id r) (co_title r) (ct_id t) db = Inr (x, db')"
      by (auto split: sum.splits if_splits)
    have "co_id r = c" using r by (rule find_course_id)
    with ok_allD [OF create_certificate_frame k] that(2) [OF e None] show ?thesis by auto
  qed
qed

lemma issue_certificate_inv:
  assumes "issue_certificate env u c template db = Inr (x, db')" and inv: "learning_inv db"
    and "lv_fresh env ''certificate'' \<notin> ce_id ` set (certificates db)"
  shows "learning_inv db' \<and> graduates (enrollments db) \<subseteq> graduates (enrollments db')"
  using assms(1)
proof (cases rule: issue_certificate_cases)
  case 1
  with inv show ?thesis by simp
next
  case (2 e row)
  have "certificates_ok (certificates db @ [x])"
    using inv assms(3) 2 by (intro certificates_ok_add) (simp_all add: learning_inv_def)
  moreover have "certificate_key x \<in> graduates (enrollments db)"
    using graduates_of_find [OF 2(1,2)] 2(5,6) by (simp add: certificate_key_def)
  ultimately show ?thesis
    using inv by (simp add: learning_inv_def 2(4) grants_inv_def progress_table_ok_def)
qed

lemma revoke_certificate_inv:
  assumes "revoke_certificate actor i reason now db = Inr (x, db')" and inv: "learning_inv db"
  shows "learning_inv db' \<and> enrollments db' = enrollments db"
proof -
  obtain y where y: "find (\<lambda>x. ce_id x = i) (certificates db) = Some y"
    using assms(1) by (auto simp: revoke_certificate_def result_simps)
  then have m: "y \<in> set (certificates db)" "ce_id y = i" by (auto dest: find_SomeD)
  show ?thesis
  proof (cases "ce_status y = ''revoked''")
    case True
    with assms y show ?thesis by (simp add: revoke_certificate_def)
  next
    case False
    let ?y = "y\<lparr>ce_status := ''revoked'', ce_revoked_at := Some now, ce_reason := Some reason\<rparr>"
    obtain row where db': "db' = db\<lparr>certificates := update_where (\<lambda>z. ce_id z = ce_id y) (\<lambda>_. ?y) (certificates db),
        lms_audits := lms_audits db @ [row]\<rparr>"
      using assms(1) y m False by (auto simp: revoke_certificate_def result_simps Let_def)
    have "certificates_ok (certificates db)" using inv by (simp add: learning_inv_def)
    from certificates_ok_revoke [OF this m(1), of ?y]
    have "certificates_ok (certificates db')" "certificate_key ` set (certificates db') = certificate_key ` set (certificates db)"
      by (simp_all add: db' certificate_key_def)
    then show ?thesis
      using inv by (simp add: learning_inv_def db' grants_inv_def progress_table_ok_def)
  qed
qed

lemma revoke_grant_inv:
  assumes "revoke_grant k reason now db = Inr (r, db')" and inv: "learning_inv db"
  shows "learning_inv db' \<and> enrollments db' = enrollments db"
proof -
  have "grants_inv db'"
    using grant_step_inv [OF grant_step.revoke [OF assms(1)]] inv by (simp add: learning_inv_def)
  moreover have "db' = db \<or> (\<exists>gs. db' = db\<lparr>grants := gs\<rparr>)"
    using assms(1) by (auto simp: revoke_grant_def result_simps Let_def split: option.splits if_splits)
  ultimately show ?thesis using inv by (elim disjE exE) (simp_all add: learning_inv_def progress_table_ok_def)
qed

section \<open>Histories\<close>

text \<open>Managing quizzes changes quizzes, questions and audits only.\<close>

definition quiz_change :: "lms_db \<Rightarrow> lms_db \<Rightarrow> bool" where
  "quiz_change db db' =
     (lessons db' = lessons db \<and> grants db' = grants db \<and> progress_rows db' = progress_rows db
      \<and> certificates db' = certificates db \<and> enrollments db' = enrollments db)"

lemma quiz_changes:
  "create_quiz env user c inp db = Inr (q, db') \<Longrightarrow> quiz_change db db'"
  "update_quiz user i inp2 now db = Inr (q, db') \<Longrightarrow> quiz_change db db'"
  "publish_quiz user i now db = Inr (q, db') \<Longrightarrow> quiz_change db db'"
  "delete_quiz user i now db = Inr (unit, db') \<Longrightarrow> quiz_change db db'"
  "create_question env user i x db = Inr (y, db') \<Longrightarrow> quiz_change db db'"
  "update_question user i inp3 db = Inr (y, db') \<Longrightarrow> quiz_change db db'"
  "delete_question user i db = Inr (unit, db') \<Longrightarrow> quiz_change db db'"
  by (auto simp: create_quiz_def update_quiz_def publish_quiz_def delete_quiz_def create_question_def update_question_def
      delete_question_def quiz_change_def set_quiz_def result_simps Let_def)

inductive learner_step :: "lms_db \<Rightarrow> lms_db \<Rightarrow> bool" where
  grant: "ensure_grant i inp db = Inr (r, db') \<Longrightarrow> i \<notin> ag_id ` set (grants db) \<Longrightarrow> learner_step db db'"
| revoke: "revoke_grant k reason now db = Inr (r, db') \<Longrightarrow> learner_step db db'"
| progress: "update_lesson_progress env user l inp db = Inr (r, db') \<Longrightarrow> input_ok inp
    \<Longrightarrow> lv_fresh env ''certificate'' \<notin> ce_id ` set (certificates db) \<Longrightarrow> learner_step db db'"
| attempt: "submit_attempt env u q answers db = Inr (r, db')
    \<Longrightarrow> lv_fresh env ''certificate'' \<notin> ce_id ` set (certificates db) \<Longrightarrow> learner_step db db'"
| issue: "issue_certificate env u c t db = Inr (x, db')
    \<Longrightarrow> lv_fresh env ''certificate'' \<notin> ce_id ` set (certificates db) \<Longrightarrow> learner_step db db'"
| withdraw: "revoke_certificate actor i reason now db = Inr (x, db') \<Longrightarrow> learner_step db db'"
| manage: "create_quiz env user c cin db = Inr (q, db') \<or> update_quiz user i uin now db = Inr (q, db')
    \<or> publish_quiz user i now db = Inr (q, db') \<or> delete_quiz user i now db = Inr ((), db')
    \<or> create_question env user i y db = Inr (z, db') \<or> update_question user i qin db = Inr (z, db')
    \<or> delete_question user i db = Inr ((), db') \<Longrightarrow> learner_step db db'"

lemma learner_step_inv:
  assumes "learner_step db db'" and "learning_inv db"
  shows "learning_inv db' \<and> graduates (enrollments db) \<subseteq> graduates (enrollments db')"
  using assms
proof (cases rule: learner_step.cases)
  case (grant i inp r)
  with assms(2) show ?thesis by (intro ensure_grant_inv)
next
  case (revoke k reason now r)
  with revoke_grant_inv [OF revoke assms(2)] show ?thesis by simp
next
  case (progress env user l inp r)
  with assms(2) show ?thesis by (intro update_progress_inv)
next
  case (attempt env u q answers r)
  with assms(2) show ?thesis by (intro submit_inv)
next
  case (issue env u c t x)
  with assms(2) show ?thesis by (intro issue_certificate_inv)
next
  case (withdraw actor i reason now x)
  with revoke_certificate_inv [OF withdraw assms(2)] show ?thesis by simp
next
  case manage
  then have "quiz_change db db'" by (elim disjE) (erule quiz_changes)+
  with assms(2) show ?thesis by (simp add: quiz_change_def learning_inv_def grants_inv_def progress_table_ok_def)
qed

text \<open>C12: After any sequence of learning operations the tables stay sound: a learner holds at most one active
  certificate per course and no code is issued twice, every certificate belongs to a learner who completed the course,
  completed enrollments carry their time and are never taken back, and grants, enrollments and progress rows stay
  unique and well formed.\<close>

theorem learning_history_sound:
  assumes "learning_inv db" and "learner_step\<^sup>*\<^sup>* db db'"
  shows "learning_inv db' \<and> graduates (enrollments db) \<subseteq> graduates (enrollments db')"
  using assms(2)
proof (induction rule: rtranclp_induct)
  case (step y z)
  with learner_step_inv [OF step(2)] show ?case by blast
qed (use assms(1) in simp)

definition sample_graduate :: lms_db where
  "sample_graduate = sample_enrolled\<lparr>progress_rows := [], enrollments := [\<lparr>en_user_id = ''u'', en_course_id = ''c'',
     en_status = ''completed'', en_completed_at = Some 5\<rparr>]\<rparr>"

theorem learning_history_sound_witness:
  "\<exists>db'. learner_step\<^sup>*\<^sup>* sample_graduate db' \<and> learning_inv db' \<and> find_active ''u'' ''c'' db' \<noteq> None"
proof -
  have inv: "learning_inv sample_graduate"
    by (simp add: learning_inv_def sample_graduate_def sample_enrolled_def sample_finished_def sample_open_def empty_lms_def
        grants_inv_def progress_table_ok_def certificates_ok_def enrollments_ok_def)
  have "case issue_certificate plain_env ''u'' ''c'' ''t'' sample_graduate of
      Inr (x, db') \<Rightarrow> find_active ''u'' ''c'' db' \<noteq> None | Inl e \<Rightarrow> False"
    by code_simp
  then obtain x db' where i: "issue_certificate plain_env ''u'' ''c'' ''t'' sample_graduate = Inr (x, db')"
      and a: "find_active ''u'' ''c'' db' \<noteq> None"
    by (auto split: sum.splits)
  have "learner_step sample_graduate db'"
    by (rule learner_step.issue [OF i])
      (simp add: sample_graduate_def sample_enrolled_def sample_finished_def sample_open_def empty_lms_def)
  then have "learner_step\<^sup>*\<^sup>* sample_graduate db'" by blast
  with learning_history_sound [OF inv this] a show ?thesis by blast
qed

end
