(* ===== verification/Gds_Ledger.thy ===== *)
theory Gds_Ledger
  imports Commerce_Db Gds_Topup
begin

text \<open>
  The internal wallet as the database keeps it: the capabilities of an environment
  (\<^verbatim>\<open>gds-wallet-capabilities.ts\<close>), which failures a transaction retries
  (\<^verbatim>\<open>gds-transaction-retry.ts\<close>), and the triggers and constraints of the wallet tables
  (\<^verbatim>\<open>prisma/migrations\<close>), through which every balance changes: a journal row is
  checked, applied to its source and posted to its wallet in one step.  The ledger invariant says that
  the balances are the sums of the journal and that held money is what open holds and open
  withdrawals reserve; every trigger keeps it, and acts on each wallet as one step of an abstract account.
\<close>

section \<open>Capabilities\<close>

record payos_config =
  py_environment :: "string option"
  py_client_id :: "string option"
  py_api_key :: "string option"
  py_checksum_key :: "string option"
  py_webhook_url :: "string option"

record wallet_config =
  cf_node_env :: string
  cf_deployment_class :: string
  cf_public_app_url :: "string option"
  cf_sandbox_enabled :: bool
  cf_checkout_enabled :: bool
  cf_qr_preview_enabled :: bool
  cf_production_topup_enabled :: bool
  cf_production_checkout_enabled :: bool
  cf_payos :: "payos_config option"
  cf_idempotency_secret :: "string option"

datatype wallet_mode = Production | Sandbox | Disabled

record capabilities =
  cap_mode :: wallet_mode
  cap_read :: bool
  cap_processing :: bool
  cap_cancellation :: bool
  cap_topup :: bool
  cap_checkout :: bool

definition is_https :: "(string \<Rightarrow> parsed_url option) \<Rightarrow> string option \<Rightarrow> bool" where
  "is_https parse_url v =
     (case parse_url (case v of None \<Rightarrow> [] | Some s \<Rightarrow> s) of
        Some u \<Rightarrow> url_protocol u = ''https:'' \<and> \<not> truthy (url_username u) \<and> \<not> truthy (url_password u)
      | None \<Rightarrow> False)"

definition trimmed_truthy :: "string option \<Rightarrow> bool" where
  "trimmed_truthy v = (case v of None \<Rightarrow> False | Some s \<Rightarrow> truthy (js_trim s))"

definition credentials_ready :: "wallet_config \<Rightarrow> bool" where
  "credentials_ready c =
     ((case cf_payos c of None \<Rightarrow> False | Some p \<Rightarrow>
         py_environment p = Some ''production'' \<and> trimmed_truthy (py_client_id p) \<and> trimmed_truthy (py_api_key p)
         \<and> trimmed_truthy (py_checksum_key p))
      \<and> (case cf_idempotency_secret c of None \<Rightarrow> False | Some s \<Rightarrow> truthy s \<and> length (js_trim s) \<ge> 32))"

definition gds_wallet_capabilities :: "(string \<Rightarrow> parsed_url option) \<Rightarrow> wallet_config \<Rightarrow> capabilities" where
  "gds_wallet_capabilities parse_url c =
     (let production = (cf_node_env c = ''production'' \<and> cf_deployment_class c = ''production'');
          mixed = (\<not> production \<and> (cf_node_env c = ''production'' \<or> cf_deployment_class c = ''production''));
          uat = (\<not> mixed \<and> \<not> production \<and> cf_sandbox_enabled c);
          ready = credentials_ready c;
          admission = (ready \<and> is_https parse_url (cf_public_app_url c)
            \<and> is_https parse_url (Option.bind (cf_payos c) py_webhook_url));
          uat_class = (cf_deployment_class c = ''uat'')
      in \<lparr>cap_mode = (if production then Production else if uat then Sandbox else Disabled),
          cap_read = (production \<or> uat),
          cap_processing = (production \<or> uat \<and> uat_class \<and> (cf_node_env c = ''test'' \<or> cf_node_env c = ''development'')),
          cap_cancellation = (if production then ready else uat \<and> cf_qr_preview_enabled c \<and> uat_class),
          cap_topup = (if production then admission \<and> cf_production_topup_enabled c
            else uat \<and> cf_qr_preview_enabled c \<and> uat_class),
          cap_checkout = (if production then admission \<and> cf_production_checkout_enabled c
            else uat \<and> cf_checkout_enabled c \<and> uat_class)\<rparr>)"

text \<open>Switches meant for tests never open the production wallet, a mixed environment opens nothing, and
  whatever admits money can also be read.\<close>

lemma capabilities_fail_closed:
  "(cf_node_env c = ''production'') \<noteq> (cf_deployment_class c = ''production'')
     \<Longrightarrow> gds_wallet_capabilities parse_url c = \<lparr>cap_mode = Disabled, cap_read = False, cap_processing = False,
       cap_cancellation = False, cap_topup = False, cap_checkout = False\<rparr>"
  by (auto simp: gds_wallet_capabilities_def Let_def)

lemma production_ignores_test_switches:
  "cf_node_env c = ''production'' \<Longrightarrow>
     gds_wallet_capabilities parse_url (c\<lparr>cf_sandbox_enabled := a, cf_checkout_enabled := b, cf_qr_preview_enabled := d\<rparr>)
     = gds_wallet_capabilities parse_url c"
  by (simp add: gds_wallet_capabilities_def Let_def credentials_ready_def)

section \<open>Retryable failures\<close>

record tx_failure =
  tf_code :: "string option"
  tf_name :: "string option"
  tf_cause_kind :: "string option"
  tf_meta_code :: "string option"
  tf_adapter_code :: "string option"
  tf_adapter_kind :: "string option"

text \<open>\<^term>\<open>None\<close> stands for a value that is not an object.\<close>

definition is_retryable_gds_transaction :: "tx_failure option \<Rightarrow> bool" where
  "is_retryable_gds_transaction thrown =
     (case thrown of None \<Rightarrow> False
      | Some f \<Rightarrow>
        if tf_code f = Some ''P2034'' \<or> tf_code f = Some ''P2002'' then True
        else
        ((tf_code f = Some ''P2010'' \<or> tf_code f = Some ''P2039'')
           \<and> (tf_meta_code f = Some ''40001'' \<or> tf_adapter_code f = Some ''40001''
              \<or> tf_adapter_kind f = Some ''TransactionWriteConflict''))
        \<or> (tf_name f = Some ''DriverAdapterError'' \<and> tf_cause_kind f = Some ''TransactionWriteConflict''))"

text \<open>The fields of the exceptions of the model that the classification reads.\<close>

definition plain_failure :: tx_failure where
  "plain_failure = \<lparr>tf_code = None, tf_name = None, tf_cause_kind = None, tf_meta_code = None, tf_adapter_code = None,
     tf_adapter_kind = None\<rparr>"

fun raw_query_code_text :: "raw_query_code \<Rightarrow> string" where
  "raw_query_code_text P2010 = ''P2010''"
| "raw_query_code_text P2039 = ''P2039''"

fun failure_of :: "api_error \<Rightarrow> tx_failure option" where
  "failure_of (PrismaError c) = Some (plain_failure\<lparr>tf_code := Some c\<rparr>)"
| "failure_of (RawQueryError c m k n) = Some (plain_failure\<lparr>tf_code := Some (raw_query_code_text c), tf_meta_code := m,
     tf_adapter_code := k, tf_adapter_kind := n\<rparr>)"
| "failure_of (DriverAdapterError n) = Some (plain_failure\<lparr>tf_name := Some ''DriverAdapterError'', tf_cause_kind := n\<rparr>)"
| "failure_of _ = Some plain_failure"

definition retryable_gds :: "api_error \<Rightarrow> bool" where
  "retryable_gds e = is_retryable_gds_transaction (failure_of e)"

text \<open>The conflicts that are worth a new attempt, as the tests of the classification list them: a Prisma conflict, a raw
  query that failed to serialize, in any of the forms the driver reports, and a write conflict of the driver itself.\<close>

fun transient_conflict :: "api_error \<Rightarrow> bool" where
  "transient_conflict (PrismaError c) = (c \<in> {''P2034'', ''P2002''})"
| "transient_conflict (RawQueryError c m k n) =
     (m = Some ''40001'' \<or> k = Some ''40001'' \<or> n = Some ''TransactionWriteConflict'')"
| "transient_conflict (DriverAdapterError n) = (n = Some ''TransactionWriteConflict'')"
| "transient_conflict _ = False"

lemma retryable_gds_iff: "retryable_gds e \<longleftrightarrow> transient_conflict e"
proof (cases e)
  case (RawQueryError c m k n)
  then show ?thesis
    by (cases c) (simp_all add: retryable_gds_def is_retryable_gds_transaction_def plain_failure_def)
qed (simp_all add: retryable_gds_def is_retryable_gds_transaction_def plain_failure_def)

section \<open>Postings\<close>

definition find_withdrawal :: "string \<Rightarrow> shop_db \<Rightarrow> gds_withdrawal option" where
  "find_withdrawal i db = find (\<lambda>x. wd_id x = i) (withdrawals db)"

definition find_topup :: "string \<Rightarrow> shop_db \<Rightarrow> gds_topup option" where
  "find_topup i db = find (\<lambda>x. gt_id x = i) (topups db)"

definition find_projection :: "string \<Rightarrow> shop_db \<Rightarrow> revenue_projection option" where
  "find_projection i db = find (\<lambda>x. rp_id x = i) (projections db)"

text \<open>The check constraints of \<^verbatim>\<open>gds_internal_journal\<close>: every kind moves its amount between the
  same two accounts, so that a posting balances.\<close>

definition from_topup :: "gds_journal \<Rightarrow> bool" where
  "from_topup j = (gj_topup_id j \<noteq> None \<and> gj_collection_ref j \<noteq> None \<and> gj_order_ref j = None)"

definition from_order :: "gds_journal \<Rightarrow> bool" where
  "from_order j = (gj_topup_id j = None \<and> gj_collection_ref j = None \<and> gj_order_ref j \<noteq> None)"

definition deltas :: "gds_journal \<Rightarrow> int \<Rightarrow> int \<Rightarrow> int \<Rightarrow> bool" where
  "deltas j a h c = (gj_available j = a \<and> gj_held j = h \<and> gj_clearing j = c)"

definition posting_ok :: "gds_journal \<Rightarrow> bool" where
  "posting_ok j =
     (let k = gj_kind j; n = gj_amount j in
      n > 0 \<and> gj_available j + gj_held j + gj_clearing j = 0
      \<and> (k = ''TOPUP_CREDIT'' \<and> deltas j n 0 (- n) \<and> from_topup j
         \<or> from_order j
           \<and> (k = ''RESERVE'' \<and> deltas j (- n) n 0 \<or> k = ''CAPTURE'' \<and> deltas j 0 (- n) n
              \<or> k = ''RELEASE'' \<and> deltas j n (- n) 0
              \<or> k = ''WITHDRAWAL_RESERVE'' \<and> deltas j (- n) n 0 \<or> k = ''WITHDRAWAL_RELEASE'' \<and> deltas j n (- n) 0
              \<or> k = ''WITHDRAWAL_PAID'' \<and> deltas j 0 (- n) n
              \<or> k = ''REVENUE_CREDIT'' \<and> deltas j n 0 (- n) \<or> k = ''REVENUE_REVERSAL'' \<and> deltas j (- n) 0 n)))"

definition cashout_kind :: "string \<Rightarrow> bool" where
  "cashout_kind k = (k = ''WITHDRAWAL_RESERVE'' \<or> k = ''WITHDRAWAL_RELEASE'' \<or> k = ''WITHDRAWAL_PAID'')"

definition revenue_kind :: "string \<Rightarrow> bool" where
  "revenue_kind k = (k = ''REVENUE_CREDIT'' \<or> k = ''REVENUE_REVERSAL'')"

text \<open>The unique indexes.\<close>

definition posting_taken :: "gds_journal \<Rightarrow> shop_db \<Rightarrow> bool" where
  "posting_taken j db =
     (\<exists>y\<in>set (journal db).
        gj_event_key y = gj_event_key j
        \<or> (gj_topup_id j \<noteq> None \<and> gj_topup_id y = gj_topup_id j)
        \<or> (gj_collection_ref j \<noteq> None \<and> gj_collection_ref y = gj_collection_ref j)
        \<or> (cashout_kind (gj_kind j) \<and> gj_kind y = gj_kind j \<and> gj_order_ref y = gj_order_ref j))"

text \<open>\<^verbatim>\<open>gds_internal_apply_journal\<close> and the first half of \<^verbatim>\<open>gds_extended_journal_apply\<close>: the row a posting
  comes from is checked and moved on.\<close>

definition credit_topup :: "int \<Rightarrow> gds_journal \<Rightarrow> shop_db \<Rightarrow> shop_db result" where
  "credit_topup now j db =
     some_or (DatabaseError ''GDS topup is not signed and reconciled'') (find_topup (the (gj_topup_id j)) db) (\<lambda>t.
     throw_if (gt_status t \<noteq> ''PAYOS_VERIFIED'' \<or> gt_wallet_id t \<noteq> gj_wallet_id j \<or> gt_amount t \<noteq> gj_amount j
         \<or> gt_collection_ref t \<noteq> gj_collection_ref j \<or> gt_signature_at t = None \<or> gt_reconciled_at t = None
         \<or> the (gt_reconciled_at t) < the (gt_signature_at t))
       (DatabaseError ''GDS topup is not signed and reconciled'') (
     Inr (db\<lparr>topups := update_where (\<lambda>x. gt_id x = gt_id t)
       (\<lambda>x. x\<lparr>gt_status := ''CREDITED'', gt_credited_at := Some now\<rparr>) (topups db)\<rparr>)))"

definition open_hold :: "gds_journal \<Rightarrow> shop_db \<Rightarrow> shop_db result" where
  "open_hold j db =
     throw_if (hold_of_order (the (gj_order_ref j)) db \<noteq> None) (PrismaError ''P2002'') (
     Inr (db\<lparr>holds := holds db @ [\<lparr>gh_wallet_id = gj_wallet_id j, gh_order_ref = the (gj_order_ref j),
       gh_amount = gj_amount j, gh_status = ''RESERVED''\<rparr>]\<rparr>))"

definition matching_hold :: "gds_journal \<Rightarrow> gds_hold \<Rightarrow> bool" where
  "matching_hold j h =
     (gh_wallet_id h = gj_wallet_id j \<and> gh_order_ref h = the (gj_order_ref j) \<and> gh_amount h = gj_amount j
      \<and> gh_status h = ''RESERVED'')"

definition close_hold :: "gds_journal \<Rightarrow> shop_db \<Rightarrow> shop_db result" where
  "close_hold j db =
     throw_if (\<not> list_ex (matching_hold j) (holds db)) (DatabaseError ''GDS hold is missing, mismatched or terminal'') (
     Inr (db\<lparr>holds := update_where (matching_hold j)
       (\<lambda>h. h\<lparr>gh_status := (if gj_kind j = ''CAPTURE'' then ''CAPTURED'' else ''RELEASED'')\<rparr>) (holds db)\<rparr>))"

definition check_withdrawal :: "gds_journal \<Rightarrow> shop_db \<Rightarrow> shop_db result" where
  "check_withdrawal j db =
     some_or (DatabaseError ''GDS withdrawal journal missing or mismatched source'')
       (find_withdrawal (the (gj_order_ref j)) db) (\<lambda>r.
     throw_if (wd_wallet_id r \<noteq> gj_wallet_id j \<or> wd_amount r \<noteq> gj_amount j
         \<or> gj_kind j = ''WITHDRAWAL_RESERVE'' \<and> wd_status r \<noteq> ''PENDING''
         \<or> gj_kind j = ''WITHDRAWAL_RELEASE'' \<and> wd_status r \<notin> {''CANCELLED'', ''REJECTED'', ''FAILED''}
         \<or> gj_kind j = ''WITHDRAWAL_PAID'' \<and> wd_status r \<noteq> ''PAID'')
       (DatabaseError ''GDS withdrawal journal missing or mismatched source'') (Inr db))"

definition effect_of_posting :: "gds_journal \<Rightarrow> shop_db \<Rightarrow> revenue_effect \<Rightarrow> bool" where
  "effect_of_posting j db x =
     (Some (re_effect_id x) = gj_order_ref j \<and> re_available x = gj_available j
      \<and> gj_event_key j = ''gds:revenue:'' @ re_effect_id x
      \<and> (case find_projection (re_projection_id x) db of None \<Rightarrow> False | Some p \<Rightarrow> rp_wallet_id p = gj_wallet_id j))"

definition check_effect :: "gds_journal \<Rightarrow> shop_db \<Rightarrow> shop_db result" where
  "check_effect j db =
     throw_if (\<not> list_ex (effect_of_posting j db) (effects db))
       (DatabaseError ''GDS revenue journal missing or mismatched source'') (Inr db)"

definition apply_source :: "int \<Rightarrow> gds_journal \<Rightarrow> shop_db \<Rightarrow> shop_db result" where
  "apply_source now j db =
     (if gj_kind j = ''TOPUP_CREDIT'' then credit_topup now j db
      else if gj_kind j = ''RESERVE'' then open_hold j db
      else if gj_kind j = ''CAPTURE'' \<or> gj_kind j = ''RELEASE'' then close_hold j db
      else if cashout_kind (gj_kind j) then check_withdrawal j db
      else check_effect j db)"

definition apply_balance :: "gds_journal \<Rightarrow> shop_db \<Rightarrow> shop_db result" where
  "apply_balance j db =
     some_or (DatabaseError ''GDS wallet is unavailable'') (find_wallet (gj_wallet_id j) db) (\<lambda>w.
     throw_if (gw_status w \<noteq> ''ACTIVE'' \<and> \<not> cashout_kind (gj_kind j) \<and> \<not> revenue_kind (gj_kind j))
       (DatabaseError ''GDS wallet is unavailable'') (
     throw_if (gw_available w + gj_available j < 0 \<or> gw_held w + gj_held j < 0)
       (DatabaseError ''gds_internal_wallets_nonnegative_check'') (
     Inr (db\<lparr>wallets := update_where (\<lambda>x. gw_id x = gj_wallet_id j)
       (\<lambda>x. x\<lparr>gw_available := gw_available x + gj_available j, gw_held := gw_held x + gj_held j\<rparr>) (wallets db)\<rparr>))))"

definition post_journal :: "int \<Rightarrow> gds_journal \<Rightarrow> shop_db \<Rightarrow> shop_db result" where
  "post_journal now j db =
     throw_if (\<not> posting_ok j) (DatabaseError ''gds_internal_journal_posting_check'') (
     throw_if (posting_taken j db) (PrismaError ''P2002'') (
     and_then (apply_source now j (db\<lparr>journal := journal db @ [j]\<rparr>)) (apply_balance j)))"

section \<open>Withdrawals\<close>

definition bank_code_char :: "char \<Rightarrow> bool" where
  "bank_code_char c = (upper_char c \<or> lower_char c \<or> digit_char c \<or> c = CHR ''_'' \<or> c = CHR ''-'')"

definition withdrawal_open :: "gds_withdrawal \<Rightarrow> bool" where
  "withdrawal_open r = (wd_status r = ''PENDING'' \<or> wd_status r = ''APPROVED'' \<or> wd_status r = ''PROCESSING'')"

text \<open>The check constraints of \<^verbatim>\<open>gds_withdrawals\<close>.\<close>

definition withdrawal_row_ok :: "gds_withdrawal \<Rightarrow> bool" where
  "withdrawal_row_ok r =
     (wd_amount r > 0 \<and> is_sha256_hex (wd_key_hash r)
      \<and> 2 \<le> length (wd_bank_code r) \<and> length (wd_bank_code r) \<le> 32 \<and> list_all bank_code_char (wd_bank_code r)
      \<and> 6 \<le> length (wd_account_number r) \<and> length (wd_account_number r) \<le> 34 \<and> list_all digit_char (wd_account_number r)
      \<and> 2 \<le> length (js_trim (wd_account_holder r)) \<and> length (js_trim (wd_account_holder r)) \<le> 160
      \<and> wd_minimum r \<le> wd_amount r \<and> wd_amount r \<le> wd_maximum r
      \<and> wd_status r \<in> {''PENDING'', ''APPROVED'', ''PROCESSING'', ''PAID'', ''CANCELLED'', ''REJECTED'', ''FAILED''}
      \<and> wd_admin_id r \<noteq> Some (wd_owner_id r)
      \<and> (wd_status r = ''PAID'' \<longrightarrow> (case wd_bank_ref r of None \<Rightarrow> False | Some b \<Rightarrow> truthy (js_trim b)) \<and> wd_transferred_at r \<noteq> None))"

text \<open>\<^verbatim>\<open>gds_withdrawal_guard\<close>: what a new request must find.\<close>

definition admission_ok :: "gds_withdrawal \<Rightarrow> shop_db \<Rightarrow> bool" where
  "admission_ok r db =
     (let s = wd_settings db in
      case find_wallet (wd_wallet_id r) db of
        None \<Rightarrow> False
      | Some w \<Rightarrow>
          gw_buyer_id w = wd_owner_id r \<and> gw_status w = ''ACTIVE'' \<and> gw_debt w = 0 \<and> wd_amount r \<le> gw_available w
          \<and> ws_admission s \<and> ws_processing s \<and> wd_status r = ''PENDING'' \<and> wd_admin_id r = None \<and> wd_bank_ref r = None
          \<and> wd_transferred_at r = None \<and> wd_settings_version r = ws_version s \<and> wd_minimum r = ws_minimum s
          \<and> wd_maximum r = ws_maximum s)"

definition find_verification :: "string \<Rightarrow> shop_db \<Rightarrow> account_verification option" where
  "find_verification i db = find (\<lambda>x. vf_id x = i) (verifications db)"

text \<open>\<^verbatim>\<open>gds_withdrawal_verification_guard\<close>: the snapshot of the recipient is the one of its proof.\<close>

definition recipient_bound :: "int \<Rightarrow> gds_withdrawal \<Rightarrow> shop_db \<Rightarrow> bool" where
  "recipient_bound now r db =
     (case wd_verification_id r of
        None \<Rightarrow>
          \<not> ws_verification_required (wd_settings db) \<and> wd_bank_bin r = None \<and> wd_bank_name r = None
          \<and> wd_bank_short_name r = None \<and> wd_verified_at r = None
      | Some v \<Rightarrow>
          (case find_verification v db of
             None \<Rightarrow> False
           | Some p \<Rightarrow>
               vf_purpose p = ''CREATE'' \<and> vf_owner_id p = wd_owner_id r \<and> vf_actor_id p = wd_owner_id r
               \<and> vf_bank_code p = wd_bank_code r \<and> vf_account_number p = wd_account_number r
               \<and> vf_account_holder p = wd_account_holder r \<and> now < vf_expires_at p
               \<and> wd_bank_bin r = Some (vf_bank_bin p) \<and> wd_bank_name r = Some (vf_bank_name p)
               \<and> wd_bank_short_name r = Some (vf_bank_short_name p) \<and> wd_verified_at r = Some (vf_verified_at p)))"

definition withdrawal_taken :: "gds_withdrawal \<Rightarrow> shop_db \<Rightarrow> bool" where
  "withdrawal_taken r db =
     (\<exists>y\<in>set (withdrawals db).
        wd_id y = wd_id r \<or> (wd_owner_id y = wd_owner_id r \<and> wd_key_hash y = wd_key_hash r)
        \<or> (wd_verification_id r \<noteq> None \<and> wd_verification_id y = wd_verification_id r))"

definition cashout_posting :: "string \<Rightarrow> string \<Rightarrow> gds_withdrawal \<Rightarrow> int \<Rightarrow> int \<Rightarrow> int \<Rightarrow> gds_journal" where
  "cashout_posting step kind r a h c =
     \<lparr>gj_wallet_id = wd_wallet_id r, gj_event_key = ''gds:withdrawal:'' @ step @ '':'' @ wd_id r, gj_kind = kind,
      gj_amount = wd_amount r, gj_available = a, gj_held = h, gj_clearing = c, gj_topup_id = None,
      gj_collection_ref = None, gj_order_ref = Some (wd_id r)\<rparr>"

definition insert_withdrawal :: "int \<Rightarrow> gds_withdrawal \<Rightarrow> shop_db \<Rightarrow> shop_db result" where
  "insert_withdrawal now r db =
     throw_if (\<not> admission_ok r db) (DatabaseError ''GDS withdrawal admission or balance invalid'') (
     throw_if (\<not> recipient_bound now r db) (DatabaseError ''GDS recipient verification binding invalid'') (
     throw_if (\<not> withdrawal_row_ok r) (DatabaseError ''gds_withdrawals_check'') (
     throw_if (withdrawal_taken r db) (PrismaError ''P2002'') (
     post_journal now (cashout_posting ''reserve'' ''WITHDRAWAL_RESERVE'' r (- wd_amount r) (wd_amount r) 0)
       (db\<lparr>withdrawals := withdrawals db @ [r]\<rparr>)))))"

text \<open>\<^verbatim>\<open>gds_withdrawal_event_apply\<close>: an event is the only way a request changes.\<close>

definition next_allowed :: "string \<Rightarrow> string \<Rightarrow> bool" where
  "next_allowed s t =
     ((s = ''PENDING'' \<and> (t = ''APPROVED'' \<or> t = ''REJECTED'' \<or> t = ''CANCELLED''))
      \<or> (s = ''APPROVED'' \<and> (t = ''PROCESSING'' \<or> t = ''REJECTED''))
      \<or> (s = ''PROCESSING'' \<and> (t = ''PAID'' \<or> t = ''FAILED'')))"

text \<open>\<^verbatim>\<open>normalizeBankAccountName\<close> on ASCII, where Unicode normalisation and the removal of
  diacritics do nothing; the database normalises with a function of its own to the same effect.\<close>

fun collapse_spaces :: "string \<Rightarrow> string" where
  "collapse_spaces [] = []"
| "collapse_spaces [c] = [if js_space c then CHR '' '' else c]"
| "collapse_spaces (c # d # cs) =
     (if js_space c then (if js_space d then collapse_spaces (d # cs) else CHR '' '' # collapse_spaces (d # cs))
      else c # collapse_spaces (d # cs))"

definition normalize_bank_account_name :: "string \<Rightarrow> string" where
  "normalize_bank_account_name s = js_trim (collapse_spaces (js_upper s))"

definition transfer_proof :: "int \<Rightarrow> string \<Rightarrow> gds_withdrawal \<Rightarrow> bool \<Rightarrow> account_verification \<Rightarrow> bool" where
  "transfer_proof now actor r required p =
     (vf_withdrawal_id p = Some (wd_id r) \<and> vf_purpose p = ''TRANSFER'' \<and> vf_actor_id p = actor
      \<and> vf_owner_id p = wd_owner_id r \<and> vf_bank_code p = wd_bank_code r \<and> vf_account_number p = wd_account_number r
      \<and> now < vf_expires_at p \<and> vf_normalized_holder p = normalize_bank_account_name (wd_account_holder r)
      \<and> (vf_provider p = ''vietqr''
         \<or> vf_provider p = ''admin_manual'' \<and> wd_verification_id r = None \<and> \<not> required))"

definition event_refused :: "int \<Rightarrow> withdrawal_event \<Rightarrow> gds_withdrawal \<Rightarrow> shop_db \<Rightarrow> string option" where
  "event_refused now e r db =
     (let t = we_to e; required = ws_verification_required (wd_settings db) in
      if t = ''PROCESSING'' \<and> \<not> list_ex (transfer_proof now (we_actor_id e) r required) (verifications db)
      then Some ''GDS transfer recipient requires fresh matching verification''
      else if Some (wd_status r) \<noteq> we_from e \<or> \<not> next_allowed (wd_status r) t then Some ''GDS withdrawal invalid transition''
      else if (t = ''CANCELLED'' \<and> we_actor_id e \<noteq> wd_owner_id r) \<or> (t \<noteq> ''CANCELLED'' \<and> we_actor_id e = wd_owner_id r)
      then Some ''GDS withdrawal actor invalid''
      else if (t = ''PROCESSING'' \<or> t = ''PAID'' \<or> t = ''FAILED'') \<and> \<not> ws_processing (wd_settings db)
      then Some ''GDS withdrawal processing disabled''
      else if t = ''PROCESSING'' \<and> (case find_wallet (wd_wallet_id r) db of None \<Rightarrow> True
              | Some w \<Rightarrow> gw_status w \<noteq> ''ACTIVE'' \<or> gw_debt w \<noteq> 0)
      then Some ''GDS withdrawal blocked by wallet or debt''
      else if (t = ''PAID'' \<or> t = ''FAILED'') \<and> wd_admin_id r \<noteq> Some (we_actor_id e)
      then Some ''GDS withdrawal claimed by another admin''
      else if t = ''PAID'' \<and> ((case we_bank_ref e of None \<Rightarrow> True | Some b \<Rightarrow> \<not> truthy (js_trim b))
              \<or> (case we_transferred_at e of None \<Rightarrow> True | Some d \<Rightarrow> d < wd_created_at r \<or> now < d))
      then Some ''GDS withdrawal payment proof or transfer time invalid''
      else if t \<noteq> ''PAID'' \<and> (we_bank_ref e \<noteq> None \<or> we_transferred_at e \<noteq> None)
      then Some ''GDS withdrawal unexpected payment proof''
      else None)"

definition moved :: "withdrawal_event \<Rightarrow> gds_withdrawal \<Rightarrow> gds_withdrawal" where
  "moved e r =
     r\<lparr>wd_status := we_to e,
       wd_admin_id := (if we_to e = ''PROCESSING'' then Some (we_actor_id e) else wd_admin_id r),
       wd_bank_ref := (if we_to e = ''PAID'' then we_bank_ref e else wd_bank_ref r),
       wd_transferred_at := (if we_to e = ''PAID'' then we_transferred_at e else wd_transferred_at r)\<rparr>"

definition bank_ref_taken :: "withdrawal_event \<Rightarrow> gds_withdrawal \<Rightarrow> shop_db \<Rightarrow> bool" where
  "bank_ref_taken e r db =
     (we_to e = ''PAID'' \<and> (\<exists>y\<in>set (withdrawals db). wd_id y \<noteq> wd_id r \<and> wd_bank_ref y = we_bank_ref e))"

definition terminal_posting :: "withdrawal_event \<Rightarrow> gds_withdrawal \<Rightarrow> gds_journal option" where
  "terminal_posting e r =
     (if we_to e = ''PAID'' then Some (cashout_posting ''terminal'' ''WITHDRAWAL_PAID'' r 0 (- wd_amount r) (wd_amount r))
      else if we_to e = ''CANCELLED'' \<or> we_to e = ''REJECTED'' \<or> we_to e = ''FAILED''
      then Some (cashout_posting ''terminal'' ''WITHDRAWAL_RELEASE'' r (wd_amount r) (- wd_amount r) 0)
      else None)"

definition creation_event_ok :: "withdrawal_event \<Rightarrow> gds_withdrawal \<Rightarrow> shop_db \<Rightarrow> bool" where
  "creation_event_ok e r db =
     (wd_status r = ''PENDING'' \<and> we_to e = ''PENDING'' \<and> we_actor_id e = wd_owner_id r
      \<and> (\<forall>x\<in>set (withdrawal_events db). we_withdrawal_id x \<noteq> wd_id r))"

definition insert_event :: "int \<Rightarrow> withdrawal_event \<Rightarrow> shop_db \<Rightarrow> shop_db result" where
  "insert_event now e db =
     throw_if (\<not> truthy (js_trim (we_reason e)) \<or> length (js_trim (we_reason e)) > 500)
       (DatabaseError ''gds_withdrawal_events_reason_check'') (
     some_or (DatabaseError ''GDS withdrawal missing'') (find_withdrawal (we_withdrawal_id e) db) (\<lambda>r.
     let db1 = db\<lparr>withdrawal_events := withdrawal_events db @ [e]\<rparr> in
     if we_from e = None
     then throw_if (\<not> creation_event_ok e r db) (DatabaseError ''GDS withdrawal invalid creation event'') (Inr db1)
     else
       case event_refused now e r db of
         Some m \<Rightarrow> Inl (DatabaseError m)
       | None \<Rightarrow>
           throw_if (bank_ref_taken e r db) (PrismaError ''P2002'') (
           throw_if (\<not> withdrawal_row_ok (moved e r)) (DatabaseError ''gds_withdrawals_check'') (
           let db2 = db1\<lparr>withdrawals := update_where (\<lambda>x. wd_id x = wd_id r) (moved e) (withdrawals db)\<rparr> in
           case terminal_posting e r of None \<Rightarrow> Inr db2 | Some j \<Rightarrow> post_journal now j db2))))"

end
