(* ===== verification/Gds_Accounts.thy ===== *)
theory Gds_Accounts
  imports Gds_Ledger
begin

text \<open>
  The contract of the internal wallet.  An abstract account has free money and slots: an order or a
  withdrawal that reserves money, spends it once or gives it back, and never reopens.  The ledger invariant
  ties the tables together, and the tables of one wallet abstract to an account on which every trigger
  is one legal step.
\<close>

section \<open>Accounts\<close>

datatype slot = Order_slot string | Cashout_slot string

datatype slot_state = Held int | Spent int | Returned int

record account =
  ac_free :: int
  ac_slots :: "slot \<Rightarrow> slot_state option"

inductive account_step :: "account \<Rightarrow> account \<Rightarrow> bool" where
  deposit: "0 < n \<Longrightarrow> account_step a (a\<lparr>ac_free := ac_free a + n\<rparr>)"
| reverse: "0 < n \<Longrightarrow> n \<le> ac_free a \<Longrightarrow> account_step a (a\<lparr>ac_free := ac_free a - n\<rparr>)"
| reserve: "ac_slots a s = None \<Longrightarrow> 0 < n \<Longrightarrow> n \<le> ac_free a
    \<Longrightarrow> account_step a \<lparr>ac_free = ac_free a - n, ac_slots = (ac_slots a)(s \<mapsto> Held n)\<rparr>"
| spend: "ac_slots a s = Some (Held n) \<Longrightarrow> account_step a (a\<lparr>ac_slots := (ac_slots a)(s \<mapsto> Spent n)\<rparr>)"
| give_back: "ac_slots a s = Some (Held n)
    \<Longrightarrow> account_step a \<lparr>ac_free = ac_free a + n, ac_slots = (ac_slots a)(s \<mapsto> Returned n)\<rparr>"

lemma account_collapse: "a\<lparr>ac_slots := f, ac_free := n\<rparr> = \<lparr>ac_free = n, ac_slots = f\<rparr>" for a :: account
  by (cases a) simp

text \<open>The account promises that free money never goes negative and that a slot is final once it is spent or
  given back.\<close>

lemma account_step_free: "account_step a b \<Longrightarrow> 0 \<le> ac_free a \<Longrightarrow> (\<forall>s n. ac_slots a s = Some (Held n) \<longrightarrow> 0 < n)
    \<Longrightarrow> 0 \<le> ac_free b \<and> (\<forall>s n. ac_slots b s = Some (Held n) \<longrightarrow> 0 < n)"
  by (induction rule: account_step.induct) (auto simp: less_imp_le)

definition closed_slot :: "slot_state \<Rightarrow> bool" where
  "closed_slot x = (case x of Held _ \<Rightarrow> False | _ \<Rightarrow> True)"

lemma account_step_final:
  "account_step a b \<Longrightarrow> ac_slots a s = Some x \<Longrightarrow> closed_slot x \<Longrightarrow> ac_slots b s = Some x"
  by (induction rule: account_step.induct) (auto simp: closed_slot_def)

lemma account_steps_final:
  "account_step\<^sup>*\<^sup>* a b \<Longrightarrow> ac_slots a s = Some x \<Longrightarrow> closed_slot x \<Longrightarrow> ac_slots b s = Some x"
  by (induction rule: rtranclp_induct) (auto dest: account_step_final)

lemma account_step_amount:
  "account_step a b \<Longrightarrow> ac_slots a s = Some (Held n)
     \<Longrightarrow> ac_slots b s = Some (Held n) \<or> ac_slots b s = Some (Spent n) \<or> ac_slots b s = Some (Returned n)"
  by (induction rule: account_step.induct) (auto split: if_splits)

section \<open>A simulation\<close>

text \<open>The interface between a concrete step relation and its specification.\<close>

locale refinement =
  fixes cstep :: "'s \<Rightarrow> 's \<Rightarrow> bool" and astep :: "'a \<Rightarrow> 'a \<Rightarrow> bool" and abstraction :: "'s \<Rightarrow> 'a" and good :: "'s \<Rightarrow> bool"
  assumes good_step: "good s \<Longrightarrow> cstep s t \<Longrightarrow> good t"
    and simulates: "good s \<Longrightarrow> cstep s t \<Longrightarrow> astep\<^sup>*\<^sup>* (abstraction s) (abstraction t)"
begin

lemma steps_good: "cstep\<^sup>*\<^sup>* s t \<Longrightarrow> good s \<Longrightarrow> good t"
  by (induction rule: rtranclp_induct) (auto dest: good_step)

lemma steps_simulate: "cstep\<^sup>*\<^sup>* s t \<Longrightarrow> good s \<Longrightarrow> astep\<^sup>*\<^sup>* (abstraction s) (abstraction t)"
proof (induction rule: rtranclp_induct)
  case (step t u)
  then have "astep\<^sup>*\<^sup>* (abstraction t) (abstraction u)"
    using steps_good simulates by blast
  with step show ?case by (meson rtranclp_trans)
qed simp

lemma steps_final:
  assumes "\<And>a b. astep a b \<Longrightarrow> P a \<Longrightarrow> P b" and "cstep\<^sup>*\<^sup>* s t" and "good s" and "P (abstraction s)"
  shows "P (abstraction t)"
proof -
  have "astep\<^sup>*\<^sup>* a b \<Longrightarrow> P a \<Longrightarrow> P b" for a b
    by (induction rule: rtranclp_induct) (auto dest: assms(1))
  with steps_simulate [OF assms(2,3)] assms(4) show ?thesis by blast
qed

end

section \<open>The tables of a wallet as an account\<close>

definition order_slot_state :: "gds_hold \<Rightarrow> slot_state" where
  "order_slot_state h =
     (if gh_status h = ''RESERVED'' then Held (gh_amount h)
      else if gh_status h = ''CAPTURED'' then Spent (gh_amount h) else Returned (gh_amount h))"

definition cashout_state :: "gds_withdrawal \<Rightarrow> slot_state" where
  "cashout_state r =
     (if withdrawal_open r then Held (wd_amount r)
      else if wd_status r = ''PAID'' then Spent (wd_amount r) else Returned (wd_amount r))"

definition slots_of :: "string \<Rightarrow> gds_hold list \<Rightarrow> gds_withdrawal list \<Rightarrow> slot \<Rightarrow> slot_state option" where
  "slots_of i hs rs s =
     (case s of
        Order_slot k \<Rightarrow>
          (case find (\<lambda>h. gh_order_ref h = k) hs of
             None \<Rightarrow> None | Some h \<Rightarrow> if gh_wallet_id h = i then Some (order_slot_state h) else None)
      | Cashout_slot k \<Rightarrow>
          (case find (\<lambda>r. wd_id r = k) rs of
             None \<Rightarrow> None | Some r \<Rightarrow> if wd_wallet_id r = i then Some (cashout_state r) else None))"

definition free_of :: "string \<Rightarrow> gds_wallet list \<Rightarrow> int" where
  "free_of i ws = (case find (\<lambda>w. gw_id w = i) ws of None \<Rightarrow> 0 | Some w \<Rightarrow> gw_available w)"

definition account_of :: "string \<Rightarrow> shop_db \<Rightarrow> account" where
  "account_of i db = \<lparr>ac_free = free_of i (wallets db), ac_slots = slots_of i (holds db) (withdrawals db)\<rparr>"

section \<open>The ledger invariant\<close>

definition rows_of :: "string \<Rightarrow> gds_journal list \<Rightarrow> gds_journal list" where
  "rows_of i js = filter (\<lambda>j. gj_wallet_id j = i) js"

definition balance_ok :: "gds_journal list \<Rightarrow> gds_wallet \<Rightarrow> bool" where
  "balance_ok js w =
     (gw_available w = sum_list (map gj_available (rows_of (gw_id w) js))
      \<and> gw_held w = sum_list (map gj_held (rows_of (gw_id w) js)) \<and> 0 \<le> gw_available w \<and> 0 \<le> gw_held w)"

definition held_by_orders :: "string \<Rightarrow> gds_hold list \<Rightarrow> int" where
  "held_by_orders i hs = sum_list (map gh_amount (filter (\<lambda>h. gh_wallet_id h = i \<and> gh_status h = ''RESERVED'') hs))"

definition held_by_cashouts :: "string \<Rightarrow> gds_withdrawal list \<Rightarrow> int" where
  "held_by_cashouts i rs = sum_list (map wd_amount (filter (\<lambda>r. wd_wallet_id r = i \<and> withdrawal_open r) rs))"

definition credit_of :: "gds_topup \<Rightarrow> gds_journal \<Rightarrow> bool" where
  "credit_of t j =
     (gj_kind j = ''TOPUP_CREDIT'' \<and> gj_topup_id j = Some (gt_id t) \<and> gj_amount j = gt_amount t
      \<and> gj_wallet_id j = gt_wallet_id t \<and> gj_collection_ref j = gt_collection_ref t)"

text \<open>The top-ups that count are the credited ones, and each is in the journal once.\<close>

definition topup_credits_ok :: "gds_topup list \<Rightarrow> gds_journal list \<Rightarrow> bool" where
  "topup_credits_ok ts js =
     ((\<forall>t\<in>set ts. gt_status t = ''CREDITED'' \<longrightarrow> (\<exists>j\<in>set js. credit_of t j))
      \<and> (\<forall>j\<in>set js. gj_kind j = ''TOPUP_CREDIT'' \<longrightarrow> (\<exists>t\<in>set ts. gt_status t = ''CREDITED'' \<and> credit_of t j))
      \<and> distinct (map gj_topup_id (filter (\<lambda>j. gj_kind j = ''TOPUP_CREDIT'') js)))"

definition keys_ok :: "shop_db \<Rightarrow> bool" where
  "keys_ok db =
     (distinct (map gw_id (wallets db)) \<and> distinct (map gh_order_ref (holds db)) \<and> distinct (map wd_id (withdrawals db))
      \<and> distinct (map gt_id (topups db)) \<and> distinct (map gj_event_key (journal db)))"

definition links_ok :: "shop_db \<Rightarrow> bool" where
  "links_ok db =
     (gj_wallet_id ` set (journal db) \<subseteq> gw_id ` set (wallets db)
      \<and> gh_wallet_id ` set (holds db) \<subseteq> gw_id ` set (wallets db)
      \<and> wd_wallet_id ` set (withdrawals db) \<subseteq> gw_id ` set (wallets db))"

definition ledger_inv :: "shop_db \<Rightarrow> bool" where
  "ledger_inv db =
     (keys_ok db \<and> links_ok db \<and> (\<forall>j\<in>set (journal db). posting_ok j) \<and> topup_credits_ok (topups db) (journal db)
      \<and> (\<forall>w\<in>set (wallets db). balance_ok (journal db) w
           \<and> gw_held w = held_by_orders (gw_id w) (holds db) + held_by_cashouts (gw_id w) (withdrawals db)))"

lemma ledger_inv_cong:
  assumes "wallets db' = wallets db" "holds db' = holds db" "withdrawals db' = withdrawals db"
    "topups db' = topups db" "journal db' = journal db"
  shows "ledger_inv db' = ledger_inv db" "account_of i db' = account_of i db"
  using assms by (simp_all add: ledger_inv_def keys_ok_def links_ok_def account_of_def)

lemma ledger_inv_parts: "ledger_inv db \<Longrightarrow> keys_ok db" "ledger_inv db \<Longrightarrow> links_ok db"
  by (simp_all add: ledger_inv_def)

section \<open>What a posting does\<close>

definition posted :: "gds_journal \<Rightarrow> gds_wallet list \<Rightarrow> gds_wallet list" where
  "posted j ws =
     update_where (\<lambda>x. gw_id x = gj_wallet_id j)
       (\<lambda>x. x\<lparr>gw_available := gw_available x + gj_available j, gw_held := gw_held x + gj_held j\<rparr>) ws"

lemma posting_kinds:
  "posting_ok j \<Longrightarrow> gj_kind j \<in> {''TOPUP_CREDIT'', ''RESERVE'', ''CAPTURE'', ''RELEASE'', ''WITHDRAWAL_RESERVE'',
     ''WITHDRAWAL_RELEASE'', ''WITHDRAWAL_PAID'', ''REVENUE_CREDIT'', ''REVENUE_REVERSAL''}"
  by (auto simp: posting_ok_def Let_def)

lemma apply_source_frame:
  "apply_source now j db = Inr db' \<Longrightarrow> db' = db\<lparr>topups := topups db', holds := holds db'\<rparr>"
  by (auto simp: apply_source_def credit_topup_def open_hold_def close_hold_def check_withdrawal_def check_effect_def
      result_simps split: if_splits)

lemma apply_balance_posted:
  assumes "apply_balance j db = Inr db'"
  shows "db' = db\<lparr>wallets := posted j (wallets db)\<rparr>
    \<and> (\<exists>w. find_wallet (gj_wallet_id j) db = Some w \<and> 0 \<le> gw_available w + gj_available j \<and> 0 \<le> gw_held w + gj_held j)"
  using assms by (auto simp: apply_balance_def posted_def result_simps)

lemma post_journal_frame:
  assumes "post_journal now j db = Inr db'"
  shows "db' = db\<lparr>journal := journal db @ [j], topups := topups db', holds := holds db', wallets := posted j (wallets db)\<rparr>
    \<and> posting_ok j \<and> \<not> posting_taken j db
    \<and> (\<exists>w. find_wallet (gj_wallet_id j) db = Some w \<and> 0 \<le> gw_available w + gj_available j \<and> 0 \<le> gw_held w + gj_held j)
    \<and> (\<exists>db1. apply_source now j (db\<lparr>journal := journal db @ [j]\<rparr>) = Inr db1 \<and> topups db1 = topups db' \<and> holds db1 = holds db')"
proof -
  obtain db1 where ok: "posting_ok j" "\<not> posting_taken j db" and
      s: "apply_source now j (db\<lparr>journal := journal db @ [j]\<rparr>) = Inr db1" and b: "apply_balance j db1 = Inr db'"
    using assms by (auto simp: post_journal_def result_simps)
  from apply_source_frame [OF s] obtain ts hs where
      d1: "db1 = db\<lparr>journal := journal db @ [j], topups := ts, holds := hs\<rparr>" by blast
  from apply_balance_posted [OF b] have d': "db' = db1\<lparr>wallets := posted j (wallets db1)\<rparr>"
    and w: "\<exists>w. find_wallet (gj_wallet_id j) db1 = Some w \<and> 0 \<le> gw_available w + gj_available j \<and> 0 \<le> gw_held w + gj_held j"
    by auto
  show ?thesis using ok s w by (simp add: d1 d' find_wallet_def)
qed

lemma source_unchanged:
  assumes "apply_source now j db = Inr db'"
  shows "gj_kind j \<noteq> ''TOPUP_CREDIT'' \<Longrightarrow> topups db' = topups db"
    and "gj_kind j \<notin> {''RESERVE'', ''CAPTURE'', ''RELEASE''} \<Longrightarrow> holds db' = holds db"
  using assms
  by (auto simp: apply_source_def credit_topup_def open_hold_def close_hold_def check_withdrawal_def check_effect_def
      result_simps split: if_splits)

section \<open>Balances\<close>

lemma posted_ids [simp]: "map gw_id (posted j ws) = map gw_id ws"
  by (simp add: posted_def map_update_where_same)

lemma posted_balances:
  assumes "\<And>w. w \<in> set ws \<Longrightarrow> balance_ok js w" and "distinct (map gw_id ws)"
    and "find (\<lambda>w. gw_id w = gj_wallet_id j) ws = Some w0"
    and "0 \<le> gw_available w0 + gj_available j" "0 \<le> gw_held w0 + gj_held j"
    and "w \<in> set (posted j ws)"
  shows "balance_ok (js @ [j]) w"
proof -
  obtain v where v: "v \<in> set ws" and w: "w = (if gw_id v = gj_wallet_id j
      then v\<lparr>gw_available := gw_available v + gj_available j, gw_held := gw_held v + gj_held j\<rparr> else v)"
    using assms(6) by (auto simp: posted_def set_update_where)
  have "gw_id v = gj_wallet_id j \<Longrightarrow> v = w0"
    using find_row [OF assms(2) v] assms(3) by simp
  then show ?thesis
    using assms(1) [OF v] assms(4,5) by (auto simp: w balance_ok_def rows_of_def)
qed

lemma free_of_posted:
  assumes "find (\<lambda>w. gw_id w = gj_wallet_id j) ws = Some w0"
  shows "free_of i (posted j ws) = free_of i ws + (if i = gj_wallet_id j then gj_available j else 0)"
proof (cases "find (\<lambda>w. gw_id w = i) ws")
  case None
  with assms show ?thesis by (auto simp: free_of_def posted_def find_update_where)
next
  case (Some v)
  then have "gw_id v = i" by (rule find_key)
  with Some show ?thesis by (simp add: free_of_def posted_def find_update_where)
qed

lemma posted_held:
  assumes "w \<in> set (posted j ws)" and "\<And>v. v \<in> set ws \<Longrightarrow> gw_held v = f (gw_id v)"
  shows "gw_held w = f (gw_id w) + (if gw_id w = gj_wallet_id j then gj_held j else 0)"
  using assms by (auto simp: posted_def set_update_where)

section \<open>Holds\<close>

lemma open_hold_slots:
  assumes "find (\<lambda>h. gh_order_ref h = k) hs = None"
  shows "slots_of i (hs @ [\<lparr>gh_wallet_id = w, gh_order_ref = k, gh_amount = n, gh_status = ''RESERVED''\<rparr>]) rs
    = (if i = w then (slots_of i hs rs)(Order_slot k \<mapsto> Held n) else slots_of i hs rs)"
  using assms by (auto simp: slots_of_def find_append order_slot_state_def fun_eq_iff split: slot.splits option.splits)

lemma open_hold_sum:
  "held_by_orders i (hs @ [\<lparr>gh_wallet_id = w, gh_order_ref = k, gh_amount = n, gh_status = ''RESERVED''\<rparr>])
    = held_by_orders i hs + (if i = w then n else 0)"
  by (simp add: held_by_orders_def)

definition settled_hold :: "gds_journal \<Rightarrow> gds_hold \<Rightarrow> gds_hold" where
  "settled_hold j h = h\<lparr>gh_status := (if gj_kind j = ''CAPTURE'' then ''CAPTURED'' else ''RELEASED'')\<rparr>"

lemma settled_simps [simp]:
  "gh_wallet_id (settled_hold j h) = gh_wallet_id h" "gh_order_ref (settled_hold j h) = gh_order_ref h"
  "gh_amount (settled_hold j h) = gh_amount h" "gh_status (settled_hold j h) \<noteq> ''RESERVED''"
  "order_slot_state (settled_hold j h) = (if gj_kind j = ''CAPTURE'' then Spent (gh_amount h) else Returned (gh_amount h))"
  by (simp_all add: settled_hold_def order_slot_state_def)

lemma matching_hold_key:
  assumes "distinct (map gh_order_ref hs)" and "x \<in> set hs" and "matching_hold j x" and "y \<in> set hs"
  shows "matching_hold j y \<longleftrightarrow> gh_order_ref y = gh_order_ref x"
  using same_row [OF assms(1,4,2)] assms(3) by (auto simp: matching_hold_def)

lemma close_hold_sum:
  assumes "distinct (map gh_order_ref hs)" and "x \<in> set hs" and "matching_hold j x"
  shows "held_by_orders i (update_where (matching_hold j) (settled_hold j) hs)
    = held_by_orders i hs - (if i = gj_wallet_id j then gj_amount j else 0)"
proof -
  have "gh_wallet_id x = gj_wallet_id j" "gh_amount x = gj_amount j" "gh_status x = ''RESERVED''"
    using assms(3) by (simp_all add: matching_hold_def)
  then show ?thesis
    using sum_update_one [of gh_order_ref hs x "matching_hold j" gh_amount
        "\<lambda>h. gh_wallet_id h = i \<and> gh_status h = ''RESERVED''" "settled_hold j"] assms
    by (auto simp: held_by_orders_def matching_hold_key)
qed

lemma close_hold_slots:
  assumes "distinct (map gh_order_ref hs)" and "x \<in> set hs" and "matching_hold j x"
  shows "slots_of i (update_where (matching_hold j) (settled_hold j) hs) rs
    = (if i = gj_wallet_id j
       then (slots_of i hs rs)(Order_slot (the (gj_order_ref j)) \<mapsto>
         (if gj_kind j = ''CAPTURE'' then Spent (gj_amount j) else Returned (gj_amount j)))
       else slots_of i hs rs)"
    and "slots_of (gj_wallet_id j) hs rs (Order_slot (the (gj_order_ref j))) = Some (Held (gj_amount j))"
proof -
  have m: "gh_wallet_id x = gj_wallet_id j" "gh_amount x = gj_amount j" "gh_status x = ''RESERVED''"
      "gh_order_ref x = the (gj_order_ref j)"
    using assms(3) by (simp_all add: matching_hold_def)
  have f: "find (\<lambda>h. gh_order_ref h = the (gj_order_ref j)) hs = Some x"
    using find_row [OF assms(1,2)] m by simp
  have o: "find (\<lambda>h. gh_order_ref h = k) hs = Some y \<Longrightarrow> k \<noteq> the (gj_order_ref j) \<Longrightarrow> \<not> matching_hold j y" for k y
    by (auto simp: matching_hold_def dest: find_SomeD)
  show "slots_of i (update_where (matching_hold j) (settled_hold j) hs) rs
    = (if i = gj_wallet_id j
       then (slots_of i hs rs)(Order_slot (the (gj_order_ref j)) \<mapsto>
         (if gj_kind j = ''CAPTURE'' then Spent (gj_amount j) else Returned (gj_amount j)))
       else slots_of i hs rs)"
  proof (rule ext)
    fix s
    show "slots_of i (update_where (matching_hold j) (settled_hold j) hs) rs s
      = (if i = gj_wallet_id j
         then (slots_of i hs rs)(Order_slot (the (gj_order_ref j)) \<mapsto>
           (if gj_kind j = ''CAPTURE'' then Spent (gj_amount j) else Returned (gj_amount j)))
         else slots_of i hs rs) s"
    proof (cases s)
      case (Order_slot k)
      show ?thesis
      proof (cases "k = the (gj_order_ref j)")
        case True
        with Order_slot assms(3) m f show ?thesis by (auto simp: slots_of_def find_updated)
      next
        case False
        with Order_slot show ?thesis
          by (auto simp: slots_of_def find_updated split: option.splits dest: o)
      qed
    qed (auto simp: slots_of_def)
  qed
  show "slots_of (gj_wallet_id j) hs rs (Order_slot (the (gj_order_ref j))) = Some (Held (gj_amount j))"
    using m f by (simp add: slots_of_def order_slot_state_def)
qed

section \<open>Postings that are not part of a withdrawal\<close>

lemma topup_credits_ok_other:
  "topup_credits_ok ts js \<Longrightarrow> gj_kind j \<noteq> ''TOPUP_CREDIT'' \<Longrightarrow> topup_credits_ok ts (js @ [j])"
  by (auto simp: topup_credits_ok_def credit_of_def)

lemma credit_topup_credits:
  assumes "credit_topup now j db = Inr db'" and "topup_credits_ok (topups db) js" and "gj_kind j = ''TOPUP_CREDIT''"
    and "distinct (map gt_id (topups db))" and "from_topup j"
    and "\<forall>y\<in>set js. gj_topup_id y \<noteq> gj_topup_id j"
  shows "topup_credits_ok (topups db') (js @ [j]) \<and> map gt_id (topups db') = map gt_id (topups db)"
proof -
  let ?h = "\<lambda>x. x\<lparr>gt_status := ''CREDITED'', gt_credited_at := Some now\<rparr>"
  obtain t where t: "find_topup (the (gj_topup_id j)) db = Some t" "gt_wallet_id t = gj_wallet_id j" "gt_amount t = gj_amount j"
      "gt_collection_ref t = gj_collection_ref j" and d: "topups db' = update_where (\<lambda>x. gt_id x = gt_id t) ?h (topups db)"
    using assms(1) by (auto simp: credit_topup_def result_simps)
  have m: "t \<in> set (topups db)" "gj_topup_id j = Some (gt_id t)"
    using t(1) assms(5) find_key [of gt_id _ "topups db" t] by (auto simp: find_topup_def from_topup_def dest: find_SomeD)
  have u: "x = t" if "x \<in> set (topups db)" "gt_id x = gt_id t" for x
    using find_row [OF assms(4) m(1)] find_row [OF assms(4) that(1)] that(2) by simp
  have j: "credit_of t j" "\<And>x y. credit_of (?h x) y = credit_of x y"
    using t m assms(3) by (simp_all add: credit_of_def)
  have old: "\<exists>x\<in>set (topups db'). gt_status x = ''CREDITED'' \<and> credit_of x y"
    if "y \<in> set js" "gj_kind y = ''TOPUP_CREDIT''" for y
  proof -
    obtain x where "x \<in> set (topups db)" "gt_status x = ''CREDITED''" "credit_of x y"
      using assms(2) \<open>y \<in> set js\<close> \<open>gj_kind y = ''TOPUP_CREDIT''\<close> by (auto simp: topup_credits_ok_def)
    then show ?thesis using j(2)
      by (intro bexI [of _ "if gt_id x = gt_id t then ?h x else x"]) (auto simp: d set_update_where)
  qed
  have new: "\<exists>x\<in>set (topups db'). gt_status x = ''CREDITED'' \<and> credit_of x j"
    using m(1) j by (intro bexI [of _ "?h t"]) (auto simp: d set_update_where)
  have "\<exists>y\<in>set (js @ [j]). credit_of x y" if "x \<in> set (topups db')" "gt_status x = ''CREDITED''" for x
    using that assms(2) u j by (auto simp: d set_update_where topup_credits_ok_def split: if_splits)
  then show ?thesis
    using assms(2,3,6) old new by (auto simp: topup_credits_ok_def d map_update_where_same)
qed

text \<open>The tables after a posting, when whoever posts a withdrawal has already moved its row.\<close>

lemma post_holds:
  assumes "apply_source now j db = Inr db'" and "posting_ok j" and "distinct (map gh_order_ref (holds db))"
  shows "distinct (map gh_order_ref (holds db'))
    \<and> gh_wallet_id ` set (holds db') \<subseteq> insert (gj_wallet_id j) (gh_wallet_id ` set (holds db))
    \<and> held_by_orders i (holds db') = held_by_orders i (holds db)
        + (if i = gj_wallet_id j \<and> \<not> cashout_kind (gj_kind j) then gj_held j else 0)"
proof -
  consider (reserve) "gj_kind j = ''RESERVE''" | (close) "gj_kind j = ''CAPTURE'' \<or> gj_kind j = ''RELEASE''"
    | (other) "gj_kind j \<notin> {''RESERVE'', ''CAPTURE'', ''RELEASE''}" by auto
  then show ?thesis
  proof cases
    case reserve
    then have "open_hold j db = Inr db'" using assms(1) by (simp add: apply_source_def)
    then have n: "hold_of_order (the (gj_order_ref j)) db = None" and h: "holds db' = holds db @
        [\<lparr>gh_wallet_id = gj_wallet_id j, gh_order_ref = the (gj_order_ref j), gh_amount = gj_amount j, gh_status = ''RESERVED''\<rparr>]"
      by (auto simp: open_hold_def result_simps)
    have "gj_held j = gj_amount j" using assms(2) reserve by (auto simp: posting_ok_def deltas_def Let_def)
    with n h assms(3) reserve show ?thesis
      by (auto simp: open_hold_sum hold_of_order_def find_ex cashout_kind_def)
  next
    case close
    then have "close_hold j db = Inr db'" using assms(1) by (auto simp: apply_source_def)
    then obtain x where x: "x \<in> set (holds db)" "matching_hold j x"
        and h: "holds db' = update_where (matching_hold j) (settled_hold j) (holds db)"
      by (auto simp: close_hold_def result_simps list_ex_iff settled_hold_def [abs_def])
    have "gj_held j = - gj_amount j" using assms(2) close by (auto simp: posting_ok_def deltas_def Let_def)
    with h close close_hold_sum [OF assms(3) x, of i] assms(3) show ?thesis
      by (auto simp: map_update_where_same cashout_kind_def set_update_where)
  next
    case other
    then have "holds db' = holds db" using source_unchanged(2) [OF assms(1)] by simp
    moreover have "cashout_kind (gj_kind j) \<or> gj_held j = 0"
      using assms(2) other by (auto simp: posting_ok_def deltas_def Let_def cashout_kind_def)
    ultimately show ?thesis using assms(3) by auto
  qed
qed

lemma post_credits:
  assumes "apply_source now j db = Inr db'" and "posting_ok j" and "topup_credits_ok (topups db) js"
    and "distinct (map gt_id (topups db))" and "gj_topup_id j = None \<or> (\<forall>y\<in>set js. gj_topup_id y \<noteq> gj_topup_id j)"
  shows "topup_credits_ok (topups db') (js @ [j]) \<and> map gt_id (topups db') = map gt_id (topups db)"
proof (cases "gj_kind j = ''TOPUP_CREDIT''")
  case True
  then have "credit_topup now j db = Inr db'" "from_topup j"
    using assms(1,2) by (auto simp: apply_source_def posting_ok_def from_order_def Let_def)
  then show ?thesis using credit_topup_credits assms(3-5) True by (auto simp: from_topup_def)
next
  case False
  with source_unchanged(1) [OF assms(1)] topup_credits_ok_other [OF assms(3)] show ?thesis by simp
qed

text \<open>The invariant, stated so that it also covers the postings of a withdrawal whose row has just changed.\<close>

lemma post_journal_inv:
  assumes p: "post_journal now j db = Inr db'" and keys: "keys_ok db" and links: "links_ok db"
    and rows: "\<forall>y\<in>set (journal db). posting_ok y"
    and credits: "topup_credits_ok (topups db) (journal db)"
    and bal: "\<And>w. w \<in> set (wallets db) \<Longrightarrow> balance_ok (journal db) w"
    and held: "\<And>w. w \<in> set (wallets db) \<Longrightarrow> gw_held w + (if cashout_kind (gj_kind j) \<and> gw_id w = gj_wallet_id j then gj_held j else 0)
        = held_by_orders (gw_id w) (holds db) + held_by_cashouts (gw_id w) (withdrawals db)"
  shows "ledger_inv db'"
proof -
  obtain ts hs w0 db1 where d': "db' = db\<lparr>journal := journal db @ [j], topups := ts, holds := hs, wallets := posted j (wallets db)\<rparr>"
    and ok: "posting_ok j" "\<not> posting_taken j db"
    and w0: "find (\<lambda>w. gw_id w = gj_wallet_id j) (wallets db) = Some w0"
      "0 \<le> gw_available w0 + gj_available j" "0 \<le> gw_held w0 + gj_held j"
    and s: "apply_source now j (db\<lparr>journal := journal db @ [j]\<rparr>) = Inr db1" "topups db1 = ts" "holds db1 = hs"
    using post_journal_frame [OF p] by (auto simp: find_wallet_def)
  have hs: "distinct (map gh_order_ref hs)" "gh_wallet_id ` set hs \<subseteq> insert (gj_wallet_id j) (gh_wallet_id ` set (holds db))"
    "held_by_orders i hs = held_by_orders i (holds db)
      + (if i = gj_wallet_id j \<and> \<not> cashout_kind (gj_kind j) then gj_held j else 0)" for i
    using post_holds [OF s(1) ok(1), of i] keys s by (auto simp: keys_ok_def)
  have "gj_topup_id j = None \<or> (\<forall>y\<in>set (journal db). gj_topup_id y \<noteq> gj_topup_id j)"
    using ok(2) by (auto simp: posting_taken_def)
  then have ts: "topup_credits_ok ts (journal db @ [j])" "map gt_id ts = map gt_id (topups db)"
    using post_credits [OF s(1) ok(1)] credits keys s by (auto simp: keys_ok_def)
  have ws: "balance_ok (journal db @ [j]) w" if "w \<in> set (posted j (wallets db))" for w
    using posted_balances [OF bal _ w0 that] keys by (simp add: keys_ok_def)
  have h: "gw_held w = held_by_orders (gw_id w) hs + held_by_cashouts (gw_id w) (withdrawals db)"
    if "w \<in> set (posted j (wallets db))" for w
  proof -
    have "gw_held v = held_by_orders (gw_id v) (holds db) + held_by_cashouts (gw_id v) (withdrawals db)
        - (if cashout_kind (gj_kind j) \<and> gw_id v = gj_wallet_id j then gj_held j else 0)" if "v \<in> set (wallets db)" for v
      using held [OF that] by linarith
    from posted_held [OF that this] show ?thesis by (simp add: hs(3))
  qed
  have ids: "gw_id ` set (posted j (wallets db)) = gw_id ` set (wallets db)"
    by (metis posted_ids set_map)
  have j: "gj_wallet_id j \<in> gw_id ` set (wallets db)" using w0(1) by (rule find_key_in)
  have "insert (gj_wallet_id j) (gh_wallet_id ` set (holds db)) \<subseteq> gw_id ` set (wallets db)"
    using links j by (simp add: links_ok_def)
  with hs(2) have "gh_wallet_id ` set hs \<subseteq> gw_id ` set (wallets db)" by (rule subset_trans)
  with links j have "links_ok db'" by (simp add: links_ok_def d' ids)
  moreover have "keys_ok db'" using keys ok(2) hs(1) ts(2) by (auto simp: keys_ok_def d' posting_taken_def)
  moreover have "\<forall>y\<in>set (journal db'). posting_ok y" using rows ok(1) by (simp add: d')
  moreover have "\<forall>w\<in>set (wallets db'). balance_ok (journal db') w
      \<and> gw_held w = held_by_orders (gw_id w) (holds db') + held_by_cashouts (gw_id w) (withdrawals db')"
    using ws h by (simp add: d')
  moreover have "topup_credits_ok (topups db') (journal db')" using ts(1) by (simp add: d')
  ultimately show ?thesis by (simp add: ledger_inv_def)
qed

lemma ledger_post:
  assumes "post_journal now j db = Inr db'" and "ledger_inv db" and "\<not> cashout_kind (gj_kind j)"
  shows "ledger_inv db'"
  using post_journal_inv [OF assms(1)] assms(2,3) by (auto simp: ledger_inv_def)

lemma close_source:
  assumes "apply_source now j db = Inr db'" and "gj_kind j = ''CAPTURE'' \<or> gj_kind j = ''RELEASE''"
    and "distinct (map gh_order_ref (holds db))"
  shows "slots_of i (holds db') rs
    = (if i = gj_wallet_id j
       then (slots_of i (holds db) rs)(Order_slot (the (gj_order_ref j)) \<mapsto>
         (if gj_kind j = ''CAPTURE'' then Spent (gj_amount j) else Returned (gj_amount j)))
       else slots_of i (holds db) rs)"
    and "slots_of (gj_wallet_id j) (holds db) rs (Order_slot (the (gj_order_ref j))) = Some (Held (gj_amount j))"
proof -
  obtain x where x: "x \<in> set (holds db)" "matching_hold j x" "holds db' = update_where (matching_hold j) (settled_hold j) (holds db)"
    using assms(1,2) by (auto simp: apply_source_def close_hold_def result_simps list_ex_iff settled_hold_def [abs_def])
  show "slots_of i (holds db') rs
    = (if i = gj_wallet_id j
       then (slots_of i (holds db) rs)(Order_slot (the (gj_order_ref j)) \<mapsto>
         (if gj_kind j = ''CAPTURE'' then Spent (gj_amount j) else Returned (gj_amount j)))
       else slots_of i (holds db) rs)"
    unfolding x(3) by (rule close_hold_slots(1) [OF assms(3) x(1,2)])
  show "slots_of (gj_wallet_id j) (holds db) rs (Order_slot (the (gj_order_ref j))) = Some (Held (gj_amount j))"
    by (rule close_hold_slots(2) [OF assms(3) x(1,2)])
qed

lemma account_other:
  assumes "post_journal now j db = Inr db'" and "keys_ok db" and "i \<noteq> gj_wallet_id j"
  shows "account_of i db' = account_of i db"
proof -
  obtain ts hs w0 db1 where d': "db' = db\<lparr>journal := journal db @ [j], topups := ts, holds := hs, wallets := posted j (wallets db)\<rparr>"
    and w0: "find (\<lambda>w. gw_id w = gj_wallet_id j) (wallets db) = Some w0"
    and s: "apply_source now j (db\<lparr>journal := journal db @ [j]\<rparr>) = Inr db1" "holds db1 = hs"
    using post_journal_frame [OF assms(1)] by (auto simp: find_wallet_def)
  have "slots_of i hs (withdrawals db) = slots_of i (holds db) (withdrawals db)"
    using s assms(2,3)
    by (auto simp: apply_source_def credit_topup_def open_hold_def close_hold_def check_withdrawal_def check_effect_def
        result_simps list_ex_iff open_hold_slots hold_of_order_def keys_ok_def settled_hold_def [symmetric, abs_def]
        close_hold_slots(1) split: if_splits)
  then show ?thesis
    using free_of_posted [OF w0, of i] assms(3) by (simp add: account_of_def d')
qed

text \<open>A posting that does not belong to a withdrawal is one step of the account of its wallet.\<close>

lemma post_account:
  assumes p: "post_journal now j db = Inr db'" and keys: "keys_ok db" and k: "\<not> cashout_kind (gj_kind j)"
  shows "account_step\<^sup>=\<^sup>= (account_of i db) (account_of i db')"
proof (cases "i = gj_wallet_id j")
  case False
  with account_other [OF p keys] show ?thesis by simp
next
  case True
  obtain ts hs w0 db1 where d': "db' = db\<lparr>journal := journal db @ [j], topups := ts, holds := hs, wallets := posted j (wallets db)\<rparr>"
    and ok: "posting_ok j"
    and w0: "find (\<lambda>w. gw_id w = gj_wallet_id j) (wallets db) = Some w0" "0 \<le> gw_available w0 + gj_available j"
    and s: "apply_source now j (db\<lparr>journal := journal db @ [j]\<rparr>) = Inr db1" "holds db1 = hs"
    using post_journal_frame [OF p] by (auto simp: find_wallet_def)
  let ?a = "account_of i db"
  have f: "free_of i (wallets db) = gw_available w0" "free_of i (posted j (wallets db)) = gw_available w0 + gj_available j"
    using w0(1) True free_of_posted [OF w0(1), of i] by (simp_all add: free_of_def)
  have n: "0 < gj_amount j" using ok by (simp add: posting_ok_def Let_def)
  have b: "account_of i db' = \<lparr>ac_free = ac_free ?a + gj_available j, ac_slots = slots_of i hs (withdrawals db)\<rparr>"
    by (simp add: account_of_def d' f)
  have d: "distinct (map gh_order_ref (holds db))" using keys by (simp add: keys_ok_def)
  consider (credit) "gj_available j = gj_amount j" "hs = holds db"
    | (reversal) "gj_available j = - gj_amount j" "hs = holds db"
    | (reserve) "gj_kind j = ''RESERVE''" "gj_available j = - gj_amount j"
    | (capture) "gj_kind j = ''CAPTURE''" "gj_available j = 0"
    | (release) "gj_kind j = ''RELEASE''" "gj_available j = gj_amount j"
    using ok k source_unchanged(2) [OF s(1)] s(2) by (auto simp: posting_ok_def deltas_def cashout_kind_def Let_def)
  then show ?thesis
  proof cases
    case credit
    with account_step.deposit [OF n, of ?a] b show ?thesis by (simp add: account_of_def)
  next
    case reversal
    with account_step.reverse [OF n, of ?a] b w0(2) show ?thesis by (simp add: account_of_def f(1))
  next
    case reserve
    then have h: "find (\<lambda>h. gh_order_ref h = the (gj_order_ref j)) (holds db) = None"
        "hs = holds db @ [\<lparr>gh_wallet_id = gj_wallet_id j, gh_order_ref = the (gj_order_ref j), gh_amount = gj_amount j, gh_status = ''RESERVED''\<rparr>]"
      using s by (auto simp: apply_source_def open_hold_def result_simps hold_of_order_def)
    have "ac_slots ?a (Order_slot (the (gj_order_ref j))) = None" using h(1) by (simp add: account_of_def slots_of_def)
    moreover have "gj_amount j \<le> ac_free ?a" using reserve w0(2) f(1) by (simp add: account_of_def)
    ultimately have "account_step ?a \<lparr>ac_free = ac_free ?a - gj_amount j,
        ac_slots = (ac_slots ?a)(Order_slot (the (gj_order_ref j)) \<mapsto> Held (gj_amount j))\<rparr>"
      by (intro account_step.reserve n)
    with reserve b True show ?thesis by (simp add: h(2) open_hold_slots [OF h(1)] account_of_def)
  next
    case capture
    then have c: "gj_kind j = ''CAPTURE'' \<or> gj_kind j = ''RELEASE''" by simp
    from close_source(1) [OF s(1) c, of i "withdrawals db"] close_source(2) [OF s(1) c, of "withdrawals db"] d s(2) True
    have "ac_slots ?a (Order_slot (the (gj_order_ref j))) = Some (Held (gj_amount j))"
      "slots_of i hs (withdrawals db) = (ac_slots ?a)(Order_slot (the (gj_order_ref j)) \<mapsto> Spent (gj_amount j))"
      by (simp_all add: account_of_def capture)
    with account_step.spend [OF this(1)] capture b show ?thesis by (simp add: account_of_def)
  next
    case release
    then have c: "gj_kind j = ''CAPTURE'' \<or> gj_kind j = ''RELEASE''" by simp
    from close_source(1) [OF s(1) c, of i "withdrawals db"] close_source(2) [OF s(1) c, of "withdrawals db"] d s(2) True
    have "ac_slots ?a (Order_slot (the (gj_order_ref j))) = Some (Held (gj_amount j))"
      "slots_of i hs (withdrawals db) = (ac_slots ?a)(Order_slot (the (gj_order_ref j)) \<mapsto> Returned (gj_amount j))"
      by (simp_all add: account_of_def release)
    with account_step.give_back [OF this(1)] release b show ?thesis by (simp add: account_of_def)
  qed
qed

section \<open>Withdrawals\<close>

lemma post_cashout_account:
  assumes "post_journal now j db = Inr db'" and "cashout_kind (gj_kind j)"
  shows "account_of i db' = (account_of i db)\<lparr>ac_free := ac_free (account_of i db) + (if i = gj_wallet_id j then gj_available j else 0)\<rparr>"
    and "i = gj_wallet_id j \<Longrightarrow> 0 \<le> ac_free (account_of i db) + gj_available j"
proof -
  obtain ts hs w0 db1 where d': "db' = db\<lparr>journal := journal db @ [j], topups := ts, holds := hs, wallets := posted j (wallets db)\<rparr>"
    and w0: "find (\<lambda>w. gw_id w = gj_wallet_id j) (wallets db) = Some w0" "0 \<le> gw_available w0 + gj_available j"
    and s: "apply_source now j (db\<lparr>journal := journal db @ [j]\<rparr>) = Inr db1" "holds db1 = hs"
    using post_journal_frame [OF assms(1)] by (auto simp: find_wallet_def)
  have "hs = holds db" using source_unchanged(2) [OF s(1)] s(2) assms(2) by (auto simp: cashout_kind_def)
  then show "account_of i db' = (account_of i db)\<lparr>ac_free := ac_free (account_of i db) + (if i = gj_wallet_id j then gj_available j else 0)\<rparr>"
    using free_of_posted [OF w0(1), of i] by (simp add: account_of_def d')
  show "i = gj_wallet_id j \<Longrightarrow> 0 \<le> ac_free (account_of i db) + gj_available j"
    using w0 by (simp add: account_of_def free_of_def)
qed

lemma cashout_posting_simps [simp]:
  "gj_wallet_id (cashout_posting s k r a h c) = wd_wallet_id r" "gj_kind (cashout_posting s k r a h c) = k"
  "gj_amount (cashout_posting s k r a h c) = wd_amount r" "gj_available (cashout_posting s k r a h c) = a"
  "gj_held (cashout_posting s k r a h c) = h" "gj_clearing (cashout_posting s k r a h c) = c"
  by (simp_all add: cashout_posting_def)

lemma new_cashout_slots:
  assumes "find (\<lambda>x. wd_id x = wd_id r) rs = None"
  shows "slots_of i hs (rs @ [r])
    = (if i = wd_wallet_id r then (slots_of i hs rs)(Cashout_slot (wd_id r) \<mapsto> cashout_state r) else slots_of i hs rs)"
  using assms by (auto simp: slots_of_def find_append fun_eq_iff split: slot.splits option.splits)

lemma insert_withdrawal_ledger:
  assumes w: "insert_withdrawal now r db = Inr db'" and inv: "ledger_inv db"
  shows "ledger_inv db'" and "account_step\<^sup>=\<^sup>= (account_of i db) (account_of i db')"
proof -
  let ?db = "db\<lparr>withdrawals := withdrawals db @ [r]\<rparr>"
  let ?j = "cashout_posting ''reserve'' ''WITHDRAWAL_RESERVE'' r (- wd_amount r) (wd_amount r) 0"
  have st: "wd_status r = ''PENDING''" and fresh: "find (\<lambda>x. wd_id x = wd_id r) (withdrawals db) = None"
    and n: "0 < wd_amount r" and p: "post_journal now ?j ?db = Inr db'" and "\<exists>v. find_wallet (wd_wallet_id r) db = Some v"
    using w by (auto simp: insert_withdrawal_def result_simps admission_ok_def withdrawal_row_ok_def withdrawal_taken_def
        find_ex Let_def split: option.splits)
  then have wallet: "wd_wallet_id r \<in> gw_id ` set (wallets db)"
    by (auto simp: find_wallet_def intro: find_key_in)
  have c: "cashout_kind (gj_kind ?j)" by (simp add: cashout_kind_def)
  show "ledger_inv db'"
  proof (rule post_journal_inv [OF p])
    show "keys_ok ?db" using inv fresh by (auto simp: ledger_inv_def keys_ok_def find_ex)
    show "links_ok ?db" using inv wallet by (auto simp: ledger_inv_def links_ok_def)
  qed (use inv st c in \<open>auto simp: ledger_inv_def held_by_cashouts_def withdrawal_open_def\<close>)
  show "account_step\<^sup>=\<^sup>= (account_of i db) (account_of i db')"
  proof (cases "i = wd_wallet_id r")
    case False
    with post_cashout_account(1) [OF p c, of i] show ?thesis by (simp add: account_of_def new_cashout_slots [OF fresh])
  next
    case True
    let ?a = "account_of i db"
    have "ac_slots ?a (Cashout_slot (wd_id r)) = None" using fresh by (simp add: account_of_def slots_of_def)
    moreover have "wd_amount r \<le> ac_free ?a"
      using post_cashout_account(2) [OF p c, of i] True by (simp add: account_of_def)
    ultimately have "account_step ?a \<lparr>ac_free = ac_free ?a - wd_amount r,
        ac_slots = (ac_slots ?a)(Cashout_slot (wd_id r) \<mapsto> Held (wd_amount r))\<rparr>"
      by (intro account_step.reserve n)
    moreover have "cashout_state r = Held (wd_amount r)" using st by (simp add: cashout_state_def withdrawal_open_def)
    ultimately show ?thesis
      using post_cashout_account(1) [OF p c, of i] True by (simp add: account_of_def new_cashout_slots [OF fresh])
  qed
qed

lemma moved_simps [simp]:
  "wd_id (moved e r) = wd_id r" "wd_wallet_id (moved e r) = wd_wallet_id r" "wd_amount (moved e r) = wd_amount r"
  "wd_status (moved e r) = we_to e" "wd_owner_id (moved e r) = wd_owner_id r"
  by (simp_all add: moved_def)

lemma moved_sum:
  assumes "distinct (map wd_id rs)" and "r \<in> set rs" and "withdrawal_open r"
  shows "held_by_cashouts i (update_where (\<lambda>x. wd_id x = wd_id r) (moved e) rs)
    = held_by_cashouts i rs - (if i = wd_wallet_id r \<and> \<not> withdrawal_open (moved e r) then wd_amount r else 0)"
  using sum_update_one [of wd_id rs r "\<lambda>x. wd_id x = wd_id r" wd_amount "\<lambda>x. wd_wallet_id x = i \<and> withdrawal_open x" "moved e"] assms
  by (auto simp: held_by_cashouts_def)

lemma moved_slots:
  assumes "find (\<lambda>x. wd_id x = wd_id r) rs = Some r"
  shows "slots_of i hs (update_where (\<lambda>x. wd_id x = wd_id r) (moved e) rs)
    = (if i = wd_wallet_id r then (slots_of i hs rs)(Cashout_slot (wd_id r) \<mapsto> cashout_state (moved e r)) else slots_of i hs rs)"
proof (rule ext)
  fix s
  show "slots_of i hs (update_where (\<lambda>x. wd_id x = wd_id r) (moved e) rs) s
    = (if i = wd_wallet_id r then (slots_of i hs rs)(Cashout_slot (wd_id r) \<mapsto> cashout_state (moved e r)) else slots_of i hs rs) s"
  proof (cases s)
    case (Cashout_slot k)
    show ?thesis
    proof (cases "k = wd_id r")
      case True
      with Cashout_slot assms show ?thesis by (auto simp: slots_of_def find_update_where)
    next
      case False
      then have "find (\<lambda>x. wd_id x = k) rs = Some y \<Longrightarrow> wd_id y \<noteq> wd_id r" for y
        by (metis find_key)
      with Cashout_slot False show ?thesis
        by (auto simp: slots_of_def find_update_where split: option.splits)
    qed
  qed (auto simp: slots_of_def)
qed

lemma insert_event_cases:
  assumes "insert_event now e db = Inr db'"
  obtains (created) "db' = db\<lparr>withdrawal_events := withdrawal_events db @ [e]\<rparr>"
  | (moves) r db2 where "find_withdrawal (we_withdrawal_id e) db = Some r" "event_refused now e r db = None"
      "withdrawal_row_ok (moved e r)" "we_from e \<noteq> None" "\<not> bank_ref_taken e r db"
      "db2 = db\<lparr>withdrawal_events := withdrawal_events db @ [e],
         withdrawals := update_where (\<lambda>x. wd_id x = wd_id r) (moved e) (withdrawals db)\<rparr>"
      "terminal_posting e r = None \<and> db' = db2 \<or> (\<exists>j. terminal_posting e r = Some j \<and> post_journal now j db2 = Inr db')"
  using assms by (auto simp: insert_event_def result_simps Let_def split: if_splits option.splits)

lemma event_allowed:
  "event_refused now e r db = None \<Longrightarrow> we_from e = Some (wd_status r) \<and> next_allowed (wd_status r) (we_to e)"
  by (simp add: event_refused_def Let_def split: if_splits)

lemma next_allowed_open: "next_allowed (wd_status r) t \<Longrightarrow> withdrawal_open r"
  by (auto simp: next_allowed_def withdrawal_open_def)

text \<open>A terminal event posts what the slot gives back or spends; every other event keeps the slot.\<close>

lemma terminal_cases:
  assumes "next_allowed (wd_status r) (we_to e)"
  obtains (stays) "terminal_posting e r = None" "withdrawal_open (moved e r)"
  | (paid) "terminal_posting e r = Some (cashout_posting ''terminal'' ''WITHDRAWAL_PAID'' r 0 (- wd_amount r) (wd_amount r))"
      "cashout_state (moved e r) = Spent (wd_amount r)" "\<not> withdrawal_open (moved e r)"
  | (returned) "terminal_posting e r = Some (cashout_posting ''terminal'' ''WITHDRAWAL_RELEASE'' r (wd_amount r) (- wd_amount r) 0)"
      "cashout_state (moved e r) = Returned (wd_amount r)" "\<not> withdrawal_open (moved e r)"
  using assms by (auto simp: next_allowed_def terminal_posting_def withdrawal_open_def cashout_state_def split: if_splits)

lemma insert_event_ledger:
  assumes w: "insert_event now e db = Inr db'" and inv: "ledger_inv db"
  shows "ledger_inv db' \<and> account_step\<^sup>=\<^sup>= (account_of i db) (account_of i db')"
  using w
proof (cases rule: insert_event_cases)
  case created
  then show ?thesis using ledger_inv_cong [of db' db] inv by simp
next
  case (moves r db2)
  have r: "find (\<lambda>x. wd_id x = wd_id r) (withdrawals db) = Some r" "r \<in> set (withdrawals db)"
    using moves(1) find_key [of wd_id _ "withdrawals db" r] by (auto simp: find_withdrawal_def dest: find_SomeD)
  have allowed: "next_allowed (wd_status r) (we_to e)" using event_allowed [OF moves(2)] by simp
  then have op: "withdrawal_open r" by (rule next_allowed_open)
  have d: "distinct (map wd_id (withdrawals db))" using inv by (simp add: ledger_inv_def keys_ok_def)
  have keys: "keys_ok db2" using inv by (simp add: ledger_inv_def keys_ok_def moves(6) map_update_where_same)
  have links: "links_ok db2" using inv by (simp add: ledger_inv_def links_ok_def moves(6) image_update_where_same)
  have sum: "held_by_cashouts k (withdrawals db2) = held_by_cashouts k (withdrawals db)
      - (if k = wd_wallet_id r \<and> \<not> withdrawal_open (moved e r) then wd_amount r else 0)" for k
    by (simp add: moves(6) moved_sum [OF d r(2) op])
  have slots: "account_of k db2 = (account_of k db)\<lparr>ac_slots := if k = wd_wallet_id r
      then (ac_slots (account_of k db))(Cashout_slot (wd_id r) \<mapsto> cashout_state (moved e r)) else ac_slots (account_of k db)\<rparr>" for k
    by (simp add: account_of_def moves(6) moved_slots [OF r(1)])
  have before: "ac_slots (account_of (wd_wallet_id r) db) (Cashout_slot (wd_id r)) = Some (Held (wd_amount r))"
    using r op by (simp add: account_of_def slots_of_def cashout_state_def)
  have inv': "ledger_inv db'" if "post_journal now j db2 = Inr db'" "cashout_kind (gj_kind j)" "gj_wallet_id j = wd_wallet_id r"
      "gj_held j = - wd_amount r" "\<not> withdrawal_open (moved e r)" for j
  proof (rule post_journal_inv [OF that(1) keys links])
  qed (use inv that sum in \<open>auto simp: ledger_inv_def moves(6)\<close>)
  from allowed show ?thesis
  proof (cases rule: terminal_cases)
    case stays
    with moves(7) have "db' = db2" by simp
    moreover have "(ac_slots (account_of i db))(Cashout_slot (wd_id r) \<mapsto> cashout_state (moved e r)) = ac_slots (account_of i db)"
      if "i = wd_wallet_id r"
      using stays(2) before that by (intro fun_upd_idem) (simp add: cashout_state_def)
    moreover have "ledger_inv db2" using inv keys links stays(2) by (simp add: ledger_inv_def moves(6) sum [unfolded moves(6), simplified])
    ultimately show ?thesis using slots [of i] by simp
  next
    case paid
    let ?j = "cashout_posting ''terminal'' ''WITHDRAWAL_PAID'' r 0 (- wd_amount r) (wd_amount r)"
    have p: "post_journal now ?j db2 = Inr db'" and k: "cashout_kind (gj_kind ?j)" using moves(7) paid by (simp_all add: cashout_kind_def)
    with account_step.spend [OF before] inv' [OF p k] post_cashout_account(1) [OF p k, of i] slots [of i] paid show ?thesis
      by (cases "i = wd_wallet_id r") simp_all
  next
    case returned
    let ?j = "cashout_posting ''terminal'' ''WITHDRAWAL_RELEASE'' r (wd_amount r) (- wd_amount r) 0"
    have p: "post_journal now ?j db2 = Inr db'" and k: "cashout_kind (gj_kind ?j)" using moves(7) returned by (simp_all add: cashout_kind_def)
    with account_step.give_back [OF before] inv' [OF p k] post_cashout_account(1) [OF p k, of i] slots [of i] returned show ?thesis
      by (cases "i = wd_wallet_id r") (simp_all add: account_collapse)
  qed
qed

end
