(* ===== verification/Gds_Spending.thy ===== *)
theory Gds_Spending
  imports Gds_Accounts
begin

text \<open>
  Paying an order from the internal wallet and crediting a verified top-up: the services
  \<^verbatim>\<open>gds-internal-spending\<close>, \<^verbatim>\<open>gds-internal-journal\<close> and
  \<^verbatim>\<open>gds-internal-checkout\<close> over the ledger of \<^verbatim>\<open>Gds_Ledger\<close>.  Every
  operation is one transaction; its retry loop and the translation of its errors are around it.
\<close>

section \<open>Balances\<close>

record gds_balance =
  gb_available :: string
  gb_held :: string
  gb_currency :: string

definition read_balance :: "string \<Rightarrow> shop_db \<Rightarrow> gds_balance result" where
  "read_balance i db =
     and_then (or_throw (find_wallet i db)) (\<lambda>w.
     Inr \<lparr>gb_available = show_int (gw_available w), gb_held = show_int (gw_held w), gb_currency = ''VND''\<rparr>)"

section \<open>Reserving and releasing\<close>

definition assert_spending :: "capabilities \<Rightarrow> string \<Rightarrow> string \<Rightarrow> bool \<Rightarrow> unit result" where
  "assert_spending cap buyer order_id recovery =
     (let allowed = (if cap_mode cap = Production then (if recovery then cap_processing cap else cap_checkout cap)
        else cap_read cap) in
      throw_if (\<not> allowed) (ForbiddenException ''GDS internal spending is unavailable'') (
      throw_if (\<not> is_uuid buyer \<or> \<not> is_uuid order_id) (wallet_error ''GDS_HOLD_INVALID_IDENTITY'') (Inr ())))"

definition external_payment :: "string \<Rightarrow> shop_db \<Rightarrow> bool" where
  "external_payment r db =
     (list_ex (\<lambda>a. at_order_id a = r) (attempts db) \<or> list_ex (\<lambda>s. st_order_id s = r) (settlements db))"

definition order_posting :: "string \<Rightarrow> string \<Rightarrow> string \<Rightarrow> string \<Rightarrow> int \<Rightarrow> int \<Rightarrow> int \<Rightarrow> int \<Rightarrow> gds_journal" where
  "order_posting wallet step kind r n a h c =
     \<lparr>gj_wallet_id = wallet, gj_event_key = ''gds:'' @ step @ '':'' @ r, gj_kind = kind, gj_amount = n,
      gj_available = a, gj_held = h, gj_clearing = c, gj_topup_id = None, gj_collection_ref = None, gj_order_ref = Some r\<rparr>"

definition reserve_posting :: "string \<Rightarrow> string \<Rightarrow> int \<Rightarrow> gds_journal" where
  "reserve_posting wallet r n = order_posting wallet ''reserve'' ''RESERVE'' r n (- n) n 0"

definition release_posting :: "string \<Rightarrow> string \<Rightarrow> int \<Rightarrow> gds_journal" where
  "release_posting wallet r n = order_posting wallet ''release'' ''RELEASE'' r n n (- n) 0"

definition reserve_txn :: "string \<Rightarrow> string \<Rightarrow> int \<Rightarrow> (shop_db, gds_balance) txn" where
  "reserve_txn buyer r now db =
     (let not_payable = wallet_error ''GDS_HOLD_ORDER_NOT_PAYABLE'' in
      some_or not_payable (find_order r db) (\<lambda>x.
      throw_if (or_buyer_id x \<noteq> buyer \<or> or_status x \<noteq> ''pending_payment'' \<or> or_currency x \<noteq> ''VND''
          \<or> or_payable_amount x \<le> 0) not_payable (
      throw_if (external_payment r db) (wallet_error ''GDS_HOLD_PAYMENT_METHOD_CONFLICT'') (
      some_or (wallet_error ''GDS_HOLD_WALLET_UNAVAILABLE'') (wallet_of_buyer buyer db) (\<lambda>w.
      throw_if (gw_status w \<noteq> ''ACTIVE'') (wallet_error ''GDS_HOLD_WALLET_UNAVAILABLE'') (
      and_then
        (case hold_of_order r db of
           Some h \<Rightarrow>
             throw_if (gh_wallet_id h \<noteq> gw_id w \<or> gh_amount h \<noteq> or_payable_amount x \<or> gh_status h \<noteq> ''RESERVED'')
               (wallet_error ''GDS_HOLD_TERMINAL_OR_MISMATCH'') (Inr db)
         | None \<Rightarrow>
             throw_if (gw_available w < or_payable_amount x) (wallet_error ''GDS_HOLD_INSUFFICIENT_FUNDS'') (
             post_journal now (reserve_posting (gw_id w) r (or_payable_amount x)) db))
        (\<lambda>db1. and_then (read_balance (gw_id w) db1) (\<lambda>b. Inr (b, db1)))))))))"

definition release_txn :: "string \<Rightarrow> string \<Rightarrow> int \<Rightarrow> (shop_db, gds_balance) txn" where
  "release_txn buyer r now db =
     (let not_final = wallet_error ''GDS_HOLD_ORDER_NOT_FINAL_UNPAID''; mismatch = wallet_error ''GDS_HOLD_MISMATCH'' in
      some_or not_final (find_order r db) (\<lambda>x.
      throw_if (or_buyer_id x \<noteq> buyer \<or> or_currency x \<noteq> ''VND''
          \<or> or_status x \<noteq> ''cancelled'' \<and> or_status x \<noteq> ''expired'') not_final (
      throw_if (external_payment r db) (wallet_error ''GDS_HOLD_PAYMENT_STATUS_AMBIGUOUS'') (
      some_or mismatch (wallet_of_buyer buyer db) (\<lambda>w.
      throw_if (gw_status w \<noteq> ''ACTIVE'') mismatch (
      some_or mismatch (hold_of_order r db) (\<lambda>h.
      throw_if (gh_wallet_id h \<noteq> gw_id w \<or> gh_amount h \<noteq> or_payable_amount x) mismatch (
      and_then
        (if gh_status h = ''RESERVED'' then post_journal now (release_posting (gw_id w) r (gh_amount h)) db
         else throw_if (gh_status h \<noteq> ''RELEASED'') (wallet_error ''GDS_HOLD_TERMINAL_OR_MISMATCH'') (Inr db))
        (\<lambda>db1. and_then (read_balance (gw_id w) db1) (\<lambda>b. Inr (b, db1)))))))))))"

text \<open>\<^verbatim>\<open>retrySerializable\<close>: three attempts, again after a serialization or unique conflict.\<close>

definition retry_serializable :: "(nat \<Rightarrow> api_error option) \<Rightarrow> (shop_db, 'a) txn \<Rightarrow> (shop_db, 'a) txn" where
  "retry_serializable aborts body =
     retry_loop (\<lambda>e. e = PrismaError ''P2034'' \<or> e = PrismaError ''P2002'') (wallet_error ''GDS_HOLD_RETRY_EXHAUSTED'') 0 3
       (aborting aborts body)"

definition reserve_for_unpaid_commerce_order ::
  "capabilities \<Rightarrow> (nat \<Rightarrow> api_error option) \<Rightarrow> string \<Rightarrow> string \<Rightarrow> int \<Rightarrow> (shop_db, gds_balance) txn" where
  "reserve_for_unpaid_commerce_order cap aborts buyer r now db =
     and_then (assert_spending cap buyer r False) (\<lambda>_. retry_serializable aborts (reserve_txn buyer r now) db)"

definition release_for_final_unpaid_order ::
  "capabilities \<Rightarrow> (nat \<Rightarrow> api_error option) \<Rightarrow> string \<Rightarrow> string \<Rightarrow> int \<Rightarrow> (shop_db, gds_balance) txn" where
  "release_for_final_unpaid_order cap aborts buyer r now db =
     and_then (assert_spending cap buyer r True) (\<lambda>_. retry_serializable aborts (release_txn buyer r now) db)"

section \<open>Crediting a top-up\<close>

definition require_processing :: "capabilities \<Rightarrow> unit result" where
  "require_processing cap =
     throw_if (\<not> cap_processing cap) (ForbiddenException ''GDS internal prepayment is unavailable'') (Inr ())"

definition topup_matches :: "topup_intent \<Rightarrow> payos_settlement \<Rightarrow> internal_credit \<Rightarrow> gds_topup \<Rightarrow> bool" where
  "topup_matches intent s c t =
     (gt_buyer_id t = ic_buyer_id c \<and> truthy (gt_wallet_id t) \<and> gt_amount t = ic_amount_minor c \<and> gt_currency t = ic_currency c
      \<and> gt_order_code t = payos_order_code intent \<and> gt_account_hash t = receiving_account_hash intent
      \<and> (settlement_receiving_account_hash intent \<noteq> None
         \<longrightarrow> gt_settlement_hash t = settlement_receiving_account_hash intent)
      \<and> gt_link_id t = payment_link_id intent \<and> gt_collection_ref t = Some (ic_collection_reference c)
      \<and> gt_signature_at t \<noteq> None \<and> gt_reconciled_at t \<noteq> None
      \<and> gt_signature_at t = signature_verified_at s \<and> gt_reconciled_at t = provider_reconciled_at s
      \<and> the (gt_signature_at t) \<le> the (gt_reconciled_at t)
      \<and> (gt_status t = ''PAYOS_VERIFIED'' \<or> gt_status t = ''CREDITED''))"

definition claimed_elsewhere :: "gds_topup \<Rightarrow> internal_credit \<Rightarrow> shop_db \<Rightarrow> bool" where
  "claimed_elsewhere t c db =
     (let ref = Some (ic_collection_reference c) in
      list_ex (\<lambda>a. at_provider a = ''payos'' \<and> (at_order_code a = Some (gt_order_code t)
         \<or> at_payment_identity a \<noteq> None \<and> at_payment_identity a = gt_link_id t)) (attempts db)
      \<or> list_ex (\<lambda>e. ev_provider e = ''payos'' \<and> (Some (ev_identity e) = ref \<or> ev_settlement_reference e = ref)) (payment_events db)
      \<or> list_ex (\<lambda>s. st_provider s = Some ''payos'' \<and> st_reference s = ref) (settlements db)
      \<or> list_ex (\<lambda>l. lt_order_code l = gt_order_code t \<or> lt_link_id l \<noteq> None \<and> lt_link_id l = gt_link_id t
         \<or> lt_collection_ref l = ref) (legacy_topups db))"

definition credit_posting :: "gds_wallet \<Rightarrow> gds_topup \<Rightarrow> internal_credit \<Rightarrow> gds_journal" where
  "credit_posting w t c =
     \<lparr>gj_wallet_id = gw_id w, gj_event_key = ic_event_id c, gj_kind = ''TOPUP_CREDIT'', gj_amount = ic_amount_minor c,
      gj_available = ic_amount_minor c, gj_held = 0, gj_clearing = - ic_amount_minor c, gj_topup_id = Some (gt_id t),
      gj_collection_ref = Some (ic_collection_reference c), gj_order_ref = None\<rparr>"

definition credit_verified_topup_in_transaction ::
  "capabilities \<Rightarrow> topup_intent \<Rightarrow> payos_settlement \<Rightarrow> int \<Rightarrow> (shop_db, gds_balance) txn" where
  "credit_verified_topup_in_transaction cap intent s now db =
     (let mismatch = wallet_error ''GDS_INTERNAL_TOPUP_DB_MISMATCH'' in
      and_then (require_processing cap) (\<lambda>_.
      and_then (prepare_gds_internal_topup_credit intent s) (\<lambda>c.
      some_or mismatch (find_topup (ti_id intent) db) (\<lambda>t.
      throw_if (\<not> topup_matches intent s c t) mismatch (
      throw_if (claimed_elsewhere t c db) (wallet_error ''GDS_INTERNAL_TOPUP_CROSS_LEDGER_COLLISION'') (
      some_or mismatch (find_wallet (gt_wallet_id t) db) (\<lambda>w.
      throw_if (gw_buyer_id w \<noteq> ic_buyer_id c \<or> gw_status w \<noteq> ''ACTIVE'') mismatch (
      and_then
        (case journal_of_key (ic_event_id c) db of
           Some j \<Rightarrow>
             throw_if (gj_kind j \<noteq> ''TOPUP_CREDIT'' \<or> gj_wallet_id j \<noteq> gw_id w \<or> gj_topup_id j \<noteq> Some (gt_id t)
                 \<or> gj_amount j \<noteq> ic_amount_minor c \<or> gj_collection_ref j \<noteq> Some (ic_collection_reference c)
                 \<or> gt_status t \<noteq> ''CREDITED'')
               (wallet_error ''GDS_INTERNAL_TOPUP_EVENT_COLLISION'') (Inr db)
         | None \<Rightarrow>
             throw_if (gt_status t \<noteq> ''PAYOS_VERIFIED'') mismatch (
             post_journal now (credit_posting w t c) db))
        (\<lambda>db1. and_then (read_balance (gw_id w) db1) (\<lambda>b. Inr (b, db1)))))))))))"

definition credit_verified_topup ::
  "capabilities \<Rightarrow> (nat \<Rightarrow> api_error option) \<Rightarrow> topup_intent \<Rightarrow> payos_settlement \<Rightarrow> int \<Rightarrow> (shop_db, gds_balance) txn" where
  "credit_verified_topup cap aborts intent s now db =
     and_then (require_processing cap) (\<lambda>_.
     and_then (prepare_gds_internal_topup_credit intent s) (\<lambda>_.
     case retry_loop (\<lambda>e. e = PrismaError ''P2034'' \<or> e = PrismaError ''P2002'')
            (wallet_error ''GDS_INTERNAL_TOPUP_RETRY_EXHAUSTED'') 0 3
            (aborting aborts (credit_verified_topup_in_transaction cap intent s now)) db of
       Inl e \<Rightarrow> Inl (if e = PrismaError ''P2002'' then wallet_error ''GDS_INTERNAL_TOPUP_UNIQUE_COLLISION'' else e)
     | Inr r \<Rightarrow> Inr r))"

section \<open>Checkout\<close>

record checkout_receipt =
  cr_order_id :: string
  cr_status :: string
  cr_amount :: string
  cr_currency :: string

definition checkout_receipt_of :: "commerce_order \<Rightarrow> checkout_receipt" where
  "checkout_receipt_of x =
     \<lparr>cr_order_id = or_id x, cr_status = ''CONFIRMED'', cr_amount = show_int (or_payable_amount x), cr_currency = ''VND''\<rparr>"

text \<open>What an order that is already confirmed must show to count as paid by this wallet.\<close>

definition replay_verified :: "string \<Rightarrow> string \<Rightarrow> commerce_order \<Rightarrow> shop_db \<Rightarrow> bool" where
  "replay_verified buyer r x db =
     (case (Option.bind (or_confirmed_settlement_id x) (\<lambda>i. find_settlement i db), hold_of_order r db,
            journal_of_key (''gds:capture:'' @ r) db) of
        (Some s, Some h, Some j) \<Rightarrow>
          st_kind s = ''wallet_capture'' \<and> st_order_id s = r \<and> st_provider s = Some ''gds'' \<and> st_disposition s = ''internal''
          \<and> st_currency s = ''VND'' \<and> st_attempt_id s = None \<and> st_event_id s = None
          \<and> or_fulfillment_status x = ''fulfilled'' \<and> st_amount s = or_payable_amount x
          \<and> st_reference s = Some (''gds:order:'' @ r) \<and> gh_status h = ''CAPTURED'' \<and> gh_amount h = or_payable_amount x
          \<and> (case find_wallet (gh_wallet_id h) db of None \<Rightarrow> False | Some w \<Rightarrow> gw_buyer_id w = buyer)
          \<and> gj_kind j = ''CAPTURE'' \<and> gj_wallet_id j = gh_wallet_id h \<and> gj_amount j = or_payable_amount x
      | _ \<Rightarrow> False)"

definition capture_input :: "string \<Rightarrow> commerce_order \<Rightarrow> gds_wallet \<Rightarrow> gds_hold \<Rightarrow> int \<Rightarrow> int \<Rightarrow> int \<Rightarrow> commerce_capture_input" where
  "capture_input buyer x w h payments settled captures =
     \<lparr>ci_buyer_id = buyer,
      ci_order = \<lparr>cp_id = or_id x, cp_buyer_id = or_buyer_id x, cp_status = or_status x, cp_currency = or_currency x,
        payable_amount_minor = or_payable_amount x, confirmed_settlement_id = or_confirmed_settlement_id x\<rparr>,
      ci_wallet = \<lparr>cw_id = gw_id w, cw_buyer_id = gw_buyer_id w, cw_status = gw_status w, cw_held_minor = gw_held w\<rparr>,
      ci_hold = \<lparr>ch_wallet_id = gh_wallet_id h, ch_order_ref = gh_order_ref h, ch_amount_minor = gh_amount h,
        ch_status = gh_status h\<rparr>,
      existing_payment_attempt_count = Integral payments, existing_settlement_count = Integral settled,
      existing_capture_count = Integral captures\<rparr>"

definition journal_of_plan :: "capture_journal \<Rightarrow> gds_journal" where
  "journal_of_plan p =
     \<lparr>gj_wallet_id = cj_wallet_id p, gj_event_key = cj_event_key p, gj_kind = cj_kind p, gj_amount = cj_amount_minor p,
      gj_available = cj_available_delta_minor p, gj_held = cj_held_delta_minor p, gj_clearing = cj_clearing_delta_minor p,
      gj_topup_id = None, gj_collection_ref = None, gj_order_ref = Some (cj_order_ref p)\<rparr>"

definition confirm_captured :: "string \<Rightarrow> string \<Rightarrow> capture_settlement \<Rightarrow> (string \<Rightarrow> string) \<Rightarrow> int \<Rightarrow> shop_db \<Rightarrow> shop_db" where
  "confirm_captured buyer r plan fresh now db =
     add_lifecycle \<lparr>lc_entity_type = ''order'', lc_entity_id = r, lc_previous = ''pending_payment'', lc_next = ''confirmed'',
         lc_actor_kind = ''user'', lc_actor_id = Some buyer, lc_operation_id = fresh ''operation'',
         lc_reason = ''GDS_WALLET_CAPTURED''\<rparr>
       (db\<lparr>settlements := settlements db @ [\<lparr>st_id = fresh ''settlement'', st_order_id = r, st_attempt_id = None,
             st_event_id = None, st_kind = ''wallet_capture'', st_disposition = ''internal'', st_provider = Some ''gds'',
             st_reference = Some (ct_reference plan), st_amount = ct_amount_minor plan, st_currency = ''VND'',
             st_settled_at = now\<rparr>],
           orders := update_where (\<lambda>x. or_id x = r) (\<lambda>x. x\<lparr>or_status := ''confirmed'',
             or_confirmed_settlement_id := Some (fresh ''settlement''), or_confirmed_at := Some now\<rparr>) (orders db)\<rparr>)"

definition ensure_hold :: "gds_wallet \<Rightarrow> commerce_order \<Rightarrow> int \<Rightarrow> shop_db \<Rightarrow> shop_db result" where
  "ensure_hold w x now db =
     (case hold_of_order (or_id x) db of
        Some h \<Rightarrow> Inr db
      | None \<Rightarrow>
          throw_if (gw_available w < or_payable_amount x) (wallet_error ''GDS_CAPTURE_INSUFFICIENT_FUNDS'') (
          post_journal now (reserve_posting (gw_id w) (or_id x) (or_payable_amount x)) db))"

definition pay_txn ::
  "(string \<Rightarrow> string \<Rightarrow> shop_db \<Rightarrow> shop_db result) \<Rightarrow> (string \<Rightarrow> string) \<Rightarrow> string \<Rightarrow> string \<Rightarrow> int \<Rightarrow> (shop_db, checkout_receipt) txn" where
  "pay_txn fulfill fresh buyer r now db =
     (let owner = wallet_error ''GDS_CAPTURE_OWNER_MISMATCH''; unheld = wallet_error ''GDS_CAPTURE_HOLD_NOT_VERIFIED'' in
      some_or owner (find_order r db) (\<lambda>x.
      throw_if (or_buyer_id x \<noteq> buyer) owner (
      if or_status x = ''confirmed''
      then throw_if (\<not> replay_verified buyer r x db) (wallet_error ''GDS_CAPTURE_REPLAY_UNVERIFIED'')
             (Inr (checkout_receipt_of x, db))
      else
        throw_if (or_status x \<noteq> ''pending_payment'' \<or> or_confirmed_settlement_id x \<noteq> None \<or> or_currency x \<noteq> ''VND''
            \<or> or_payable_amount x \<le> 0) (wallet_error ''GDS_CAPTURE_ORDER_NOT_PAYABLE'') (
        let payments = count_where (\<lambda>a. at_order_id a = r) (attempts db);
            settled = count_where (\<lambda>s. st_order_id s = r) (settlements db);
            captures = count_where (\<lambda>j. gj_order_ref j = Some r \<and> gj_kind j = ''CAPTURE'') (journal db) in
        some_or unheld (wallet_of_buyer buyer db) (\<lambda>w.
        throw_if (gw_status w \<noteq> ''ACTIVE'') unheld (
        and_then (ensure_hold w x now db) (\<lambda>db1.
        and_then (or_throw (find_wallet (gw_id w) db1)) (\<lambda>current.
        some_or unheld (hold_of_order r db1) (\<lambda>h.
        and_then (prepare_gds_commerce_capture (capture_input buyer x current h payments settled captures)) (\<lambda>plan.
        and_then (post_journal now (journal_of_plan (plan_journal plan)) db1) (\<lambda>db2.
        and_then (add_audit \<lparr>ai_actor_kind = None, ai_actor_id = Some buyer, ai_action = ''GDS_WALLET_CAPTURED'',
            ai_target_type = ''commerce_order'', ai_target_id = r,
            ai_metadata = [(''settlementId'', MString (fresh ''settlement'')),
              (''amountMinor'', MString (show_int (or_payable_amount x))), (''currency'', MString ''VND'')]\<rparr>
            (confirm_captured buyer r (plan_settlement plan) fresh now db2)) (\<lambda>db3.
        and_then (fulfill r buyer db3) (\<lambda>db4. Inr (checkout_receipt_of x, db4))))))))))))))"

text \<open>Three attempts; a wallet error reaches the caller as a conflict.\<close>

fun wallet_conflict :: "api_error \<Rightarrow> api_error" where
  "wallet_conflict (GdsWalletInvariantError code) = ConflictException code"
| "wallet_conflict e = e"

definition pay_order ::
  "capabilities \<Rightarrow> (string \<Rightarrow> string \<Rightarrow> shop_db \<Rightarrow> shop_db result) \<Rightarrow> (nat \<Rightarrow> api_error option) \<Rightarrow> (string \<Rightarrow> string)
   \<Rightarrow> string \<Rightarrow> string \<Rightarrow> int \<Rightarrow> (shop_db, checkout_receipt) txn" where
  "pay_order cap fulfill aborts fresh buyer r now db =
     throw_if (\<not> cap_checkout cap) (ForbiddenException ''GDS checkout is unavailable'') (
     throw_if (\<not> is_uuid buyer \<or> \<not> is_uuid r) (wallet_error ''GDS_CAPTURE_OWNER_MISMATCH'') (
     case retry_loop retryable_gds (wallet_error ''GDS_CAPTURE_RETRY_EXHAUSTED'') 0 3
            (aborting aborts (pay_txn fulfill fresh buyer r now)) db of
       Inl e \<Rightarrow> Inl (wallet_conflict e)
     | Inr ok \<Rightarrow> Inr ok))"

end
