(* ===== verification/Gds_Claims.thy ===== *)
theory Gds_Claims
  imports Gds_Accounts
begin

text \<open>
  Dual control of withdrawals: every request that is being paid, was paid or has failed is in the hands of one
  administrator other than its owner who had a proof of the recipient, and no two requests share the
  reference of a bank transfer.  The triggers of \<^verbatim>\<open>Gds_Ledger\<close> keep this.
\<close>

section \<open>Who paid a withdrawal\<close>

text \<open>A request that is being paid, or was, is in the hands of one administrator who is not its owner and had a proof
  of the recipient; a paid one carries the reference of its bank transfer, which no other request has.\<close>

definition claim_proved :: "gds_withdrawal \<Rightarrow> string \<Rightarrow> account_verification \<Rightarrow> bool" where
  "claim_proved r a p =
     (vf_withdrawal_id p = Some (wd_id r) \<and> vf_purpose p = ''TRANSFER'' \<and> vf_actor_id p = a
      \<and> vf_owner_id p = wd_owner_id r \<and> vf_bank_code p = wd_bank_code r \<and> vf_account_number p = wd_account_number r
      \<and> vf_normalized_holder p = normalize_bank_account_name (wd_account_holder r))"

definition event_of :: "gds_withdrawal \<Rightarrow> string \<Rightarrow> string \<Rightarrow> withdrawal_event \<Rightarrow> bool" where
  "event_of r a t e = (we_withdrawal_id e = wd_id r \<and> we_actor_id e = a \<and> we_to e = t)"

definition claimed_ok :: "withdrawal_event set \<Rightarrow> account_verification set \<Rightarrow> gds_withdrawal \<Rightarrow> bool" where
  "claimed_ok E V r =
     (case wd_admin_id r of
        None \<Rightarrow> False
      | Some a \<Rightarrow>
          a \<noteq> wd_owner_id r \<and> (\<exists>p\<in>V. claim_proved r a p) \<and> (\<exists>e\<in>E. event_of r a ''PROCESSING'' e)
          \<and> (wd_status r = ''PROCESSING'' \<or> (\<exists>e\<in>E. event_of r a (wd_status r) e))
          \<and> (wd_status r = ''PAID'' \<longrightarrow> wd_transferred_at r \<noteq> None
               \<and> (case wd_bank_ref r of None \<Rightarrow> False | Some b \<Rightarrow> truthy (js_trim b))))"

lemma claimed_ok_iff:
  "claimed_ok E V r \<longleftrightarrow>
     (\<exists>a. wd_admin_id r = Some a \<and> a \<noteq> wd_owner_id r \<and> (\<exists>p\<in>V. claim_proved r a p) \<and> (\<exists>e\<in>E. event_of r a ''PROCESSING'' e)
       \<and> (wd_status r = ''PROCESSING'' \<or> (\<exists>e\<in>E. event_of r a (wd_status r) e))
       \<and> (wd_status r = ''PAID'' \<longrightarrow> wd_transferred_at r \<noteq> None
            \<and> (\<exists>b. wd_bank_ref r = Some b \<and> truthy (js_trim b))))"
  by (cases "wd_admin_id r"; cases "wd_bank_ref r") (simp_all add: claimed_ok_def)

definition in_hand :: "string \<Rightarrow> bool" where
  "in_hand s = (s = ''PROCESSING'' \<or> s = ''PAID'' \<or> s = ''FAILED'')"

definition claims_ok :: "withdrawal_event set \<Rightarrow> account_verification set \<Rightarrow> gds_withdrawal list \<Rightarrow> bool" where
  "claims_ok E V rs = (\<forall>r\<in>set rs. in_hand (wd_status r) \<longrightarrow> claimed_ok E V r)"

definition refs_ok :: "gds_withdrawal list \<Rightarrow> bool" where
  "refs_ok rs = (\<forall>r\<in>set rs. \<forall>s\<in>set rs. wd_bank_ref r \<noteq> None \<longrightarrow> wd_bank_ref r = wd_bank_ref s \<longrightarrow> wd_id r = wd_id s)"

definition cashouts_ok :: "shop_db \<Rightarrow> bool" where
  "cashouts_ok db =
     (claims_ok (set (withdrawal_events db)) (set (verifications db)) (withdrawals db) \<and> refs_ok (withdrawals db))"

lemma claimed_ok_mono: "claimed_ok E V r \<Longrightarrow> E \<subseteq> E' \<Longrightarrow> V \<subseteq> V' \<Longrightarrow> claimed_ok E' V' r"
  unfolding claimed_ok_iff by (meson subsetD)

lemma claims_ok_mono: "claims_ok E V rs \<Longrightarrow> E \<subseteq> E' \<Longrightarrow> V \<subseteq> V' \<Longrightarrow> claims_ok E' V' rs"
  unfolding claims_ok_def using claimed_ok_mono by blast

lemma cashouts_ok_mono:
  assumes "cashouts_ok db" and "withdrawals db' = withdrawals db"
    and "set (withdrawal_events db) \<subseteq> set (withdrawal_events db')" and "set (verifications db) \<subseteq> set (verifications db')"
  shows "cashouts_ok db'"
  using assms claims_ok_mono [OF _ assms(3,4)] unfolding cashouts_ok_def by metis

lemma post_journal_cashouts:
  assumes "post_journal now j db = Inr db'"
  shows "withdrawals db' = withdrawals db" "withdrawal_events db' = withdrawal_events db"
    "verifications db' = verifications db"
proof -
  obtain ts hs where d': "db' = db\<lparr>journal := journal db @ [j], topups := ts, holds := hs, wallets := posted j (wallets db)\<rparr>"
    using post_journal_frame [OF assms] by blast
  show "withdrawals db' = withdrawals db" "withdrawal_events db' = withdrawal_events db" "verifications db' = verifications db"
    by (simp_all add: d')
qed

lemma insert_withdrawal_cashouts:
  assumes "insert_withdrawal now r db = Inr db'" and "cashouts_ok db"
  shows "cashouts_ok db'"
proof -
  let ?db = "db\<lparr>withdrawals := withdrawals db @ [r]\<rparr>"
  from assms(1) obtain j where p: "post_journal now j ?db = Inr db'" and adm: "admission_ok r db"
    unfolding insert_withdrawal_def throw_if_Inr by blast
  from adm have r: "wd_status r = ''PENDING''" "wd_bank_ref r = None"
    by (cases "find_wallet (wd_wallet_id r) db"; simp only: admission_ok_def Let_def option.case)+
  have "\<not> in_hand (wd_status r)" by (simp add: r in_hand_def)
  moreover have "refs_ok (withdrawals db @ [r])"
    using assms(2) r(2) unfolding cashouts_ok_def refs_ok_def set_append by fastforce
  ultimately have "cashouts_ok ?db" using assms(2) by (simp add: cashouts_ok_def claims_ok_def)
  then show ?thesis by (rule cashouts_ok_mono) (simp_all add: post_journal_cashouts [OF p])
qed

lemma refused_None: "((if c then Some m else x) = None) = (\<not> c \<and> x = None)"
  by simp

lemma event_conditions:
  assumes "event_refused now e r db = None"
  shows "\<not> (we_to e = ''PROCESSING'' \<and> \<not> list_ex (transfer_proof now (we_actor_id e) r (ws_verification_required (wd_settings db))) (verifications db))"
    and "\<not> ((we_to e = ''CANCELLED'' \<and> we_actor_id e \<noteq> wd_owner_id r) \<or> (we_to e \<noteq> ''CANCELLED'' \<and> we_actor_id e = wd_owner_id r))"
    and "\<not> ((we_to e = ''PAID'' \<or> we_to e = ''FAILED'') \<and> wd_admin_id r \<noteq> Some (we_actor_id e))"
    and "\<not> (we_to e = ''PAID'' \<and> ((case we_bank_ref e of None \<Rightarrow> True | Some b \<Rightarrow> \<not> truthy (js_trim b))
              \<or> (case we_transferred_at e of None \<Rightarrow> True | Some d \<Rightarrow> d < wd_created_at r \<or> now < d)))"
  using assms unfolding event_refused_def Let_def refused_None by - (elim conjE; assumption)+

lemma event_fields:
  assumes "event_refused now e r db = None"
  shows "we_to e = ''PROCESSING'' \<Longrightarrow> \<exists>p\<in>set (verifications db). claim_proved r (we_actor_id e) p"
    and "in_hand (we_to e) \<Longrightarrow> we_actor_id e \<noteq> wd_owner_id r"
    and "in_hand (we_to e) \<Longrightarrow> we_to e \<noteq> ''PROCESSING'' \<Longrightarrow> wd_admin_id r = Some (we_actor_id e) \<and> wd_status r = ''PROCESSING''"
    and "we_to e = ''PAID'' \<Longrightarrow> we_transferred_at e \<noteq> None \<and> (\<exists>b. we_bank_ref e = Some b \<and> truthy (js_trim b))"
proof -
  show "\<exists>p\<in>set (verifications db). claim_proved r (we_actor_id e) p" if "we_to e = ''PROCESSING''"
  proof -
    have "list_ex (transfer_proof now (we_actor_id e) r (ws_verification_required (wd_settings db))) (verifications db)"
      using event_conditions(1) [OF assms] that by blast
    then show ?thesis unfolding list_ex_iff transfer_proof_def claim_proved_def by blast
  qed
  show "we_actor_id e \<noteq> wd_owner_id r" if "in_hand (we_to e)"
    using event_conditions(2) [OF assms] that by (auto simp: in_hand_def)
  show "wd_admin_id r = Some (we_actor_id e) \<and> wd_status r = ''PROCESSING''"
    if "in_hand (we_to e)" "we_to e \<noteq> ''PROCESSING''"
    using event_conditions(3) [OF assms] event_allowed [OF assms] that by (auto simp: in_hand_def next_allowed_def)
  show "we_transferred_at e \<noteq> None \<and> (\<exists>b. we_bank_ref e = Some b \<and> truthy (js_trim b))" if "we_to e = ''PAID''"
    using event_conditions(4) [OF assms] that by (auto split: option.splits)
qed

lemma moved_same:
  "claim_proved (moved e r) k p = claim_proved r k p" "event_of (moved e r) k t x = event_of r k t x"
  by (simp_all add: claim_proved_def event_of_def moved_def)

lemma moved_claimed:
  assumes ok: "event_refused now e r db = None" and old: "wd_status r = ''PROCESSING'' \<Longrightarrow> claimed_ok E (set (verifications db)) r"
    and e: "we_withdrawal_id e = wd_id r" and s: "in_hand (we_to e)"
  shows "claimed_ok (insert e E) (set (verifications db)) (moved e r)"
proof -
  let ?a = "we_actor_id e"
  have o: "?a \<noteq> wd_owner_id r" by (rule event_fields(2) [OF ok s])
  have ev: "event_of r ?a (we_to e) e" by (simp add: event_of_def e)
  show ?thesis
  proof (cases "we_to e = ''PROCESSING''")
    case True
    with event_fields(1) [OF ok] o ev show ?thesis
      unfolding claimed_ok_iff moved_same by (intro exI [of _ ?a]) (auto simp: moved_def)
  next
    case False
    from event_fields(3) [OF ok s False] old have a: "wd_admin_id r = Some ?a" and c: "claimed_ok E (set (verifications db)) r"
      by simp_all
    from c a have "\<exists>p\<in>set (verifications db). claim_proved r ?a p" "\<exists>x\<in>E. event_of r ?a ''PROCESSING'' x"
      unfolding claimed_ok_iff by auto
    with event_fields(4) [OF ok] o ev a False show ?thesis
      unfolding claimed_ok_iff moved_same by (intro exI [of _ ?a]) (auto simp: moved_def)
  qed
qed

lemma moved_refs:
  assumes "\<not> bank_ref_taken e r db" and "refs_ok (withdrawals db)" and "r \<in> set (withdrawals db)"
    and rows: "\<And>x. x \<in> set rs \<Longrightarrow> x = moved e r \<or> x \<in> set (withdrawals db) \<and> wd_id x \<noteq> wd_id r"
  shows "refs_ok rs"
proof -
  have old: "u \<in> set (withdrawals db) \<Longrightarrow> v \<in> set (withdrawals db) \<Longrightarrow> wd_bank_ref u \<noteq> None
      \<Longrightarrow> wd_bank_ref u = wd_bank_ref v \<Longrightarrow> wd_id u = wd_id v" for u v
    using assms(2) unfolding refs_ok_def by blast
  have new: "wd_bank_ref (moved e r) = None \<or> wd_bank_ref (moved e r) \<noteq> wd_bank_ref v"
    if "v \<in> set (withdrawals db)" "wd_id v \<noteq> wd_id r" for v
  proof (cases "we_to e = ''PAID''")
    case True
    then show ?thesis using assms(1) that by (auto simp: moved_def bank_ref_taken_def)
  next
    case False
    then have "wd_bank_ref (moved e r) = wd_bank_ref r" by (simp add: moved_def)
    then show ?thesis using old [OF assms(3) that(1)] that(2) by metis
  qed
  show ?thesis
    unfolding refs_ok_def by (intro ballI impI) (metis rows old new)
qed

lemma insert_event_cashouts:
  assumes w: "insert_event now e db = Inr db'" and inv: "cashouts_ok db" and d: "distinct (map wd_id (withdrawals db))"
  shows "cashouts_ok db'"
  using w
proof (cases rule: insert_event_cases)
  case created
  then show ?thesis by (intro cashouts_ok_mono [OF inv]) auto
next
  case (moves r db2)
  have r: "r \<in> set (withdrawals db)" and e: "we_withdrawal_id e = wd_id r"
    using moves(1) find_key [of wd_id _ "withdrawals db" r] by (auto simp: find_withdrawal_def dest: find_SomeD)
  have rows: "x = moved e r \<or> x \<in> set (withdrawals db) \<and> wd_id x \<noteq> wd_id r" if "x \<in> set (withdrawals db2)" for x
    using that same_row [OF d _ r] by (auto simp: moves(6) set_update_where)
  have claims: "claims_ok (set (withdrawal_events db)) (set (verifications db)) (withdrawals db)"
    and refs: "refs_ok (withdrawals db)" using inv unfolding cashouts_ok_def by auto
  have "claimed_ok (insert e (set (withdrawal_events db))) (set (verifications db)) x"
    if x: "x \<in> set (withdrawals db2)" and s: "in_hand (wd_status x)" for x
  proof (cases "x = moved e r")
    case True
    have "wd_status r = ''PROCESSING'' \<Longrightarrow> claimed_ok (set (withdrawal_events db)) (set (verifications db)) r"
      using claims r unfolding claims_ok_def in_hand_def by blast
    from moved_claimed [OF moves(2) this e] s show ?thesis by (simp add: True)
  next
    case False
    with rows [OF x] claims s have "claimed_ok (set (withdrawal_events db)) (set (verifications db)) x"
      unfolding claims_ok_def by blast
    then show ?thesis by (rule claimed_ok_mono) auto
  qed
  moreover have "set (withdrawal_events db2) = insert e (set (withdrawal_events db))" "verifications db2 = verifications db"
    by (simp_all add: moves(6))
  ultimately have "claims_ok (set (withdrawal_events db2)) (set (verifications db2)) (withdrawals db2)"
    unfolding claims_ok_def by simp
  with moved_refs [OF moves(5) refs r rows] have ok: "cashouts_ok db2" unfolding cashouts_ok_def by simp
  have "withdrawals db' = withdrawals db2 \<and> withdrawal_events db' = withdrawal_events db2 \<and> verifications db' = verifications db2"
    using moves(7) post_journal_cashouts by auto
  then show ?thesis by (intro cashouts_ok_mono [OF ok]) auto
qed

end
