(* ===== verification/Gds_Revenue.thy ===== *)
theory Gds_Revenue
  imports Gds_Claims Revenue_Finance
begin

text \<open>
  Revenue in the internal wallet (\<^verbatim>\<open>gds-revenue-wallet.service.ts\<close> and the triggers of its
  tables).  A projection remembers how much of what an earning period has recognized is already in the wallet
  of its seller; an effect posts the difference.  A reversal takes what is available and leaves the rest as a
  debt, which later revenue pays off first.
\<close>

section \<open>The tables\<close>

definition create_wallet :: "string \<Rightarrow> string \<Rightarrow> shop_db \<Rightarrow> shop_db" where
  "create_wallet i buyer db =
     (if list_ex (\<lambda>w. gw_buyer_id w = buyer \<or> gw_id w = i) (wallets db) then db
      else db\<lparr>wallets := wallets db @ [\<lparr>gw_id = i, gw_buyer_id = buyer, gw_status = ''ACTIVE'', gw_available = 0,
             gw_held = 0, gw_debt = 0\<rparr>]\<rparr>)"

definition recognized_rows :: "string \<Rightarrow> shop_db \<Rightarrow> ledger_entry list" where
  "recognized_rows i db = filter (\<lambda>e. le_period_id e = i) (entries db)"

definition net_kind :: "string \<Rightarrow> bool" where
  "net_kind k = (k = ''recognized'' \<or> k = ''refund_recognized'')"

definition historic :: "string \<Rightarrow> shop_db \<Rightarrow> bool" where
  "historic i db =
     list_ex (\<lambda>e. le_kind e = ''recognized'' \<and> le_created_at e \<le> ws_cutoff_at (wd_settings db)) (recognized_rows i db)"

text \<open>\<^verbatim>\<open>gds_revenue_projection_guard\<close> on insertion.\<close>

definition insert_projection :: "revenue_projection \<Rightarrow> shop_db \<Rightarrow> shop_db result" where
  "insert_projection p db =
     throw_if (\<not> list_ex (\<lambda>w. gw_id w = rp_wallet_id p
           \<and> list_ex (\<lambda>e. ep_id e = rp_period_id p \<and> ep_seller_id e = gw_buyer_id w) (periods db)) (wallets db)
         \<or> rp_applied p \<noteq> 0 \<or> rp_historical p \<noteq> 0 \<or> rp_revision p \<noteq> 0 \<or> rp_review_required p \<noteq> historic (rp_period_id p) db
         \<or> rp_reviewed_at p \<noteq> None \<or> rp_reviewed_by p \<noteq> None)
       (DatabaseError ''GDS revenue projection invalid source'') (
     throw_if (list_ex (\<lambda>y. rp_id y = rp_id p \<or> rp_period_id y = rp_period_id p) (projections db)) (PrismaError ''P2002'') (
     Inr (db\<lparr>projections := projections db @ [p]\<rparr>)))"

text \<open>\<^verbatim>\<open>gds_revenue_effect_apply\<close>\<close>

definition settled_source :: "int \<Rightarrow> int \<Rightarrow> string \<Rightarrow> shop_db \<Rightarrow> bool" where
  "settled_source now target i db =
     list_ex (\<lambda>p. ep_id p = i \<and> target \<le> ep_amount p \<and> ep_due_at p \<le> now
       \<and> list_ex (\<lambda>s. sn_id s = ep_snapshot_id p
           \<and> list_ex (\<lambda>x. or_id x = sn_order_id s \<and> or_status x = ''confirmed'' \<and> or_currency x = ''VND''
               \<and> list_ex (\<lambda>c. Some (st_id c) = or_confirmed_settlement_id x \<and> st_order_id c = or_id x
                   \<and> st_amount c = or_payable_amount x \<and> st_currency c = or_currency x
                   \<and> (st_disposition c = ''matched'' \<or> st_disposition c = ''internal'')) (settlements db))
             (orders db)) (snapshots db)) (periods db)"

definition cash_part :: "int \<Rightarrow> gds_wallet \<Rightarrow> int" where
  "cash_part delta w = (if delta > 0 then delta - min delta (gw_debt w) else - min (- delta) (gw_available w))"

definition debt_part :: "int \<Rightarrow> gds_wallet \<Rightarrow> int" where
  "debt_part delta w = (if delta > 0 then - min delta (gw_debt w) else - delta + cash_part delta w)"

definition revenue_posting :: "revenue_projection \<Rightarrow> revenue_effect \<Rightarrow> int \<Rightarrow> gds_journal" where
  "revenue_posting p x cash =
     \<lparr>gj_wallet_id = rp_wallet_id p, gj_event_key = ''gds:revenue:'' @ re_effect_id x,
      gj_kind = (if cash > 0 then ''REVENUE_CREDIT'' else ''REVENUE_REVERSAL''), gj_amount = \<bar>cash\<bar>, gj_available = cash,
      gj_held = 0, gj_clearing = - cash, gj_topup_id = None, gj_collection_ref = None, gj_order_ref = Some (re_effect_id x)\<rparr>"

definition advance :: "revenue_projection \<Rightarrow> revenue_effect \<Rightarrow> int \<Rightarrow> shop_db \<Rightarrow> shop_db" where
  "advance p x debt db =
     db\<lparr>effects := effects db @ [x],
        projections := update_where (\<lambda>y. rp_id y = rp_id p)
          (\<lambda>y. y\<lparr>rp_applied := rp_applied y + re_delta x, rp_revision := re_revision x\<rparr>) (projections db),
        wallets := update_where (\<lambda>y. gw_id y = rp_wallet_id p) (\<lambda>y. y\<lparr>gw_debt := gw_debt y + debt\<rparr>) (wallets db)\<rparr>"

definition insert_effect :: "int \<Rightarrow> revenue_effect \<Rightarrow> shop_db \<Rightarrow> shop_db result" where
  "insert_effect now x db =
     throw_if (re_delta x = 0 \<or> re_available x - re_debt x \<noteq> re_delta x) (DatabaseError ''gds_revenue_effects_check'') (
     throw_if (list_ex (\<lambda>y. re_effect_id y = re_effect_id x
         \<or> re_projection_id y = re_projection_id x \<and> re_revision y = re_revision x) (effects db)) (PrismaError ''P2002'') (
     some_or (DatabaseError ''GDS revenue requires review or revision mismatch'') (find_projection (re_projection_id x) db) (\<lambda>p.
     throw_if (rp_review_required p \<or> re_revision x \<noteq> rp_revision p + 1)
       (DatabaseError ''GDS revenue requires review or revision mismatch'') (
     some_or (DatabaseError ''GDS wallet missing'') (find_wallet (rp_wallet_id p) db) (\<lambda>w.
     let target = sum_kinds net_kind (recognized_rows (rp_period_id p) db);
         delta = target - rp_historical p - rp_applied p;
         cash = cash_part delta w; debt = debt_part delta w in
     throw_if (target < 0 \<or> \<not> settled_source now target (rp_period_id p) db)
       (DatabaseError ''GDS revenue requires verified settlement and bounded recognized amount'') (
     throw_if (re_delta x \<noteq> delta \<or> re_available x \<noteq> cash \<or> re_debt x \<noteq> debt)
       (DatabaseError ''GDS revenue effect source or balance mismatch'') (
     throw_if (gw_debt w + debt < 0) (DatabaseError ''gds_internal_wallets_debt_minor_check'') (
     let db1 = advance p x debt db in
     if cash = 0 then Inr db1 else post_journal now (revenue_posting p x cash) db1))))))))"

section \<open>The service\<close>

text \<open>\<^verbatim>\<open>syncPeriod\<close>: the two flags say whether bank transfers count as verified and whether the
  source is reconciled first.\<close>

definition wallet_projection :: "(string \<Rightarrow> string) \<Rightarrow> string \<Rightarrow> ledger_entry \<Rightarrow> gds_wallet \<Rightarrow> (shop_db, revenue_projection) txn" where
  "wallet_projection fresh i e w db =
     (case find (\<lambda>p. rp_period_id p = i) (projections db) of
        Some p \<Rightarrow> Inr (p, db)
      | None \<Rightarrow>
          let p = \<lparr>rp_id = fresh ''projection'', rp_period_id = i, rp_wallet_id = gw_id w, rp_applied = 0, rp_historical = 0,
                    rp_review_required = (le_created_at e \<le> ws_cutoff_at (wd_settings db)), rp_reviewed_by = None,
                    rp_reviewed_at = None, rp_review_reason = None, rp_revision = 0\<rparr>
          in and_then (insert_projection p db) (\<lambda>db'. Inr (p, db')))"

definition post_difference :: "(string \<Rightarrow> string) \<Rightarrow> int \<Rightarrow> revenue_projection \<Rightarrow> int \<Rightarrow> gds_wallet \<Rightarrow> shop_db \<Rightarrow> shop_db result" where
  "post_difference fresh now p delta w db =
     (let debt = (if delta > 0 then - min delta (gw_debt w) else - delta - min (- delta) (gw_available w)) in
      insert_effect now \<lparr>re_effect_id = fresh ''effect'', re_projection_id = rp_id p, re_revision = rp_revision p + 1,
        re_delta = delta, re_available = delta + debt, re_debt = debt\<rparr> db)"

definition post_net :: "(string \<Rightarrow> string) \<Rightarrow> int \<Rightarrow> revenue_projection \<Rightarrow> int \<Rightarrow> string \<Rightarrow> shop_db \<Rightarrow> shop_db result" where
  "post_net fresh now p net i db =
     (if rp_review_required p then Inr db
      else
        let delta = net - rp_historical p - rp_applied p in
        throw_if (net < 0) (ConflictException ''GDS_REVENUE_NEGATIVE_SOURCE'') (
        if delta = 0 then Inr db
        else and_then (or_throw (find_wallet i db)) (\<lambda>current. post_difference fresh now p delta current db)))"

definition project_period :: "(string \<Rightarrow> string) \<Rightarrow> int \<Rightarrow> string \<Rightarrow> shop_db \<Rightarrow> shop_db result" where
  "project_period fresh now i db =
     and_then (or_throw (find (\<lambda>p. ep_id p = i) (periods db))) (\<lambda>period.
     case find (\<lambda>e. le_kind e = ''recognized'') (recognized_rows i db) of
       None \<Rightarrow> Inr db
     | Some e \<Rightarrow>
         if \<not> ws_processing (wd_settings db) then Inr db
         else
           let db1 = create_wallet (fresh ''wallet'') (ep_seller_id period) db in
           and_then (or_throw (wallet_of_buyer (ep_seller_id period) db1)) (\<lambda>w.
           and_then (wallet_projection fresh i e w db1) (\<lambda>(p, db2).
           post_net fresh now p (sum_kinds net_kind (recognized_rows i db)) (gw_id w) db2)))"

definition sync_period ::
  "bool \<Rightarrow> (string \<Rightarrow> nat \<Rightarrow> string) \<Rightarrow> (string \<Rightarrow> string) \<Rightarrow> int \<Rightarrow> string \<Rightarrow> bool \<Rightarrow> shop_db \<Rightarrow> shop_db result" where
  "sync_period bank_on fresh_period fresh now i reconcile db =
     and_then
       (if reconcile
        then and_then (reconcile_wallet_period bank_on fresh_period now i db) (\<lambda>(ok, db1).
          throw_if (\<not> ok) (ConflictException ''GDS_REVENUE_UNVERIFIED_SOURCE'') (Inr db1))
        else Inr db)
       (project_period fresh now i)"

definition has_recognized :: "shop_db \<Rightarrow> earning_period \<Rightarrow> bool" where
  "has_recognized db p = list_ex (\<lambda>e. le_kind e = ''recognized'') (recognized_rows (ep_id p) db)"

definition by_period_id :: "earning_period \<Rightarrow> earning_period \<Rightarrow> int" where
  "by_period_id a b = (if ep_id a = ep_id b then 0 else if ep_id a < ep_id b then -1 else 1)"

definition sync_next ::
  "bool \<Rightarrow> (string \<Rightarrow> nat \<Rightarrow> string) \<Rightarrow> (string \<Rightarrow> string \<Rightarrow> string) \<Rightarrow> int \<Rightarrow> string list \<times> shop_db \<Rightarrow> earning_period
   \<Rightarrow> (string list \<times> shop_db) result" where
  "sync_next bank_on fresh_period fresh now st p =
     (case st of (seen, db) \<Rightarrow>
        and_then (sync_period bank_on fresh_period (fresh (ep_id p)) now (ep_id p) (ep_snapshot_id p \<notin> set seen) db)
          (\<lambda>db'. Inr (seen @ [ep_snapshot_id p], db')))"

definition sync_owner ::
  "bool \<Rightarrow> (string \<Rightarrow> nat \<Rightarrow> string) \<Rightarrow> (string \<Rightarrow> string \<Rightarrow> string) \<Rightarrow> int \<Rightarrow> string \<Rightarrow> shop_db \<Rightarrow> shop_db result" where
  "sync_owner bank_on fresh_period fresh now owner db =
     (if \<not> ws_processing (wd_settings db) then Inr db
      else
        and_then
          (fold_result (sync_next bank_on fresh_period fresh now) ([], db)
            (js_sort by_period_id (filter (\<lambda>p. ep_seller_id p = owner \<and> has_recognized db p) (periods db))))
          (\<lambda>(seen, d). Inr d))"

text \<open>\<^verbatim>\<open>transaction\<close>: four attempts.\<close>

definition finance_transaction :: "(nat \<Rightarrow> api_error option) \<Rightarrow> (shop_db, 'a) txn \<Rightarrow> (shop_db, 'a) txn" where
  "finance_transaction aborts body =
     retry_loop retryable_gds (PrismaError ''P2034'') 0 4 (aborting aborts body)"

definition approve_review :: "string \<Rightarrow> string \<Rightarrow> int \<Rightarrow> string \<Rightarrow> int \<Rightarrow> (shop_db, string) txn" where
  "approve_review actor i paid reason now db =
     some_or (NotFoundException ''GDS_REVENUE_REVIEW_NOT_FOUND'') (find_projection i db) (\<lambda>p.
     throw_if (\<not> rp_review_required p) (ConflictException ''GDS_REVENUE_ALREADY_REVIEWED'') (
     and_then (or_throw (find_wallet (rp_wallet_id p) db)) (\<lambda>w.
     throw_if (gw_buyer_id w = actor) (ForbiddenException ''GDS_SELF_REVIEW_FORBIDDEN'') (
     and_then (or_throw (find (\<lambda>e. ep_id e = rp_period_id p) (periods db))) (\<lambda>period.
     let recognized_sum = sum_kinds (\<lambda>k. k = ''recognized'') (recognized_rows (rp_period_id p) db) in
     throw_if (paid > recognized_sum) (ConflictException ''GDS_REVENUE_REVIEW_EXCEEDS_RECOGNIZED'') (
     throw_if (\<not> truthy (js_trim reason)) (DatabaseError ''GDS revenue review invalid'') (
     let db1 = db\<lparr>projections := update_where (\<lambda>y. rp_id y = i)
           (\<lambda>y. y\<lparr>rp_review_required := False, rp_historical := paid, rp_reviewed_by := Some actor, rp_reviewed_at := Some now,
              rp_review_reason := Some reason\<rparr>) (projections db)\<rparr>
     in Inr (i, db1\<lparr>audits := audits db1 @ [\<lparr>ar_actor_kind = ''USER'', ar_actor_id = Some actor,
           ar_action = ''gds.revenue.reviewed'', ar_target_type = ''gds_revenue_projection'', ar_target_id = i,
           ar_metadata = [(''historicalPaidMinor'', MString (show_int paid)), (''reason'', MString reason)]\<rparr>]\<rparr>))))))))"

text \<open>One run of the batch: up to a hundred periods after the cursor, each in its own transaction.\<close>

definition sync_batch_ids :: "string option \<Rightarrow> shop_db \<Rightarrow> string list" where
  "sync_batch_ids cursor db =
     take 100 (map ep_id (js_sort by_period_id
       (filter (\<lambda>p. (opt_truthy cursor \<longrightarrow> ep_id p > the cursor) \<and> has_recognized db p) (periods db))))"

fun sync_batch ::
  "bool \<Rightarrow> (string \<Rightarrow> string \<Rightarrow> nat \<Rightarrow> string) \<Rightarrow> (string \<Rightarrow> string \<Rightarrow> string) \<Rightarrow> int \<Rightarrow> string list \<Rightarrow> shop_db \<Rightarrow> shop_db" where
  "sync_batch bank_on fresh_period fresh now [] db = db"
| "sync_batch bank_on fresh_period fresh now (i # is) db =
     sync_batch bank_on fresh_period fresh now is
       (case sync_period bank_on (fresh_period i) (fresh i) now i True db of Inl _ \<Rightarrow> db | Inr db' \<Rightarrow> db')"

definition run_wallet_batch ::
  "capabilities \<Rightarrow> bool \<Rightarrow> (string \<Rightarrow> string \<Rightarrow> nat \<Rightarrow> string) \<Rightarrow> (string \<Rightarrow> string \<Rightarrow> string) \<Rightarrow> int
   \<Rightarrow> string option \<times> shop_db \<Rightarrow> string option \<times> shop_db" where
  "run_wallet_batch cap bank_on fresh_period fresh now st =
     (case st of (cursor, db) \<Rightarrow>
        if \<not> cap_processing cap \<or> \<not> ws_processing (wd_settings db) then (cursor, db)
        else
          let ids = sync_batch_ids cursor db
          in (if length ids = 100 then Some (last ids) else None, sync_batch bank_on fresh_period fresh now ids db))"

section \<open>What the triggers keep\<close>

text \<open>A change of the debts alone does not concern the ledger.\<close>

lemma debt_change:
  assumes "wallets db' = update_where P (\<lambda>w. w\<lparr>gw_debt := f w\<rparr>) (wallets db)" and "holds db' = holds db"
    and "withdrawals db' = withdrawals db" and "topups db' = topups db" and "journal db' = journal db"
  shows "ledger_inv db \<Longrightarrow> ledger_inv db'" and "account_of i db' = account_of i db"
proof -
  let ?h = "\<lambda>w. w\<lparr>gw_debt := f w\<rparr>"
  show "account_of i db' = account_of i db"
    using assms by (auto simp: account_of_def free_of_def find_updated [where k = gw_id] split: option.splits)
  assume inv: "ledger_inv db"
  have "map gw_id (wallets db') = map gw_id (wallets db)" "gw_id ` set (wallets db') = gw_id ` set (wallets db)"
    using assms(1) by (simp_all add: map_update_where_same image_update_where_same)
  moreover have "balance_ok (journal db) (?h w) = balance_ok (journal db) w" for w
    by (simp add: balance_ok_def)
  ultimately show "ledger_inv db'"
    using inv assms by (auto simp: ledger_inv_def keys_ok_def links_ok_def set_update_where)
qed

lemma create_wallet_ledger:
  assumes "ledger_inv db"
  shows "ledger_inv (create_wallet i b db)" and "account_of k (create_wallet i b db) = account_of k db"
proof -
  show "account_of k (create_wallet i b db) = account_of k db"
    by (auto simp: create_wallet_def account_of_def free_of_def find_append split: option.splits)
  show "ledger_inv (create_wallet i b db)"
  proof (cases "create_wallet i b db = db")
    case False
    then have new: "i \<notin> gw_id ` set (wallets db)" and c: "create_wallet i b db = db\<lparr>wallets := wallets db @ [\<lparr>gw_id = i,
        gw_buyer_id = b, gw_status = ''ACTIVE'', gw_available = 0, gw_held = 0, gw_debt = 0\<rparr>]\<rparr>"
      by (auto simp: create_wallet_def list_ex_iff split: if_splits)
    have l: "links_ok db" using assms by (simp add: ledger_inv_def)
    have "rows_of i (journal db) = []" "filter (\<lambda>h. gh_wallet_id h = i \<and> gh_status h = ''RESERVED'') (holds db) = []"
      "filter (\<lambda>r. wd_wallet_id r = i \<and> withdrawal_open r) (withdrawals db) = []"
      using l new by (auto simp: links_ok_def rows_of_def filter_empty_conv)
    then show ?thesis
      using assms l new
      by (auto simp: c ledger_inv_def keys_ok_def links_ok_def balance_ok_def held_by_orders_def held_by_cashouts_def)
  qed (use assms in simp)
qed

text \<open>The revenue side of the invariant: what the projections of a wallet have applied is the revenue in its journal
  less its debt.\<close>

definition revenue_in :: "string \<Rightarrow> gds_journal list \<Rightarrow> int" where
  "revenue_in i js = sum_list (map gj_available (filter (\<lambda>j. revenue_kind (gj_kind j)) (rows_of i js)))"

definition applied_to :: "string \<Rightarrow> revenue_projection list \<Rightarrow> int" where
  "applied_to i ps = sum_list (map rp_applied (filter (\<lambda>p. rp_wallet_id p = i) ps))"

definition debts_ok :: "shop_db \<Rightarrow> bool" where
  "debts_ok db =
     (distinct (map rp_id (projections db)) \<and> distinct (map rp_period_id (projections db))
      \<and> rp_wallet_id ` set (projections db) \<subseteq> gw_id ` set (wallets db)
      \<and> (\<forall>w\<in>set (wallets db). 0 \<le> gw_debt w
           \<and> applied_to (gw_id w) (projections db) = revenue_in (gw_id w) (journal db) - gw_debt w))"

lemma debts_ok_cong:
  assumes "wallets db' = wallets db" "projections db' = projections db" "journal db' = journal db"
  shows "debts_ok db' = debts_ok db"
  using assms by (simp add: debts_ok_def)

lemma create_wallet_debts:
  assumes "debts_ok db" and "links_ok db"
  shows "debts_ok (create_wallet i b db)"
proof (cases "create_wallet i b db = db")
  case False
  then have new: "i \<notin> gw_id ` set (wallets db)" and c: "create_wallet i b db = db\<lparr>wallets := wallets db @ [\<lparr>gw_id = i,
      gw_buyer_id = b, gw_status = ''ACTIVE'', gw_available = 0, gw_held = 0, gw_debt = 0\<rparr>]\<rparr>"
    by (auto simp: create_wallet_def list_ex_iff split: if_splits)
  have "rows_of i (journal db) = []" "filter (\<lambda>p. rp_wallet_id p = i) (projections db) = []"
    using assms new by (auto simp: links_ok_def debts_ok_def rows_of_def filter_empty_conv)
  then show ?thesis
    using assms(1) new by (auto simp: c debts_ok_def applied_to_def revenue_in_def)
qed (use assms in simp)

lemma insert_projection_debts:
  assumes "insert_projection p db = Inr db'" and "debts_ok db"
  shows "debts_ok db' \<and> db' = db\<lparr>projections := projections db @ [p]\<rparr>"
proof -
  have d': "db' = db\<lparr>projections := projections db @ [p]\<rparr>" and "rp_applied p = 0"
    and "rp_id p \<notin> rp_id ` set (projections db)" "rp_period_id p \<notin> rp_period_id ` set (projections db)"
    and "\<exists>w\<in>set (wallets db). gw_id w = rp_wallet_id p"
    using assms(1) by (fastforce simp: insert_projection_def result_simps list_ex_iff)+
  then have "rp_wallet_id p \<in> gw_id ` set (wallets db)" by (metis image_eqI)
  with d' \<open>rp_applied p = 0\<close> \<open>rp_id p \<notin> _\<close> \<open>rp_period_id p \<notin> _\<close> assms(2) show ?thesis by (simp add: debts_ok_def applied_to_def)
qed

text \<open>Postings of other kinds leave the revenue side alone.\<close>

lemma other_posting_debts:
  assumes "post_journal now j db = Inr db'" and "debts_ok db" and "\<not> revenue_kind (gj_kind j)"
  shows "debts_ok db'"
proof -
  obtain ts hs where d': "db' = db\<lparr>journal := journal db @ [j], topups := ts, holds := hs, wallets := posted j (wallets db)\<rparr>"
    using post_journal_frame [OF assms(1)] by blast
  have "revenue_in i (journal db @ [j]) = revenue_in i (journal db)" for i
    using assms(3) by (simp add: revenue_in_def rows_of_def)
  moreover have "gw_id ` set (posted j (wallets db)) = gw_id ` set (wallets db)" by (metis posted_ids set_map)
  ultimately show ?thesis
    using assms(2) by (auto simp: d' debts_ok_def posted_def set_update_where)
qed

lemma posting_debts:
  assumes "debts_ok db" and "find_projection i db = Some p" and "find_wallet (rp_wallet_id p) db = Some w"
    and "distinct (map gw_id (wallets db))" and "re_projection_id x = i"
    and "0 \<le> gw_debt w + debt" and "re_delta x = cash - debt"
    and "\<And>v. v \<in> set (wallets db') \<Longrightarrow> \<exists>u\<in>set (wallets db). gw_id v = gw_id u
      \<and> gw_debt v = gw_debt u + (if gw_id u = rp_wallet_id p then debt else 0)"
    and "gw_id ` set (wallets db') = gw_id ` set (wallets db)" and "projections db' = projections (advance p x debt db)"
    and "journal db' = journal db @ js"
    and "\<And>k. revenue_in k (journal db @ js) = revenue_in k (journal db) + (if k = rp_wallet_id p then cash else 0)"
  shows "debts_ok db'"
proof -
  let ?f = "\<lambda>y. y\<lparr>rp_applied := rp_applied y + re_delta x, rp_revision := re_revision x\<rparr>"
  have p: "p \<in> set (projections db)" using assms(2) by (auto simp: find_projection_def dest: find_SomeD)
  have d: "distinct (map rp_id (projections db))" using assms(1) by (simp add: debts_ok_def)
  have ps: "projections db' = update_where (\<lambda>y. rp_id y = rp_id p) ?f (projections db)"
    by (simp add: assms(10) advance_def)
  have a: "applied_to k (projections db') = applied_to k (projections db) + (if k = rp_wallet_id p then re_delta x else 0)" for k
    using sum_update_one [OF d p, of "\<lambda>y. rp_id y = rp_id p" rp_applied "\<lambda>y. rp_wallet_id y = k" ?f]
    by (auto simp: applied_to_def ps)
  have "0 \<le> gw_debt v \<and> applied_to (gw_id v) (projections db') = revenue_in (gw_id v) (journal db') - gw_debt v"
    if v: "v \<in> set (wallets db')" for v
  proof -
    obtain u where u: "u \<in> set (wallets db)" "gw_id v = gw_id u"
        "gw_debt v = gw_debt u + (if gw_id u = rp_wallet_id p then debt else 0)"
      using assms(8) [OF v] by blast
    have "gw_id u = rp_wallet_id p \<Longrightarrow> u = w"
      using find_row [OF assms(4) u(1)] assms(3) by (simp add: find_wallet_def)
    then show ?thesis
      using assms(1,6,7,12) u by (auto simp: debts_ok_def a assms(11))
  qed
  then show ?thesis
    using assms(1,9) by (simp add: debts_ok_def ps map_update_where_same image_update_where_same)
qed

section \<open>Sound moves\<close>

text \<open>A move keeps the invariant and is a sequence of legal steps of every account.  Moves compose, so an
  operation is sound when the triggers it fires are.\<close>

definition wallet_sound :: "shop_db \<Rightarrow> bool" where
  "wallet_sound db = (ledger_inv db \<and> debts_ok db \<and> cashouts_ok db)"

definition sound_move :: "shop_db \<Rightarrow> shop_db \<Rightarrow> bool" where
  "sound_move db db' =
     (wallet_sound db \<longrightarrow> wallet_sound db' \<and> (\<forall>i. account_step\<^sup>*\<^sup>* (account_of i db) (account_of i db')))"

lemma sound_move_refl [simp]: "sound_move db db"
  by (simp add: sound_move_def)

lemma sound_move_trans: "sound_move db db' \<Longrightarrow> sound_move db' db'' \<Longrightarrow> sound_move db db''"
  unfolding sound_move_def by (meson rtranclp_trans)

lemma sound_move_frame:
  assumes "wallets db' = wallets db" "holds db' = holds db" "withdrawals db' = withdrawals db" "topups db' = topups db"
    "journal db' = journal db" "projections db' = projections db"
    "set (withdrawal_events db) \<subseteq> set (withdrawal_events db')" "set (verifications db) \<subseteq> set (verifications db')"
  shows "sound_move db db'"
  using ledger_inv_cong [of db' db] debts_ok_cong [of db' db] cashouts_ok_mono [OF _ assms(3,7,8)] assms
  by (simp add: sound_move_def wallet_sound_def)

lemma sound_move_step:
  assumes "ledger_inv db \<Longrightarrow> debts_ok db \<Longrightarrow> ledger_inv db' \<and> debts_ok db'"
    and "\<And>i. ledger_inv db \<Longrightarrow> account_step\<^sup>=\<^sup>= (account_of i db) (account_of i db')"
    and "ledger_inv db \<Longrightarrow> cashouts_ok db \<Longrightarrow> cashouts_ok db'"
  shows "sound_move db db'"
proof -
  have "account_step\<^sup>*\<^sup>* (account_of i db) (account_of i db')" if "ledger_inv db" for i
    using assms(2) [OF that, of i] by auto
  with assms(1,3) show ?thesis by (simp add: sound_move_def wallet_sound_def)
qed

lemma same_cashouts:
  assumes "withdrawals db' = withdrawals db" "withdrawal_events db' = withdrawal_events db" "verifications db' = verifications db"
  shows "cashouts_ok db \<Longrightarrow> cashouts_ok db'"
  by (erule cashouts_ok_mono) (simp_all add: assms)

lemma post_journal_sound:
  assumes "post_journal now j db = Inr db'" and "\<not> cashout_kind (gj_kind j)" and "\<not> revenue_kind (gj_kind j)"
  shows "sound_move db db'"
proof (rule sound_move_step)
  show "ledger_inv db \<Longrightarrow> debts_ok db \<Longrightarrow> ledger_inv db' \<and> debts_ok db'"
    using ledger_post [OF assms(1) _ assms(2)] other_posting_debts [OF assms(1) _ assms(3)] by blast
  show "ledger_inv db \<Longrightarrow> account_step\<^sup>=\<^sup>= (account_of i db) (account_of i db')" for i
    using post_account [OF assms(1) _ assms(2)] ledger_inv_parts(1) by blast
  show "cashouts_ok db \<Longrightarrow> cashouts_ok db'" by (rule same_cashouts [OF post_journal_cashouts [OF assms(1)]])
qed

lemma create_wallet_sound: "sound_move db (create_wallet i b db)"
proof (rule sound_move_step)
  show "cashouts_ok db \<Longrightarrow> cashouts_ok (create_wallet i b db)"
    by (erule same_cashouts [rotated -1]) (simp_all add: create_wallet_def)
qed (simp_all add: create_wallet_ledger create_wallet_debts ledger_inv_parts)

lemma insert_projection_sound:
  assumes "insert_projection p db = Inr db'"
  shows "sound_move db db'"
proof -
  have d: "db' = db\<lparr>projections := projections db @ [p]\<rparr>"
    using assms by (auto simp: insert_projection_def result_simps)
  have l: "ledger_inv db' = ledger_inv db" and a: "account_of i db' = account_of i db" for i
    by (rule ledger_inv_cong; simp add: d)+
  show ?thesis
  proof (rule sound_move_step)
    show "ledger_inv db \<Longrightarrow> debts_ok db \<Longrightarrow> ledger_inv db' \<and> debts_ok db'"
      using insert_projection_debts [OF assms] l by blast
    show "cashouts_ok db \<Longrightarrow> cashouts_ok db'" by (erule same_cashouts [rotated -1]) (simp_all add: d)
  qed (simp add: a)
qed

lemma insert_withdrawal_sound:
  assumes "insert_withdrawal now r db = Inr db'"
  shows "sound_move db db'"
proof (rule sound_move_step)
  obtain j db1 where "post_journal now j db1 = Inr db'" "gj_kind j = ''WITHDRAWAL_RESERVE''"
      "wallets db1 = wallets db" "projections db1 = projections db" "journal db1 = journal db"
    using assms by (auto simp: insert_withdrawal_def result_simps)
  then have "debts_ok db \<Longrightarrow> debts_ok db'"
    using other_posting_debts debts_ok_cong [of db1 db] by (auto simp: revenue_kind_def)
  then show "ledger_inv db \<Longrightarrow> debts_ok db \<Longrightarrow> ledger_inv db' \<and> debts_ok db'"
    using insert_withdrawal_ledger(1) [OF assms] by blast
  show "cashouts_ok db \<Longrightarrow> cashouts_ok db'" by (rule insert_withdrawal_cashouts [OF assms])
qed (rule insert_withdrawal_ledger(2) [OF assms])

lemma insert_event_sound:
  assumes "insert_event now e db = Inr db'"
  shows "sound_move db db'"
proof (rule sound_move_step)
  have "debts_ok db'" if "debts_ok db"
    using assms
  proof (cases rule: insert_event_cases)
    case created
    with that debts_ok_cong [of db' db] show ?thesis by simp
  next
    case (moves r db2)
    have "debts_ok db2" using that debts_ok_cong [of db2 db] by (simp add: moves(6))
    moreover have "terminal_posting e r = Some j \<Longrightarrow> \<not> revenue_kind (gj_kind j)" for j
      by (auto simp: terminal_posting_def revenue_kind_def split: if_splits)
    ultimately show ?thesis using moves(7) other_posting_debts by auto
  qed
  then show "ledger_inv db \<Longrightarrow> debts_ok db \<Longrightarrow> ledger_inv db' \<and> debts_ok db'"
    using insert_event_ledger [OF assms] by blast
  show "ledger_inv db \<Longrightarrow> cashouts_ok db \<Longrightarrow> cashouts_ok db'"
    using insert_event_cashouts [OF assms] by (simp add: ledger_inv_def keys_ok_def)
qed (use insert_event_ledger [OF assms] in blast)

section \<open>Effects\<close>

lemma advance_frame:
  "wallets (advance p x d db) = update_where (\<lambda>y. gw_id y = rp_wallet_id p) (\<lambda>y. y\<lparr>gw_debt := gw_debt y + d\<rparr>) (wallets db)"
  "holds (advance p x d db) = holds db" "withdrawals (advance p x d db) = withdrawals db"
  "topups (advance p x d db) = topups db" "journal (advance p x d db) = journal db"
  "withdrawal_events (advance p x d db) = withdrawal_events db" "verifications (advance p x d db) = verifications db"
  by (simp_all add: advance_def)

lemma posted_debt: "v \<in> set (posted j ws) \<Longrightarrow> \<exists>y\<in>set ws. gw_id v = gw_id y \<and> gw_debt v = gw_debt y"
proof -
  assume "v \<in> set (posted j ws)"
  then obtain y where "y \<in> set ws" "v = (if gw_id y = gj_wallet_id j
      then y\<lparr>gw_available := gw_available y + gj_available j, gw_held := gw_held y + gj_held j\<rparr> else y)"
    by (auto simp: posted_def set_update_where)
  then show "\<exists>y\<in>set ws. gw_id v = gw_id y \<and> gw_debt v = gw_debt y" by (intro bexI [of _ y]) auto
qed

lemma advance_debt:
  "y \<in> set (wallets (advance p x d db))
     \<Longrightarrow> \<exists>u\<in>set (wallets db). gw_id y = gw_id u \<and> gw_debt y = gw_debt u + (if gw_id u = rp_wallet_id p then d else 0)"
  by (auto simp: advance_frame set_update_where)

lemma revenue_posting_kind: "cash \<noteq> 0 \<Longrightarrow> \<not> cashout_kind (gj_kind (revenue_posting p x cash)) \<and> revenue_kind (gj_kind (revenue_posting p x cash))"
  by (simp add: revenue_posting_def cashout_kind_def revenue_kind_def)

lemma insert_effect_sound:
  assumes "insert_effect now x db = Inr db'"
  shows "sound_move db db'"
proof (rule sound_move_step)
  obtain p w where p: "find_projection (re_projection_id x) db = Some p" and w: "find_wallet (rp_wallet_id p) db = Some w"
    and debt: "0 \<le> gw_debt w + re_debt x" "re_available x - re_debt x = re_delta x"
    and db': "if re_available x = 0 then db' = advance p x (re_debt x) db
       else post_journal now (revenue_posting p x (re_available x)) (advance p x (re_debt x) db) = Inr db'"
    using assms by (auto simp: insert_effect_def result_simps Let_def split: if_splits)
  let ?db = "advance p x (re_debt x) db"
  let ?j = "revenue_posting p x (re_available x)"
  have adv: "ledger_inv db \<Longrightarrow> ledger_inv ?db" "account_of i ?db = account_of i db" for i
    by (rule debt_change [OF advance_frame(1-5)]; simp add: advance_frame)+
  show "account_step\<^sup>=\<^sup>= (account_of i db) (account_of i db')" if "ledger_inv db" for i
  proof (cases "re_available x = 0")
    case True
    with db' adv(2) show ?thesis by simp
  next
    case False
    with db' have "post_journal now ?j ?db = Inr db'" by simp
    from post_account [OF this ledger_inv_parts(1) [OF adv(1) [OF that]], of i] revenue_posting_kind [OF False]
    show ?thesis by (simp add: adv(2))
  qed
  have "withdrawals db' = withdrawals ?db \<and> withdrawal_events db' = withdrawal_events ?db \<and> verifications db' = verifications ?db"
  proof (cases "re_available x = 0")
    case True
    with db' have "db' = ?db" by simp
    then show ?thesis by blast
  next
    case False
    with db' have "post_journal now ?j ?db = Inr db'" by simp
    then show ?thesis using post_journal_cashouts by blast
  qed
  then have "withdrawals db' = withdrawals db" "withdrawal_events db' = withdrawal_events db" "verifications db' = verifications db"
    by (simp_all add: advance_frame)
  then show "cashouts_ok db \<Longrightarrow> cashouts_ok db'" by (rule same_cashouts)
  assume inv: "ledger_inv db" and d: "debts_ok db"
  have "ledger_inv db'"
    using db' adv(1) [OF inv] ledger_post [of now ?j ?db db'] revenue_posting_kind [of "re_available x" p x]
    by (cases "re_available x = 0") simp_all
  moreover have "debts_ok db'"
  proof (rule posting_debts [OF d p w, where debt = "re_debt x" and cash = "re_available x" and x = x
        and js = "if re_available x = 0 then [] else [?j]"])
    show "distinct (map gw_id (wallets db))" using inv by (simp add: ledger_inv_def keys_ok_def)
    show "0 \<le> gw_debt w + re_debt x" "re_delta x = re_available x - re_debt x" using debt by simp_all
    have f: "journal db' = journal db @ (if re_available x = 0 then [] else [?j]) \<and> projections db' = projections ?db
        \<and> wallets db' = (if re_available x = 0 then wallets ?db else posted ?j (wallets ?db))"
    proof (cases "re_available x = 0")
      case True
      with db' show ?thesis by (simp add: advance_frame)
    next
      case False
      with db' have "post_journal now ?j ?db = Inr db'" by simp
      from post_journal_frame [OF this] obtain ts hs where
        "db' = ?db\<lparr>journal := journal ?db @ [?j], topups := ts, holds := hs, wallets := posted ?j (wallets ?db)\<rparr>" by blast
      with False show ?thesis by (simp add: advance_frame)
    qed
    then show "journal db' = journal db @ (if re_available x = 0 then [] else [?j])" "projections db' = projections ?db" by simp_all
    show "gw_id ` set (wallets db') = gw_id ` set (wallets db)"
      using f by (simp add: posted_def image_update_where_same advance_frame)
    show "\<exists>u\<in>set (wallets db). gw_id v = gw_id u \<and> gw_debt v = gw_debt u + (if gw_id u = rp_wallet_id p then re_debt x else 0)"
      if "v \<in> set (wallets db')" for v
    proof -
      have "\<exists>y\<in>set (wallets ?db). gw_id v = gw_id y \<and> gw_debt v = gw_debt y"
        using that f posted_debt [of v ?j "wallets ?db"] by (cases "re_available x = 0") auto
      then show ?thesis using advance_debt by metis
    qed
    show "revenue_in k (journal db @ (if re_available x = 0 then [] else [?j]))
        = revenue_in k (journal db) + (if k = rp_wallet_id p then re_available x else 0)" for k
      using revenue_posting_kind [of "re_available x" p x] by (simp add: revenue_in_def rows_of_def revenue_posting_def)
  qed simp
  ultimately show "ledger_inv db' \<and> debts_ok db'" ..
qed

section \<open>The service is sound\<close>

lemma reconcile_sound:
  assumes "reconcile_wallet_period bank_on fresh now i db = Inr (ok, db')"
  shows "sound_move db db' \<and> wd_settings db' = wd_settings db"
proof -
  obtain sid where "process_snapshot bank_on fresh now sid db = Inr db'"
    using assms by (auto simp: reconcile_wallet_period_def result_simps split: option.splits)
  from revenue_bare_tables [OF process_snapshot_bare [OF this]] show ?thesis
    by (auto intro: sound_move_frame)
qed

lemma projection_row_sound:
  assumes "wallet_projection fresh i e w db = Inr (p, db')"
  shows "sound_move db db'" and "p \<in> set (projections db') \<and> rp_period_id p = i" and "wallets db' = wallets db"
    and "entries db' = entries db"
proof -
  have "sound_move db db' \<and> (p \<in> set (projections db') \<and> rp_period_id p = i) \<and> wallets db' = wallets db \<and> entries db' = entries db"
  proof (cases "find (\<lambda>p. rp_period_id p = i) (projections db)")
    case None
    with assms have "insert_projection p db = Inr db'" "rp_period_id p = i"
      by (auto simp: wallet_projection_def result_simps Let_def)
    then show ?thesis using insert_projection_sound by (auto simp: insert_projection_def result_simps)
  next
    case (Some q)
    with assms show ?thesis by (auto simp: wallet_projection_def dest: find_SomeD)
  qed
  then show "sound_move db db'" and "p \<in> set (projections db') \<and> rp_period_id p = i" and "wallets db' = wallets db"
    and "entries db' = entries db" by simp_all
qed

lemma project_period_sound:
  assumes "project_period fresh now i db = Inr db'"
  shows "sound_move db db'"
proof (cases "find (\<lambda>e. le_kind e = ''recognized'') (recognized_rows i db)")
  case None
  with assms show ?thesis by (auto simp: project_period_def result_simps)
next
  case (Some e)
  show ?thesis
  proof (cases "ws_processing (wd_settings db)")
    case True
    then obtain b w p db2 where s: "wallet_projection fresh i e w (create_wallet (fresh ''wallet'') b db) = Inr (p, db2)"
      and d: "post_net fresh now p (sum_kinds net_kind (recognized_rows i db)) (gw_id w) db2 = Inr db'"
      using assms Some by (auto simp: project_period_def result_simps Let_def)
    have "sound_move db db2" using create_wallet_sound projection_row_sound(1) [OF s] by (rule sound_move_trans)
    moreover have "sound_move db2 db'"
      using d insert_effect_sound by (auto simp: post_net_def post_difference_def result_simps Let_def split: if_splits)
    ultimately show ?thesis by (rule sound_move_trans)
  qed (use assms Some in \<open>auto simp: project_period_def result_simps\<close>)
qed

lemma sync_period_sound:
  assumes "sync_period bank_on fp fresh now i reconcile db = Inr db'"
  shows "sound_move db db'"
proof -
  obtain db1 where "db1 = db \<or> (\<exists>ok. reconcile_wallet_period bank_on fp now i db = Inr (ok, db1))"
    and "project_period fresh now i db1 = Inr db'"
    using assms by (auto simp: sync_period_def result_simps split: if_splits)
  then show ?thesis using reconcile_sound project_period_sound by (blast intro: sound_move_trans)
qed

lemma sync_owner_sound:
  assumes "sync_owner bank_on fp fresh now owner db = Inr db'"
  shows "sound_move db db'"
proof (cases "ws_processing (wd_settings db)")
  case True
  obtain seen ps where "fold_result (sync_next bank_on fp fresh now) ([], db) ps = Inr (seen, db')"
    using assms True by (auto simp: sync_owner_def result_simps)
  then have "sound_move db (snd (seen, db'))"
  proof (rule fold_result_invariant)
    show "sound_move db (snd u')" if "sound_move db (snd u)" "sync_next bank_on fp fresh now u x = Inr u'" for u x u'
      using that by (cases u) (auto simp: sync_next_def result_simps dest!: sync_period_sound intro: sound_move_trans)
  qed simp
  then show ?thesis by simp
qed (use assms in \<open>simp add: sync_owner_def\<close>)

lemma sync_batch_sound: "sound_move db (sync_batch bank_on fp fresh now is db)"
proof (induction "is" arbitrary: db)
  case (Cons i "is")
  show ?case
  proof (cases "sync_period bank_on (fp i) (fresh i) now i True db")
    case (Inl e)
    with Cons show ?thesis by simp
  next
    case (Inr db1)
    with sound_move_trans [OF sync_period_sound [OF Inr] Cons] show ?thesis by simp
  qed
qed simp

lemma run_wallet_batch_sound: "run_wallet_batch cap bank_on fp fresh now (c, db) = (c', db') \<Longrightarrow> sound_move db db'"
  by (auto simp: run_wallet_batch_def Let_def sync_batch_sound split: if_splits)

lemma approve_review_sound:
  assumes "approve_review actor i paid reason now db = Inr (r, db')"
  shows "sound_move db db'"
proof -
  let ?f = "\<lambda>y. y\<lparr>rp_review_required := False, rp_historical := paid, rp_reviewed_by := Some actor, rp_reviewed_at := Some now,
      rp_review_reason := Some reason\<rparr>"
  have p: "projections db' = update_where (\<lambda>y. rp_id y = i) ?f (projections db)"
    and same: "wallets db' = wallets db" "holds db' = holds db" "withdrawals db' = withdrawals db" "topups db' = topups db"
      "journal db' = journal db" and rest: "withdrawal_events db' = withdrawal_events db" "verifications db' = verifications db"
    using assms by (auto simp: approve_review_def result_simps Let_def)
  have "applied_to k (update_where (\<lambda>y. rp_id y = i) ?f ps) = applied_to k ps" for k ps
    unfolding applied_to_def by (induction ps) (auto simp: update_where_def)
  then have "debts_ok db' = debts_ok db"
    using same by (simp add: debts_ok_def p map_update_where_same image_update_where_same)
  moreover have "cashouts_ok db \<Longrightarrow> cashouts_ok db'"
    by (rule same_cashouts [OF same(3) rest])
  ultimately show ?thesis
    using ledger_inv_cong [OF same] by (simp add: sound_move_def wallet_sound_def)
qed

end
