(* ===== verification/Gds_Checkout.thy ===== *)
theory Gds_Checkout
  imports Gds_Spending Gds_Revenue
begin

text \<open>
  What a checkout from the wallet does: the exact effect of its two postings on the accounts, the cases of a
  successful payment, and the rows a repeated payment finds.  The fulfilment of the order is an argument, of
  which only the contract below is used.
\<close>

section \<open>The fulfilment of a paid order\<close>

text \<open>What the wallet relies on: fulfilment marks the order fulfilled and stays away from the tables of the wallet,
  from the settlements and from the ledger.\<close>

definition same_wallet :: "shop_db \<Rightarrow> shop_db \<Rightarrow> bool" where
  "same_wallet db db' =
     (wallets db' = wallets db \<and> holds db' = holds db \<and> withdrawals db' = withdrawals db \<and> topups db' = topups db
      \<and> journal db' = journal db \<and> projections db' = projections db \<and> withdrawal_events db' = withdrawal_events db
      \<and> verifications db' = verifications db)"

definition fulfilled_in :: "string \<Rightarrow> shop_db \<Rightarrow> shop_db \<Rightarrow> bool" where
  "fulfilled_in r db db' =
     (same_wallet db db' \<and> settlements db' = settlements db
      \<and> find_order r db' = map_option (\<lambda>x. x\<lparr>or_fulfillment_status := ''fulfilled''\<rparr>) (find_order r db))"

definition fulfilment_ok :: "(string \<Rightarrow> string \<Rightarrow> shop_db \<Rightarrow> shop_db result) \<Rightarrow> bool" where
  "fulfilment_ok fulfill = (\<forall>r buyer db db'. fulfill r buyer db = Inr db' \<longrightarrow> fulfilled_in r db db')"

lemma same_wallet_sound: "same_wallet db db' \<Longrightarrow> sound_move db db'"
  by (rule sound_move_frame) (simp_all add: same_wallet_def)

lemma same_wallet_account: "same_wallet db db' \<Longrightarrow> account_of i db' = account_of i db"
  by (simp add: same_wallet_def account_of_def)

section \<open>The postings of a checkout\<close>

definition capture_posting :: "string \<Rightarrow> string \<Rightarrow> int \<Rightarrow> gds_journal" where
  "capture_posting w r n = order_posting w ''capture'' ''CAPTURE'' r n 0 (- n) n"

lemma reserve_posting_simps [simp]:
  "gj_wallet_id (reserve_posting w r n) = w" "gj_kind (reserve_posting w r n) = ''RESERVE''"
  "gj_amount (reserve_posting w r n) = n" "gj_available (reserve_posting w r n) = - n"
  "gj_order_ref (reserve_posting w r n) = Some r"
  by (simp_all add: reserve_posting_def order_posting_def)

lemma capture_posting_simps [simp]:
  "gj_wallet_id (capture_posting w r n) = w" "gj_kind (capture_posting w r n) = ''CAPTURE''"
  "gj_amount (capture_posting w r n) = n" "gj_available (capture_posting w r n) = 0"
  "gj_order_ref (capture_posting w r n) = Some r" "gj_event_key (capture_posting w r n) = ''gds:capture:'' @ r"
  by (simp_all add: capture_posting_def order_posting_def)

lemma order_posting_kinds:
  "\<not> cashout_kind (gj_kind (reserve_posting w r n))" "\<not> revenue_kind (gj_kind (reserve_posting w r n))"
  "\<not> cashout_kind (gj_kind (release_posting w r n))" "\<not> revenue_kind (gj_kind (release_posting w r n))"
  "\<not> cashout_kind (gj_kind (capture_posting w r n))" "\<not> revenue_kind (gj_kind (capture_posting w r n))"
  by (simp_all add: release_posting_def order_posting_def cashout_kind_def revenue_kind_def)

lemma reserve_posting_account:
  assumes "post_journal now (reserve_posting w r n) db = Inr db'"
  shows "account_of i db' = (if i = w
    then \<lparr>ac_free = ac_free (account_of i db) - n, ac_slots = (ac_slots (account_of i db))(Order_slot r \<mapsto> Held n)\<rparr>
    else account_of i db)"
proof -
  let ?j = "reserve_posting w r n"
  obtain ts hs w0 db1 where d': "db' = db\<lparr>journal := journal db @ [?j], topups := ts, holds := hs, wallets := posted ?j (wallets db)\<rparr>"
    and w0: "find (\<lambda>v. gw_id v = w) (wallets db) = Some w0"
    and s: "apply_source now ?j (db\<lparr>journal := journal db @ [?j]\<rparr>) = Inr db1" "holds db1 = hs"
    using post_journal_frame [OF assms] by (auto simp: find_wallet_def)
  have h: "find (\<lambda>h. gh_order_ref h = r) (holds db) = None"
      "hs = holds db @ [\<lparr>gh_wallet_id = w, gh_order_ref = r, gh_amount = n, gh_status = ''RESERVED''\<rparr>]"
    using s by (auto simp: apply_source_def open_hold_def result_simps hold_of_order_def)
  show ?thesis
    using free_of_posted [of ?j "wallets db" w0 i] w0 by (simp add: account_of_def d' h(2) open_hold_slots [OF h(1)])
qed

lemma capture_posting_account:
  assumes "post_journal now (capture_posting w r n) db = Inr db'" and "keys_ok db"
  shows "account_of i db'
    = (if i = w then (account_of i db)\<lparr>ac_slots := (ac_slots (account_of i db))(Order_slot r \<mapsto> Spent n)\<rparr> else account_of i db)"
    and "holds db' = update_where (matching_hold (capture_posting w r n)) (\<lambda>h. h\<lparr>gh_status := ''CAPTURED''\<rparr>) (holds db)"
proof -
  let ?j = "capture_posting w r n"
  obtain ts hs w0 db1 where d': "db' = db\<lparr>journal := journal db @ [?j], topups := ts, holds := hs, wallets := posted ?j (wallets db)\<rparr>"
    and w0: "find (\<lambda>v. gw_id v = w) (wallets db) = Some w0"
    and s: "apply_source now ?j (db\<lparr>journal := journal db @ [?j]\<rparr>) = Inr db1" "holds db1 = hs"
    using post_journal_frame [OF assms(1)] by (auto simp: find_wallet_def)
  have d: "distinct (map gh_order_ref (holds (db\<lparr>journal := journal db @ [?j]\<rparr>)))" using assms(2) by (simp add: keys_ok_def)
  have "slots_of i hs (withdrawals db) = (if i = w
      then (slots_of i (holds db) (withdrawals db))(Order_slot r \<mapsto> Spent n) else slots_of i (holds db) (withdrawals db))"
    using close_source(1) [OF s(1) _ d, of i "withdrawals db"] s(2) by simp
  then show "account_of i db'
    = (if i = w then (account_of i db)\<lparr>ac_slots := (ac_slots (account_of i db))(Order_slot r \<mapsto> Spent n)\<rparr> else account_of i db)"
    using free_of_posted [of ?j "wallets db" w0 i] w0 by (simp add: account_of_def d')
  show "holds db' = update_where (matching_hold ?j) (\<lambda>h. h\<lparr>gh_status := ''CAPTURED''\<rparr>) (holds db)"
    using s by (auto simp: d' apply_source_def close_hold_def result_simps)
qed

section \<open>The cases of a payment\<close>

definition settlement_plan :: "string \<Rightarrow> int \<Rightarrow> capture_settlement" where
  "settlement_plan r n =
     \<lparr>ct_kind = ''wallet_capture'', ct_disposition = ''internal'', ct_provider = ''gds'', ct_reference = ''gds:order:'' @ r,
      ct_amount_minor = n, ct_currency = ''VND''\<rparr>"

lemma capture_plan:
  assumes "prepare_gds_commerce_capture (capture_input buyer x w h a b c) = Inr p"
  shows "journal_of_plan (plan_journal p) = capture_posting (gw_id w) (or_id x) (or_payable_amount x)"
    and "plan_settlement p = settlement_plan (or_id x) (or_payable_amount x)"
    and "gh_wallet_id h = gw_id w \<and> gh_order_ref h = or_id x \<and> gh_amount h = or_payable_amount x \<and> gh_status h = ''RESERVED''"
    and "gw_buyer_id w = buyer"
  using assms
  by (auto simp: prepare_gds_commerce_capture_def capture_input_def result_simps Let_def journal_of_plan_def capture_posting_def
      order_posting_def settlement_plan_def)

lemma find_order_id: "find_order r db = Some x \<Longrightarrow> or_id x = r"
  unfolding find_order_def by (rule find_key)

lemma pay_txn_cases:
  assumes "pay_txn fulfill fresh buyer r now db = Inr (receipt, db')" and "find_order r db = Some x"
  obtains (replay) "or_status x = ''confirmed''" "replay_verified buyer r x db" "receipt = checkout_receipt_of x" "db' = db"
  | (paid) w db1 current h db2 rows where "or_buyer_id x = buyer" "or_status x = ''pending_payment''"
      "wallet_of_buyer buyer db = Some w" "ensure_hold w x now db = Inr db1" "find_wallet (gw_id w) db1 = Some current"
      "hold_of_order r db1 = Some h" "gh_wallet_id h = gw_id current" "gh_amount h = or_payable_amount x"
      "gh_status h = ''RESERVED''" "gw_buyer_id current = buyer"
      "post_journal now (capture_posting (gw_id w) r (or_payable_amount x)) db1 = Inr db2"
      "fulfill r buyer (confirm_captured buyer r (settlement_plan r (or_payable_amount x)) fresh now db2\<lparr>audits := rows\<rparr>) = Inr db'"
      "receipt = checkout_receipt_of x"
proof (cases "or_status x = ''confirmed''")
  case True
  with assms show ?thesis by (intro replay) (auto simp: pay_txn_def Let_def result_simps)
next
  case False
  let ?p = "count_where (\<lambda>a. at_order_id a = r) (attempts db)"
  let ?s = "count_where (\<lambda>s. st_order_id s = r) (settlements db)"
  let ?c = "count_where (\<lambda>j. gj_order_ref j = Some r \<and> gj_kind j = ''CAPTURE'') (journal db)"
  from assms False obtain w db1 current h plan db2 db3 where o: "or_buyer_id x = buyer" "or_status x = ''pending_payment''"
    and w: "wallet_of_buyer buyer db = Some w" "ensure_hold w x now db = Inr db1" "find_wallet (gw_id w) db1 = Some current"
    and h: "hold_of_order r db1 = Some h"
    and p: "prepare_gds_commerce_capture (capture_input buyer x current h ?p ?s ?c) = Inr plan"
    and c: "post_journal now (journal_of_plan (plan_journal plan)) db1 = Inr db2"
    and a: "\<exists>i. add_audit i (confirm_captured buyer r (plan_settlement plan) fresh now db2) = Inr db3"
    and f: "fulfill r buyer db3 = Inr db'" "receipt = checkout_receipt_of x"
    unfolding pay_txn_def Let_def assms(2) some_or_simps if_not_P [OF False] some_or_Inr and_then_Inr_iff throw_if_Inr or_throw_Inr
      sum.inject prod.inject
    by blast
  have i: "or_id x = r" by (rule find_order_id [OF assms(2)])
  have g: "gw_id current = gw_id w" using w(3) unfolding find_wallet_def by (rule find_key)
  note plan = capture_plan [OF p, unfolded i g]
  from a obtain rows where "db3 = confirm_captured buyer r (settlement_plan r (or_payable_amount x)) fresh now db2\<lparr>audits := rows\<rparr>"
    by (auto simp: result_simps plan)
  moreover from plan(3) g have "gh_wallet_id h = gw_id current" "gh_amount h = or_payable_amount x" "gh_status h = ''RESERVED''"
    by simp_all
  moreover have "post_journal now (capture_posting (gw_id w) r (or_payable_amount x)) db1 = Inr db2" using c plan(1) g by simp
  ultimately show ?thesis using plan(4) o w h f by (intro paid) simp_all
qed

lemma ensure_hold_sound: "ensure_hold w x now db = Inr db' \<Longrightarrow> sound_move db db'"
  by (auto simp: ensure_hold_def result_simps split: option.splits dest: post_journal_sound [OF _ order_posting_kinds(1,2)])

lemma ensure_hold_account:
  assumes "ensure_hold w x now db = Inr db'"
  shows "account_of i db' = (if i = gw_id w \<and> hold_of_order (or_id x) db = None
    then \<lparr>ac_free = ac_free (account_of i db) - or_payable_amount x,
          ac_slots = (ac_slots (account_of i db))(Order_slot (or_id x) \<mapsto> Held (or_payable_amount x))\<rparr>
    else account_of i db)"
  using assms
  by (auto simp: ensure_hold_def result_simps dest: reserve_posting_account [where i = i] split: option.splits)

lemma post_journal_rest:
  assumes "post_journal now j db = Inr db'"
  shows "orders db' = orders db" "settlements db' = settlements db" "attempts db' = attempts db"
    "journal db' = journal db @ [j]" "wallets db' = posted j (wallets db)" "gj_event_key j \<notin> gj_event_key ` set (journal db)"
    "projections db' = projections db" "entries db' = entries db"
proof -
  obtain ts hs where d': "db' = db\<lparr>journal := journal db @ [j], topups := ts, holds := hs, wallets := posted j (wallets db)\<rparr>"
    and t: "\<not> posting_taken j db"
    using post_journal_frame [OF assms] by blast
  show "orders db' = orders db" "settlements db' = settlements db" "attempts db' = attempts db"
    "journal db' = journal db @ [j]" "wallets db' = posted j (wallets db)"
    "projections db' = projections db" "entries db' = entries db"
    by (simp_all add: d')
  show "gj_event_key j \<notin> gj_event_key ` set (journal db)" using t unfolding posting_taken_def by force
qed

lemma ensure_hold_rest:
  assumes "ensure_hold w x now db = Inr db'"
  shows "orders db' = orders db" "settlements db' = settlements db" "attempts db' = attempts db"
  using assms post_journal_rest(1-3) by (auto simp: ensure_hold_def result_simps split: option.splits)

text \<open>What confirming a payment writes.\<close>

definition paid_order :: "(string \<Rightarrow> string) \<Rightarrow> int \<Rightarrow> commerce_order \<Rightarrow> commerce_order" where
  "paid_order fresh now x =
     x\<lparr>or_status := ''confirmed'', or_confirmed_settlement_id := Some (fresh ''settlement''), or_confirmed_at := Some now,
       or_fulfillment_status := ''fulfilled''\<rparr>"

definition paid_settlement :: "(string \<Rightarrow> string) \<Rightarrow> int \<Rightarrow> commerce_order \<Rightarrow> settlement" where
  "paid_settlement fresh now x =
     \<lparr>st_id = fresh ''settlement'', st_order_id = or_id x, st_attempt_id = None, st_event_id = None, st_kind = ''wallet_capture'',
      st_disposition = ''internal'', st_provider = Some ''gds'', st_reference = Some (''gds:order:'' @ or_id x),
      st_amount = or_payable_amount x, st_currency = ''VND'', st_settled_at = now\<rparr>"

lemma confirm_captured_rows:
  assumes "find_order r db = Some x"
  shows "find_order r (confirm_captured buyer r (settlement_plan r (or_payable_amount x)) fresh now db\<lparr>audits := rows\<rparr>)
      = Some (x\<lparr>or_status := ''confirmed'', or_confirmed_settlement_id := Some (fresh ''settlement''), or_confirmed_at := Some now\<rparr>)"
    and "settlements (confirm_captured buyer r (settlement_plan r (or_payable_amount x)) fresh now db\<lparr>audits := rows\<rparr>)
      = settlements db @ [paid_settlement fresh now x]"
    and "same_wallet db (confirm_captured buyer r (settlement_plan r (or_payable_amount x)) fresh now db\<lparr>audits := rows\<rparr>)"
  using assms find_order_id [OF assms]
  by (auto simp: confirm_captured_def add_lifecycle_def find_order_def find_update_where [where k = or_id] paid_settlement_def
      settlement_plan_def same_wallet_def)

lemma pay_txn_paid:
  assumes pay: "pay_txn fulfill fresh buyer r now db = Inr (receipt, db')" and x: "find_order r db = Some x"
    and st: "or_status x = ''pending_payment''" and ok: "fulfilment_ok fulfill"
  obtains w db1 current h db2 where "or_buyer_id x = buyer" "wallet_of_buyer buyer db = Some w" "ensure_hold w x now db = Inr db1"
      "find_wallet (gw_id w) db1 = Some current" "hold_of_order r db1 = Some h" "gh_wallet_id h = gw_id w"
      "gh_amount h = or_payable_amount x" "gh_status h = ''RESERVED''" "gw_buyer_id current = buyer"
      "post_journal now (capture_posting (gw_id w) r (or_payable_amount x)) db1 = Inr db2"
      "same_wallet db2 db'" "find_order r db' = Some (paid_order fresh now x)"
      "settlements db' = settlements db @ [paid_settlement fresh now x]" "receipt = checkout_receipt_of x"
  using pay x
proof (cases rule: pay_txn_cases)
  case replay
  with st show ?thesis by simp
next
  case (paid w db1 current h db2 rows)
  let ?p = "confirm_captured buyer r (settlement_plan r (or_payable_amount x)) fresh now db2\<lparr>audits := rows\<rparr>"
  have "orders db2 = orders db" "settlements db2 = settlements db"
    using ensure_hold_rest [OF paid(4)] post_journal_rest [OF paid(11)] by simp_all
  then have x2: "find_order r db2 = Some x" and s2: "settlements db2 = settlements db" using x by (simp_all add: find_order_def)
  have f: "fulfilled_in r ?p db'" using ok paid(12) unfolding fulfilment_ok_def by blast
  have g: "gw_id current = gw_id w" using paid(5) unfolding find_wallet_def by (rule find_key)
  note rows = confirm_captured_rows [OF x2, where buyer = buyer and fresh = fresh and now = now and rows = rows]
  have "same_wallet db2 db'" using f rows(3) unfolding fulfilled_in_def same_wallet_def by metis
  moreover have "find_order r db' = Some (paid_order fresh now x)"
    using f unfolding fulfilled_in_def rows(1) by (simp add: paid_order_def)
  moreover have "settlements db' = settlements db @ [paid_settlement fresh now x]"
    using f unfolding fulfilled_in_def rows(2) s2 by blast
  ultimately show ?thesis using paid g by (intro that) simp_all
qed

lemma pay_txn_sound:
  assumes "pay_txn fulfill fresh buyer r now db = Inr (receipt, db')" and "fulfilment_ok fulfill"
  shows "sound_move db db'"
proof -
  obtain x where x: "find_order r db = Some x" using assms(1) by (auto simp: pay_txn_def result_simps Let_def)
  from assms(1) x show ?thesis
  proof (cases rule: pay_txn_cases)
    case (paid w db1 current h db2 rows)
    from pay_txn_paid [OF assms(1) x paid(2) assms(2)] obtain w db1 db2 where "ensure_hold w x now db = Inr db1"
      "post_journal now (capture_posting (gw_id w) r (or_payable_amount x)) db1 = Inr db2" "same_wallet db2 db'" by metis
    then show ?thesis
      using ensure_hold_sound post_journal_sound [OF _ order_posting_kinds(5,6)] same_wallet_sound by (metis sound_move_trans)
  qed simp
qed

text \<open>The rows of a payment verify when it is repeated.\<close>

lemma captured_hold:
  assumes "hold_of_order r db = Some h" and "gh_wallet_id h = w" and "gh_amount h = n" and "gh_status h = ''RESERVED''"
    and "holds db' = update_where (matching_hold (capture_posting w r n)) (\<lambda>h. h\<lparr>gh_status := ''CAPTURED''\<rparr>) (holds db)"
  shows "hold_of_order r db' = Some (h\<lparr>gh_status := ''CAPTURED''\<rparr>)"
proof -
  have "gh_order_ref h = r" using assms(1) unfolding hold_of_order_def by (rule find_key)
  with assms show ?thesis
    by (simp add: hold_of_order_def find_updated [where k = gh_order_ref] matching_hold_def)
qed

lemma sound_move_keys: "sound_move db db' \<Longrightarrow> wallet_sound db \<Longrightarrow> keys_ok db'"
  unfolding sound_move_def wallet_sound_def by (blast intro: ledger_inv_parts)

lemma find_appended: "k x = i \<Longrightarrow> k x \<notin> k ` set xs \<Longrightarrow> find (\<lambda>y. k y = i) (xs @ [x]) = Some x"
  by (induction xs) auto

lemma posted_wallet:
  assumes "find_wallet i db = Some w" and "wallets db' = posted j (wallets db)"
  shows "\<exists>v. find_wallet i db' = Some v \<and> gw_buyer_id v = gw_buyer_id w"
  using assms by (simp add: find_wallet_def posted_def find_updated [where k = gw_id])

lemma replay_of_payment:
  assumes pay: "pay_txn fulfill fresh buyer r now db = Inr (receipt, db')" and x: "find_order r db = Some x"
    and st: "or_status x = ''pending_payment''" and ok: "fulfilment_ok fulfill" and sound: "wallet_sound db"
    and new: "find_settlement (fresh ''settlement'') db = None"
  shows "replay_verified buyer r (paid_order fresh now x) db'"
proof -
  obtain w db1 current h db2 where p: "ensure_hold w x now db = Inr db1"
      "find_wallet (gw_id w) db1 = Some current" "hold_of_order r db1 = Some h" "gh_wallet_id h = gw_id w"
      "gh_amount h = or_payable_amount x" "gh_status h = ''RESERVED''" "gw_buyer_id current = buyer"
      "post_journal now (capture_posting (gw_id w) r (or_payable_amount x)) db1 = Inr db2"
      "same_wallet db2 db'" "settlements db' = settlements db @ [paid_settlement fresh now x]"
    by (rule pay_txn_paid [OF pay x st ok])
  have tables: "holds db' = holds db2" "journal db' = journal db2" "wallets db' = wallets db2"
    using p(9) by (simp_all add: same_wallet_def)
  have "keys_ok db1" by (rule sound_move_keys [OF ensure_hold_sound [OF p(1)] sound])
  from captured_hold [OF p(3-6) capture_posting_account(2) [OF p(8) this]]
  have hold: "hold_of_order r db' = Some (h\<lparr>gh_status := ''CAPTURED''\<rparr>)" by (simp add: hold_of_order_def tables)
  have "journal_of_key (''gds:capture:'' @ r) db' = Some (capture_posting (gw_id w) r (or_payable_amount x))"
    unfolding journal_of_key_def tables post_journal_rest(4) [OF p(8)]
    by (rule find_appended [OF _ post_journal_rest(6) [OF p(8)], unfolded capture_posting_simps]) simp
  moreover have "find_settlement (fresh ''settlement'') db' = Some (paid_settlement fresh now x)"
    using new by (simp add: find_settlement_def p(10) find_append paid_settlement_def)
  moreover obtain v where "find_wallet (gw_id w) db' = Some v" "gw_buyer_id v = buyer"
    using posted_wallet [OF p(2) post_journal_rest(5) [OF p(8)]] p(7) by (auto simp: find_wallet_def tables)
  ultimately show ?thesis
    using hold p(4,5) find_order_id [OF x]
    by (simp add: replay_verified_def paid_order_def paid_settlement_def)
qed

end
