(* ===== verification/Gds_Recipient.thy ===== *)
theory Gds_Recipient
  imports Gds_Ledger Viet_Qr
begin

text \<open>
  Checking who a withdrawal is paid to: \<^verbatim>\<open>gds-account-verification\<close>, the bank catalogue
  it looks banks up in and the settings of the lookup provider.  A proof is a row that names the actor, the
  account and the holder and expires after fifteen minutes; the database checks every row it takes.
  The lookup itself, a call to the provider, and the picture of a QR code are parameters.
\<close>

section \<open>Banks\<close>

record bank =
  bk_code :: string
  bk_bin :: string
  bk_short_name :: string
  bk_name :: string
  bk_lookup_supported :: bool

definition canonical_code :: "string \<Rightarrow> string" where
  "canonical_code v = filter (\<lambda>c. c \<noteq> CHR '' '' \<and> c \<noteq> CHR ''-'') (js_upper v)"

definition bank_get :: "bank list \<Rightarrow> string \<Rightarrow> bank result" where
  "bank_get banks q =
     some_or (NotFoundException ''Khong tim thay ngan hang.'')
       (find (\<lambda>b. bk_code b = canonical_code q \<or> canonical_code (bk_short_name b) = canonical_code q \<or> bk_bin b = q) banks) Inr"

record lookup_settings =
  lk_enabled :: bool
  lk_client_id :: "string option"
  lk_api_key :: "string option"
  lk_supported_bins :: "string list"

definition lookup_available :: "lookup_settings \<Rightarrow> bool" where
  "lookup_available s =
     (lk_enabled s \<and> opt_truthy (lk_client_id s) \<and> opt_truthy (lk_api_key s) \<and> lk_supported_bins s \<noteq> [])"

definition bin_available :: "lookup_settings \<Rightarrow> string \<Rightarrow> bool" where
  "bin_available s b = (lookup_available s \<and> b \<in> set (lk_supported_bins s))"

section \<open>Names and proofs\<close>

definition same_bank_account_name :: "string \<Rightarrow> string \<Rightarrow> bool" where
  "same_bank_account_name l r =
     (normalize_bank_account_name l \<noteq> [] \<and> normalize_bank_account_name l = normalize_bank_account_name r)"

definition verification_matches :: "account_verification \<Rightarrow> string \<Rightarrow> string \<Rightarrow> string \<Rightarrow> int \<Rightarrow> bool" where
  "verification_matches p owner code account now =
     (vf_purpose p = ''CREATE'' \<and> vf_withdrawal_id p = None \<and> vf_owner_id p = owner \<and> vf_bank_code p = code
      \<and> vf_account_number p = account \<and> now < vf_expires_at p)"

definition qr_account :: "string \<Rightarrow> bool" where
  "qr_account n = (6 \<le> length n \<and> length n \<le> 19 \<and> list_all digit_char n)"

definition require_qr_account :: "string \<Rightarrow> unit result" where
  "require_qr_account n = throw_if (\<not> qr_account n) (BadRequestException ''GDS_ACCOUNT_QR_UNSUPPORTED'') (Inr ())"

text \<open>The check constraints of \<^verbatim>\<open>gds_account_verifications\<close> and its source guard.\<close>

definition verification_row_ok :: "account_verification \<Rightarrow> bool" where
  "verification_row_ok p =
     ((vf_provider p = ''vietqr'' \<or> vf_provider p = ''admin_manual'' \<and> vf_purpose p = ''TRANSFER'')
      \<and> 2 \<le> length (vf_bank_code p) \<and> length (vf_bank_code p) \<le> 32 \<and> list_all bank_code_char (vf_bank_code p)
      \<and> length (vf_bank_bin p) = 6 \<and> list_all digit_char (vf_bank_bin p)
      \<and> 6 \<le> length (vf_account_number p) \<and> length (vf_account_number p) \<le> 34 \<and> list_all digit_char (vf_account_number p)
      \<and> 2 \<le> length (js_trim (vf_account_holder p)) \<and> length (js_trim (vf_account_holder p)) \<le> 160
      \<and> vf_normalized_holder p \<noteq> []
      \<and> vf_verified_at p < vf_expires_at p \<and> vf_expires_at p \<le> vf_verified_at p + 900000
      \<and> (vf_purpose p = ''CREATE'' \<and> vf_withdrawal_id p = None \<and> vf_owner_id p = vf_actor_id p
         \<or> vf_purpose p = ''TRANSFER'' \<and> vf_withdrawal_id p \<noteq> None \<and> vf_actor_id p \<noteq> vf_owner_id p))"

definition transfer_target_ok :: "account_verification \<Rightarrow> shop_db \<Rightarrow> bool" where
  "transfer_target_ok p db =
     (\<exists>r\<in>set (withdrawals db).
        Some (wd_id r) = vf_withdrawal_id p \<and> wd_owner_id r = vf_owner_id p \<and> wd_bank_code r = vf_bank_code p
        \<and> wd_account_number r = vf_account_number p
        \<and> normalize_bank_account_name (wd_account_holder r) = vf_normalized_holder p \<and> withdrawal_open r
        \<and> (wd_status r \<noteq> ''PROCESSING'' \<or> wd_admin_id r = Some (vf_actor_id p))
        \<and> (vf_provider p \<noteq> ''admin_manual''
           \<or> wd_verification_id r = None \<and> \<not> ws_verification_required (wd_settings db)))"

definition insert_verification :: "int \<Rightarrow> account_verification \<Rightarrow> shop_db \<Rightarrow> shop_db result" where
  "insert_verification now p db =
     throw_if (vf_verified_at p > now + 1000 \<or> vf_expires_at p \<le> now
         \<or> vf_normalized_holder p \<noteq> normalize_bank_account_name (vf_account_holder p))
       (DatabaseError ''GDS verification time or name invalid'') (
     throw_if (vf_purpose p = ''TRANSFER'' \<and> \<not> transfer_target_ok p db)
       (DatabaseError ''GDS verification request mismatch'') (
     throw_if (\<not> verification_row_ok p) (DatabaseError ''gds_account_verifications_check'') (
     throw_if (list_ex (\<lambda>y. vf_id y = vf_id p) (verifications db)) (PrismaError ''P2002'') (
     Inr (db\<lparr>verifications := verifications db @ [p]\<rparr>)))))"

definition row_proof ::
  "string \<Rightarrow> string \<Rightarrow> gds_withdrawal \<Rightarrow> bank \<Rightarrow> string \<Rightarrow> string \<Rightarrow> string option \<Rightarrow> int \<Rightarrow> account_verification" where
  "row_proof i actor r b holder provider reference now =
     \<lparr>vf_id = i, vf_owner_id = wd_owner_id r, vf_actor_id = actor, vf_bank_code = wd_bank_code r, vf_bank_bin = bk_bin b,
      vf_bank_name = bk_name b, vf_bank_short_name = bk_short_name b, vf_account_number = wd_account_number r,
      vf_account_holder = holder, vf_normalized_holder = normalize_bank_account_name holder, vf_provider = provider,
      vf_reference = reference, vf_purpose = ''TRANSFER'', vf_withdrawal_id = Some (wd_id r), vf_verified_at = now,
      vf_expires_at = now + 15 * 60000\<rparr>"

section \<open>The service\<close>

record lookup_result =
  lr_holder :: string
  lr_provider :: string
  lr_reference :: "string option"

record recipient_env =
  rn_banks :: "bank list"
  rn_lookup_settings :: lookup_settings
  rn_lookup :: "string \<Rightarrow> string \<Rightarrow> lookup_result result"
  rn_fresh :: "string \<Rightarrow> string"
  rn_now :: int

definition prepare_manual :: "recipient_env \<Rightarrow> string \<Rightarrow> string \<Rightarrow> shop_db \<Rightarrow> bank result" where
  "prepare_manual env actor i db =
     some_or (NotFoundException ''GDS_WITHDRAWAL_NOT_FOUND'') (find_withdrawal i db) (\<lambda>r.
     throw_if (wd_owner_id r = actor) (ForbiddenException ''GDS_WITHDRAWAL_SELF_PROCESSING_FORBIDDEN'') (
     and_then (require_qr_account (wd_account_number r)) (\<lambda>_.
     bank_get (rn_banks env) (case wd_bank_bin r of None \<Rightarrow> wd_bank_code r | Some b \<Rightarrow> b))))"

definition record_manual ::
  "recipient_env \<Rightarrow> string \<Rightarrow> gds_withdrawal \<Rightarrow> bank \<Rightarrow> string \<Rightarrow> (shop_db, account_verification) txn" where
  "record_manual env actor r b observed db =
     throw_if (\<not> same_bank_account_name (wd_account_holder r) observed) (ConflictException ''GDS_ACCOUNT_HOLDER_MISMATCH'') (
     let p = (row_proof (rn_fresh env ''verification'') actor r b (js_trim observed) ''admin_manual'' None (rn_now env))
               \<lparr>vf_normalized_holder := normalize_bank_account_name observed\<rparr>
     in and_then (insert_verification (rn_now env) p db) (\<lambda>db'. Inr (p, db')))"

definition latest_verified :: "account_verification \<Rightarrow> account_verification \<Rightarrow> int" where
  "latest_verified = newest_first vf_verified_at vf_id"

definition usable_proof :: "int \<Rightarrow> string \<Rightarrow> gds_withdrawal \<Rightarrow> bool \<Rightarrow> account_verification \<Rightarrow> bool" where
  "usable_proof now actor r mandatory p =
     (vf_withdrawal_id p = Some (wd_id r) \<and> vf_actor_id p = actor \<and> vf_owner_id p = wd_owner_id r
      \<and> vf_bank_code p = wd_bank_code r \<and> vf_account_number p = wd_account_number r \<and> vf_purpose p = ''TRANSFER''
      \<and> now < vf_expires_at p \<and> (mandatory \<or> opt_truthy (wd_verification_id r) \<longrightarrow> vf_provider p = ''vietqr''))"

definition require_transfer_proof ::
  "int \<Rightarrow> string \<Rightarrow> gds_withdrawal \<Rightarrow> bool \<Rightarrow> shop_db \<Rightarrow> account_verification result" where
  "require_transfer_proof now actor r mandatory db =
     (let missing = ConflictException ''GDS_ACCOUNT_VERIFICATION_REQUIRED'' in
      some_or missing (find (usable_proof now actor r mandatory) (js_sort latest_verified (verifications db))) (\<lambda>p.
      throw_if (\<not> same_bank_account_name (vf_account_holder p) (wd_account_holder r)) missing (Inr p)))"

record recipient_check =
  rk_method :: string
  rk_actor_id :: string
  rk_verified_at :: int
  rk_expires_at :: int

definition transfer_check :: "string \<Rightarrow> shop_db \<Rightarrow> recipient_check option" where
  "transfer_check i db =
     map_option (\<lambda>p. \<lparr>rk_method = (if vf_provider p = ''admin_manual'' then ''MANUAL'' else ''PROVIDER''),
         rk_actor_id = vf_actor_id p, rk_verified_at = vf_verified_at p, rk_expires_at = vf_expires_at p\<rparr>)
       (find (\<lambda>p. vf_withdrawal_id p = Some i \<and> vf_purpose p = ''TRANSFER'') (js_sort latest_verified (verifications db)))"

record public_verification =
  pv_id :: string
  pv_bank_code :: string
  pv_account_number :: string
  pv_account_holder :: string
  pv_verified_at :: int
  pv_expires_at :: int

definition public_of :: "account_verification \<Rightarrow> public_verification" where
  "public_of p =
     \<lparr>pv_id = vf_id p, pv_bank_code = vf_bank_code p, pv_account_number = vf_account_number p,
      pv_account_holder = vf_account_holder p, pv_verified_at = vf_verified_at p, pv_expires_at = vf_expires_at p\<rparr>"

definition lookup_bank :: "recipient_env \<Rightarrow> bank \<Rightarrow> string \<Rightarrow> lookup_result result" where
  "lookup_bank env b account =
     throw_if (\<not> bin_available (rn_lookup_settings env) (bk_bin b) \<or> \<not> bk_lookup_supported b)
       (ServiceUnavailableException ''GDS_ACCOUNT_VERIFICATION_UNAVAILABLE'') (rn_lookup env (bk_bin b) account)"

definition verify_account :: "recipient_env \<Rightarrow> string \<Rightarrow> string \<Rightarrow> string \<Rightarrow> (shop_db, public_verification) txn" where
  "verify_account env owner code account db =
     and_then (require_qr_account account) (\<lambda>_.
     and_then (bank_get (rn_banks env) code) (\<lambda>b.
     and_then (lookup_bank env b account) (\<lambda>l.
     let p = \<lparr>vf_id = rn_fresh env ''verification'', vf_owner_id = owner, vf_actor_id = owner, vf_bank_code = bk_code b,
               vf_bank_bin = bk_bin b, vf_bank_name = bk_name b, vf_bank_short_name = bk_short_name b,
               vf_account_number = account, vf_account_holder = lr_holder l,
               vf_normalized_holder = normalize_bank_account_name (lr_holder l), vf_provider = lr_provider l,
               vf_reference = lr_reference l, vf_purpose = ''CREATE'', vf_withdrawal_id = None,
               vf_verified_at = rn_now env, vf_expires_at = rn_now env + 15 * 60 * 1000\<rparr>
     in and_then (insert_verification (rn_now env) p db) (\<lambda>db'. Inr (public_of p, db')))))"

definition resolve_verification ::
  "int \<Rightarrow> string \<Rightarrow> string \<Rightarrow> string \<Rightarrow> string \<Rightarrow> shop_db \<Rightarrow> account_verification result" where
  "resolve_verification now owner code account i db =
     (let invalid = ConflictException ''GDS_ACCOUNT_VERIFICATION_INVALID_OR_EXPIRED'' in
      some_or invalid (find_verification i db) (\<lambda>p.
      throw_if (\<not> verification_matches p owner code account now) invalid (Inr p)))"

definition claimable :: "string \<Rightarrow> gds_withdrawal \<Rightarrow> unit result" where
  "claimable actor r =
     throw_if (wd_owner_id r = actor) (ForbiddenException ''GDS_WITHDRAWAL_SELF_PROCESSING_FORBIDDEN'') (
     throw_if (\<not> withdrawal_open r) (ConflictException ''GDS_WITHDRAWAL_INVALID_TRANSITION'') (
     throw_if (wd_status r = ''PROCESSING'' \<and> wd_admin_id r \<noteq> Some actor)
       (ForbiddenException ''GDS_WITHDRAWAL_CLAIMED_BY_ANOTHER_ADMIN'') (Inr ())))"

definition verify_transfer :: "recipient_env \<Rightarrow> string \<Rightarrow> string \<Rightarrow> (shop_db, public_verification) txn" where
  "verify_transfer env actor i db =
     some_or (NotFoundException ''GDS_WITHDRAWAL_NOT_FOUND'') (find_withdrawal i db) (\<lambda>r.
     and_then (claimable actor r) (\<lambda>_.
     and_then (require_qr_account (wd_account_number r)) (\<lambda>_.
     and_then (bank_get (rn_banks env) (case wd_bank_bin r of None \<Rightarrow> wd_bank_code r | Some b \<Rightarrow> b)) (\<lambda>b.
     and_then (lookup_bank env b (wd_account_number r)) (\<lambda>l.
     throw_if (\<not> same_bank_account_name (wd_account_holder r) (lr_holder l)) (ConflictException ''GDS_ACCOUNT_HOLDER_MISMATCH'') (
     let p = row_proof (rn_fresh env ''verification'') actor r b (lr_holder l) (lr_provider l) (lr_reference l) (rn_now env)
     in and_then (insert_verification (rn_now env) p db) (\<lambda>db'. Inr (public_of p, db'))))))))"

text \<open>The QR code of a transfer.  The request and the policy are read again after the picture is made, so the state
  the operation starts from and the one it ends in are two arguments.\<close>

record transfer_qr =
  tq_withdrawal_id :: string
  tq_bank_bin :: string
  tq_account_number :: string
  tq_account_holder :: string
  tq_amount :: string
  tq_content :: string
  tq_payload :: string
  tq_method :: string
  tq_expires_at :: int

definition transfer_content :: "string \<Rightarrow> string" where
  "transfer_content i = ''GDSW'' @ js_upper (take 21 (filter (\<lambda>c. c \<noteq> CHR ''-'') i))"

definition transfer_qr_code :: "int \<Rightarrow> int \<Rightarrow> string \<Rightarrow> string \<Rightarrow> shop_db \<Rightarrow> shop_db \<Rightarrow> transfer_qr result" where
  "transfer_qr_code now later actor i db db2 =
     some_or (NotFoundException ''GDS_WITHDRAWAL_NOT_FOUND'') (find_withdrawal i db) (\<lambda>r.
     throw_if (wd_status r \<noteq> ''PROCESSING'' \<or> wd_admin_id r \<noteq> Some actor \<or> wd_owner_id r = actor)
       (ForbiddenException ''GDS_WITHDRAWAL_QR_NOT_ALLOWED'') (
     and_then (require_transfer_proof now actor r (ws_verification_required (wd_settings db)) db) (\<lambda>p.
     throw_if (\<not> qr_account (wd_account_number r)) (ConflictException ''GDS_ACCOUNT_QR_UNSUPPORTED'') (
     and_then (create_viet_qr_payload (vf_bank_bin p) (wd_account_number r) (wd_amount r) (transfer_content i)) (\<lambda>payload.
     and_then (or_throw (find_withdrawal i db2)) (\<lambda>fresh.
     throw_if (wd_status fresh \<noteq> ''PROCESSING'' \<or> wd_admin_id fresh \<noteq> Some actor \<or> vf_expires_at p \<le> later)
       (ConflictException ''GDS_WITHDRAWAL_QR_EXPIRED'') (
     throw_if (vf_provider p = ''admin_manual''
         \<and> (ws_verification_required (wd_settings db2) \<or> opt_truthy (wd_verification_id fresh)))
       (ConflictException ''GDS_ACCOUNT_VERIFICATION_REQUIRED'') (
     Inr \<lparr>tq_withdrawal_id = i, tq_bank_bin = vf_bank_bin p, tq_account_number = wd_account_number r,
          tq_account_holder = vf_account_holder p, tq_amount = show_int (wd_amount r), tq_content = transfer_content i,
          tq_payload = payload,
          tq_method = (if vf_provider p = ''admin_manual'' then ''MANUAL'' else ''PROVIDER''),
          tq_expires_at = vf_expires_at p\<rparr>))))))))"

end
