(* ===== verification/Gds_Cashout.thy ===== *)
theory Gds_Cashout
  imports Gds_Revenue Gds_Recipient
begin

text \<open>
  Withdrawals: \<^verbatim>\<open>gds-withdrawal.service.ts\<close> and \<^verbatim>\<open>gds-withdrawal.domain.ts\<close>
  over the triggers of \<^verbatim>\<open>Gds_Ledger\<close>.  A request reserves its amount when it is made, an
  administrator other than the owner claims it with a fresh proof of the recipient, and only the same
  administrator can close it.  The Vietnamese default reasons are written without their diacritics.
\<close>

section \<open>The rules\<close>

datatype withdrawal_action = Approve | Reject | Process | Pay | Fail | Cancel

text \<open>\<^verbatim>\<open>/^[1-9]\d{0,15}$/\<close>\<close>

definition amount_pattern :: "string \<Rightarrow> bool" where
  "amount_pattern v = (v \<noteq> [] \<and> length v \<le> 16 \<and> list_all digit_char v \<and> hd v \<noteq> CHR ''0'')"

definition validate_withdrawal_amount :: "string \<Rightarrow> int \<Rightarrow> int \<Rightarrow> int \<Rightarrow> int result" where
  "validate_withdrawal_amount v minimum maximum available =
     throw_if (\<not> amount_pattern v) (BadRequestException ''GDS_WITHDRAWAL_INVALID_AMOUNT'') (
     let amount = int (read_nat v) in
     throw_if (minimum \<le> 0 \<or> minimum > maximum \<or> amount < minimum \<or> amount > maximum)
       (BadRequestException ''GDS_WITHDRAWAL_LIMIT'') (
     throw_if (amount > available) (ConflictException ''GDS_WITHDRAWAL_INSUFFICIENT_FUNDS'') (Inr amount)))"

definition transition :: "string \<Rightarrow> withdrawal_action \<Rightarrow> string option" where
  "transition s a =
     (if s = ''PENDING'' then
        (case a of Approve \<Rightarrow> Some ''APPROVED'' | Reject \<Rightarrow> Some ''REJECTED'' | Cancel \<Rightarrow> Some ''CANCELLED'' | _ \<Rightarrow> None)
      else if s = ''APPROVED'' then (case a of Process \<Rightarrow> Some ''PROCESSING'' | Reject \<Rightarrow> Some ''REJECTED'' | _ \<Rightarrow> None)
      else if s = ''PROCESSING'' then (case a of Pay \<Rightarrow> Some ''PAID'' | Fail \<Rightarrow> Some ''FAILED'' | _ \<Rightarrow> None)
      else None)"

definition next_withdrawal_status :: "string \<Rightarrow> withdrawal_action \<Rightarrow> string result" where
  "next_withdrawal_status s a = some_or (ConflictException ''GDS_WITHDRAWAL_INVALID_TRANSITION'') (transition s a) Inr"

text \<open>The service and the trigger allow the same transitions.\<close>

lemma transition_allowed: "next_allowed s t \<longleftrightarrow> (\<exists>a. transition s a = Some t)"
proof
  assume "next_allowed s t"
  then show "\<exists>a. transition s a = Some t"
    unfolding next_allowed_def transition_def
    by (elim disjE conjE; simp) (metis withdrawal_action.simps)+
next
  assume "\<exists>a. transition s a = Some t"
  then obtain a where "transition s a = Some t" ..
  then show "next_allowed s t" by (cases a) (auto simp: next_allowed_def transition_def split: if_splits)
qed

section \<open>Settings\<close>

record cashout_env =
  xe_caps :: capabilities
  xe_recipient :: recipient_env
  xe_bank_on :: bool
  xe_fresh_period :: "string \<Rightarrow> nat \<Rightarrow> string"
  xe_fresh_for :: "string \<Rightarrow> string \<Rightarrow> string"
  xe_sha256 :: "string \<Rightarrow> string"
  xe_now :: int

record settings_view =
  sv_minimum :: string
  sv_maximum :: string
  sv_version :: int
  sv_admission :: bool
  sv_processing :: bool
  sv_verification_required :: bool
  sv_verification_available :: bool

definition settings_view_of :: "cashout_env \<Rightarrow> withdrawal_settings \<Rightarrow> settings_view" where
  "settings_view_of env s =
     \<lparr>sv_minimum = show_int (ws_minimum s), sv_maximum = show_int (ws_maximum s), sv_version = ws_version s,
      sv_admission = (ws_admission s \<and> cap_processing (xe_caps env)),
      sv_processing = (ws_processing s \<and> cap_processing (xe_caps env)),
      sv_verification_required = ws_verification_required s,
      sv_verification_available = lookup_available (rn_lookup_settings (xe_recipient env))\<rparr>"

record settings_input =
  si_minimum :: int
  si_maximum :: int
  si_version :: int
  si_admission :: bool
  si_processing :: bool
  si_verification_required :: "bool option"

text \<open>\<^verbatim>\<open>gds_withdrawal_settings_guard\<close> freezes the historical boundary when processing is first enabled.\<close>

definition activated :: "int \<Rightarrow> withdrawal_settings \<Rightarrow> withdrawal_settings" where
  "activated now s =
     (if ws_activated_at s = None \<and> ws_processing s then s\<lparr>ws_activated_at := Some now, ws_cutoff_at := now\<rparr> else s)"

definition update_settings :: "cashout_env \<Rightarrow> string \<Rightarrow> settings_input \<Rightarrow> (shop_db, settings_view) txn" where
  "update_settings env actor input db =
     throw_if (si_verification_required input = Some True \<and> \<not> lookup_available (rn_lookup_settings (xe_recipient env)))
       (ForbiddenException ''GDS_ACCOUNT_VERIFICATION_UNAVAILABLE'') (
     throw_if (si_minimum input \<le> 0 \<or> si_maximum input < si_minimum input \<or> si_maximum input > max_safe_integer)
       (BadRequestException ''GDS_WITHDRAWAL_INVALID_LIMITS'') (
     let s = wd_settings db in
     throw_if (ws_version s \<noteq> si_version input) (ConflictException ''GDS_WITHDRAWAL_SETTINGS_CHANGED'') (
     let saved = activated (xe_now env)
           (s\<lparr>ws_minimum := si_minimum input, ws_maximum := si_maximum input, ws_version := ws_version s + 1,
              ws_admission := si_admission input, ws_processing := si_processing input,
              ws_verification_required :=
                (case si_verification_required input of None \<Rightarrow> ws_verification_required s | Some b \<Rightarrow> b)\<rparr>)
     in Inr (settings_view_of env saved,
          db\<lparr>wd_settings := saved,
             audits := audits db @ [\<lparr>ar_actor_kind = ''USER'', ar_actor_id = Some actor,
               ar_action = ''gds.withdrawal.settings.changed'', ar_target_type = ''gds_withdrawal_settings'',
               ar_target_id = ''global'', ar_metadata = [(''minimumMinor'', MString (show_int (si_minimum input))),
                 (''maximumMinor'', MString (show_int (si_maximum input))), (''version'', MNumber (si_version input + 1)),
                 (''admissionEnabled'', MBool (si_admission input)), (''processingEnabled'', MBool (si_processing input))]
                 @ (case si_verification_required input of None \<Rightarrow> [] | Some b \<Rightarrow> [(''accountVerificationRequired'', MBool b)])\<rparr>]\<rparr>))))"

section \<open>Requests\<close>

record withdrawal_view =
  wv_row :: gds_withdrawal
  wv_amount :: string
  wv_minimum :: string
  wv_maximum :: string

definition mask_account :: "string \<Rightarrow> string" where
  "mask_account n = ''****'' @ drop (length n - 4) n"

definition withdrawal_response :: "bool \<Rightarrow> gds_withdrawal \<Rightarrow> withdrawal_view" where
  "withdrawal_response detail r =
     \<lparr>wv_row = r\<lparr>wd_key_hash := [], wd_account_number := (if detail then wd_account_number r else mask_account (wd_account_number r))\<rparr>,
      wv_amount = show_int (wd_amount r), wv_minimum = show_int (wd_minimum r), wv_maximum = show_int (wd_maximum r)\<rparr>"

record create_withdrawal_input =
  cw_amount_minor :: string
  cw_bank_code :: string
  cw_account_number :: string
  cw_account_holder :: "string option"
  cw_verification_id :: "string option"

definition request_key_ok :: "string \<Rightarrow> bool" where
  "request_key_ok k = (16 \<le> length k \<and> length k \<le> 128 \<and> list_all bank_code_char k)"

definition holder_pattern :: "string \<Rightarrow> bool" where
  "holder_pattern n = (2 \<le> length n \<and> length n \<le> 160 \<and> list_all (\<lambda>c. upper_char c \<or> c = CHR '' '') n)"

definition same_request :: "create_withdrawal_input \<Rightarrow> gds_withdrawal \<Rightarrow> bool" where
  "same_request input r =
     (show_int (wd_amount r) = cw_amount_minor input \<and> wd_bank_code r = cw_bank_code input
      \<and> wd_account_number r = cw_account_number input
      \<and> (if opt_truthy (wd_verification_id r) then wd_verification_id r = cw_verification_id input
         else Some (wd_account_holder r) = cw_account_holder input))"

definition resolve_proof :: "cashout_env \<Rightarrow> string \<Rightarrow> create_withdrawal_input \<Rightarrow> shop_db \<Rightarrow> account_verification option result" where
  "resolve_proof env owner input db =
     (if opt_truthy (cw_verification_id input)
      then and_then (resolve_verification (xe_now env) owner (cw_bank_code input) (cw_account_number input)
             (the (cw_verification_id input)) db) (\<lambda>p. Inr (Some p))
      else Inr None)"

definition holder_of :: "account_verification option \<Rightarrow> create_withdrawal_input \<Rightarrow> string option" where
  "holder_of proof input =
     (case proof of Some p \<Rightarrow> Some (vf_account_holder p) | None \<Rightarrow> map_option js_trim (cw_account_holder input))"

definition withdrawal_row ::
  "cashout_env \<Rightarrow> string \<Rightarrow> string \<Rightarrow> create_withdrawal_input \<Rightarrow> account_verification option \<Rightarrow> string \<Rightarrow> string \<Rightarrow> int
   \<Rightarrow> withdrawal_settings \<Rightarrow> gds_withdrawal" where
  "withdrawal_row env owner hash input proof holder wallet amount s =
     \<lparr>wd_id = rn_fresh (xe_recipient env) ''withdrawal'', wd_wallet_id = wallet, wd_owner_id = owner, wd_key_hash = hash,
      wd_amount = amount, wd_bank_code = cw_bank_code input, wd_account_number = cw_account_number input,
      wd_account_holder = holder, wd_settings_version = ws_version s, wd_minimum = ws_minimum s, wd_maximum = ws_maximum s,
      wd_status = ''PENDING'', wd_admin_id = None, wd_bank_ref = None, wd_transferred_at = None, wd_created_at = xe_now env,
      wd_verification_id = map_option vf_id proof, wd_bank_bin = map_option vf_bank_bin proof,
      wd_bank_name = map_option vf_bank_name proof, wd_bank_short_name = map_option vf_bank_short_name proof,
      wd_verified_at = map_option vf_verified_at proof\<rparr>"

definition sync_for :: "cashout_env \<Rightarrow> string \<Rightarrow> shop_db \<Rightarrow> shop_db result" where
  "sync_for env owner db = sync_owner (xe_bank_on env) (xe_fresh_period env) (xe_fresh_for env) (xe_now env) owner db"

definition create_withdrawal ::
  "cashout_env \<Rightarrow> string \<Rightarrow> create_withdrawal_input \<Rightarrow> string option \<Rightarrow> (shop_db, withdrawal_view) txn" where
  "create_withdrawal env owner input key db =
     throw_if (\<not> (case key of None \<Rightarrow> False | Some k \<Rightarrow> request_key_ok k))
       (BadRequestException ''GDS_WITHDRAWAL_IDEMPOTENCY_KEY_REQUIRED'') (
     let hash = xe_sha256 env (the key) in
     case find (\<lambda>r. wd_owner_id r = owner \<and> wd_key_hash r = hash) (withdrawals db) of
       Some r \<Rightarrow>
         throw_if (\<not> same_request input r) (ConflictException ''GDS_WITHDRAWAL_IDEMPOTENCY_CONFLICT'') (
         Inr (withdrawal_response True r, db))
     | None \<Rightarrow>
         throw_if (\<not> cap_processing (xe_caps env)) (ForbiddenException ''GDS_WITHDRAWAL_UNAVAILABLE'') (
         let s = wd_settings db in
         throw_if (\<not> ws_admission s \<or> \<not> ws_processing s) (ForbiddenException ''GDS_WITHDRAWAL_ADMISSION_DISABLED'') (
         throw_if (ws_verification_required s \<and> (\<not> opt_truthy (cw_verification_id input)
             \<or> \<not> lookup_available (rn_lookup_settings (xe_recipient env))))
           (ForbiddenException ''GDS_ACCOUNT_VERIFICATION_REQUIRED'') (
         and_then (resolve_proof env owner input db) (\<lambda>proof.
         throw_if (\<not> opt_truthy (holder_of proof input)) (BadRequestException ''GDS_ACCOUNT_HOLDER_REQUIRED'') (
         let holder = the (holder_of proof input) in
         throw_if (proof = None \<and> \<not> holder_pattern holder) (BadRequestException ''GDS_ACCOUNT_HOLDER_INVALID'') (
         and_then (sync_for env owner db) (\<lambda>db1.
         some_or (ConflictException ''GDS_WITHDRAWAL_WALLET_OR_DEBT_BLOCKED'') (wallet_of_buyer owner db1) (\<lambda>w.
         throw_if (gw_status w \<noteq> ''ACTIVE'' \<or> gw_debt w \<noteq> 0) (ConflictException ''GDS_WITHDRAWAL_WALLET_OR_DEBT_BLOCKED'') (
         and_then (validate_withdrawal_amount (cw_amount_minor input) (ws_minimum s) (ws_maximum s) (gw_available w)) (\<lambda>amount.
         let r = withdrawal_row env owner hash input proof holder (gw_id w) amount s in
         and_then (insert_withdrawal (xe_now env) r db1) (\<lambda>db2.
         and_then (insert_event (xe_now env) \<lparr>we_withdrawal_id = wd_id r, we_actor_id = owner, we_from = None,
             we_to = ''PENDING'', we_reason = ''Nguoi dung tao yeu cau rut tien.'', we_bank_ref = None,
             we_transferred_at = None\<rparr> db2) (\<lambda>db3.
         Inr (withdrawal_response True r, db3))))))))))))))"

section \<open>Reading\<close>

record withdrawal_page =
  wp_page :: nat
  wp_page_size :: nat
  wp_status :: "string option"

definition in_listing :: "string option \<Rightarrow> string option \<Rightarrow> gds_withdrawal \<Rightarrow> bool" where
  "in_listing owner status r =
     ((opt_truthy owner \<longrightarrow> Some (wd_owner_id r) = owner)
      \<and> (opt_truthy status \<longrightarrow>
           (if status = Some ''AWAITING_TRANSFER'' then wd_status r = ''APPROVED'' \<or> wd_status r = ''PROCESSING''
            else Some (wd_status r) = status)))"

definition list_withdrawals :: "capabilities \<Rightarrow> withdrawal_page \<Rightarrow> string option \<Rightarrow> shop_db \<Rightarrow> withdrawal_view page result" where
  "list_withdrawals cap q owner db =
     throw_if (\<not> cap_read cap) (ForbiddenException ''GDS_WALLET_UNAVAILABLE'') (
     Inr (make_page (withdrawal_response False) (wp_page q) (wp_page_size q)
       (js_sort (newest_first wd_created_at wd_id) (filter (in_listing owner (wp_status q)) (withdrawals db)))))"

record withdrawal_detail =
  wx_view :: withdrawal_view
  wx_events :: "withdrawal_event list"
  wx_check :: "recipient_check option"

definition detail :: "capabilities \<Rightarrow> string \<Rightarrow> string option \<Rightarrow> shop_db \<Rightarrow> withdrawal_detail result" where
  "detail cap i owner db =
     throw_if (\<not> cap_read cap) (ForbiddenException ''GDS_WALLET_UNAVAILABLE'') (
     some_or (NotFoundException ''GDS_WITHDRAWAL_NOT_FOUND'')
       (find (\<lambda>r. wd_id r = i \<and> (opt_truthy owner \<longrightarrow> Some (wd_owner_id r) = owner)) (withdrawals db)) (\<lambda>r.
     Inr \<lparr>wx_view = withdrawal_response True r,
          wx_events = filter (\<lambda>e. we_withdrawal_id e = i) (withdrawal_events db),
          wx_check = (if opt_truthy owner then None else transfer_check i db)\<rparr>))"

section \<open>Acting on a request\<close>

record action_input =
  an_reason :: "string option"
  an_bank_ref :: "string option"
  an_transferred_at :: "string option"

record action_response =
  ax_view :: withdrawal_view
  ax_check :: "recipient_check option"

definition trimmed_or :: "string \<Rightarrow> string option \<Rightarrow> string" where
  "trimmed_or d v = (if trimmed_truthy v then js_trim (the v) else d)"

definition require_cashout_processing :: "cashout_env \<Rightarrow> shop_db \<Rightarrow> unit result" where
  "require_cashout_processing env db =
     throw_if (\<not> cap_processing (xe_caps env)) (ForbiddenException ''GDS_WITHDRAWAL_UNAVAILABLE'') (
     throw_if (\<not> ws_processing (wd_settings db)) (ForbiddenException ''GDS_WITHDRAWAL_PROCESSING_DISABLED'') (Inr ()))"

definition settle_before_claim :: "cashout_env \<Rightarrow> gds_withdrawal \<Rightarrow> shop_db \<Rightarrow> shop_db result" where
  "settle_before_claim env r db =
     and_then (sync_for env (wd_owner_id r) db) (\<lambda>db1.
     and_then (or_throw (find_wallet (wd_wallet_id r) db1)) (\<lambda>w.
     throw_if (gw_status w \<noteq> ''ACTIVE'' \<or> gw_debt w \<noteq> 0) (ConflictException ''GDS_WITHDRAWAL_WALLET_OR_DEBT_BLOCKED'') (Inr db1)))"

text \<open>The proof of a payment: the bank's reference and a time that lies between the request and now.\<close>

definition payment_proof :: "(string \<Rightarrow> int option) \<Rightarrow> int \<Rightarrow> withdrawal_action \<Rightarrow> action_input \<Rightarrow> gds_withdrawal \<Rightarrow> (string option \<times> int option) result" where
  "payment_proof parse_date now action input r =
     (if action = Pay then
        throw_if (\<not> trimmed_truthy (an_bank_ref input) \<or> \<not> opt_truthy (an_transferred_at input))
          (BadRequestException ''GDS_WITHDRAWAL_PAYMENT_PROOF_REQUIRED'') (
        case parse_date (the (an_transferred_at input)) of
          None \<Rightarrow> Inl (BadRequestException ''GDS_WITHDRAWAL_INVALID_TRANSFER_TIME'')
        | Some d \<Rightarrow>
            throw_if (d < wd_created_at r \<or> now < d) (BadRequestException ''GDS_WITHDRAWAL_INVALID_TRANSFER_TIME'') (
            Inr (Some (js_trim (the (an_bank_ref input))), Some d)))
      else
        throw_if (opt_truthy (an_bank_ref input) \<or> opt_truthy (an_transferred_at input))
          (BadRequestException ''GDS_WITHDRAWAL_UNEXPECTED_PAYMENT_PROOF'') (Inr (None, None)))"

definition act_txn ::
  "cashout_env \<Rightarrow> (string \<Rightarrow> int option) \<Rightarrow> string \<Rightarrow> string \<Rightarrow> withdrawal_action \<Rightarrow> action_input \<Rightarrow> bool
   \<Rightarrow> (shop_db, action_response) txn" where
  "act_txn env parse_date actor i action input owner_only db =
     some_or (NotFoundException ''GDS_WITHDRAWAL_NOT_FOUND'')
       (find (\<lambda>r. wd_id r = i \<and> (owner_only \<longrightarrow> wd_owner_id r = actor)) (withdrawals db)) (\<lambda>r.
     throw_if (if owner_only then action \<noteq> Cancel else wd_owner_id r = actor)
       (ForbiddenException ''GDS_WITHDRAWAL_SELF_PROCESSING_FORBIDDEN'') (
     and_then (next_withdrawal_status (wd_status r) action) (\<lambda>status.
     and_then (if action = Process \<or> action = Pay \<or> action = Fail then require_cashout_processing env db else Inr ()) (\<lambda>_.
     and_then
       (if action = Process
        then and_then (require_transfer_proof (xe_now env) actor r (ws_verification_required (wd_settings db)) db)
               (\<lambda>_. settle_before_claim env r db)
        else Inr db) (\<lambda>db1.
     throw_if ((action = Pay \<or> action = Fail) \<and> wd_admin_id r \<noteq> Some actor)
       (ForbiddenException ''GDS_WITHDRAWAL_CLAIMED_BY_ANOTHER_ADMIN'') (
     and_then (payment_proof parse_date (xe_now env) action input r) (\<lambda>(bank_ref, transferred).
     and_then (insert_event (xe_now env) \<lparr>we_withdrawal_id = i, we_actor_id = actor, we_from = Some (wd_status r),
         we_to = status, we_reason = trimmed_or ''Admin xac nhan da chuyen khoan.'' (an_reason input),
         we_bank_ref = bank_ref, we_transferred_at = transferred\<rparr> db1) (\<lambda>db2.
     and_then (or_throw (find_withdrawal i db2)) (\<lambda>saved.
     Inr (\<lparr>ax_view = withdrawal_response True saved,
           ax_check = (if owner_only then None else transfer_check i db2)\<rparr>, db2))))))))))"

text \<open>Before a claim the recipient is looked up outside the transaction: the proof stays when the claim fails.\<close>

definition before_claim :: "cashout_env \<Rightarrow> string \<Rightarrow> string \<Rightarrow> shop_db \<Rightarrow> shop_db result" where
  "before_claim env actor i db =
     some_or (NotFoundException ''GDS_WITHDRAWAL_NOT_FOUND'') (find_withdrawal i db) (\<lambda>r.
     throw_if (wd_owner_id r = actor) (ForbiddenException ''GDS_WITHDRAWAL_SELF_PROCESSING_FORBIDDEN'') (
     throw_if (wd_status r \<noteq> ''APPROVED'') (ConflictException ''GDS_WITHDRAWAL_INVALID_TRANSITION'') (
     if ws_verification_required (wd_settings db) \<or> opt_truthy (wd_verification_id r)
     then and_then (verify_transfer (xe_recipient env) actor i db) (\<lambda>(v, db'). Inr db')
     else Inr db)))"

definition act ::
  "cashout_env \<Rightarrow> (string \<Rightarrow> int option) \<Rightarrow> (nat \<Rightarrow> api_error option) \<Rightarrow> string \<Rightarrow> string \<Rightarrow> withdrawal_action \<Rightarrow> action_input \<Rightarrow> bool
   \<Rightarrow> shop_db \<Rightarrow> action_response result \<times> shop_db" where
  "act env parse_date aborts actor i action input owner_only db =
     (if action \<noteq> Pay \<and> \<not> trimmed_truthy (an_reason input)
      then (Inl (BadRequestException ''GDS_WITHDRAWAL_REASON_REQUIRED''), db)
      else
        case (if action = Process then before_claim env actor i db else Inr db) of
          Inl e \<Rightarrow> (Inl e, db)
        | Inr db1 \<Rightarrow>
            (case finance_transaction aborts (act_txn env parse_date actor i action input owner_only) db1 of
               Inl e \<Rightarrow> (Inl e, db1) | Inr (res, db2) \<Rightarrow> (Inr res, db2)))"

section \<open>Approving and claiming in one step\<close>

record confirm_input =
  cn_confirmed :: bool
  cn_account_holder :: "string option"
  cn_reason :: "string option"

definition recipient_proof ::
  "cashout_env \<Rightarrow> string \<Rightarrow> gds_withdrawal \<Rightarrow> bank \<Rightarrow> confirm_input \<Rightarrow> bool \<Rightarrow> (shop_db, account_verification) txn" where
  "recipient_proof env actor r b input automatic db =
     (if automatic then and_then (require_transfer_proof (xe_now env) actor r True db) (\<lambda>p. Inr (p, db))
      else record_manual (xe_recipient env) actor r b
        (case cn_account_holder input of None \<Rightarrow> wd_account_holder r | Some n \<Rightarrow> n) db)"

definition claim_events :: "cashout_env \<Rightarrow> string \<Rightarrow> gds_withdrawal \<Rightarrow> string \<Rightarrow> shop_db \<Rightarrow> shop_db result" where
  "claim_events env actor r reason db =
     and_then
       (if wd_status r = ''PENDING''
        then insert_event (xe_now env) \<lparr>we_withdrawal_id = wd_id r, we_actor_id = actor, we_from = Some ''PENDING'',
               we_to = ''APPROVED'', we_reason = reason, we_bank_ref = None, we_transferred_at = None\<rparr> db
        else Inr db) (\<lambda>db1.
     if wd_status r \<noteq> ''PROCESSING''
     then insert_event (xe_now env) \<lparr>we_withdrawal_id = wd_id r, we_actor_id = actor, we_from = Some ''APPROVED'',
            we_to = ''PROCESSING'', we_reason = ''Admin duyet va nhan trach nhiem chuyen khoan.'', we_bank_ref = None,
            we_transferred_at = None\<rparr> db1
     else Inr db1)"

definition confirm_txn ::
  "cashout_env \<Rightarrow> string \<Rightarrow> string \<Rightarrow> confirm_input \<Rightarrow> bank \<Rightarrow> (shop_db, action_response) txn" where
  "confirm_txn env actor i input b db =
     some_or (NotFoundException ''GDS_WITHDRAWAL_NOT_FOUND'') (find_withdrawal i db) (\<lambda>r.
     and_then (claimable actor r) (\<lambda>_.
     throw_if (\<not> ws_processing (wd_settings db)) (ForbiddenException ''GDS_WITHDRAWAL_PROCESSING_DISABLED'') (
     and_then (if wd_status r \<noteq> ''PROCESSING'' then settle_before_claim env r db else Inr db) (\<lambda>db1.
     let automatic = (ws_verification_required (wd_settings db) \<or> opt_truthy (wd_verification_id r));
         reason = trimmed_or
           ''Admin xac nhan da doi chieu dung ngan hang, so tai khoan va nguoi nhan; duyet cho chuyen khoan.'' (cn_reason input) in
     and_then (recipient_proof env actor r b input automatic db1) (\<lambda>(p, db2).
     let db3 = db2\<lparr>audits := audits db2 @ [\<lparr>ar_actor_kind = ''USER'', ar_actor_id = Some actor,
           ar_action = (if automatic then ''gds.withdrawal.recipient.provider_checked''
             else ''gds.withdrawal.recipient.manually_checked''),
           ar_target_type = ''gds_withdrawal'', ar_target_id = i,
           ar_metadata = [(''verificationId'', MString (vf_id p)),
             (''method'', MString (if automatic then ''PROVIDER'' else ''MANUAL'')), (''reason'', MString reason)]\<rparr>]\<rparr> in
     and_then (claim_events env actor r reason db3) (\<lambda>db4.
     and_then (or_throw (find_withdrawal i db4)) (\<lambda>saved.
     Inr (\<lparr>ax_view = withdrawal_response True saved,
           ax_check = Some \<lparr>rk_method = (if automatic then ''PROVIDER'' else ''MANUAL''), rk_actor_id = actor,
             rk_verified_at = vf_verified_at p, rk_expires_at = vf_expires_at p\<rparr>\<rparr>, db4))))))))"

definition before_confirm :: "cashout_env \<Rightarrow> string \<Rightarrow> string \<Rightarrow> confirm_input \<Rightarrow> shop_db \<Rightarrow> shop_db result" where
  "before_confirm env actor i input db =
     throw_if (\<not> cap_processing (xe_caps env)) (ForbiddenException ''GDS_WITHDRAWAL_UNAVAILABLE'') (
     throw_if (\<not> cn_confirmed input) (BadRequestException ''GDS_MANUAL_CHECK_CONFIRMATION_REQUIRED'') (
     some_or (NotFoundException ''GDS_WITHDRAWAL_NOT_FOUND'') (find_withdrawal i db) (\<lambda>r.
     and_then (claimable actor r) (\<lambda>_.
     if ws_verification_required (wd_settings db) \<or> opt_truthy (wd_verification_id r)
     then and_then (verify_transfer (xe_recipient env) actor i db) (\<lambda>(v, db'). Inr db')
     else Inr db))))"

text \<open>The proof of the lookup stays when what follows it fails.\<close>

definition confirm_recipient ::
  "cashout_env \<Rightarrow> (nat \<Rightarrow> api_error option) \<Rightarrow> string \<Rightarrow> string \<Rightarrow> confirm_input \<Rightarrow> shop_db \<Rightarrow> action_response result \<times> shop_db" where
  "confirm_recipient env aborts actor i input db =
     (case before_confirm env actor i input db of
        Inl e \<Rightarrow> (Inl e, db)
      | Inr db1 \<Rightarrow>
          (case and_then (prepare_manual (xe_recipient env) actor i db1)
                  (\<lambda>b. finance_transaction aborts (confirm_txn env actor i input b) db1) of
             Inl e \<Rightarrow> (Inl e, db1) | Inr (res, db2) \<Rightarrow> (Inr res, db2)))"

end
