(* ===== verification/Gds_History.thy ===== *)
theory Gds_History
  imports Gds_Checkout Gds_Cashout
begin

text \<open>
  The wallet over time.  Every operation of the wallet services is a sound move of the ledger, so a history of
  them refines the abstract accounts of \<^verbatim>\<open>Gds_Accounts\<close>: the interpretation of the simulation is at
  the end, and the properties of the wallet rest on it.
\<close>

section \<open>The operations are sound\<close>

lemma reserve_txn_sound:
  assumes "reserve_txn buyer r now db = Inr (b, db')"
  shows "sound_move db db'"
proof -
  obtain w n where "db' = db \<or> post_journal now (reserve_posting w r n) db = Inr db'"
    using assms by (auto simp: reserve_txn_def result_simps Let_def split: option.splits)
  then show ?thesis using post_journal_sound order_posting_kinds by auto
qed

lemma release_txn_sound:
  assumes "release_txn buyer r now db = Inr (b, db')"
  shows "sound_move db db'"
proof -
  obtain w n where "db' = db \<or> post_journal now (release_posting w r n) db = Inr db'"
    using assms by (auto simp: release_txn_def result_simps Let_def split: if_splits)
  then show ?thesis using post_journal_sound order_posting_kinds by auto
qed

lemma credit_topup_sound:
  assumes "credit_verified_topup_in_transaction cap intent s now db = Inr (b, db')"
  shows "sound_move db db'"
proof -
  obtain w t c where "db' = db \<or> post_journal now (credit_posting w t c) db = Inr db'"
    using assms by (auto simp: credit_verified_topup_in_transaction_def result_simps Let_def split: option.splits)
  then show ?thesis
    using post_journal_sound [of now "credit_posting w t c" db db'] by (auto simp: credit_posting_def cashout_kind_def revenue_kind_def)
qed

lemma insert_verification_frame:
  "insert_verification now p db = Inr db' \<Longrightarrow> db' = db\<lparr>verifications := verifications db @ [p]\<rparr>"
  by (auto simp: insert_verification_def result_simps)

lemma insert_verification_sound: "insert_verification now p db = Inr db' \<Longrightarrow> sound_move db db'"
  by (drule insert_verification_frame, rule sound_move_frame) auto

lemma verify_account_sound: "verify_account env owner code account db = Inr (v, db') \<Longrightarrow> sound_move db db'"
  by (auto simp: verify_account_def result_simps Let_def intro: insert_verification_sound)

lemma verify_transfer_sound: "verify_transfer env actor i db = Inr (v, db') \<Longrightarrow> sound_move db db'"
  by (auto simp: verify_transfer_def result_simps Let_def intro: insert_verification_sound)

lemma record_manual_sound: "record_manual env actor r b observed db = Inr (p, db') \<Longrightarrow> sound_move db db'"
  by (auto simp: record_manual_def result_simps Let_def intro: insert_verification_sound)

lemma sync_for_sound: "sync_for env owner db = Inr db' \<Longrightarrow> sound_move db db'"
  unfolding sync_for_def by (rule sync_owner_sound)

lemma settle_before_claim_sound: "settle_before_claim env r db = Inr db' \<Longrightarrow> sound_move db db'"
  by (auto simp: settle_before_claim_def result_simps intro: sync_for_sound)

lemma update_settings_sound: "update_settings env actor input db = Inr (v, db') \<Longrightarrow> sound_move db db'"
  by (rule sound_move_frame) (auto simp: update_settings_def result_simps Let_def)

lemma create_withdrawal_sound:
  assumes "create_withdrawal env owner input key db = Inr (v, db')"
  shows "sound_move db db'"
proof -
  have "db' = db \<or> (\<exists>db1 db2 r e. sync_for env owner db = Inr db1 \<and> insert_withdrawal (xe_now env) r db1 = Inr db2
      \<and> insert_event (xe_now env) e db2 = Inr db')"
    using assms by (auto simp: create_withdrawal_def result_simps Let_def split: option.splits)
  then show ?thesis
    using sync_for_sound insert_withdrawal_sound insert_event_sound by (metis sound_move_refl sound_move_trans)
qed

lemma act_txn_sound:
  assumes "act_txn env parse_date actor i action input owner_only db = Inr (v, db')"
  shows "sound_move db db'"
proof -
  obtain r db1 e where "db1 = db \<or> settle_before_claim env r db = Inr db1"
    and "insert_event (xe_now env) e db1 = Inr db'"
    using assms by (auto simp: act_txn_def result_simps Let_def split: if_splits)
  then show ?thesis
    using settle_before_claim_sound insert_event_sound by (metis sound_move_trans)
qed

lemma before_claim_sound: "before_claim env actor i db = Inr db' \<Longrightarrow> sound_move db db'"
  by (auto simp: before_claim_def result_simps split: if_splits dest: verify_transfer_sound)

lemma finance_transaction_body: "finance_transaction aborts body db = Inr r \<Longrightarrow> body db = Inr r"
  unfolding finance_transaction_def by (rule retry_loop_commits_once)

lemma act_sound:
  assumes "act env parse_date aborts actor i action input owner_only db = (res, db')"
  shows "sound_move db db'"
proof -
  obtain db1 where "db1 = db \<or> before_claim env actor i db = Inr db1"
    and "db' = db1 \<or> (\<exists>v. finance_transaction aborts (act_txn env parse_date actor i action input owner_only) db1 = Inr (v, db'))"
    using assms by (auto simp: act_def split: if_splits sum.splits prod.splits)
  then show ?thesis
    using before_claim_sound act_txn_sound finance_transaction_body by (metis sound_move_refl sound_move_trans)
qed

lemma claim_events_sound:
  assumes "claim_events env actor r reason db = Inr db'"
  shows "sound_move db db'"
proof -
  obtain e1 e2 db1 where "db1 = db \<or> insert_event (xe_now env) e1 db = Inr db1"
    and "db' = db1 \<or> insert_event (xe_now env) e2 db1 = Inr db'"
    using assms by (auto simp: claim_events_def result_simps split: if_splits)
  then show ?thesis using insert_event_sound by (metis sound_move_refl sound_move_trans)
qed

lemma recipient_proof_sound: "recipient_proof env actor r b input automatic db = Inr (p, db') \<Longrightarrow> sound_move db db'"
  by (auto simp: recipient_proof_def result_simps split: if_splits dest: record_manual_sound)

lemma audit_sound: "sound_move db (db\<lparr>audits := rows\<rparr>)"
  by (rule sound_move_frame) simp_all

lemma confirm_txn_sound:
  assumes "confirm_txn env actor i input b db = Inr (v, db')"
  shows "sound_move db db'"
proof -
  obtain r db1 where c: "(if wd_status r \<noteq> ''PROCESSING'' then settle_before_claim env r db else Inr db) = Inr db1"
    and rest: "\<exists>k p db2 rows reason. recipient_proof env actor r b input k db1 = Inr (p, db2)
      \<and> claim_events env actor r reason (db2\<lparr>audits := rows\<rparr>) = Inr db'"
    using assms unfolding confirm_txn_def some_or_Inr and_then_Inr_iff throw_if_Inr Let_def split_paired_Ex prod.case by blast
  from c have "db1 = db \<or> settle_before_claim env r db = Inr db1" by (auto split: if_splits)
  with rest show ?thesis
    using settle_before_claim_sound recipient_proof_sound claim_events_sound audit_sound by (metis sound_move_trans)
qed

lemma before_confirm_sound: "before_confirm env actor i input db = Inr db' \<Longrightarrow> sound_move db db'"
  by (auto simp: before_confirm_def result_simps split: if_splits dest: verify_transfer_sound)

lemma confirm_recipient_sound:
  assumes "confirm_recipient env aborts actor i input db = (res, db')"
  shows "sound_move db db'"
proof -
  obtain db1 where "db1 = db \<or> before_confirm env actor i input db = Inr db1"
    and "db' = db1 \<or> (\<exists>v b. finance_transaction aborts (confirm_txn env actor i input b) db1 = Inr (v, db'))"
    using assms by (auto simp: confirm_recipient_def result_simps split: sum.splits prod.splits)
  then show ?thesis
    using before_confirm_sound confirm_txn_sound finance_transaction_body by (metis sound_move_refl sound_move_trans)
qed

section \<open>Histories\<close>

text \<open>A step is a request that one of the services answers, with whatever aborts the database decides on, or a
  change of other tables.\<close>

inductive ledger_step :: "shop_db \<Rightarrow> shop_db \<Rightarrow> bool" where
  reserve: "reserve_for_unpaid_commerce_order cap aborts buyer r now db = Inr (bal, db') \<Longrightarrow> ledger_step db db'"
| release: "release_for_final_unpaid_order cap aborts buyer r now db = Inr (bal, db') \<Longrightarrow> ledger_step db db'"
| credit: "credit_verified_topup cap aborts intent s now db = Inr (bal, db') \<Longrightarrow> ledger_step db db'"
| pay: "pay_order cap fulfill aborts fresh buyer r now db = Inr (receipt, db') \<Longrightarrow> fulfilment_ok fulfill \<Longrightarrow> ledger_step db db'"
| settings: "finance_transaction aborts (update_settings env actor change) db = Inr (view, db') \<Longrightarrow> ledger_step db db'"
| verify: "verify_account renv owner code account db = Inr (v, db') \<Longrightarrow> ledger_step db db'"
| request: "finance_transaction aborts (\<lambda>s. create_withdrawal env owner wish key s) db = Inr (view', db') \<Longrightarrow> ledger_step db db'"
| check: "verify_transfer renv actor i db = Inr (v, db') \<Longrightarrow> ledger_step db db'"
| act: "act env parse_date aborts actor i action particulars owner_only db = (res, db') \<Longrightarrow> ledger_step db db'"
| confirm: "confirm_recipient env aborts actor i confirmation db = (res, db') \<Longrightarrow> ledger_step db db'"
| batch: "run_wallet_batch cap bank_on fp ff now (c, db) = (c', db') \<Longrightarrow> ledger_step db db'"
| review: "finance_transaction aborts (approve_review actor i paid reason now) db = Inr (res', db') \<Longrightarrow> ledger_step db db'"
| elsewhere: "same_wallet db db' \<Longrightarrow> ledger_step db db'"

lemma credit_verified_topup_sound:
  assumes "credit_verified_topup cap aborts intent s now db = Inr (b, db')"
  shows "sound_move db db'"
proof -
  have "retry_loop (\<lambda>e. e = PrismaError ''P2034'' \<or> e = PrismaError ''P2002'')
      (wallet_error ''GDS_INTERNAL_TOPUP_RETRY_EXHAUSTED'') 0 3
      (aborting aborts (credit_verified_topup_in_transaction cap intent s now)) db = Inr (b, db')"
    using assms unfolding credit_verified_topup_def and_then_Inr_iff by (auto split: sum.splits)
  then show ?thesis by (intro credit_topup_sound) (rule retry_loop_commits_once)
qed

lemma pay_order_body:
  assumes "pay_order cap fulfill aborts fresh buyer r now db = Inr (receipt, db')"
  shows "pay_txn fulfill fresh buyer r now db = Inr (receipt, db')"
proof -
  have "retry_loop retryable_gds (wallet_error ''GDS_CAPTURE_RETRY_EXHAUSTED'') 0 3
      (aborting aborts (pay_txn fulfill fresh buyer r now)) db = Inr (receipt, db')"
    using assms unfolding pay_order_def throw_if_Inr by (auto split: sum.splits)
  then show ?thesis by (rule retry_loop_commits_once)
qed

lemma retry_serializable_body: "retry_serializable aborts body db = Inr r \<Longrightarrow> body db = Inr r"
  unfolding retry_serializable_def by (rule retry_loop_commits_once)

lemma ledger_step_sound: "ledger_step db db' \<Longrightarrow> sound_move db db'"
proof (induction rule: ledger_step.induct)
  case (reserve cap aborts buyer r now db bal db')
  then have "reserve_txn buyer r now db = Inr (bal, db')"
    unfolding reserve_for_unpaid_commerce_order_def and_then_Inr_iff using retry_serializable_body by blast
  then show ?case by (rule reserve_txn_sound)
next
  case (release cap aborts buyer r now db bal db')
  then have "release_txn buyer r now db = Inr (bal, db')"
    unfolding release_for_final_unpaid_order_def and_then_Inr_iff using retry_serializable_body by blast
  then show ?case by (rule release_txn_sound)
next
  case (pay cap fulfill aborts fresh buyer r now db receipt db')
  then show ?case by (intro pay_txn_sound [OF pay_order_body])
next
  case (settings aborts env actor change db view db')
  then show ?case by (intro update_settings_sound) (rule finance_transaction_body)
next
  case (request aborts env owner wish key db view' db')
  then show ?case by (intro create_withdrawal_sound) (rule finance_transaction_body)
next
  case (review aborts actor i paid reason now db res' db')
  then show ?case by (intro approve_review_sound) (rule finance_transaction_body)
qed (rule credit_verified_topup_sound verify_account_sound verify_transfer_sound act_sound confirm_recipient_sound
  run_wallet_batch_sound same_wallet_sound, assumption)+

interpretation ledger: refinement ledger_step account_step "account_of i" wallet_sound for i
proof
  fix s t assume "wallet_sound s" and "ledger_step s t"
  then show "wallet_sound t" "account_step\<^sup>*\<^sup>* (account_of i s) (account_of i t)"
    using ledger_step_sound [of s t] by (simp_all add: sound_move_def)
qed

lemmas ledger_steps_sound = ledger.steps_good
  and ledger_steps_final = ledger.steps_final

end
