(* ===== verification/Gds_Guarantees.thy ===== *)
theory Gds_Guarantees
  imports Gds_History
begin

text \<open>
  The guarantees of the internal wallet: its histories refine the abstract accounts, its balances are the
  sums of its journal, a checkout takes exactly the price and once, a withdrawal is paid under dual control,
  and revenue is settled by a synchronisation.
\<close>

section \<open>A small shop\<close>

text \<open>A buyer topped up 500 and asked for 200 of them, which an administrator has claimed; an order of 250 waits for
  its payment.\<close>

definition sample_buyer :: string where "sample_buyer = ''00000000-0000-1000-8000-000000000001''"
definition sample_order :: string where "sample_order = ''00000000-0000-1000-8000-000000000002''"
definition sample_wallet :: string where "sample_wallet = ''00000000-0000-1000-8000-000000000003''"

definition sample_request :: gds_withdrawal where
  "sample_request =
     \<lparr>wd_id = ''d1'', wd_wallet_id = sample_wallet, wd_owner_id = sample_buyer, wd_key_hash = replicate 64 CHR ''a'',
      wd_amount = 200, wd_bank_code = ''VCB'', wd_account_number = ''123456'', wd_account_holder = ''AN'',
      wd_settings_version = 1, wd_minimum = 10, wd_maximum = 400, wd_status = ''PROCESSING'', wd_admin_id = Some ''admin'',
      wd_bank_ref = None, wd_transferred_at = None, wd_created_at = 5, wd_verification_id = None, wd_bank_bin = None,
      wd_bank_name = None, wd_bank_short_name = None, wd_verified_at = None\<rparr>"

definition sample_shop :: shop_db where
  "sample_shop = empty_shop
     \<lparr>orders := [\<lparr>or_id = sample_order, or_buyer_id = sample_buyer, or_status = ''pending_payment'',
        or_fulfillment_status = ''none'', or_currency = ''VND'', or_payable_amount = 250, or_confirmed_settlement_id = None,
        or_confirmed_at = None, or_created_at = 1, or_term_months = None\<rparr>],
      wallets := [\<lparr>gw_id = sample_wallet, gw_buyer_id = sample_buyer, gw_status = ''ACTIVE'', gw_available = 300, gw_held = 200,
        gw_debt = 0\<rparr>],
      topups := [\<lparr>gt_id = ''t1'', gt_buyer_id = sample_buyer, gt_wallet_id = sample_wallet, gt_amount = 500, gt_currency = ''VND'',
        gt_order_code = 7, gt_account_hash = [], gt_settlement_hash = None, gt_link_id = None, gt_collection_ref = Some ''c1'',
        gt_signature_at = Some 1, gt_reconciled_at = Some 2, gt_credited_at = Some 3, gt_status = ''CREDITED''\<rparr>],
      journal := [\<lparr>gj_wallet_id = sample_wallet, gj_event_key = ''e1'', gj_kind = ''TOPUP_CREDIT'', gj_amount = 500,
          gj_available = 500, gj_held = 0, gj_clearing = - 500, gj_topup_id = Some ''t1'', gj_collection_ref = Some ''c1'',
          gj_order_ref = None\<rparr>,
        cashout_posting ''reserve'' ''WITHDRAWAL_RESERVE'' sample_request (- 200) 200 0],
      wd_settings := \<lparr>ws_minimum = 10, ws_maximum = 400, ws_version = 1, ws_admission = True, ws_processing = True,
        ws_cutoff_at = 0, ws_activated_at = Some 0, ws_verification_required = False\<rparr>,
      withdrawals := [sample_request],
      withdrawal_events := [\<lparr>we_withdrawal_id = ''d1'', we_actor_id = ''admin'', we_from = Some ''APPROVED'',
        we_to = ''PROCESSING'', we_reason = ''ok'', we_bank_ref = None, we_transferred_at = None\<rparr>],
      verifications := [row_proof ''v1'' ''admin'' sample_request
        \<lparr>bk_code = ''VCB'', bk_bin = ''970436'', bk_short_name = ''VCB'', bk_name = ''VCB'', bk_lookup_supported = True\<rparr>
        ''AN'' ''vietqr'' None 6]\<rparr>"

definition sample_caps :: capabilities where
  "sample_caps = \<lparr>cap_mode = Sandbox, cap_read = True, cap_processing = True, cap_cancellation = True, cap_topup = True,
     cap_checkout = True\<rparr>"

definition sample_env :: cashout_env where
  "sample_env = \<lparr>xe_caps = sample_caps,
     xe_recipient = \<lparr>rn_banks = [], rn_lookup_settings = \<lparr>lk_enabled = False, lk_client_id = None, lk_api_key = None,
       lk_supported_bins = []\<rparr>, rn_lookup = (\<lambda>b n. Inl (PlainError ''down'')), rn_fresh = (\<lambda>k. k), rn_now = 9\<rparr>,
     xe_bank_on = False, xe_fresh_period = (\<lambda>i n. i), xe_fresh_for = (\<lambda>i k. k), xe_sha256 = (\<lambda>k. k), xe_now = 9\<rparr>"

definition marks_fulfilled :: "string \<Rightarrow> string \<Rightarrow> shop_db \<Rightarrow> shop_db result" where
  "marks_fulfilled r buyer db =
     Inr (db\<lparr>orders := update_where (\<lambda>x. or_id x = r) (\<lambda>x. x\<lparr>or_fulfillment_status := ''fulfilled''\<rparr>) (orders db)\<rparr>)"

lemma marks_fulfilled_ok: "fulfilment_ok marks_fulfilled"
  unfolding fulfilment_ok_def marks_fulfilled_def fulfilled_in_def same_wallet_def find_order_def
  by (auto simp: find_update_where [where k = or_id] dest: find_key intro!: option.map_cong)

definition sample_paid :: "string result \<times> shop_db" where
  "sample_paid =
     (case pay_order sample_caps marks_fulfilled (\<lambda>k. None) (\<lambda>k. k) sample_buyer sample_order 9 sample_shop of
        Inl e \<Rightarrow> (Inl e, sample_shop) | Inr (rc, db) \<Rightarrow> (Inr (cr_status rc), db))"

definition pay_request :: "action_response result \<times> shop_db" where
  "pay_request =
     act sample_env (\<lambda>s. Some 8) (\<lambda>k. None) ''admin'' ''d1'' Pay
       \<lparr>an_reason = None, an_bank_ref = Some ''FT1'', an_transferred_at = Some ''8''\<rparr> False (snd sample_paid)"

lemma sample_shop_sound: "wallet_sound sample_shop"
  by code_simp

lemma sample_paid_ok: "is_ok (fst sample_paid)" and pay_request_ok: "is_ok (fst pay_request)"
  by code_simp+

lemma sample_pay_step: "ledger_step sample_shop (snd sample_paid)"
proof (cases "pay_order sample_caps marks_fulfilled (\<lambda>k. None) (\<lambda>k. k) sample_buyer sample_order 9 sample_shop")
  case (Inl e)
  with sample_paid_ok show ?thesis by (simp add: sample_paid_def)
next
  case (Inr q)
  then have "pay_order sample_caps marks_fulfilled (\<lambda>k. None) (\<lambda>k. k) sample_buyer sample_order 9 sample_shop = Inr (fst q, snd q)"
    by simp
  with Inr show ?thesis by (auto simp: sample_paid_def split: prod.splits intro: ledger_step.pay marks_fulfilled_ok)
qed

lemma sample_history: "ledger_step\<^sup>*\<^sup>* sample_shop (snd pay_request)"
proof -
  have "ledger_step (snd sample_paid) (snd pay_request)"
    unfolding pay_request_def by (rule ledger_step.act) (rule surjective_pairing)
  with sample_pay_step show ?thesis by (meson converse_rtranclp_into_rtranclp rtranclp.rtrancl_refl)
qed

section \<open>The guarantees\<close>

text \<open>C2: every history of the wallet services acts on each wallet as a sequence of legal steps of an account, so an
  order or a withdrawal that was paid or given back stays that way.\<close>

theorem ledger_refines_accounts:
  assumes "ledger_step\<^sup>*\<^sup>* db db'" and "wallet_sound db"
  shows "account_step\<^sup>*\<^sup>* (account_of i db) (account_of i db')
    \<and> (\<forall>s x. ac_slots (account_of i db) s = Some x \<and> closed_slot x \<longrightarrow> ac_slots (account_of i db') s = Some x)"
  using ledger.steps_simulate [OF assms, of i] account_steps_final by blast

lemma ledger_refines_accounts_witness:
  "account_step\<^sup>*\<^sup>* (account_of sample_wallet sample_shop) (account_of sample_wallet (snd pay_request))"
  using ledger_refines_accounts [OF sample_history sample_shop_sound] by blast

text \<open>C6: in every state that the wallet services reach, the balances of a wallet are the sums of its journal and not
  negative, its held money is what reserved orders and open withdrawals add up to, every credited top-up is in
  the journal exactly once, and the revenue applied to the wallet is its revenue postings less its debt.\<close>

theorem wallet_ledger_sound:
  assumes "ledger_step\<^sup>*\<^sup>* db db'" and "wallet_sound db" and "w \<in> set (wallets db')"
  shows "balance_ok (journal db') w
    \<and> gw_held w = held_by_orders (gw_id w) (holds db') + held_by_cashouts (gw_id w) (withdrawals db')
    \<and> topup_credits_ok (topups db') (journal db')
    \<and> 0 \<le> gw_debt w \<and> applied_to (gw_id w) (projections db') = revenue_in (gw_id w) (journal db') - gw_debt w"
proof -
  have "wallet_sound db'" using ledger.steps_good [OF assms(1,2)] .
  then show ?thesis using assms(3) unfolding wallet_sound_def ledger_inv_def debts_ok_def by blast
qed

lemma sample_wallet_after: "find_wallet sample_wallet (snd pay_request) \<noteq> None"
  by code_simp

lemma wallet_ledger_sound_witness:
  "\<exists>w\<in>set (wallets (snd pay_request)). balance_ok (journal (snd pay_request)) w"
proof -
  obtain w where "w \<in> set (wallets (snd pay_request))"
    using sample_wallet_after by (auto simp: find_wallet_def dest: find_SomeD)
  with wallet_ledger_sound [OF sample_history sample_shop_sound this] show ?thesis by blast
qed

text \<open>C3: a successful checkout of a pending order takes exactly its price from the free money of the buyer's wallet (nothing
  more when the price was already held), spends the slot of the order, leaves every other wallet alone, confirms
  and fulfils the order with one internal settlement, and paying again returns the same receipt and changes nothing.\<close>

theorem checkout_exact:
  assumes "pay_txn fulfill fresh buyer r now db = Inr (receipt, db')" and "find_order r db = Some x"
    and "or_status x = ''pending_payment''" and "fulfilment_ok fulfill" and "wallet_sound db"
    and "find_settlement (fresh ''settlement'') db = None"
  shows "\<exists>w. wallet_of_buyer buyer db = Some w
    \<and> account_of (gw_id w) db'
      = \<lparr>ac_free = ac_free (account_of (gw_id w) db) - (if hold_of_order r db = None then or_payable_amount x else 0),
         ac_slots = (ac_slots (account_of (gw_id w) db))(Order_slot r \<mapsto> Spent (or_payable_amount x))\<rparr>
    \<and> (\<forall>i. i \<noteq> gw_id w \<longrightarrow> account_of i db' = account_of i db)
    \<and> find_order r db' = Some (paid_order fresh now x) \<and> settlements db' = settlements db @ [paid_settlement fresh now x]
    \<and> pay_txn fulfill fresh' buyer r now' db' = Inr (receipt, db')"
proof -
  have i: "or_id x = r" by (rule find_order_id [OF assms(2)])
  obtain w db1 current h db2 where p: "or_buyer_id x = buyer" "wallet_of_buyer buyer db = Some w" "ensure_hold w x now db = Inr db1"
      "post_journal now (capture_posting (gw_id w) r (or_payable_amount x)) db1 = Inr db2"
      "same_wallet db2 db'" "find_order r db' = Some (paid_order fresh now x)"
      "settlements db' = settlements db @ [paid_settlement fresh now x]" "receipt = checkout_receipt_of x"
    by (rule pay_txn_paid [OF assms(1-4)])
  have k: "keys_ok db1" by (rule sound_move_keys [OF ensure_hold_sound [OF p(3)] assms(5)])
  have a: "account_of j db' = (if j = gw_id w
      then (account_of j db1)\<lparr>ac_slots := (ac_slots (account_of j db1))(Order_slot r \<mapsto> Spent (or_payable_amount x))\<rparr>
      else account_of j db1)" for j
    using capture_posting_account(1) [OF p(4) k, of j] same_wallet_account [OF p(5), of j] by simp
  have "pay_txn fulfill fresh' buyer r now' db' = Inr (receipt, db')"
    using replay_of_payment [OF assms] p(1,6,8) by (simp add: pay_txn_def paid_order_def checkout_receipt_of_def)
  moreover have "account_of (gw_id w) db'
      = \<lparr>ac_free = ac_free (account_of (gw_id w) db) - (if hold_of_order r db = None then or_payable_amount x else 0),
         ac_slots = (ac_slots (account_of (gw_id w) db))(Order_slot r \<mapsto> Spent (or_payable_amount x))\<rparr>"
    by (cases "account_of (gw_id w) db") (simp add: a ensure_hold_account [OF p(3)] i)
  moreover have "j \<noteq> gw_id w \<Longrightarrow> account_of j db' = account_of j db" for j
    by (simp add: a ensure_hold_account [OF p(3)])
  ultimately show ?thesis using p(2,6,7) by blast
qed

lemma sample_order_row: "case find_order sample_order sample_shop of None \<Rightarrow> False | Some x \<Rightarrow> or_status x = ''pending_payment''"
  and sample_no_settlement: "find_settlement ''settlement'' sample_shop = None"
  and sample_pays: "is_ok (pay_txn marks_fulfilled (\<lambda>k. k) sample_buyer sample_order 9 sample_shop)"
  by code_simp+

lemma checkout_exact_witness:
  "\<exists>rc db'. pay_txn marks_fulfilled (\<lambda>k. k) sample_buyer sample_order 9 sample_shop = Inr (rc, db')
     \<and> pay_txn marks_fulfilled (\<lambda>k. k) sample_buyer sample_order 10 db' = Inr (rc, db')"
proof -
  obtain x where x: "find_order sample_order sample_shop = Some x" "or_status x = ''pending_payment''"
    using sample_order_row by (auto split: option.splits)
  obtain rc db' where p: "pay_txn marks_fulfilled (\<lambda>k. k) sample_buyer sample_order 9 sample_shop = Inr (rc, db')"
    using sample_pays by (auto simp: is_ok_iff)
  from checkout_exact [OF p x marks_fulfilled_ok sample_shop_sound sample_no_settlement, of "\<lambda>k. k" 10] p show ?thesis by blast
qed

text \<open>C4: in every history a paid withdrawal was claimed and closed by the same administrator, who is not its owner and had a
  proof of the very recipient, and it carries the reference of a bank transfer that no other request has.\<close>

theorem cashout_dual_control:
  assumes "ledger_step\<^sup>*\<^sup>* db db'" and "wallet_sound db" and "r \<in> set (withdrawals db')" and "wd_status r = ''PAID''"
  shows "\<exists>a b. wd_admin_id r = Some a \<and> a \<noteq> wd_owner_id r \<and> (\<exists>p\<in>set (verifications db'). claim_proved r a p)
    \<and> (\<exists>e\<in>set (withdrawal_events db'). event_of r a ''PROCESSING'' e) \<and> (\<exists>e\<in>set (withdrawal_events db'). event_of r a ''PAID'' e)
    \<and> wd_bank_ref r = Some b \<and> truthy (js_trim b) \<and> wd_transferred_at r \<noteq> None
    \<and> (\<forall>s\<in>set (withdrawals db'). wd_bank_ref s = Some b \<longrightarrow> wd_id s = wd_id r)"
proof -
  have c: "cashouts_ok db'" using ledger.steps_good [OF assms(1,2)] by (simp add: wallet_sound_def)
  have "claimed_ok (set (withdrawal_events db')) (set (verifications db')) r"
    using c assms(3,4) unfolding cashouts_ok_def claims_ok_def in_hand_def by blast
  then obtain a b where a: "wd_admin_id r = Some a" "a \<noteq> wd_owner_id r" "\<exists>p\<in>set (verifications db'). claim_proved r a p"
      "\<exists>e\<in>set (withdrawal_events db'). event_of r a ''PROCESSING'' e" "\<exists>e\<in>set (withdrawal_events db'). event_of r a ''PAID'' e"
      "wd_bank_ref r = Some b" "truthy (js_trim b)" "wd_transferred_at r \<noteq> None"
    unfolding claimed_ok_iff assms(4) by auto
  have "wd_id s = wd_id r" if "s \<in> set (withdrawals db')" "wd_bank_ref s = Some b" for s
    using c that assms(3) a(6) unfolding cashouts_ok_def refs_ok_def by fastforce
  with a show ?thesis by blast
qed

lemma sample_request_paid:
  "case find_withdrawal ''d1'' (snd pay_request) of None \<Rightarrow> False | Some r \<Rightarrow> wd_status r = ''PAID''"
  by code_simp

lemma cashout_dual_control_witness:
  "\<exists>r\<in>set (withdrawals (snd pay_request)). wd_status r = ''PAID'' \<and> (\<exists>a. wd_admin_id r = Some a \<and> a \<noteq> wd_owner_id r)"
proof -
  obtain r where r: "r \<in> set (withdrawals (snd pay_request))" "wd_status r = ''PAID''"
    using sample_request_paid by (auto simp: find_withdrawal_def dest: find_SomeD split: option.splits)
  with cashout_dual_control [OF sample_history sample_shop_sound r] show ?thesis by blast
qed

section \<open>Revenue\<close>

lemma insert_effect_projection:
  assumes "insert_effect now x db = Inr db'" and "debts_ok db" and "p \<in> set (projections db)" and "re_projection_id x = rp_id p"
  shows "p\<lparr>rp_applied := rp_applied p + re_delta x, rp_revision := re_revision x\<rparr> \<in> set (projections db') \<and> entries db' = entries db"
proof -
  have f: "find_projection (rp_id p) db = Some p"
    using assms(2,3) unfolding find_projection_def debts_ok_def by (intro find_row) auto
  then obtain debt cash where "db' = advance p x debt db \<or> post_journal now (revenue_posting p x cash) (advance p x debt db) = Inr db'"
    using assms(1,4) by (auto simp: insert_effect_def result_simps Let_def split: if_splits)
  moreover have "post_journal now j d = Inr db' \<Longrightarrow> projections db' = projections d \<and> entries db' = entries d" for j d
    using post_journal_rest(7,8) by blast
  moreover have "p\<lparr>rp_applied := rp_applied p + re_delta x, rp_revision := re_revision x\<rparr> \<in> set (projections (advance p x debt db))"
    using assms(3) by (auto simp: advance_def set_update_where image_iff intro!: bexI [of _ p])
  moreover have "entries (advance p x debt db) = entries db" by (simp add: advance_def)
  ultimately show ?thesis by metis
qed

lemma post_net_settles:
  assumes "post_net fresh now p net i db = Inr db'" and "debts_ok db" and "p \<in> set (projections db)"
  shows "entries db' = entries db \<and> (\<exists>q\<in>set (projections db'). rp_period_id q = rp_period_id p
    \<and> (rp_review_required q \<or> rp_historical q + rp_applied q = net))"
proof (cases "rp_review_required p \<or> net - rp_historical p - rp_applied p = 0")
  case True
  with assms(1) have "db' = db" by (auto simp: post_net_def result_simps Let_def split: if_splits)
  with True assms(3) show ?thesis by auto
next
  case False
  let ?d = "net - rp_historical p - rp_applied p"
  from assms(1) False obtain x where x: "insert_effect now x db = Inr db'" "re_projection_id x = rp_id p" "re_delta x = ?d"
    by (auto simp: post_net_def post_difference_def result_simps Let_def split: if_splits)
  from insert_effect_projection [OF x(1) assms(2,3) x(2)] x(3) show ?thesis
    by (auto intro!: bexI [of _ "p\<lparr>rp_applied := rp_applied p + re_delta x, rp_revision := re_revision x\<rparr>"])
qed

lemma project_period_settles:
  assumes "project_period fresh now i db = Inr db'" and "wallet_sound db" and "ws_processing (wd_settings db)"
    and "list_ex (\<lambda>e. le_kind e = ''recognized'') (recognized_rows i db)"
  shows "entries db' = entries db \<and> (\<exists>q\<in>set (projections db'). rp_period_id q = i
    \<and> (rp_review_required q \<or> rp_historical q + rp_applied q = sum_kinds net_kind (recognized_rows i db)))"
proof -
  obtain e where e: "find (\<lambda>e. le_kind e = ''recognized'') (recognized_rows i db) = Some e"
    using assms(4) find_ex by (metis list_ex_iff not_Some_eq)
  from assms(1,3) e obtain b w p db2 where s: "wallet_projection fresh i e w (create_wallet (fresh ''wallet'') b db) = Inr (p, db2)"
      and d: "post_net fresh now p (sum_kinds net_kind (recognized_rows i db)) (gw_id w) db2 = Inr db'"
    by (auto simp: project_period_def result_simps Let_def)
  have "wallet_sound db2"
    using sound_move_trans [OF create_wallet_sound projection_row_sound(1) [OF s]] assms(2) by (simp add: sound_move_def)
  then have dd: "debts_ok db2" by (simp add: wallet_sound_def)
  have "entries db2 = entries db" using projection_row_sound(4) [OF s] by (simp add: create_wallet_def)
  with post_net_settles [OF d dd] projection_row_sound(2) [OF s] show ?thesis by simp
qed

lemma project_period_entries: "project_period fresh now i db = Inr db' \<Longrightarrow> entries db' = entries db"
proof -
  note j = post_journal_rest(8)
  have x: "insert_effect n x d = Inr d' \<Longrightarrow> entries d' = entries d" for n x d d'
    by (auto simp: insert_effect_def result_simps Let_def advance_def dest: j split: if_splits)
  assume "project_period fresh now i db = Inr db'"
  then consider "db' = db" | b w e p net db2 where
      "wallet_projection fresh i e w (create_wallet (fresh ''wallet'') b db) = Inr (p, db2)" "post_net fresh now p net (gw_id w) db2 = Inr db'"
    by (auto simp: project_period_def result_simps Let_def split: option.splits if_splits)
  then show ?thesis
  proof cases
    case 2
    have "entries db' = entries db2"
      using 2(2) by (auto simp: post_net_def post_difference_def result_simps Let_def dest: x split: if_splits)
    with projection_row_sound(4) [OF 2(1)] show ?thesis by (simp add: create_wallet_def)
  qed simp
qed

text \<open>C13: after a synchronisation of an earning period whose revenue was recognized, what the wallet has received for it plus what was
  paid before the wallet existed is exactly the recognized revenue less its refunds, unless the period waits for a review.\<close>

theorem revenue_sync_settles:
  assumes "sync_period bank_on fp fresh now i reconcile db = Inr db'" and "wallet_sound db"
    and "ws_processing (wd_settings db)" and "list_ex (\<lambda>e. le_kind e = ''recognized'') (recognized_rows i db')"
  shows "wallet_sound db' \<and> (\<exists>q\<in>set (projections db'). rp_period_id q = i
    \<and> (rp_review_required q \<or> rp_historical q + rp_applied q = sum_kinds net_kind (recognized_rows i db')))"
proof -
  obtain db1 where r: "db1 = db \<or> (\<exists>ok. reconcile_wallet_period bank_on fp now i db = Inr (ok, db1))"
    and p: "project_period fresh now i db1 = Inr db'"
    using assms(1) by (auto simp: sync_period_def result_simps split: if_splits)
  have s1: "wallet_sound db1" and w1: "ws_processing (wd_settings db1)"
    using r reconcile_sound assms(2,3) by (auto simp: sound_move_def)
  have "entries db' = entries db1"
    using p project_period_entries by blast
  with assms(4) have "recognized_rows i db' = recognized_rows i db1" by (simp add: recognized_rows_def)
  with project_period_settles [OF p s1 w1] assms(4) project_period_sound [OF p] s1 show ?thesis
    by (simp add: sound_move_def)
qed

definition sample_revenue :: shop_db where
  "sample_revenue = empty_shop
     \<lparr>orders := [\<lparr>or_id = ''o1'', or_buyer_id = ''b'', or_status = ''confirmed'', or_fulfillment_status = ''fulfilled'',
        or_currency = ''VND'', or_payable_amount = 100, or_confirmed_settlement_id = Some ''s1'', or_confirmed_at = Some 1,
        or_created_at = 1, or_term_months = None\<rparr>],
      settlements := [\<lparr>st_id = ''s1'', st_order_id = ''o1'', st_attempt_id = None, st_event_id = None, st_kind = ''wallet_capture'',
        st_disposition = ''internal'', st_provider = Some ''gds'', st_reference = None, st_amount = 100, st_currency = ''VND'',
        st_settled_at = 1\<rparr>],
      wd_settings := wd_settings sample_shop,
      snapshots := [\<lparr>sn_id = ''n1'', sn_order_id = ''o1'', sn_product_type = ''course'', sn_policy_id = ''p'', sn_fee_bps = 1000,
        sn_basis = 100, sn_platform = 10, sn_seller = 90, sn_participants = []\<rparr>],
      periods := [\<lparr>ep_id = ''e1'', ep_snapshot_id = ''n1'', ep_seller_id = ''t'', ep_course_id = ''c'', ep_index = 0, ep_due_at = 2,
        ep_amount = 90\<rparr>],
      entries := [\<lparr>le_period_id = ''e1'', le_source_key = ''k1'', le_refund_id = None, le_kind = ''recognized'', le_amount = 90,
        le_created_at = 3\<rparr>]\<rparr>"

definition sample_synced :: "shop_db result" where
  "sample_synced = sync_period False (\<lambda>n k. n) (\<lambda>k. k) 9 ''e1'' False sample_revenue"

lemma sample_synced_ok:
  "case sample_synced of Inl e \<Rightarrow> False | Inr db \<Rightarrow> list_ex (\<lambda>e. le_kind e = ''recognized'') (recognized_rows ''e1'' db)"
  "wallet_sound sample_revenue \<and> ws_processing (wd_settings sample_revenue)"
  by code_simp+

lemma revenue_sync_settles_witness:
  "\<exists>db'. sample_synced = Inr db' \<and> (\<exists>q\<in>set (projections db'). rp_period_id q = ''e1''
    \<and> (rp_review_required q \<or> rp_historical q + rp_applied q = sum_kinds net_kind (recognized_rows ''e1'' db')))"
proof -
  obtain db' where p: "sample_synced = Inr db'" "list_ex (\<lambda>e. le_kind e = ''recognized'') (recognized_rows ''e1'' db')"
    using sample_synced_ok(1) by (auto split: sum.splits)
  from revenue_sync_settles [OF p(1) [unfolded sample_synced_def] _ _ p(2)] sample_synced_ok(2) p(1) show ?thesis by blast
qed

section \<open>Retrying\<close>

lemma retry_loop_outcome:
  "\<exists>k\<le>n. retry_loop retry ex a (Suc n) body s = body (a + k) s \<and> (\<forall>j<k. \<exists>e. body (a + j) s = Inl e \<and> retry e)
    \<and> (k < n \<longrightarrow> (\<forall>e. body (a + k) s = Inl e \<longrightarrow> \<not> retry e))"
proof (induction n arbitrary: a)
  case 0
  show ?case by (auto split: sum.splits)
next
  case (Suc n)
  show ?case
  proof (cases "\<exists>e. body a s = Inl e \<and> retry e")
    case True
    then have "retry_loop retry ex a (Suc (Suc n)) body s = retry_loop retry ex (Suc a) (Suc n) body s" by auto
    with Suc.IH [of "Suc a"] obtain k where k: "k \<le> n" "retry_loop retry ex a (Suc (Suc n)) body s = body (Suc a + k) s"
        "\<forall>j<k. \<exists>e. body (Suc a + j) s = Inl e \<and> retry e" "k < n \<longrightarrow> (\<forall>e. body (Suc a + k) s = Inl e \<longrightarrow> \<not> retry e)"
      by metis
    have "\<exists>e. body (a + j) s = Inl e \<and> retry e" if "j < Suc k" for j
      using that True k(3) by (cases j) auto
    with k show ?thesis by (intro exI [of _ "Suc k"]) simp
  next
    case False
    then show ?thesis by (intro exI [of _ 0]) (auto split: sum.splits)
  qed
qed

text \<open>C28: a transaction of the wallet always comes to an end: it answers with the outcome of one of its first four attempts, all
  attempts before that failed with a transient conflict, and unless it was the last attempt that outcome is not a
  transient conflict.  Transient are exactly the Prisma conflicts \<^verbatim>\<open>P2034\<close> and \<^verbatim>\<open>P2002\<close>, a
  raw query (\<^verbatim>\<open>P2010\<close> or \<^verbatim>\<open>P2039\<close>) whose serialization failure is reported by its meta code, the
  original code or the kind of the driver adapter's error, and a write conflict of the driver adapter.\<close>

theorem finance_transaction_bounded:
  "(\<exists>k\<le>3. finance_transaction aborts body db = aborting aborts body k db
    \<and> (\<forall>j<k. \<exists>e. aborting aborts body j db = Inl e \<and> transient_conflict e)
    \<and> (k < 3 \<longrightarrow> (\<forall>e. aborting aborts body k db = Inl e \<longrightarrow> \<not> transient_conflict e)))
   \<and> (\<forall>e. is_retryable_gds_transaction (failure_of e) = transient_conflict e)
   \<and> \<not> is_retryable_gds_transaction None"
  using retry_loop_outcome [of 3 retryable_gds "PrismaError ''P2034''" 0 "aborting aborts body" db]
  by (simp add: finance_transaction_def numeral_eq_Suc retryable_gds_iff is_retryable_gds_transaction_def [of None]
      flip: retryable_gds_def)

text \<open>The examples of the tests, one at each attempt.\<close>

definition aborts_twice :: "nat \<Rightarrow> api_error option" where
  "aborts_twice k =
     (if k = 0 then Some (RawQueryError P2010 (Some ''40001'') None None)
      else if k = 1 then Some (DriverAdapterError (Some ''TransactionWriteConflict'')) else None)"

lemma finance_transaction_bounded_witness:
  "finance_transaction aborts_twice (\<lambda>s. Inr ((), s)) empty_shop = Inr ((), empty_shop)
   \<and> is_retryable_gds_transaction (failure_of (RawQueryError P2039 None (Some ''40001'') None))
   \<and> \<not> is_retryable_gds_transaction (failure_of (RawQueryError P2010 (Some ''23514'') None None))"
proof -
  have all: "\<forall>e. is_retryable_gds_transaction (failure_of e) = transient_conflict e"
    using finance_transaction_bounded by blast
  obtain k where k: "k \<le> 3" "finance_transaction aborts_twice (\<lambda>s. Inr ((), s)) empty_shop = aborting aborts_twice (\<lambda>s. Inr ((), s)) k empty_shop"
      "k < 3 \<longrightarrow> (\<forall>e. aborting aborts_twice (\<lambda>s. Inr ((), s)) k empty_shop = Inl e \<longrightarrow> \<not> transient_conflict e)"
    using finance_transaction_bounded [of aborts_twice "\<lambda>s. Inr ((), s)" empty_shop] by blast
  have "k \<noteq> 0" by (rule notI) (use k(3) in \<open>simp add: aborting_def aborts_twice_def\<close>)
  moreover have "k \<noteq> 1" by (rule notI) (use k(3) in \<open>simp add: aborting_def aborts_twice_def\<close>)
  ultimately have "aborts_twice k = None" by (simp add: aborts_twice_def)
  with k(2) have "finance_transaction aborts_twice (\<lambda>s. Inr ((), s)) empty_shop = Inr ((), empty_shop)"
    by (simp add: aborting_def)
  then show ?thesis unfolding all [rule_format] by simp
qed

end
