(* ===== verification/Service_Entitlements.thy ===== *)
theory Service_Entitlements
  imports Course_Access Commerce_Db Quiz_Answers "HOL-Library.AList"
begin

text \<open>
  Service entitlements (\<^verbatim>\<open>memberships/service-entitlement.service.ts\<close>): which entitlements a user
  has, how much of a quota is left and the use of it, with the triggers and constraints of its tables
  (migrations \<^verbatim>\<open>add_service_entitlements\<close> and \<^verbatim>\<open>add_receipt_quota_pools\<close>).  A remaining quota is an
  integer here and its decimal text in the code.
\<close>

section \<open>Tables\<close>

definition grant_row_ok :: "service_grant \<Rightarrow> bool" where
  "grant_row_ok g =
     (is_ok (normalize_entitlement_value (sg_value_type g) (sg_reset g) (sg_boolean g) (sg_quota g))
      \<and> (case sg_ends_at g of None \<Rightarrow> True | Some e \<Rightarrow> sg_starts_at g < e))"

definition matches_definition :: "service_grant \<Rightarrow> rights_db \<Rightarrow> bool" where
  "matches_definition g db =
     (case find (\<lambda>d. df_id d = sg_definition_id g) (definitions db) of None \<Rightarrow> False
      | Some d \<Rightarrow> df_value_type d = sg_value_type g \<and> df_reset d = sg_reset g)"

definition pool_snapshot :: "quota_pool \<Rightarrow> service_grant \<Rightarrow> bool" where
  "pool_snapshot p g =
     (sg_user_id g = qp_user_id p \<and> sg_definition_id g = qp_definition_id p \<and> sg_value_type g = qp_value_type p
      \<and> sg_reset g = qp_reset p \<and> sg_boolean g = qp_boolean p \<and> sg_quota g = qp_quota p
      \<and> sg_starts_at g = qp_starts_at p \<and> sg_ends_at g = qp_ends_at p)"

definition generation_source :: "string \<Rightarrow> string \<Rightarrow> bool" where
  "generation_source line source =
     (list_all (\<lambda>c. hex_char_i c \<or> c = CHR ''-'') (take 36 source) \<and> drop 36 source = '':'' @ line)"

definition pool_allows :: "service_grant \<Rightarrow> rights_db \<Rightarrow> bool" where
  "pool_allows g db =
     (case sg_pool_id g of
        None \<Rightarrow>
          \<not> (sg_source_type g = ''UNVERIFIED_RECEIPT_ACCESS''
             \<or> sg_source_type g = ''membership''
               \<and> list_ex (\<lambda>p. qp_line_id p = sg_source_id g \<and> qp_definition_id p = sg_definition_id g) (quota_pools db))
      | Some i \<Rightarrow>
          (case find (\<lambda>p. qp_id p = i) (quota_pools db) of None \<Rightarrow> False
           | Some p \<Rightarrow> pool_snapshot p g
               \<and> (sg_source_type g = ''membership'' \<and> sg_source_id g = qp_line_id p
                  \<or> sg_source_type g = ''UNVERIFIED_RECEIPT_ACCESS'' \<and> generation_source (qp_line_id p) (sg_source_id g))))"

definition service_key :: "service_grant \<Rightarrow> string \<times> string \<times> string \<times> string" where
  "service_key g = (sg_user_id g, sg_definition_id g, sg_source_type g, sg_source_id g)"

text \<open>Inserting a grant; a row with the key of another one is skipped or refused.\<close>

definition insert_service_grant :: "bool \<Rightarrow> service_grant \<Rightarrow> rights_db \<Rightarrow> rights_db result" where
  "insert_service_grant skip_duplicates g db =
     throw_if (\<not> pool_allows g db)
       (DatabaseError ''receipt service grant must match its quota pool snapshot and order line'') (
     throw_if (\<not> matches_definition g db)
       (DatabaseError ''service entitlement grant semantics must match its stable definition'') (
     throw_if (\<not> grant_row_ok g) (DatabaseError ''service_entitlement_grants_value_check'') (
     if list_ex (\<lambda>x. service_key x = service_key g) (service_grants db)
     then throw_if (\<not> skip_duplicates) (PrismaError ''P2002'') (Inr db)
     else throw_if (list_ex (\<lambda>x. sg_id x = sg_id g) (service_grants db)) (PrismaError ''P2002'')
       (Inr (db\<lparr>service_grants := service_grants db @ [g]\<rparr>)))))"

section \<open>Reading entitlements\<close>

record entitlement_env =
  ee_node_env :: string
  ee_process_env :: "string \<Rightarrow> string option"
  ee_secret :: "string option"
  ee_hmac :: "string \<Rightarrow> string \<Rightarrow> string"
  ee_sha256 :: "string \<Rightarrow> string"

fun asc_nulls_last :: "int option \<Rightarrow> int option \<Rightarrow> int" where
  "asc_nulls_last None None = 0"
| "asc_nulls_last None (Some b) = 1"
| "asc_nulls_last (Some a) None = -1"
| "asc_nulls_last (Some a) (Some b) = (if a < b then -1 else if b < a then 1 else 0)"

definition soonest_end :: "service_grant \<Rightarrow> service_grant \<Rightarrow> int" where
  "soonest_end a b =
     (let e = asc_nulls_last (sg_ends_at a) (sg_ends_at b) in
      if e \<noteq> 0 then e
      else if sg_created_at a \<noteq> sg_created_at b then (if sg_created_at a < sg_created_at b then -1 else 1)
      else if sg_id a < sg_id b then -1 else if sg_id b < sg_id a then 1 else 0)"

definition in_force :: "string \<Rightarrow> int \<Rightarrow> service_grant \<Rightarrow> bool" where
  "in_force user moment g =
     (sg_user_id g = user \<and> sg_status g = ''active'' \<and> sg_starts_at g \<le> moment
      \<and> (sg_ends_at g = None \<or> after moment (sg_ends_at g)))"

definition definition_of :: "service_grant \<Rightarrow> rights_db \<Rightarrow> entitlement_definition option" where
  "definition_of g db = find (\<lambda>d. df_id d = sg_definition_id g) (definitions db)"

definition for_code :: "string option \<Rightarrow> rights_db \<Rightarrow> service_grant \<Rightarrow> bool" where
  "for_code code db g =
     (opt_truthy code \<longrightarrow> (case definition_of g db of None \<Rightarrow> False | Some d \<Rightarrow> Some (df_code d) = code))"

definition early_source :: "service_grant \<Rightarrow> bool" where
  "early_source g = (sg_source_type g = ''UNVERIFIED_RECEIPT_ACCESS'')"

text \<open>The effects of active generations, by the grant they created.\<close>

definition early_allowed :: "string \<Rightarrow> rights_db \<Rightarrow> service_grant \<Rightarrow> bool" where
  "early_allowed user db g =
     (let mine = filter (\<lambda>x. rx_resource_type x = ''service_entitlement_grant'' \<and> rx_resource_id x = sg_id g
            \<and> list_ex (\<lambda>n. rg_id n = rx_generation_id x \<and> rg_status n = ''ACCESS_UNVERIFIED'' \<and> rg_buyer_id n = user)
                (generations (learning db))) (receipt_effects (learning db)) in
      sg_pool_id g \<noteq> None \<and> mine \<noteq> []
      \<and> rx_generation_id (last mine) @ '':'' @ rx_order_line_id (last mine) = sg_source_id g)"

definition active_grants :: "entitlement_env \<Rightarrow> string \<Rightarrow> string option \<Rightarrow> int \<Rightarrow> rights_db \<Rightarrow> service_grant list" where
  "active_grants env user code moment db =
     (let gs = js_sort soonest_end (filter (\<lambda>g. in_force user moment g \<and> for_code code db g) (service_grants db)) in
      if \<not> list_ex early_source gs then gs
      else if \<not> receipt_early_access_enabled (ee_node_env env) (ee_process_env env) user
      then filter (\<lambda>g. \<not> early_source g) gs
      else filter (\<lambda>g. \<not> early_source g \<or> early_allowed user db g) gs)"

record entitlement_decision =
  dn_code :: string
  dn_display_name :: string
  dn_description :: "string option"
  dn_unit_label :: "string option"
  dn_value_type :: string
  dn_reset :: string
  dn_allowed :: bool
  dn_reason :: string
  dn_remaining :: "int option"
  dn_starts_at :: int
  dn_ends_at :: "int option"

fun show_value_type :: "entitlement_value_type \<Rightarrow> string" where
  "show_value_type BooleanValue = ''BOOLEAN''"
| "show_value_type Metered = ''METERED''"
| "show_value_type Unlimited = ''UNLIMITED''"

fun show_reset :: "entitlement_reset_period \<Rightarrow> string" where
  "show_reset NoReset = ''NONE''"
| "show_reset CalendarMonth = ''CALENDAR_MONTH''"
| "show_reset MembershipTerm = ''MEMBERSHIP_TERM''"

text \<open>Usage of a quota: the one of the grant, or of all grants that share its pool.\<close>

definition shares_quota :: "service_grant \<Rightarrow> rights_db \<Rightarrow> entitlement_usage \<Rightarrow> bool" where
  "shares_quota g db u =
     (if sg_pool_id g \<noteq> None
      then list_ex (\<lambda>x. sg_id x = eu_grant_id u \<and> sg_pool_id x = sg_pool_id g) (service_grants db)
      else eu_grant_id u = sg_id g)"

definition used_quota :: "service_grant \<Rightarrow> int \<times> int option \<Rightarrow> rights_db \<Rightarrow> int" where
  "used_quota g w db =
     sum_list (map eu_quantity (filter (\<lambda>u. shares_quota g db u \<and> eu_starts_at u = fst w \<and> eu_ends_at u = snd w) (usages db)))"

definition grant_decision :: "service_grant \<Rightarrow> int \<Rightarrow> rights_db \<Rightarrow> entitlement_decision result" where
  "grant_decision g moment db =
     (let w = entitlement_usage_window (sg_reset g) (sg_starts_at g) (sg_ends_at g) moment in
      some_or (PlainError ''definition'') (definition_of g db) (\<lambda>d.
      let decided = (\<lambda>allowed remaining.
            \<lparr>dn_code = df_code d, dn_display_name = df_display_name d, dn_description = df_description d,
             dn_unit_label = df_unit_label d, dn_value_type = show_value_type (sg_value_type g),
             dn_reset = show_reset (sg_reset g), dn_allowed = allowed,
             dn_reason = (if allowed then ''ENTITLEMENT_ACTIVE'' else ''ENTITLEMENT_DISABLED_OR_EXHAUSTED''),
             dn_remaining = remaining, dn_starts_at = fst w, dn_ends_at = snd w\<rparr>) in
      if sg_value_type g = Metered then
        some_or (PlainError ''TypeError'') (sg_quota g) (\<lambda>q.
        let available = q - used_quota g w db in
        Inr (decided (0 < available) (Some (if 0 < available then available else 0))))
      else Inr (decided (sg_value_type g \<noteq> BooleanValue \<or> sg_boolean g = Some True) None)))"

definition keep_better :: "(string \<times> entitlement_decision) list \<Rightarrow> entitlement_decision \<Rightarrow> (string \<times> entitlement_decision) list" where
  "keep_better seen d =
     (case map_of seen (dn_code d) of
        None \<Rightarrow> AList.update (dn_code d) d seen
      | Some current \<Rightarrow>
          if \<not> dn_allowed current \<and> dn_allowed d then AList.update (dn_code d) d seen else seen)"

definition list_for_user :: "entitlement_env \<Rightarrow> string \<Rightarrow> int \<Rightarrow> rights_db \<Rightarrow> entitlement_decision list result" where
  "list_for_user env user moment db =
     and_then (map_result (\<lambda>g. grant_decision g moment db) (active_grants env user None moment db)) (\<lambda>ds.
     Inr (map snd (foldl keep_better [] ds)))"

datatype entitlement_resolution = Denied string | Decided entitlement_decision

definition resolve_entitlement :: "entitlement_env \<Rightarrow> string \<Rightarrow> string \<Rightarrow> int \<Rightarrow> rights_db \<Rightarrow> entitlement_resolution result" where
  "resolve_entitlement env user code moment db =
     (let c = js_upper (js_trim code); gs = active_grants env user (Some c) moment db in
      if gs = [] then Inr (Denied c)
      else and_then (map_result (\<lambda>g. grant_decision g moment db) gs) (\<lambda>ds.
        Inr (Decided (case find dn_allowed ds of Some d \<Rightarrow> d | None \<Rightarrow> ds ! 0))))"

section \<open>Provisioning and use\<close>

record provision_input =
  pi_user_id :: string
  pi_version_id :: string
  pi_source_type :: string
  pi_source_id :: string
  pi_starts_at :: int
  pi_ends_at :: "int option"

text \<open>\<^verbatim>\<open>/^[A-Z][A-Z0-9_]{1,63}$/\<close>\<close>

definition is_source_type :: "string \<Rightarrow> bool" where
  "is_source_type s =
     (case s of [] \<Rightarrow> False
      | c # cs \<Rightarrow> upper_char c \<and> 1 \<le> length cs \<and> length cs \<le> 63
          \<and> list_all (\<lambda>x. upper_char x \<or> digit_char x \<or> x = CHR ''_'') cs)"

definition by_string :: "('a \<Rightarrow> string) \<Rightarrow> 'a \<Rightarrow> 'a \<Rightarrow> int" where
  "by_string k a b = (if k a < k b then -1 else if k b < k a then 1 else 0)"

definition provisioned :: "(string \<Rightarrow> string) \<Rightarrow> provision_input \<Rightarrow> int \<Rightarrow> plan_entitlement \<Rightarrow> service_grant" where
  "provisioned fresh i now e =
     \<lparr>sg_id = fresh (pn_definition_id e), sg_user_id = pi_user_id i, sg_definition_id = pn_definition_id e,
      sg_source_type = pi_source_type i, sg_source_id = pi_source_id i, sg_value_type = pn_value_type e,
      sg_reset = pn_reset e, sg_boolean = pn_boolean e, sg_quota = pn_quota e, sg_pool_id = None,
      sg_status = ''active'', sg_starts_at = pi_starts_at i, sg_ends_at = pi_ends_at i, sg_revoked_at = None,
      sg_created_at = now\<rparr>"

definition provision_from_plan_version ::
  "(string \<Rightarrow> string) \<Rightarrow> provision_input \<Rightarrow> int \<Rightarrow> (rights_db, service_grant list) txn" where
  "provision_from_plan_version fresh i now db =
     throw_if (\<not> is_source_type (pi_source_type i) \<or> pi_source_id i = [] \<or> 128 < length (pi_source_id i)
         \<or> (case pi_ends_at i of None \<Rightarrow> False | Some e \<Rightarrow> e \<le> pi_starts_at i))
       (BadRequestException ''Invalid service entitlement grant source or window.'') (
     let configured = js_sort (by_string pn_definition_id)
           (filter (\<lambda>e. pn_version_id e = pi_version_id i) (plan_entitlements db)) in
     if configured = [] then Inr ([], db)
     else
       and_then (fold_result (\<lambda>db e. insert_service_grant True (provisioned fresh i now e) db) db configured) (\<lambda>db'.
       Inr (js_sort (by_string (\<lambda>g. case definition_of g db' of None \<Rightarrow> [] | Some d \<Rightarrow> df_code d))
              (filter (\<lambda>g. sg_user_id g = pi_user_id i \<and> sg_source_type g = pi_source_type i
                 \<and> sg_source_id g = pi_source_id i \<and> sg_definition_id g \<in> set (map pn_definition_id configured))
                (service_grants db')), db')))"

text \<open>The trigger that guards a new use: it derives the window and the remaining quota again.\<close>

definition trigger_window :: "service_grant \<Rightarrow> int \<Rightarrow> int \<times> int option" where
  "trigger_window g moment =
     (if sg_reset g = CalendarMonth then
        (let month_start = date_utc (utc_full_year moment) (utc_month moment) 1;
             next_month = date_utc (utc_full_year moment) (utc_month moment + 1) 1 in
         (max (sg_starts_at g) month_start,
          Some (case sg_ends_at g of None \<Rightarrow> next_month | Some e \<Rightarrow> min e next_month)))
      else (sg_starts_at g, sg_ends_at g))"

definition usage_refusal :: "entitlement_usage \<Rightarrow> rights_db \<Rightarrow> string option" where
  "usage_refusal u db =
     (case find (\<lambda>g. sg_id g = eu_grant_id u) (service_grants db) of
        None \<Rightarrow> Some ''service entitlement usage must match its owning grant''
      | Some g \<Rightarrow>
          let w = trigger_window g (eu_created_at u); used = used_quota g w db in
          if sg_user_id g \<noteq> eu_user_id u \<or> sg_status g \<noteq> ''active'' \<or> eu_created_at u < sg_starts_at g
             \<or> (case sg_ends_at g of None \<Rightarrow> False | Some e \<Rightarrow> e \<le> eu_created_at u)
             \<or> (eu_starts_at u, eu_ends_at u) \<noteq> w
          then Some ''service entitlement usage must match its owning grant''
          else if sg_value_type g = BooleanValue \<and> sg_boolean g \<noteq> Some True
          then Some ''disabled service entitlement cannot be consumed''
          else if sg_value_type g = Metered
          then (if (case sg_quota g of None \<Rightarrow> False | Some q \<Rightarrow> q < used + eu_quantity u)
                then Some ''service entitlement quota exhausted''
                else if eu_remaining u \<noteq> map_option (\<lambda>q. q - used - eu_quantity u) (sg_quota g)
                then Some ''service entitlement remaining snapshot is inconsistent'' else None)
          else if eu_remaining u \<noteq> None
          then Some ''unmetered service entitlement cannot store a remaining quota'' else None)"

definition usage_refused :: "entitlement_usage \<Rightarrow> rights_db \<Rightarrow> bool" where
  "usage_refused u db = (usage_refusal u db \<noteq> None)"

definition usage_row_ok :: "entitlement_usage \<Rightarrow> bool" where
  "usage_row_ok u =
     (0 < eu_quantity u \<and> (case eu_remaining u of None \<Rightarrow> True | Some r \<Rightarrow> 0 \<le> r)
      \<and> (case eu_ends_at u of None \<Rightarrow> True | Some e \<Rightarrow> eu_starts_at u < e))"

definition insert_usage :: "entitlement_usage \<Rightarrow> rights_db \<Rightarrow> rights_db result" where
  "insert_usage u db =
     throw_if (usage_refused u db) (DatabaseError (the (usage_refusal u db))) (
     throw_if (\<not> usage_row_ok u) (DatabaseError ''service_entitlement_usage_quantity_check'') (
     throw_if (list_ex (\<lambda>x. eu_user_id x = eu_user_id u \<and> eu_key_hash x = eu_key_hash u) (usages db))
       (PrismaError ''P2002'') (
     Inr (db\<lparr>usages := usages db @ [u]\<rparr>))))"

record consumption =
  cn_code :: string
  cn_consumed :: int
  cn_remaining :: "int option"
  cn_idempotent :: bool
  cn_starts_at :: int
  cn_ends_at :: "int option"

definition operation_key_hash :: "entitlement_env \<Rightarrow> string \<Rightarrow> string result" where
  "operation_key_hash env key =
     throw_if (\<not> opt_truthy (ee_secret env)) (ServiceUnavailableException ''Service entitlement quota is unavailable.'')
       (Inr (ee_hmac env (the (ee_secret env)) key))"

definition entitlement_request_hash :: "entitlement_env \<Rightarrow> string \<Rightarrow> int \<Rightarrow> string" where
  "entitlement_request_hash env code quantity =
     ee_sha256 env (''{'' @ quote_json ''code'' @ '':'' @ quote_json (js_upper (js_trim code)) @ '',''
       @ quote_json ''quantity'' @ '':'' @ quote_json (show_int quantity) @ ''}'')"

definition consumption_of :: "string \<Rightarrow> bool \<Rightarrow> entitlement_usage \<Rightarrow> consumption" where
  "consumption_of code again u =
     \<lparr>cn_code = code, cn_consumed = eu_quantity u, cn_remaining = eu_remaining u, cn_idempotent = again,
      cn_starts_at = eu_starts_at u, cn_ends_at = eu_ends_at u\<rparr>"

fun consume_from ::
  "(service_grant \<Rightarrow> entitlement_decision \<Rightarrow> entitlement_usage) \<Rightarrow> string \<Rightarrow> int \<Rightarrow> int \<Rightarrow> service_grant list
   \<Rightarrow> (rights_db, consumption) txn" where
  "consume_from row code quantity moment [] db = Inl (ForbiddenException ''ENTITLEMENT_EXHAUSTED_OR_UNAVAILABLE'')"
| "consume_from row code quantity moment (g # gs) db =
     and_then (grant_decision g moment db) (\<lambda>d.
     if \<not> dn_allowed d \<or> (case dn_remaining d of None \<Rightarrow> False | Some r \<Rightarrow> r < quantity)
     then consume_from row code quantity moment gs db
     else and_then (insert_usage (row g d) db) (\<lambda>db'. Inr (consumption_of code False (row g d), db')))"

definition usage_row ::
  "string \<Rightarrow> string \<Rightarrow> string \<Rightarrow> int \<Rightarrow> int \<Rightarrow> service_grant \<Rightarrow> entitlement_decision \<Rightarrow> entitlement_usage" where
  "usage_row user key_hash request_hash quantity moment g d =
     \<lparr>eu_grant_id = sg_id g, eu_user_id = user, eu_key_hash = key_hash, eu_request_hash = request_hash,
      eu_quantity = quantity, eu_remaining = map_option (\<lambda>r. r - quantity) (dn_remaining d),
      eu_starts_at = dn_starts_at d, eu_ends_at = dn_ends_at d, eu_created_at = moment\<rparr>"

definition consume_txn ::
  "entitlement_env \<Rightarrow> string \<Rightarrow> string \<Rightarrow> int \<Rightarrow> string \<Rightarrow> string \<Rightarrow> int \<Rightarrow> (rights_db, consumption) txn" where
  "consume_txn env user code quantity key_hash request_hash moment db =
     (case find (\<lambda>u. eu_user_id u = user \<and> eu_key_hash u = key_hash) (usages db) of
        Some existing \<Rightarrow>
          throw_if (eu_request_hash existing \<noteq> request_hash) (ConflictException ''IDEMPOTENCY_KEY_REUSED'')
            (Inr (consumption_of code True existing, db))
      | None \<Rightarrow>
          consume_from (usage_row user key_hash request_hash quantity moment) code quantity moment
            (active_grants env user (Some code) moment db) db)"

definition consume ::
  "(nat \<Rightarrow> api_error option) \<Rightarrow> entitlement_env \<Rightarrow> string \<Rightarrow> string \<Rightarrow> int \<Rightarrow> string option \<Rightarrow> int
   \<Rightarrow> (rights_db, consumption) txn" where
  "consume aborts env user code quantity key moment db =
     throw_if (quantity \<le> 0 \<or> 9223372036854775807 < quantity) (BadRequestException ''INVALID_ENTITLEMENT_QUANTITY'') (
     throw_if (\<not> (case key of None \<Rightarrow> False | Some k \<Rightarrow> is_request_key k)) (BadRequestException ''INVALID_IDEMPOTENCY_KEY'') (
     and_then (operation_key_hash env (the key)) (\<lambda>key_hash.
     retry_loop (\<lambda>e. e = PrismaError ''P2034'') (PlainError ''Unreachable service entitlement transaction state.'') 0 3
       (aborting aborts (consume_txn env user (js_upper (js_trim code)) quantity key_hash
          (entitlement_request_hash env (js_upper (js_trim code)) quantity) moment)) db)))"

section \<open>Quotas\<close>

text \<open>No window of a quota is overdrawn, whichever of the grants of a pool was used.\<close>

definition quota_kept :: "rights_db \<Rightarrow> bool" where
  "quota_kept db =
     (\<forall>g\<in>set (service_grants db). \<forall>q w. sg_value_type g = Metered \<longrightarrow> sg_quota g = Some q \<longrightarrow> used_quota g w db \<le> q)"

definition pooled_ok :: "quota_pool list \<Rightarrow> service_grant \<Rightarrow> bool" where
  "pooled_ok ps g = (\<forall>i. sg_pool_id g = Some i \<longrightarrow> (\<exists>p\<in>set ps. qp_id p = i \<and> pool_snapshot p g))"

definition entitlement_tables_ok :: "rights_db \<Rightarrow> bool" where
  "entitlement_tables_ok db =
     (distinct (map sg_id (service_grants db)) \<and> distinct (map qp_id (quota_pools db))
      \<and> distinct (map (\<lambda>u. (eu_user_id u, eu_key_hash u)) (usages db))
      \<and> (\<forall>g\<in>set (service_grants db). grant_row_ok g \<and> pooled_ok (quota_pools db) g)
      \<and> eu_grant_id ` set (usages db) \<subseteq> sg_id ` set (service_grants db))"

definition entitlements_ok :: "rights_db \<Rightarrow> bool" where
  "entitlements_ok db = (entitlement_tables_ok db \<and> quota_kept db)"

lemma metered_quota: "grant_row_ok g \<Longrightarrow> sg_value_type g = Metered \<Longrightarrow> \<exists>q>0. sg_quota g = Some q"
  by (auto simp: grant_row_ok_def is_ok_iff normalize_entitlement_value_def Let_def split: option.splits if_splits)

lemma quota_keptD:
  "quota_kept db \<Longrightarrow> g \<in> set (service_grants db) \<Longrightarrow> sg_value_type g = Metered \<Longrightarrow> sg_quota g = Some q
   \<Longrightarrow> used_quota g w db \<le> q"
  unfolding quota_kept_def by blast

lemma used_quota_nonneg: "(\<And>u. u \<in> set (usages db) \<Longrightarrow> 0 \<le> eu_quantity u) \<Longrightarrow> 0 \<le> used_quota g w db"
  unfolding used_quota_def by (rule sum_list_nonneg) auto

text \<open>Two grants of one pool have the same quota and share its use.\<close>

lemma same_pool:
  assumes "entitlement_tables_ok db" and "g \<in> set (service_grants db)" and "h \<in> set (service_grants db)"
    and "sg_pool_id g = Some i" and "sg_pool_id h = Some i"
  shows "sg_quota g = sg_quota h" and "sg_value_type g = sg_value_type h" and "used_quota g w db = used_quota h w db"
proof -
  from assms obtain p p' where p: "p \<in> set (quota_pools db)" "qp_id p = i" "pool_snapshot p g"
    and p': "p' \<in> set (quota_pools db)" "qp_id p' = i" "pool_snapshot p' h"
    unfolding entitlement_tables_ok_def pooled_ok_def by metis
  have "p = p'" using assms(1) p p' same_row [of qp_id "quota_pools db" p p'] by (simp add: entitlement_tables_ok_def)
  with p p' show "sg_quota g = sg_quota h" "sg_value_type g = sg_value_type h" by (simp_all add: pool_snapshot_def)
  show "used_quota g w db = used_quota h w db" using assms(4,5) by (simp add: used_quota_def shares_quota_def)
qed

lemma find_grant_row:
  assumes "find (\<lambda>g. sg_id g = i) (service_grants db) = Some g"
  shows "g \<in> set (service_grants db)" and "sg_id g = i"
  using find_SomeD [OF assms] by auto

lemma usage_refused_iff:
  "usage_refused u db \<longleftrightarrow>
     (case find (\<lambda>g. sg_id g = eu_grant_id u) (service_grants db) of
        None \<Rightarrow> True
      | Some g \<Rightarrow>
          let w = trigger_window g (eu_created_at u); used = used_quota g w db in
          sg_user_id g \<noteq> eu_user_id u \<or> sg_status g \<noteq> ''active'' \<or> eu_created_at u < sg_starts_at g
          \<or> (case sg_ends_at g of None \<Rightarrow> False | Some e \<Rightarrow> e \<le> eu_created_at u)
          \<or> (eu_starts_at u, eu_ends_at u) \<noteq> w
          \<or> sg_value_type g = BooleanValue \<and> sg_boolean g \<noteq> Some True
          \<or> (if sg_value_type g = Metered
              then (case sg_quota g of None \<Rightarrow> eu_remaining u \<noteq> None
                    | Some q \<Rightarrow> q < used + eu_quantity u \<or> eu_remaining u \<noteq> Some (q - used - eu_quantity u))
              else eu_remaining u \<noteq> None))"
proof (cases "find (\<lambda>g. sg_id g = eu_grant_id u) (service_grants db)")
  case (Some g)
  have branch: "(if P then Some x else y) = None \<longleftrightarrow> \<not> P \<and> y = None"
    "(if P then z else y) = None \<longleftrightarrow> (if P then z = None else y = None)" for P and x :: string and y z by simp_all
  show ?thesis unfolding usage_refused_def usage_refusal_def Some option.case Let_def branch(1) branch(2) [of "sg_value_type g = Metered"]
    by (cases "sg_quota g") (simp_all, blast+)
qed (simp add: usage_refused_def usage_refusal_def)

lemma insert_usage_frame:
  assumes "insert_usage u db = Inr db'"
  shows "db' = db\<lparr>usages := usages db @ [u]\<rparr>" and "0 < eu_quantity u" and "\<not> usage_refused u db"
    and "(eu_user_id u, eu_key_hash u) \<notin> (\<lambda>u. (eu_user_id u, eu_key_hash u)) ` set (usages db)"
  using assms by (auto simp: insert_usage_def result_simps usage_row_ok_def list_ex_iff)

lemma insert_usage_tables:
  assumes "insert_usage u db = Inr db'" and "entitlement_tables_ok db"
  shows "entitlement_tables_ok db'"
proof -
  note f = insert_usage_frame [OF assms(1)]
  obtain g where "find (\<lambda>g. sg_id g = eu_grant_id u) (service_grants db) = Some g"
    using f(3) by (auto simp: usage_refused_iff split: option.splits)
  from find_grant_row [OF this] have "eu_grant_id u \<in> sg_id ` set (service_grants db)" by (simp add: rev_image_eqI)
  with assms(2) f(4) show ?thesis unfolding entitlement_tables_ok_def f(1) by simp
qed

lemma insert_usage_quota:
  assumes "insert_usage u db = Inr db'" and ok: "entitlement_tables_ok db" and kept: "quota_kept db"
  shows "quota_kept db'"
  unfolding quota_kept_def
proof (intro ballI allI impI)
  note f = insert_usage_frame [OF assms(1)]
  fix h q w assume h: "h \<in> set (service_grants db')" "sg_value_type h = Metered" "sg_quota h = Some q"
  then have hin: "h \<in> set (service_grants db)" by (simp add: f(1))
  obtain g where fg: "find (\<lambda>g. sg_id g = eu_grant_id u) (service_grants db) = Some g"
    using f(3) by (auto simp: usage_refused_iff split: option.splits)
  note g = find_grant_row [OF fg]
  have used': "used_quota h w db' = used_quota h w db
      + (if shares_quota h db u \<and> (eu_starts_at u, eu_ends_at u) = w then eu_quantity u else 0)"
    by (cases w) (simp add: used_quota_def shares_quota_def f(1))
  show "used_quota h w db' \<le> q"
  proof (cases "shares_quota h db u \<and> (eu_starts_at u, eu_ends_at u) = w")
    case False
    then have "used_quota h w db' = used_quota h w db" using used' by auto
    with quota_keptD [OF kept hin h(2,3), of w] show ?thesis by simp
  next
    case True
    have same: "sg_quota g = sg_quota h \<and> sg_value_type g = sg_value_type h \<and> used_quota g w db = used_quota h w db"
    proof (cases "sg_pool_id h")
      case None
      then have "sg_id g = sg_id h" using True g(2) by (simp add: shares_quota_def)
      then have "g = h" using ok same_row [of sg_id "service_grants db"] g(1) hin by (simp add: entitlement_tables_ok_def)
      then show ?thesis by simp
    next
      case (Some i)
      then obtain x where x: "x \<in> set (service_grants db)" "sg_id x = eu_grant_id u" "sg_pool_id x = Some i"
        using True by (auto simp: shares_quota_def list_ex_iff)
      then have "g = x" using ok same_row [of sg_id "service_grants db"] g by (simp add: entitlement_tables_ok_def)
      with x same_pool [OF ok g(1) hin] Some show ?thesis by simp
    qed
    have w: "w = trigger_window g (eu_created_at u)" using f(3) fg True by (auto simp: usage_refused_iff Let_def)
    have "used_quota g w db + eu_quantity u \<le> q"
      using f(3) fg h(2,3) same by (auto simp: usage_refused_iff Let_def w split: option.splits if_splits)
    with used' True same show ?thesis by simp
  qed
qed

lemma insert_usage_ok: "insert_usage u db = Inr db' \<Longrightarrow> entitlements_ok db \<Longrightarrow> entitlements_ok db'"
  using insert_usage_tables insert_usage_quota unfolding entitlements_ok_def by blast

lemma insert_service_grant_cases:
  assumes "insert_service_grant skip g db = Inr db'"
  obtains "db' = db" "service_key g \<in> service_key ` set (service_grants db)"
  | "db' = db\<lparr>service_grants := service_grants db @ [g]\<rparr>" "sg_id g \<notin> sg_id ` set (service_grants db)"
      "service_key g \<notin> service_key ` set (service_grants db)" "grant_row_ok g" "pooled_ok (quota_pools db) g"
proof -
  have "pool_allows g db" "grant_row_ok g" using assms by (auto simp: insert_service_grant_def result_simps)
  then have "pooled_ok (quota_pools db) g"
    by (auto simp: pool_allows_def pooled_ok_def split: option.splits dest!: find_SomeD)
  moreover from assms have "db' = db \<and> service_key g \<in> service_key ` set (service_grants db)
      \<or> db' = db\<lparr>service_grants := service_grants db @ [g]\<rparr> \<and> sg_id g \<notin> sg_id ` set (service_grants db)
        \<and> service_key g \<notin> service_key ` set (service_grants db)"
    by (auto simp: insert_service_grant_def result_simps list_ex_iff rev_image_eqI split: if_splits)
  ultimately show ?thesis using \<open>grant_row_ok g\<close> that by blast
qed

lemma insert_service_grant_ok:
  assumes "insert_service_grant skip g db = Inr db'" and ok: "entitlements_ok db"
  shows "entitlements_ok db'"
  using assms(1)
proof (cases rule: insert_service_grant_cases)
  case 1
  with ok show ?thesis by simp
next
  case 2
  have tables: "entitlement_tables_ok db" and kept: "quota_kept db" using ok by (simp_all add: entitlements_ok_def)
  have tables': "entitlement_tables_ok db'"
    using tables 2 by (auto simp: entitlement_tables_ok_def)
  have shares: "shares_quota h db' u \<longleftrightarrow> shares_quota h db u" if "u \<in> set (usages db)" "h \<noteq> g" for h u
  proof -
    have "eu_grant_id u \<in> sg_id ` set (service_grants db)"
      using that(1) tables unfolding entitlement_tables_ok_def by blast
    then have "eu_grant_id u \<noteq> sg_id g" using 2(2) by metis
    then show ?thesis using 2(1) by (auto simp: shares_quota_def list_ex_iff)
  qed
  have used: "used_quota h w db' = used_quota h w db" if "h \<noteq> g" for h w
    unfolding used_quota_def using shares [OF _ that] 2(1) by (auto intro!: arg_cong [where f = sum_list] map_cong filter_cong)
  have "used_quota g w db' \<le> q" if g: "sg_value_type g = Metered" "sg_quota g = Some q" for w q
  proof (cases "\<exists>u\<in>set (usages db). shares_quota g db' u")
    case True
    then obtain u where u: "u \<in> set (usages db)" "shares_quota g db' u" by blast
    have "eu_grant_id u \<in> sg_id ` set (service_grants db)"
      using u(1) tables unfolding entitlement_tables_ok_def by blast
    then have ug: "eu_grant_id u \<noteq> sg_id g" using 2(2) by metis
    then obtain i x where i: "sg_pool_id g = Some i" and x: "x \<in> set (service_grants db')" "sg_pool_id x = Some i" "sg_id x = eu_grant_id u"
      using u(2) by (auto simp: shares_quota_def list_ex_iff split: if_splits)
    have xg: "x \<noteq> g" "x \<in> set (service_grants db)" using x ug 2(1) by auto
    have gin: "g \<in> set (service_grants db')" using 2(1) by simp
    note s = same_pool [OF tables' gin x(1) i x(2)]
    have "used_quota x w db \<le> q" using s(1,2) g by (intro quota_keptD [OF kept xg(2)]) simp_all
    then show ?thesis using s(3) used [OF xg(1)] by simp
  next
    case False
    then have "used_quota g w db' = 0" using 2(1) by (simp add: used_quota_def filter_False)
    with metered_quota [OF 2(4) g(1)] g(2) show ?thesis by auto
  qed
  then have "quota_kept db'" using kept used unfolding quota_kept_def 2(1) by fastforce
  with tables' show ?thesis by (simp add: entitlements_ok_def)
qed

lemma provision_ok:
  assumes "provision_from_plan_version fresh i now db = Inr (gs, db')" and "entitlements_ok db"
  shows "entitlements_ok db'"
  using assms
  by (auto simp: provision_from_plan_version_def result_simps Let_def split: if_splits
      elim!: fold_result_invariant [where P = entitlements_ok] insert_service_grant_ok)

text \<open>A grant that is revoked keeps its quota and its place in the pool.\<close>

lemma map_grants_ok:
  assumes ok: "entitlements_ok db"
    and same: "\<And>g. sg_id (f g) = sg_id g" "\<And>g. sg_pool_id (f g) = sg_pool_id g" "\<And>g. sg_quota (f g) = sg_quota g"
      "\<And>g. sg_value_type (f g) = sg_value_type g" "\<And>g. grant_row_ok (f g) = grant_row_ok g"
      "\<And>p g. pool_snapshot p (f g) = pool_snapshot p g"
  shows "entitlements_ok (db\<lparr>service_grants := map f (service_grants db)\<rparr>)"
proof -
  let ?db = "db\<lparr>service_grants := map f (service_grants db)\<rparr>"
  have "shares_quota (f g) ?db u = shares_quota g db u" for g u
    by (simp add: shares_quota_def list_ex_iff same)
  then have "used_quota (f g) w ?db = used_quota g w db" for g w by (simp add: used_quota_def)
  then have "quota_kept ?db"
    using ok by (simp add: entitlements_ok_def quota_kept_def same)
  moreover have "map (\<lambda>g. sg_id (f g)) (service_grants db) = map sg_id (service_grants db)" by (simp add: same)
  ultimately show ?thesis
    using ok by (simp add: entitlements_ok_def entitlement_tables_ok_def same pooled_ok_def comp_def image_image)
qed

lemma revoked_grants_ok:
  assumes "entitlements_ok db"
  shows "entitlements_ok (db\<lparr>service_grants :=
    update_where P (\<lambda>g. g\<lparr>sg_status := st, sg_revoked_at := t\<rparr>) (service_grants db)\<rparr>)"
  unfolding update_where_def
  by (rule map_grants_ok [OF assms]) (simp_all add: grant_row_ok_def pool_snapshot_def split: option.splits)

section \<open>Consuming an entitlement\<close>

lemma trigger_window_eq:
  "trigger_window g t = entitlement_usage_window (sg_reset g) (sg_starts_at g) (sg_ends_at g) t"
  by (auto simp: trigger_window_def entitlement_usage_window_def Let_def split: option.splits)

lemma active_grants_in_force:
  "g \<in> set (active_grants env user code t db) \<Longrightarrow> g \<in> set (service_grants db) \<and> in_force user t g"
  by (auto simp: active_grants_def Let_def split: if_splits)

definition usable :: "int \<Rightarrow> int \<Rightarrow> rights_db \<Rightarrow> service_grant \<Rightarrow> bool" where
  "usable quantity moment db g =
     (case grant_decision g moment db of Inl e \<Rightarrow> False
      | Inr d \<Rightarrow> dn_allowed d \<and> (case dn_remaining d of None \<Rightarrow> True | Some r \<Rightarrow> quantity \<le> r))"

lemma usable_insert:
  assumes g: "g \<in> set (service_grants db)" "in_force user t g" and d: "grant_decision g t db = Inr d"
    and usable: "usable quantity t db g" and ok: "entitlement_tables_ok db" and q: "0 < quantity" and y: "100 \<le> utc_full_year t"
    and new: "find (\<lambda>u. eu_user_id u = user \<and> eu_key_hash u = kh) (usages db) = None"
  shows "insert_usage (usage_row user kh rh quantity t g d) db
    = Inr (db\<lparr>usages := usages db @ [usage_row user kh rh quantity t g d]\<rparr>)"
proof -
  let ?u = "usage_row user kh rh quantity t g d"
  have fg: "find (\<lambda>x. sg_id x = eu_grant_id ?u) (service_grants db) = Some g"
    using find_row [of sg_id "service_grants db" g] g ok by (simp add: usage_row_def entitlement_tables_ok_def)
  have w: "(dn_starts_at d, dn_ends_at d) = trigger_window g t"
    using d by (auto simp: grant_decision_def Let_def result_simps trigger_window_eq split: if_splits)
  have "\<not> usage_refused ?u db"
    using fg d usable g(2) w
    by (auto simp: usage_refused_iff Let_def usage_row_def in_force_def after_def usable_def grant_decision_def result_simps
        split: if_splits option.splits)
  moreover have "usage_row_ok ?u"
  proof -
    have t: "sg_starts_at g \<le> t" "\<forall>e. sg_ends_at g = Some e \<longrightarrow> t < e" using g(2) by (auto simp: in_force_def after_def)
    have "case dn_ends_at d of None \<Rightarrow> True | Some e \<Rightarrow> dn_starts_at d < e"
      using entitlement_usage_window_contains [OF t y, of "sg_reset g" t] w unfolding trigger_window_eq
      by (cases "entitlement_usage_window (sg_reset g) (sg_starts_at g) (sg_ends_at g) t") (auto split: option.splits)
    then show ?thesis using q usable d by (auto simp: usage_row_ok_def usage_row_def usable_def split: option.splits)
  qed
  moreover have "\<not> list_ex (\<lambda>x. eu_user_id x = eu_user_id ?u \<and> eu_key_hash x = eu_key_hash ?u) (usages db)"
    using new by (auto simp: find_ex list_ex_iff usage_row_def)
  ultimately show ?thesis by (simp add: insert_usage_def throw_if_def)
qed

lemma decision_total:
  assumes "g \<in> set (service_grants db)" and "entitlement_tables_ok db" and "definition_of g db = Some def"
  shows "\<exists>d. grant_decision g t db = Inr d"
proof -
  have "grant_row_ok g" using assms(1,2) by (simp add: entitlement_tables_ok_def)
  with assms(3) show ?thesis
    by (cases "sg_value_type g = Metered") (auto simp: grant_decision_def Let_def dest: metered_quota)
qed

text \<open>The loop takes the first entitlement that allows the quantity; no trigger or constraint stands in its way.\<close>

lemma consume_from_outcome:
  assumes "set gs \<subseteq> {g \<in> set (service_grants db). in_force user t g}" and "entitlement_tables_ok db"
    and "\<forall>g\<in>set (service_grants db). definition_of g db \<noteq> None"
    and "0 < quantity" and "100 \<le> utc_full_year t"
    and "find (\<lambda>u. eu_user_id u = user \<and> eu_key_hash u = kh) (usages db) = None"
  shows "consume_from (usage_row user kh rh quantity t) code quantity t gs db =
    (case find (usable quantity t db) gs of
       None \<Rightarrow> Inl (ForbiddenException ''ENTITLEMENT_EXHAUSTED_OR_UNAVAILABLE'')
     | Some g \<Rightarrow> (case grant_decision g t db of Inl e \<Rightarrow> Inl e
         | Inr d \<Rightarrow> Inr (consumption_of code False (usage_row user kh rh quantity t g d),
                       db\<lparr>usages := usages db @ [usage_row user kh rh quantity t g d]\<rparr>)))"
  using assms(1)
proof (induction gs)
  case (Cons g gs)
  then have g: "g \<in> set (service_grants db)" "in_force user t g" by simp_all
  from g(1) assms(3) obtain def where "definition_of g db = Some def" by blast
  from decision_total [OF g(1) assms(2) this] obtain d where d: "grant_decision g t db = Inr d" by blast
  show ?case
  proof (cases "usable quantity t db g")
    case True
    then have "\<not> (\<not> dn_allowed d \<or> (case dn_remaining d of None \<Rightarrow> False | Some r \<Rightarrow> r < quantity))"
      using d by (auto simp: usable_def split: option.splits)
    with usable_insert [OF g d True assms(2,4-6), of rh] True d show ?thesis by simp
  next
    case False
    then have "\<not> dn_allowed d \<or> (case dn_remaining d of None \<Rightarrow> False | Some r \<Rightarrow> r < quantity)"
      using d by (auto simp: usable_def split: option.splits)
    with Cons False d show ?thesis by simp
  qed
qed simp

lemma consume_txn_ok:
  assumes "consume_txn env user code quantity kh rh t db = Inr (c, db')" and "entitlements_ok db"
  shows "entitlements_ok db'"
proof -
  have "consume_from row code quantity t gs db = Inr (c, db') \<Longrightarrow> entitlements_ok db'" for row gs
    using assms(2) by (induction gs) (auto simp: result_simps insert_usage_ok split: if_splits)
  with assms show ?thesis by (auto simp: consume_txn_def result_simps split: option.splits)
qed

lemma consume_committed:
  assumes "consume aborts env user code quantity key t db = Inr (c, db')"
  obtains k kh where "key = Some k" "operation_key_hash env k = Inr kh" "0 < quantity"
    "consume_txn env user (js_upper (js_trim code)) quantity kh (entitlement_request_hash env (js_upper (js_trim code)) quantity) t db
       = Inr (c, db')"
  using assms by (auto simp: consume_def result_simps split: option.splits dest!: retry_loop_commits_once)

lemma consume_ok: "consume aborts env user code quantity key t db = Inr (c, db') \<Longrightarrow> entitlements_ok db \<Longrightarrow> entitlements_ok db'"
  by (erule consume_committed) (rule consume_txn_ok)

section \<open>Histories\<close>

text \<open>Everything that writes to the tables of entitlements: uses, provisioning, the grants other services insert, and
  revocations.\<close>

inductive entitlement_step :: "rights_db \<Rightarrow> rights_db \<Rightarrow> bool" where
  use: "consume aborts env user code quantity key t db = Inr (c, db') \<Longrightarrow> entitlement_step db db'"
| provision: "provision_from_plan_version fresh i now db = Inr (gs, db') \<Longrightarrow> entitlement_step db db'"
| grant: "insert_service_grant skip g db = Inr db' \<Longrightarrow> entitlement_step db db'"
| revoke: "entitlement_step db (db\<lparr>service_grants :=
    update_where P (\<lambda>g. g\<lparr>sg_status := ''revoked'', sg_revoked_at := Some now\<rparr>) (service_grants db)\<rparr>)"

inductive_cases entitlement_stepE: "entitlement_step db db'"

lemma entitlement_step_ok: "entitlement_step db db' \<Longrightarrow> entitlements_ok db \<Longrightarrow> entitlements_ok db'"
  by (erule entitlement_stepE) (simp_all add: consume_ok provision_ok insert_service_grant_ok revoked_grants_ok)

text \<open>C11: In every history of entitlements no quota is overdrawn: what was used of a metered grant in a window,
  through any grant that shares its quota pool and also before such a grant was revoked, is at most its quota, and
  each idempotency key of a user was counted once.\<close>

theorem quota_never_exceeded:
  assumes "entitlement_step\<^sup>*\<^sup>* db db'" and "entitlements_ok db"
    and "g \<in> set (service_grants db')" and "sg_value_type g = Metered" and "sg_quota g = Some q"
  shows "used_quota g w db' \<le> q \<and> distinct (map (\<lambda>u. (eu_user_id u, eu_key_hash u)) (usages db'))"
proof -
  from assms(1,2) have "entitlements_ok db'" by (induction rule: rtranclp_induct) (simp_all add: entitlement_step_ok)
  then have "quota_kept db'" "entitlement_tables_ok db'" by (simp_all add: entitlements_ok_def)
  with quota_keptD [OF _ assms(3-5)] show ?thesis by (simp add: entitlement_tables_ok_def)
qed

text \<open>What a successful use does to the quota it was taken from.\<close>

lemma use_adds_quantity:
  assumes "g \<in> set (service_grants db)" and "grant_decision g t db = Inr d"
  shows "used_quota g (dn_starts_at d, dn_ends_at d) (db\<lparr>usages := usages db @ [usage_row user kh rh n t g d]\<rparr>)
    = used_quota g (dn_starts_at d, dn_ends_at d) db + n"
  using assms(1) by (auto simp: used_quota_def shares_quota_def usage_row_def list_ex_iff)

text \<open>C16: A consumption under a new key either takes the quantity from the first entitlement in force that allows it,
  stores exactly one row whose remaining quota is the quota less everything used, and repeating it under the same key
  returns the same answer and changes nothing; or no entitlement in force allows the quantity and it is refused.  The
  triggers that check a use again never refuse it.\<close>

theorem consume_exact:
  assumes "entitlements_ok db" and "\<forall>g\<in>set (service_grants db). definition_of g db \<noteq> None"
    and "0 < quantity" and "100 \<le> utc_full_year t"
    and "find (\<lambda>u. eu_user_id u = user \<and> eu_key_hash u = kh) (usages db) = None"
  shows "case consume_txn env user code quantity kh rh t db of
      Inl e \<Rightarrow> e = ForbiddenException ''ENTITLEMENT_EXHAUSTED_OR_UNAVAILABLE''
        \<and> (\<forall>g\<in>set (active_grants env user (Some code) t db). \<not> usable quantity t db g)
    | Inr (c, db') \<Rightarrow>
        \<exists>g d. find (usable quantity t db) (active_grants env user (Some code) t db) = Some g
          \<and> grant_decision g t db = Inr d \<and> db' = db\<lparr>usages := usages db @ [usage_row user kh rh quantity t g d]\<rparr>
          \<and> (\<forall>q. sg_value_type g = Metered \<longrightarrow> sg_quota g = Some q \<longrightarrow>
               cn_remaining c = Some (q - used_quota g (dn_starts_at d, dn_ends_at d) db') \<and> 0 \<le> the (cn_remaining c))
          \<and> consume_txn env user code quantity kh rh later db' = Inr (c\<lparr>cn_idempotent := True\<rparr>, db')"
proof -
  let ?gs = "active_grants env user (Some code) t db"
  have in_force: "set ?gs \<subseteq> {g \<in> set (service_grants db). in_force user t g}" using active_grants_in_force by blast
  have tables: "entitlement_tables_ok db" using assms(1) by (simp add: entitlements_ok_def)
  note run = consume_from_outcome [OF in_force tables assms(2-5), of rh code]
  show ?thesis
  proof (cases "find (usable quantity t db) ?gs")
    case None
    then have "consume_txn env user code quantity kh rh t db = Inl (ForbiddenException ''ENTITLEMENT_EXHAUSTED_OR_UNAVAILABLE'')"
      using run assms(5) by (simp add: consume_txn_def)
    moreover have "\<forall>g\<in>set ?gs. \<not> usable quantity t db g" using None find_NoneD by fast
    ultimately show ?thesis by simp
  next
    case (Some g)
    then have g: "g \<in> set (service_grants db)" "usable quantity t db g" using find_SomeD [OF Some] in_force by auto
    then obtain d where d: "grant_decision g t db = Inr d" by (auto simp: usable_def split: sum.splits)
    let ?row = "usage_row user kh rh quantity t g d"
    have again: "find (\<lambda>u. eu_user_id u = user \<and> eu_key_hash u = kh) (usages db @ [?row]) = Some ?row"
      using assms(5) by (simp add: find_append usage_row_def)
    have left: "cn_remaining (consumption_of code False ?row)
          = Some (q - used_quota g (dn_starts_at d, dn_ends_at d) (db\<lparr>usages := usages db @ [?row]\<rparr>))
        \<and> 0 \<le> the (cn_remaining (consumption_of code False ?row))"
      if "sg_value_type g = Metered" "sg_quota g = Some q" for q
    proof -
      have "dn_remaining d = Some (q - used_quota g (dn_starts_at d, dn_ends_at d) db)"
        and "quantity \<le> q - used_quota g (dn_starts_at d, dn_ends_at d) db"
        using that d g(2) assms(3) by (auto simp: grant_decision_def Let_def result_simps usable_def split: if_splits)
      then show ?thesis using use_adds_quantity [OF g(1) d] by (simp add: consumption_of_def usage_row_def)
    qed
    have "eu_request_hash ?row = rh" by (simp add: usage_row_def)
    then have repeat: "consume_txn env user code quantity kh rh later (db\<lparr>usages := usages db @ [?row]\<rparr>)
        = Inr ((consumption_of code False ?row)\<lparr>cn_idempotent := True\<rparr>, db\<lparr>usages := usages db @ [?row]\<rparr>)"
      using again by (simp add: consume_txn_def consumption_of_def)
    have "consume_txn env user code quantity kh rh t db = Inr (consumption_of code False ?row, db\<lparr>usages := usages db @ [?row]\<rparr>)"
      using run Some d assms(5) by (simp add: consume_txn_def)
    then show ?thesis using Some d left repeat by auto
  qed
qed

section \<open>An example\<close>

text \<open>A quota of five in a pool: three are used through early access, which is then revoked, and two through the
  membership that was paid.\<close>

definition sample_pool :: quota_pool where
  "sample_pool = \<lparr>qp_id = ''p'', qp_line_id = ''l'', qp_user_id = ''u'', qp_definition_id = ''d'', qp_value_type = Metered,
     qp_reset = MembershipTerm, qp_boolean = None, qp_quota = Some 5, qp_starts_at = 0, qp_ends_at = Some 9000\<rparr>"

definition pooled_grant :: "string \<Rightarrow> string \<Rightarrow> string \<Rightarrow> service_grant" where
  "pooled_grant i source_type source =
     \<lparr>sg_id = i, sg_user_id = ''u'', sg_definition_id = ''d'', sg_source_type = source_type, sg_source_id = source,
      sg_value_type = Metered, sg_reset = MembershipTerm, sg_boolean = None, sg_quota = Some 5, sg_pool_id = Some ''p'',
      sg_status = ''active'', sg_starts_at = 0, sg_ends_at = Some 9000, sg_revoked_at = None, sg_created_at = 0\<rparr>"

definition pool_db :: rights_db where
  "pool_db = empty_rights\<lparr>quota_pools := [sample_pool], service_grants := [pooled_grant ''g1'' ''membership'' ''l''],
     definitions := [\<lparr>df_id = ''d'', df_code = ''AI'', df_display_name = ''AI'', df_description = None, df_unit_label = None,
       df_value_type = Metered, df_reset = MembershipTerm\<rparr>]\<rparr>"

definition pool_env :: entitlement_env where
  "pool_env = \<lparr>ee_node_env = ''test'', ee_process_env = (\<lambda>_. None), ee_secret = Some ''s'', ee_hmac = (\<lambda>s k. k),
     ee_sha256 = (\<lambda>s. s)\<rparr>"

lemma pool_db_ok: "entitlements_ok pool_db"
  by (simp add: entitlements_ok_def entitlement_tables_ok_def quota_kept_def used_quota_def pool_db_def empty_rights_def
      pooled_ok_def pool_snapshot_def sample_pool_def pooled_grant_def grant_row_ok_def normalize_entitlement_value_def)

lemma pool_use: "is_ok (consume (\<lambda>_. None) pool_env ''u'' '' ai'' 3 (Some ''key-00001'') 1000 pool_db)"
  by code_simp

theorem quota_never_exceeded_witness:
  "\<exists>c db'. consume (\<lambda>_. None) pool_env ''u'' '' ai'' 3 (Some ''key-00001'') 1000 pool_db = Inr (c, db')
     \<and> used_quota (pooled_grant ''g1'' ''membership'' ''l'') (0, Some 9000) db' \<le> 5"
proof -
  obtain c db' where c: "consume (\<lambda>_. None) pool_env ''u'' '' ai'' 3 (Some ''key-00001'') 1000 pool_db = Inr (c, db')"
    using pool_use by (auto simp: is_ok_iff)
  then have "entitlement_step\<^sup>*\<^sup>* pool_db db'" by (blast intro: entitlement_step.use)
  moreover have "pooled_grant ''g1'' ''membership'' ''l'' \<in> set (service_grants db')"
  proof -
    have "service_grants (snd (projr (consume (\<lambda>_. None) pool_env ''u'' '' ai'' 3 (Some ''key-00001'') 1000 pool_db)))
        = [pooled_grant ''g1'' ''membership'' ''l'']"
      by code_simp
    with c show ?thesis by simp
  qed
  ultimately show ?thesis
    using quota_never_exceeded [OF _ pool_db_ok, of db' "pooled_grant ''g1'' ''membership'' ''l''" 5 "(0, Some 9000)"] c
    by (auto simp: pooled_grant_def)
qed

theorem consume_exact_witness:
  "case consume_txn pool_env ''u'' ''AI'' 5 ''k'' ''r'' 1000 pool_db of Inl e \<Rightarrow> False
   | Inr (c, db') \<Rightarrow> cn_remaining c = Some 0
       \<and> consume_txn pool_env ''u'' ''AI'' 5 ''k'' ''r'' 2000 db' = Inr (c\<lparr>cn_idempotent := True\<rparr>, db')"
proof -
  have d: "\<forall>g\<in>set (service_grants pool_db). definition_of g pool_db \<noteq> None" and y: "100 \<le> utc_full_year 1000"
    and n: "find (\<lambda>u. eu_user_id u = ''u'' \<and> eu_key_hash u = ''k'') (usages pool_db) = None"
    by code_simp+
  have "is_ok (consume_txn pool_env ''u'' ''AI'' 5 ''k'' ''r'' 1000 pool_db)"
    and r: "map_sum id (cn_remaining \<circ> fst) (consume_txn pool_env ''u'' ''AI'' 5 ''k'' ''r'' 1000 pool_db) = Inr (Some 0)"
    by code_simp+
  with consume_exact [OF pool_db_ok d _ y n, of 5 pool_env "''AI''" "''r''" 2000] show ?thesis
    by (auto simp: is_ok_iff)
qed

end
