(* ===== verification/Spec2Isabelle.thy ===== *)
theory Spec2Isabelle
  imports Prelude Calendar Revenue_Rules Membership_Rules Voucher_Rules Audit_Log Voucher_Service Voucher_Orders Gds_Wallet Gds_Topup Viet_Qr Commerce_Db Bank_Transfer Revenue_Finance Js_Double Learning_Db Course_Access Course_Completion Learning_Path Quiz_Answers Quizzes Learning_History Gds_Guarantees Service_Entitlements
begin

text \<open>
  The business logic of the EduAI back end, a NestJS service for learning, selling courses and sharing the
  revenue with their sellers.  The paths below are under \<^verbatim>\<open>src/modules\<close> of the repository unless they start
  with \<^verbatim>\<open>prisma\<close>.

  \<^bold>\<open>The program.\<close>  A buyer orders courses and membership plans, pays from an internal wallet (topped up
  through PayOS) or by a bank transfer that two administrators confirm, and the fulfilment of the paid order
  gives access to courses.  A learner with access walks the learning path of a course, reports progress,
  takes quizzes and receives a certificate when everything required is done.  The money of an order is
  split between platform and sellers, spread over the months of a membership, recognized period by period,
  projected into the wallets of the sellers and withdrawn from there under dual control.  Vouchers reduce the
  price of an order, and every service writes to the audit log.  The services share one PostgreSQL database;
  each operation is a transaction of it, and part of the wallet logic lives in its triggers.

  \<^bold>\<open>How code becomes definitions.\<close>  A table is a list of records with the columns that modelled operations
  read; the database of a component is a record of tables.  A transaction body is a function from the
  database to \<^verbatim>\<open>error + result \<times> database\<close>, so a thrown exception leaves the database as it was; the
  exceptions are the constructors of \<^verbatim>\<open>api_error\<close> in \<^verbatim>\<open>Prelude\<close>, with the messages of the code.  Guards, early
  returns and writes come in the order of the code.  A unique index or check constraint that decides the
  outcome is a failure branch of the insertion.  \<^verbatim>\<open>bigint\<close> is \<^verbatim>\<open>int\<close>; integers a double represents exactly are
  \<^verbatim>\<open>int\<close>, with rounding written out in \<^verbatim>\<open>Js_Double\<close> where a fraction or an overflow of 2^53 can occur; the 16 and 32 bit
  integers of the checksum and the random generator are words or reduced modulo their width.  Time, fresh
  identifiers, settings, the comparison of strings by locale, hashes and
  the answers of outside services are arguments.  Text is ASCII: the Vietnamese messages and names are
  written without diacritics.

  \<^bold>\<open>Shared theories.\<close>
  \<^item> \<^verbatim>\<open>Prelude\<close>: failures, results and their inversion lemmas (\<^verbatim>\<open>result_simps\<close>), retry loops, ASCII string
    operations and the regular expressions of the code, decimal text, the stable sort, key lookups in tables.
  \<^item> \<^verbatim>\<open>Calendar\<close>: UTC dates as days and milliseconds; \<^verbatim>\<open>Js_Double\<close>: non-negative IEEE 754 doubles.
  \<^item> \<^verbatim>\<open>Commerce_Db\<close>: orders, payments, bank transfers, wallet, withdrawals and revenue rows of
    \<^verbatim>\<open>prisma/schema.prisma\<close> in one state, \<^verbatim>\<open>shop_db\<close>, which contains what buyers are entitled to, \<^verbatim>\<open>rights_db\<close>,
    and in it the learning side, \<^verbatim>\<open>lms_db\<close> of \<^verbatim>\<open>Learning_Db\<close>.
  \<^item> \<^verbatim>\<open>Audit_Log\<close>: \<^verbatim>\<open>common/audit/audit.service.ts\<close>, with sanitised metadata and paging.

  \<^bold>\<open>Prices and vouchers.\<close>  \<^verbatim>\<open>Membership_Rules\<close> (\<^verbatim>\<open>memberships/membership.rules.ts\<close>,
  \<^verbatim>\<open>service-entitlement.rules.ts\<close>): duration prices, calendar months, changes of a plan and entitlement windows.
  \<^verbatim>\<open>Service_Entitlements\<close> (\<^verbatim>\<open>memberships/service-entitlement.service.ts\<close>): entitlements in force and their
  consumption with the triggers of its tables, and the invariant that no quota is overdrawn.
  \<^verbatim>\<open>Voucher_Rules\<close> and \<^verbatim>\<open>Voucher_Service\<close> (\<^verbatim>\<open>vouchers/\<close>): eligibility, discounts, and the service as operations
  over its tables, with an invariant (\<^verbatim>\<open>voucher_db_ok\<close>) kept by each of them: exact counters, unique codes and keys.
  \<^verbatim>\<open>Voucher_Orders\<close> (\<^verbatim>\<open>commerce/commerce-order.service.ts\<close>, \<^verbatim>\<open>payments/payment-webhook.service.ts\<close>,
  \<^verbatim>\<open>payment-lifecycle.service.ts\<close>): reservations of a checkout and their redemption, and the histories of vouchers in which
  the check of an update and its write are two steps.  Redemptions and live reservations stay within the limits of every
  voucher that no stale update and no late payment has overtaken; that such an update or payment can exceed them, and that
  a bank transfer does not count its use, are defects of the code that the theory shows on examples or that are reported.

  \<^bold>\<open>Bank transfers.\<close>  \<^verbatim>\<open>Viet_Qr\<close> (payload and CRC of \<^verbatim>\<open>payments/bank-transfer-policy.ts\<close>) with its reader for the round
  trip; \<^verbatim>\<open>Bank_Transfer\<close> (\<^verbatim>\<open>bank-transfer.service.ts\<close>, \<^verbatim>\<open>bank-transfer-proof.ts\<close>): requests, statements, approvals,
  expiry, as a step relation with the invariant that a confirmed order has a matching statement, two distinct approvers
  and one settlement.

  \<^bold>\<open>Wallet.\<close>
  \<^item> \<^verbatim>\<open>Gds_Wallet\<close> and \<^verbatim>\<open>Gds_Topup\<close>: the pure projections of events, holds, top-ups and capture plans
    (\<^verbatim>\<open>wallet/gds-wallet.domain.ts\<close>, \<^verbatim>\<open>gds-payos-topup.domain.ts\<close>, \<^verbatim>\<open>gds-internal-journal.domain.ts\<close> and the capture plan).
  \<^item> \<^verbatim>\<open>Gds_Ledger\<close>: the insertions the triggers of the wallet migrations allow, as the only way a balance changes.
    \<^verbatim>\<open>Gds_Accounts\<close> has the abstract specification: an account with free money and slots (orders, withdrawals) that are
    opened, spent once or returned, and never reopened; the ledger invariant; and the locale of the simulation.
    \<^verbatim>\<open>Gds_Claims\<close> has the invariant of dual control.
  \<^item> \<^verbatim>\<open>Gds_Spending\<close>, \<^verbatim>\<open>Gds_Revenue\<close>, \<^verbatim>\<open>Gds_Recipient\<close>, \<^verbatim>\<open>Gds_Cashout\<close>: the services for checkout, revenue, recipient
    checks and withdrawals over these insertions; \<^verbatim>\<open>Gds_Checkout\<close>: the exact effect of a checkout.
  \<^item> \<^verbatim>\<open>Gds_History\<close>: every operation is a sound move, so histories refine the abstract accounts; \<^verbatim>\<open>Gds_Guarantees\<close>:
    the properties of the wallet and their concrete instances.

  \<^bold>\<open>Revenue.\<close>  \<^verbatim>\<open>Revenue_Rules\<close> (\<^verbatim>\<open>revenue-sharing/revenue-finance.rules.ts\<close>, \<^verbatim>\<open>revenue-membership.rules.ts\<close>): allocation by
  largest remainder, monthly terms, refunds and matching rules.  \<^verbatim>\<open>Revenue_Finance\<close> (\<^verbatim>\<open>revenue-finance.service.ts\<close>): capture,
  verification, periods, refunds, recognition, the batch and the report, with invariants over any history.  The batch is the
  loop of the code over its pages, which tries every snapshot once in a transaction of its own.

  \<^bold>\<open>Learning.\<close>  \<^verbatim>\<open>Course_Access\<close> (\<^verbatim>\<open>access/\<close>), \<^verbatim>\<open>Course_Completion\<close> (\<^verbatim>\<open>certificates/\<close>, \<^verbatim>\<open>courses/course-completion.service.ts\<close>),
  \<^verbatim>\<open>Learning_Path\<close> (\<^verbatim>\<open>courses/learning-path.*.ts\<close>), \<^verbatim>\<open>Quiz_Answers\<close> and \<^verbatim>\<open>Quizzes\<close> (\<^verbatim>\<open>quizzes/quizzes.service.ts\<close>), and
  \<^verbatim>\<open>Learning_History\<close>, one step relation for all their operations with the invariant of its reachable states.

  \<^bold>\<open>Bounds.\<close>  Every loop of the modelled code is structural recursion; there is no fuel.  Retry loops have the bounds
  of the code (three attempts, or four for wallet transactions) and the failures of single attempts, which depend on
  concurrent transactions, are an argument that the properties quantify over; which failures a wallet transaction retries
  is decided by the fields of the thrown error, as in \<^verbatim>\<open>wallet/gds-transaction-retry.ts\<close>.  Batches have the page size of the code.

  \<^bold>\<open>Hypotheses on code outside a model.\<close>  The checkout takes the fulfilment of the order as an argument and needs of it
  what \<^verbatim>\<open>fulfilment_ok\<close> states: it leaves the wallet tables alone and a fulfilled order is marked so.  The comparison by
  locale is assumed to be a total order where an order of results matters.  The lookup of a recipient, the drawing of QR
  images, hashing and encoding of URLs are arbitrary functions.

  \<^bold>\<open>Not modelled.\<close>  Transactions are taken as serial: interleavings appear as retryable failures and as sequences of
  transactions; of a cart and an order \<^verbatim>\<open>Voucher_Orders\<close> has only what touches vouchers.  Triggers that only forbid updates no modelled operation performs have no counterpart.  The dispatch of
  notifications after a commit, logging, request shapes and routes are left out.  External payment providers, authentication,
  storage, artificial intelligence, community, jobs, mentors, scholarships, administration and the tools under \<^verbatim>\<open>scripts\<close>
  are not modelled: they are dominated by outside services and protocols or are plain editing of rows.
\<close>

end
